(* ===== verification/Prelude.thy ===== *)
theory Prelude
  imports Main "HOL-Library.Char_ord" "HOL-Library.List_Lexorder" "HOL-Library.Sublist"
    "HOL-Library.Multiset" "HOL-Library.Word"
begin

section \<open>Prelude: C characters, strings and numbers\<close>

text \<open>
  What every component uses of C and of its library: character classes of the C locale,
  \<open>strcmp\<close> and \<open>strcasecmp\<close>, decimal printing and scanning, and the ways a C program
  stops before it returns.  A C string is a HOL string without its terminating NUL; a
  \<open>char *\<close> that may be NULL is a string option.
\<close>

text \<open>Quantified pairs (paths, times) stay whole.\<close>

declare split_paired_All [simp del] split_paired_Ex [simp del]

named_theorems cstr \<open>facts on C strings and comparisons\<close>
named_theorems cnum \<open>facts on decimal printing and scanning\<close>

subsection \<open>Ways to stop\<close>

text \<open>
  A function of the model returns a sum where the source can run into undefined
  behaviour or end the process: \<open>Inl\<close> names how, \<open>Inr\<close> carries the result.  \<open>Exhausted\<close>
  is no stop of the program: a number of passes that was granted is not enough for it.
\<close>

datatype crash = NullDeref | OutOfBounds | AssertFail | Panicked | DivByZero | Aborted | Uninit | Exhausted

type_synonym 'a run = "crash + 'a"

definition ret :: "'a \<Rightarrow> 'a run" where
  "ret x = Inr x"

fun and_then :: "'a run \<Rightarrow> ('a \<Rightarrow> 'b run) \<Rightarrow> 'b run" where
  "and_then (Inl e) f = Inl e"
| "and_then (Inr x) f = f x"

lemma and_then_assoc: "and_then (and_then m f) g = and_then m (\<lambda>x. and_then (f x) g)"
  by (cases m) auto

lemma and_then_cong [fundef_cong]:
  "m = m' \<Longrightarrow> (\<And>x. m' = Inr x \<Longrightarrow> f x = g x) \<Longrightarrow> and_then m f = and_then m' g"
  by (cases m') auto

lemma and_then_Inr_iff [simp]:
  "and_then m f = Inr y \<longleftrightarrow> (\<exists>x. m = Inr x \<and> f x = Inr y)"
  by (cases m) auto

subsection \<open>Characters\<close>

abbreviation code :: "char \<Rightarrow> nat" where
  "code c \<equiv> of_char c"

abbreviation NL :: char where "NL \<equiv> CHR 0x0A"
abbreviation CR :: char where "CR \<equiv> CHR 0x0D"
abbreviation TAB :: char where "TAB \<equiv> CHR 0x09"
abbreviation NUL :: char where "NUL \<equiv> CHR 0x00"

definition isdigit :: "char \<Rightarrow> bool" where
  "isdigit c \<longleftrightarrow> 48 \<le> code c \<and> code c \<le> 57"

definition isspace :: "char \<Rightarrow> bool" where
  "isspace c \<longleftrightarrow> code c = 32 \<or> (9 \<le> code c \<and> code c \<le> 13)"

definition isupper :: "char \<Rightarrow> bool" where
  "isupper c \<longleftrightarrow> 65 \<le> code c \<and> code c \<le> 90"

definition tolower :: "char \<Rightarrow> char" where
  "tolower c = (if isupper c then char_of (code c + 32) else c)"

definition lower :: "string \<Rightarrow> string" where
  "lower s = map tolower s"

lemma code_lt_256: "code c < 256"
  by (rule nat_of_char_less_256)

lemma code_inject [simp]: "code c = code d \<longleftrightarrow> c = d"
  by simp

lemma code_tolower: "code (tolower c) = (if isupper c then code c + 32 else code c)"
  by (auto simp: tolower_def isupper_def of_char_of)

lemma tolower_idem [simp]: "tolower (tolower c) = tolower c"
  by (simp add: tolower_def isupper_def of_char_of)

lemma lower_idem [simp]: "lower (lower s) = lower s"
  by (simp add: lower_def comp_def)

lemma lower_Nil [simp]: "lower [] = []"
  and lower_Cons: "lower (c # s) = tolower c # lower s"
  and lower_eq_Nil [simp]: "lower s = [] \<longleftrightarrow> s = []"
  by (simp_all add: lower_def)

subsection \<open>String comparison\<close>

text \<open>
  C fixes only the sign of \<open>strcmp\<close>; the model returns the difference of the first
  differing characters, and \<open>-1\<close> or \<open>1\<close> when one string ends first.
\<close>

fun strcmp :: "string \<Rightarrow> string \<Rightarrow> int" where
  "strcmp [] [] = 0"
| "strcmp [] (d # ds) = -1"
| "strcmp (c # cs) [] = 1"
| "strcmp (c # cs) (d # ds) =
     (if c = d then strcmp cs ds else int (code c) - int (code d))"

definition strcasecmp :: "string \<Rightarrow> string \<Rightarrow> int" where
  "strcasecmp a b = strcmp (lower a) (lower b)"

lemma char_less_code: "(c < d) = (code c < code d)"
  by (simp add: less_char_def)

lemma strcmp_eq0 [cstr]: "strcmp a b = 0 \<longleftrightarrow> a = b"
  by (induction a b rule: strcmp.induct) auto

lemma strcmp_less0 [cstr]: "strcmp a b < 0 \<longleftrightarrow> a < b"
  by (induction a b rule: strcmp.induct) (auto simp: char_less_code)

lemma strcmp_gr0 [cstr]: "0 < strcmp a b \<longleftrightarrow> b < a"
  by (induction a b rule: strcmp.induct) (auto simp: char_less_code)

lemma strcasecmp_eq0 [cstr]: "strcasecmp a b = 0 \<longleftrightarrow> lower a = lower b"
  and strcasecmp_less0 [cstr]: "strcasecmp a b < 0 \<longleftrightarrow> lower a < lower b"
  and strcasecmp_gr0 [cstr]: "0 < strcasecmp a b \<longleftrightarrow> lower b < lower a"
  by (simp_all add: strcasecmp_def cstr)

text \<open>Keys that differ in case only are the same key.\<close>

definition same_case :: "string \<Rightarrow> string \<Rightarrow> bool" where
  "same_case a b \<longleftrightarrow> strcasecmp a b = 0"

subsection \<open>Decimal numbers\<close>

definition digit :: "nat \<Rightarrow> char" where
  "digit n = char_of (48 + n)"

definition digit_val :: "char \<Rightarrow> nat" where
  "digit_val c = code c - 48"

fun show_nat :: "nat \<Rightarrow> string" where
  "show_nat n = (if n < 10 then [digit n] else show_nat (n div 10) @ [digit (n mod 10)])"

declare show_nat.simps [simp del]

text \<open>The conversion \<open>%d\<close> of \<open>printf\<close>.\<close>

definition show_int :: "int \<Rightarrow> string" where
  "show_int i = (if i < 0 then CHR ''-'' # show_nat (nat (- i)) else show_nat (nat i))"

definition digits_val :: "string \<Rightarrow> nat" where
  "digits_val ds = foldl (\<lambda>a c. 10 * a + digit_val c) 0 ds"

text \<open>
  The conversion \<open>%d\<close> of \<open>sscanf\<close>: leading white space, an optional sign, at least
  one digit.  The value is not cut to the width of an \<open>int\<close>: C leaves a value out of
  range undefined.
\<close>

definition scan_int :: "string \<Rightarrow> int option" where
  "scan_int s =
     (let t = dropWhile isspace s;
          neg = (t \<noteq> [] \<and> hd t = CHR ''-'');
          u = (if t \<noteq> [] \<and> (hd t = CHR ''-'' \<or> hd t = CHR ''+'') then tl t else t);
          ds = takeWhile isdigit u
      in if ds = [] then None
         else Some (if neg then - int (digits_val ds) else int (digits_val ds)))"

lemma isdigit_digit [simp, cnum]: "n < 10 \<Longrightarrow> isdigit (digit n)"
  by (simp add: isdigit_def digit_def of_char_of)

lemma digit_val_digit [simp, cnum]: "n < 10 \<Longrightarrow> digit_val (digit n) = n"
  by (simp add: digit_val_def digit_def of_char_of)

lemma digits_val_snoc: "digits_val (ds @ [c]) = 10 * digits_val ds + digit_val c"
  by (simp add: digits_val_def)

lemma digits_val_show_nat [simp, cnum]: "digits_val (show_nat n) = n"
proof (induction n rule: show_nat.induct)
  case (1 n)
  show ?case
  proof (cases "n < 10")
    case True
    then show ?thesis by (simp add: show_nat.simps [of n] digits_val_def)
  next
    case False
    with 1 show ?thesis by (simp add: show_nat.simps [of n] digits_val_snoc)
  qed
qed

lemma isdigit_show_nat [cnum]: "c \<in> set (show_nat n) \<Longrightarrow> isdigit c"
proof (induction n rule: show_nat.induct)
  case (1 n)
  then show ?case
    by (cases "n < 10") (auto simp: show_nat.simps [of n])
qed

lemma show_nat_nonempty [simp]: "show_nat n \<noteq> []"
  by (subst show_nat.simps) simp

lemma isdigit_not_space: "isdigit c \<Longrightarrow> \<not> isspace c"
  by (auto simp: isdigit_def isspace_def)

lemma isdigit_not_sign: "isdigit c \<Longrightarrow> c \<noteq> CHR ''-'' \<and> c \<noteq> CHR ''+''"
  by (auto simp: isdigit_def)

lemma show_nat_hd: "isdigit (hd (show_nat n))"
  by (rule isdigit_show_nat [of _ n]) simp

lemma scan_digits: "ds \<noteq> [] \<Longrightarrow> \<forall>c\<in>set ds. isdigit c \<Longrightarrow> scan_int ds = Some (int (digits_val ds))"
proof -
  assume "ds \<noteq> []" and all: "\<forall>c\<in>set ds. isdigit c"
  then obtain c cs where ds: "ds = c # cs" by (cases ds) auto
  have c: "\<not> isspace c" "c \<noteq> CHR ''-''" "c \<noteq> CHR ''+''"
    using all ds isdigit_not_space isdigit_not_sign by auto
  have "takeWhile isdigit ds = ds" using all by simp
  with ds c show ?thesis by (simp add: scan_int_def)
qed

lemma takeWhile_show_nat [simp]: "takeWhile isdigit (show_nat n) = show_nat n"
  by (simp add: takeWhile_eq_all_conv isdigit_show_nat)

lemma scan_show_nat [simp, cnum]: "scan_int (show_nat n) = Some (int n)"
  by (simp add: scan_digits isdigit_show_nat)

lemma scan_show_int [simp, cnum]: "scan_int (show_int i) = Some i"
proof (cases "i < 0")
  case True
  have "\<not> isspace (CHR ''-'')" by (simp add: isspace_def)
  then show ?thesis using True by (simp add: show_int_def scan_int_def Let_def)
next
  case False
  then show ?thesis by (simp add: show_int_def)
qed

subsection \<open>Insertion before the first element that stops the walk\<close>

text \<open>
  Several components keep a singly linked list in order by the same loop: walk an
  indirect pointer until the element ahead stops it, then link the new element there.
\<close>

fun place_before :: "('e \<Rightarrow> bool) \<Rightarrow> 'e \<Rightarrow> 'e list \<Rightarrow> 'e list" where
  "place_before stop e [] = [e]"
| "place_before stop e (x # xs) = (if stop x then e # x # xs else x # place_before stop e xs)"

lemma place_before_split:
  "place_before stop e xs =
     takeWhile (\<lambda>x. \<not> stop x) xs @ e # dropWhile (\<lambda>x. \<not> stop x) xs"
  by (induction xs) auto

lemma set_place_before [simp]: "set (place_before stop e xs) = insert e (set xs)"
  by (induction xs) auto

lemma mset_place_before [simp]: "mset (place_before stop e xs) = add_mset e (mset xs)"
  by (induction xs) auto

lemma length_place_before [simp]: "length (place_before stop e xs) = Suc (length xs)"
  by (induction xs) auto

lemma map_place_before:
  "(\<And>x. stop' (f x) = stop x) \<Longrightarrow>
   map f (place_before stop e xs) = place_before stop' (f e) (map f xs)"
  by (induction xs) auto

lemma option_ext: "(\<And>x. a = Some x \<longleftrightarrow> b = Some x) \<Longrightarrow> a = b"
  by (cases a; cases b) auto

lemma length_dropWhile_Suc [termination_simp]: "length (dropWhile P s) < Suc (length s)"
  by (simp add: le_imp_less_Suc length_dropWhile_le)

end
