(* ===== verification/Interfaces.thy ===== *)
theory Interfaces
  imports Prelude
begin

section \<open>Interfaces between the components\<close>

text \<open>
  The contracts that several components share.  A three-way comparison is what the sorted
  lists of the program are ordered by; a lookup-or-create table is what the message list,
  the sender list, the list of known hosts and the list of host queues all are for their
  clients.  Each is interpreted in the theories of the components that provide it.
\<close>

subsection \<open>Three-way comparisons\<close>

locale three_way =
  fixes cmp :: "'k \<Rightarrow> 'k \<Rightarrow> int"
  assumes flip: "cmp a b < 0 \<longleftrightarrow> 0 < cmp b a"
    and less_le_trans: "cmp a b < 0 \<Longrightarrow> cmp b c \<le> 0 \<Longrightarrow> cmp a c < 0"
    and le_less_trans: "cmp a b \<le> 0 \<Longrightarrow> cmp b c < 0 \<Longrightarrow> cmp a c < 0"
begin

lemma refl0: "cmp a a = 0"
  using flip [of a a] by linarith

lemma sym0: "cmp a b = 0 \<longleftrightarrow> cmp b a = 0"
  using flip [of a b] flip [of b a] by linarith

lemma flip_le: "cmp a b \<le> 0 \<longleftrightarrow> 0 \<le> cmp b a"
  using flip [of b a] by linarith

lemma le_trans: "cmp a b \<le> 0 \<Longrightarrow> cmp b c \<le> 0 \<Longrightarrow> cmp a c \<le> 0"
proof (rule ccontr)
  assume ab: "cmp a b \<le> 0" and bc: "cmp b c \<le> 0" and "\<not> cmp a c \<le> 0"
  then have "cmp c a < 0" by (simp add: flip)
  with ab have "cmp c b < 0" by (blast intro: less_le_trans)
  with bc show False by (simp add: flip)
qed

lemma zero_trans: "cmp a b = 0 \<Longrightarrow> cmp b c = 0 \<Longrightarrow> cmp a c = 0"
  using le_trans [of a b c] le_trans [of c b a] sym0 flip_le by (metis order_antisym order_refl)

lemma zero_cong: "cmp a b = 0 \<Longrightarrow> cmp c a = 0 \<longleftrightarrow> cmp c b = 0"
  using zero_trans [of c a b] zero_trans [of c b a] sym0 by blast

lemma zero_less_cong: "cmp a b = 0 \<Longrightarrow> cmp a c < 0 \<longleftrightarrow> cmp b c < 0"
  using le_less_trans [of a b c] le_less_trans [of b a c] sym0 [of a b] by (metis order_refl)

text \<open>A walk that stops at the first larger key has seen every equal one.\<close>

lemma stop_complete:
  assumes "sorted_wrt (\<lambda>x y. cmp x y < 0) (y # ys)" "cmp k y < 0" "z \<in> set (y # ys)"
  shows "cmp k z \<noteq> 0"
  using assms less_le_trans [of k y z] refl0 [of y] by fastforce

text \<open>Insertion before the first larger key keeps a list sorted.\<close>

lemma sorted_place:
  assumes "sorted_wrt (\<lambda>x y. cmp (f x) (f y) \<le> 0) xs"
  shows "sorted_wrt (\<lambda>x y. cmp (f x) (f y) \<le> 0) (place_before (\<lambda>x. cmp (f e) (f x) < 0) e xs)"
  using assms
proof (induction xs)
  case Nil
  then show ?case by simp
next
  case (Cons x xs)
  show ?case
  proof (cases "cmp (f e) (f x) < 0")
    case True
    then have "cmp (f e) (f y) \<le> 0" if "y \<in> set xs" for y
      using Cons.prems that less_le_trans [of "f e" "f x" "f y"] by force
    with True Cons.prems show ?thesis by auto
  next
    case False
    then have "cmp (f x) (f e) \<le> 0" using flip [of "f e" "f x"] flip_le by force
    with False Cons show ?thesis by auto
  qed
qed

lemma strict_sorted_place:
  assumes "sorted_wrt (\<lambda>x y. cmp (f x) (f y) < 0) xs" "\<forall>x\<in>set xs. cmp (f e) (f x) \<noteq> 0"
  shows "sorted_wrt (\<lambda>x y. cmp (f x) (f y) < 0) (place_before (\<lambda>x. cmp (f e) (f x) < 0) e xs)"
  using assms
proof (induction xs)
  case Nil
  then show ?case by simp
next
  case (Cons x xs)
  show ?case
  proof (cases "cmp (f e) (f x) < 0")
    case True
    then have "cmp (f e) (f y) < 0" if "y \<in> set xs" for y
      using Cons.prems that less_le_trans [of "f e" "f x" "f y"] by force
    with True Cons.prems show ?thesis by auto
  next
    case False
    then have "0 < cmp (f e) (f x)" using Cons.prems(2) by force
    then have "cmp (f x) (f e) < 0" by (simp add: flip)
    with False Cons show ?thesis by auto
  qed
qed

text \<open>An element is inserted behind those that compare equal to it.\<close>

lemma place_behind_equal:
  assumes "sorted_wrt (\<lambda>x y. cmp (f x) (f y) \<le> 0) xs"
  shows "filter (\<lambda>x. cmp (f e) (f x) = 0) (place_before (\<lambda>x. cmp (f e) (f x) < 0) e xs) =
         filter (\<lambda>x. cmp (f e) (f x) = 0) xs @ [e]"
  using assms
proof (induction xs)
  case Nil
  then show ?case by (simp add: refl0)
next
  case (Cons x xs)
  show ?case
  proof (cases "cmp (f e) (f x) < 0")
    case True
    have "cmp (f e) (f y) \<noteq> 0" if "y \<in> set xs" for y
      using Cons.prems that True less_le_trans [of "f e" "f x" "f y"] by force
    with True show ?thesis by (auto simp: refl0 filter_empty_conv)
  next
    case False
    with Cons show ?thesis by auto
  qed
qed

end

interpretation cmp_case: three_way strcasecmp
  by unfold_locales (auto simp: cstr not_less [symmetric])

interpretation cmp_exact: three_way strcmp
  by unfold_locales (auto simp: cstr not_less [symmetric])

interpretation cmp_case_down: three_way "\<lambda>a b. strcasecmp b a"
  by unfold_locales (auto simp: cstr not_less [symmetric])

interpretation cmp_time: three_way "\<lambda>(a::int) b. a - b"
  by unfold_locales auto

subsection \<open>Lookup-or-create tables\<close>

text \<open>
  \<open>same\<close> is the equality of keys that the table uses, \<open>look\<close> finds the entry of a key,
  \<open>add\<close> finds it or creates it, \<open>wf\<close> is what the table keeps true.
\<close>

locale keyed_table =
  fixes same :: "'k \<Rightarrow> 'k \<Rightarrow> bool"
    and look :: "'t \<Rightarrow> 'k \<Rightarrow> 'e option"
    and add :: "'t \<Rightarrow> 'k \<Rightarrow> 't"
    and wf :: "'t \<Rightarrow> bool"
  assumes wf_add: "wf t \<Longrightarrow> wf (add t k)"
    and look_add_same: "wf t \<Longrightarrow> same k k' \<Longrightarrow> look (add t k) k' \<noteq> None"
    and look_add_other: "wf t \<Longrightarrow> \<not> same k k' \<Longrightarrow> look (add t k) k' = look t k'"
    and add_present: "wf t \<Longrightarrow> look t k \<noteq> None \<Longrightarrow> add t k = t"
    and look_cong: "wf t \<Longrightarrow> same k k' \<Longrightarrow> look t k = look t k'"
    and same_refl: "same k k"
begin

lemma add_idem: "wf t \<Longrightarrow> add (add t k) k = add t k"
  by (simp add: add_present look_add_same same_refl wf_add)

lemma look_add_kept: "wf t \<Longrightarrow> look t k' = Some e \<Longrightarrow> look (add t k) k' = Some e"
  by (cases "same k k'") (auto simp: look_add_other add_present look_cong)

lemma look_add_iff: "wf t \<Longrightarrow> look (add t k) k' \<noteq> None \<longleftrightarrow> same k k' \<or> look t k' \<noteq> None"
  by (metis look_add_same look_add_other)

lemma wf_adds: "wf t \<Longrightarrow> wf (fold (\<lambda>k t. add t k) ks t)"
  by (induction ks arbitrary: t) (simp_all add: wf_add)

lemma look_adds_iff:
  "wf t \<Longrightarrow> look (fold (\<lambda>k t. add t k) ks t) k' \<noteq> None \<longleftrightarrow>
     (\<exists>k\<in>set ks. same k k') \<or> look t k' \<noteq> None"
proof (induction ks arbitrary: t)
  case Nil
  then show ?case by simp
next
  case (Cons k ks)
  then have "look (fold (\<lambda>k t. add t k) ks (add t k)) k' \<noteq> None \<longleftrightarrow>
     (\<exists>k\<in>set ks. same k k') \<or> look (add t k) k' \<noteq> None"
    using wf_add by blast
  then show ?case using look_add_iff [OF Cons.prems, of k k'] by auto
qed

lemma look_adds_kept:
  "wf t \<Longrightarrow> look t k' = Some e \<Longrightarrow> look (fold (\<lambda>k t. add t k) ks t) k' = Some e"
  by (induction ks arbitrary: t) (simp_all add: wf_add look_add_kept)

end

end
