(* ===== verification/StabList.thy ===== *)
theory StabList
  imports Interfaces
begin

section \<open>Symbol tables: the singly linked lists of ll.c\<close>

text \<open>
  The keyed tables (\<open>ll_lookup\<close>, \<open>ll_insert\<close>, \<open>ll_insert_tail\<close>, \<open>ll_remove\<close>,
  \<open>ll_walk\<close>) and the tables without keys (\<open>ll__lookup\<close>, \<open>ll__insert\<close>, which leave
  \<open>st_key\<close> NULL and compare the data).  A table is the list of its entries; the two kinds
  are never mixed by a caller, so a keyed entry has a key.  \<open>st_data\<close> is \<open>void *\<close>
  and may be NULL: None.  A flag says whether \<open>malloc\<close> succeeds.
\<close>

record 'v stab_entry =
  st_key :: string
  st_data :: "'v option"

type_synonym 'v stab = "'v stab_entry list"

fun ll_lookup :: "'v stab \<Rightarrow> string \<Rightarrow> 'v option" where
  "ll_lookup [] key = None"
| "ll_lookup (st # rest) key =
     (if strcasecmp (st_key st) key = 0 then st_data st else ll_lookup rest key)"

definition ll_default_compare :: "string \<Rightarrow> string \<Rightarrow> int" where
  "ll_default_compare a b = strcmp a b"

text \<open>The result is the return value and the table.\<close>

definition ll_insert ::
  "'v stab \<Rightarrow> string \<Rightarrow> 'v option \<Rightarrow> (string \<Rightarrow> string \<Rightarrow> int) option \<Rightarrow> bool \<Rightarrow> int \<times> 'v stab" where
  "ll_insert stab key data ll_compare malloc_ok =
     (let cmp = (case ll_compare of None \<Rightarrow> ll_default_compare | Some f \<Rightarrow> f)
      in if \<not> malloc_ok then (1, stab)
         else (0, place_before (\<lambda>i. cmp key (st_key i) < 0)
                    \<lparr>st_key = key, st_data = data\<rparr> stab))"

fun to_tail :: "'e \<Rightarrow> 'e list \<Rightarrow> 'e list" where
  "to_tail st [] = [st]"
| "to_tail st (i # rest) = i # to_tail st rest"

definition ll_insert_tail :: "'v stab \<Rightarrow> string \<Rightarrow> 'v option \<Rightarrow> bool \<Rightarrow> int \<times> 'v stab" where
  "ll_insert_tail stab key data malloc_ok =
     (if \<not> malloc_ok then (1, stab)
      else (0, to_tail \<lparr>st_key = key, st_data = data\<rparr> stab))"

text \<open>Removal compares keys with \<open>strcmp\<close>, lookup with \<open>strcasecmp\<close>.\<close>

fun ll_remove :: "'v stab \<Rightarrow> string \<Rightarrow> 'v option \<times> 'v stab" where
  "ll_remove [] key = (None, [])"
| "ll_remove (st # rest) key =
     (if strcmp key (st_key st) = 0 then (st_data st, rest)
      else (let (data, rest') = ll_remove rest key in (data, st # rest')))"

fun ll_walk :: "'v stab \<Rightarrow> ('v option \<Rightarrow> 's \<Rightarrow> 's) \<Rightarrow> 's \<Rightarrow> 's" where
  "ll_walk [] ll_func s = s"
| "ll_walk (st # rest) ll_func s = ll_walk rest ll_func (ll_func (st_data st) s)"

fun ll__lookup :: "'v list \<Rightarrow> 'v \<Rightarrow> ('v \<Rightarrow> 'v \<Rightarrow> int) \<Rightarrow> 'v option" where
  "ll__lookup [] data cmp = None"
| "ll__lookup (st # rest) data cmp =
     (if cmp st data = 0 then Some st else ll__lookup rest data cmp)"

definition ll__insert :: "'v list \<Rightarrow> 'v \<Rightarrow> ('v \<Rightarrow> 'v \<Rightarrow> int) \<Rightarrow> bool \<Rightarrow> int \<times> 'v list" where
  "ll__insert stab data cmp malloc_ok =
     (if \<not> malloc_ok then (- 1, stab)
      else (0, place_before (\<lambda>i. cmp data i < 0) data stab))"

subsection \<open>What the tables keep\<close>

definition stab_sorted :: "(string \<Rightarrow> string \<Rightarrow> int) \<Rightarrow> 'v stab \<Rightarrow> bool" where
  "stab_sorted cmp stab \<longleftrightarrow> sorted_wrt (\<lambda>x y. cmp (st_key x) (st_key y) \<le> 0) stab"

lemma to_tail_append [simp]: "to_tail st xs = xs @ [st]"
  by (induction xs) auto

lemma ll_lookup_find:
  "ll_lookup stab key =
     (case find (\<lambda>e. strcasecmp (st_key e) key = 0) stab of None \<Rightarrow> None | Some e \<Rightarrow> st_data e)"
  by (induction stab) auto

lemma ll_lookup_append:
  "ll_lookup (xs @ ys) key =
     (if \<exists>e\<in>set xs. strcasecmp (st_key e) key = 0 then ll_lookup xs key else ll_lookup ys key)"
  by (induction xs) auto

lemma ll_walk_fold: "ll_walk stab f s = fold (\<lambda>e. f (st_data e)) stab s"
  by (induction stab arbitrary: s) auto

lemma ll_remove_absent: "\<forall>e\<in>set stab. st_key e \<noteq> key \<Longrightarrow> ll_remove stab key = (None, stab)"
  by (induction stab) (auto simp: cstr)

lemma ll_remove_first:
  "\<forall>e\<in>set xs. st_key e \<noteq> key \<Longrightarrow> st_key x = key \<Longrightarrow>
   ll_remove (xs @ x # ys) key = (st_data x, xs @ ys)"
  by (induction xs) (auto simp: cstr)

context three_way
begin

lemma ll__insert_sorted:
  "sorted_wrt (\<lambda>x y. cmp x y \<le> 0) stab \<Longrightarrow>
   sorted_wrt (\<lambda>x y. cmp x y \<le> 0) (snd (ll__insert stab data cmp ok))"
  using sorted_place [of "\<lambda>x. x" stab data] by (simp add: ll__insert_def)

lemma ll__lookup_sound: "ll__lookup stab data cmp = Some e \<Longrightarrow> e \<in> set stab \<and> cmp e data = 0"
  by (induction stab) (auto split: if_splits)

lemma ll__lookup_None: "ll__lookup stab data cmp = None \<longleftrightarrow> (\<forall>e\<in>set stab. cmp e data \<noteq> 0)"
  by (induction stab) auto

lemma ll__lookup_insert: "ll__lookup (snd (ll__insert stab data cmp True)) data cmp \<noteq> None"
  by (simp add: ll__lookup_None ll__insert_def refl0)

end

lemma ll_default_compare_eq: "ll_default_compare = strcmp"
  by (simp add: fun_eq_iff ll_default_compare_def)

text \<open>
  C19: \<open>ll_insert\<close> with the default comparison, when memory is available, returns 0, adds
  exactly one entry with the key and the data given, keeps a sorted table sorted, and puts
  the new entry behind the entries that have the same key, so entries with equal keys stay
  in the order of their insertion.
\<close>

theorem ll_insert_ordered:
  assumes "stab_sorted strcmp stab"
  shows "fst (ll_insert stab key data None True) = 0 \<and>
    mset (snd (ll_insert stab key data None True)) =
      add_mset \<lparr>st_key = key, st_data = data\<rparr> (mset stab) \<and>
    stab_sorted strcmp (snd (ll_insert stab key data None True)) \<and>
    filter (\<lambda>e. st_key e = key) (snd (ll_insert stab key data None True)) =
      filter (\<lambda>e. st_key e = key) stab @ [\<lparr>st_key = key, st_data = data\<rparr>]"
proof -
  let ?e = "\<lparr>st_key = key, st_data = data\<rparr>"
  have eq: "ll_insert stab key data None True =
      (0, place_before (\<lambda>i. strcmp (st_key ?e) (st_key i) < 0) ?e stab)"
    by (simp add: ll_insert_def ll_default_compare_eq)
  show ?thesis
    using cmp_exact.sorted_place [of st_key stab ?e]
      cmp_exact.place_behind_equal [of st_key stab ?e] assms
    by (simp add: eq stab_sorted_def strcmp_eq0 eq_commute [of key])
qed

theorem ll_insert_ordered_witness:
  "snd (ll_insert [\<lparr>st_key = ''a'', st_data = Some (1::nat)\<rparr>, \<lparr>st_key = ''c'', st_data = None\<rparr>]
         ''b'' (Some 2) None True) =
     [\<lparr>st_key = ''a'', st_data = Some 1\<rparr>, \<lparr>st_key = ''b'', st_data = Some 2\<rparr>,
      \<lparr>st_key = ''c'', st_data = None\<rparr>] \<and>
   stab_sorted strcmp
     (snd (ll_insert [\<lparr>st_key = ''a'', st_data = Some (1::nat)\<rparr>,
       \<lparr>st_key = ''c'', st_data = None\<rparr>] ''b'' (Some 2) None True))"
proof -
  have h: "stab_sorted strcmp
      [\<lparr>st_key = ''a'', st_data = Some (1::nat)\<rparr>, \<lparr>st_key = ''c'', st_data = None\<rparr>]"
    by (simp add: stab_sorted_def)
  show ?thesis
    using ll_insert_ordered [OF h, of "''b''" "Some 2"]
    by (simp add: ll_insert_def ll_default_compare_def)
qed

end
