(* ===== verification/DllHeap.thy ===== *)
theory DllHeap
  imports Interfaces
begin

section \<open>The doubly linked, sorted lists of ll.c\<close>

text \<open>
  The message list and the sender list of the daemon (\<open>dll_lookup\<close>,
  \<open>dll_lookup_or_create\<close>, \<open>dll_remove_entry\<close>).  The code rewires \<open>dll_next\<close> and
  \<open>dll_prev\<close> in place, so the model has a heap of entries at addresses and the lemmas
  show that the pointer operations implement insertion into and removal from a sorted
  sequence.  \<open>malloc\<close> is a parameter: the address it returns, or None.
\<close>

record 'v dll_entry =
  dll_next :: "nat option"
  dll_prev :: "nat option"
  dll_key :: string
  dll_free_key :: int
  dll_data :: "'v option"

type_synonym 'v dll_heap = "nat \<rightharpoonup> 'v dll_entry"

text \<open>
  The walk of \<open>dll_lookup\<close>.  Outer None: the walk does not end (a cyclic heap);
  \<open>Inl NullDeref\<close>: it follows a dangling pointer.
\<close>

partial_function (option) dll_lookup ::
  "'v dll_heap \<Rightarrow> nat option \<Rightarrow> string \<Rightarrow> nat option run option" where
  "dll_lookup h dll key =
     (case dll of
        None \<Rightarrow> Some (Inr None)
      | Some a \<Rightarrow>
          (case h a of
             None \<Rightarrow> Some (Inl NullDeref)
           | Some n \<Rightarrow>
               if strcasecmp key (dll_key n) = 0 then Some (Inr (Some a))
               else if strcasecmp key (dll_key n) < 0 then Some (Inr None)
               else dll_lookup h (dll_next n) key))"

text \<open>
  The loop of \<open>dll_lookup_or_create\<close>: whether the key was found, the pointer \<open>dll\<close> where
  the loop stopped, and \<open>dll_last\<close>.
\<close>

partial_function (option) dll_scan ::
  "'v dll_heap \<Rightarrow> nat option \<Rightarrow> nat option \<Rightarrow> string \<Rightarrow>
     (bool \<times> nat option \<times> nat option) run option" where
  "dll_scan h dll dll_last key =
     (case dll of
        None \<Rightarrow> Some (Inr (False, None, dll_last))
      | Some a \<Rightarrow>
          (case h a of
             None \<Rightarrow> Some (Inl NullDeref)
           | Some n \<Rightarrow>
               if strcasecmp key (dll_key n) = 0 then Some (Inr (True, Some a, dll_last))
               else if strcasecmp key (dll_key n) < 0 then Some (Inr (False, Some a, dll_last))
               else dll_scan h (dll_next n) (Some a) key))"

text \<open>A store through a pointer: a crash when there is no entry at the address.\<close>

definition upd_entry ::
  "'v dll_heap \<Rightarrow> nat option \<Rightarrow> ('v dll_entry \<Rightarrow> 'v dll_entry) \<Rightarrow> 'v dll_heap run" where
  "upd_entry h p f =
     (case p of None \<Rightarrow> Inl NullDeref
      | Some a \<Rightarrow> (case h a of None \<Rightarrow> Inl NullDeref | Some n \<Rightarrow> Inr (h(a \<mapsto> f n))))"

definition dll_prev_of :: "'v dll_heap \<Rightarrow> nat option \<Rightarrow> nat option run" where
  "dll_prev_of h p =
     (case p of None \<Rightarrow> Inl NullDeref
      | Some a \<Rightarrow> (case h a of None \<Rightarrow> Inl NullDeref | Some n \<Rightarrow> Inr (dll_prev n)))"

text \<open>
  The three ways to link a new entry at address \<open>a\<close>: at the head, at the tail, in the
  middle.  The result is the new heap and the new head.
\<close>

definition dll_link ::
  "'v dll_heap \<Rightarrow> nat option \<Rightarrow> nat \<Rightarrow> nat option \<Rightarrow> nat option \<Rightarrow>
     ('v dll_heap \<times> nat option) run" where
  "dll_link h head a dll dll_last =
     (if dll_last = None then
        and_then (upd_entry h (Some a) (\<lambda>n. n\<lparr>dll_next := head\<rparr>)) (\<lambda>h1.
          if head = None then Inr (h1, Some a)
          else and_then (upd_entry h1 head (\<lambda>n. n\<lparr>dll_prev := Some a\<rparr>)) (\<lambda>h2.
            Inr (h2, Some a)))
      else if dll = None then
        and_then (upd_entry h (Some a) (\<lambda>n. n\<lparr>dll_prev := dll_last\<rparr>)) (\<lambda>h1.
        and_then (upd_entry h1 dll_last (\<lambda>n. n\<lparr>dll_next := Some a\<rparr>)) (\<lambda>h2.
          Inr (h2, head)))
      else
        and_then (dll_prev_of h dll) (\<lambda>p.
        and_then (upd_entry h (Some a) (\<lambda>n. n\<lparr>dll_next := dll, dll_prev := p\<rparr>)) (\<lambda>h1.
        and_then (upd_entry h1 p (\<lambda>n. n\<lparr>dll_next := Some a\<rparr>)) (\<lambda>h2.
        and_then (upd_entry h2 dll (\<lambda>n. n\<lparr>dll_prev := Some a\<rparr>)) (\<lambda>h3.
          Inr (h3, head))))))"

text \<open>The result: the entry returned (or NULL), the heap, the head.\<close>

definition dll_lookup_or_create ::
  "'v dll_heap \<Rightarrow> nat option \<Rightarrow> string \<Rightarrow> int \<Rightarrow> nat option \<Rightarrow> bool \<Rightarrow>
     (nat option \<times> 'v dll_heap \<times> nat option) run option" where
  "dll_lookup_or_create h head key free_key malloc strdup_ok =
     map_option (\<lambda>r. and_then r (\<lambda>(found, dll, dll_last).
       if found then Inr (dll, h, head)
       else (case malloc of
           None \<Rightarrow> Inr (None, h, head)
         | Some a \<Rightarrow>
             if free_key \<noteq> 0 \<and> \<not> strdup_ok then Inr (None, h, head)
             else and_then
               (dll_link (h(a \<mapsto> \<lparr>dll_next = None, dll_prev = None, dll_key = key,
                                    dll_free_key = free_key, dll_data = None\<rparr>))
                  head a dll dll_last)
               (\<lambda>(h', head'). Inr (Some a, h', head')))))
     (dll_scan h head None key)"

definition dll_remove_entry ::
  "'v dll_heap \<Rightarrow> nat option \<Rightarrow> nat \<Rightarrow> ('v dll_heap \<times> nat option) run" where
  "dll_remove_entry h head dll =
     (case h dll of
        None \<Rightarrow> Inl NullDeref
      | Some n \<Rightarrow>
          and_then (if dll_next n \<noteq> None
                    then upd_entry h (dll_next n) (\<lambda>m. m\<lparr>dll_prev := dll_prev n\<rparr>) else Inr h)
            (\<lambda>h1.
          and_then (if dll_prev n \<noteq> None
                    then and_then (upd_entry h1 (dll_prev n) (\<lambda>m. m\<lparr>dll_next := dll_next n\<rparr>))
                           (\<lambda>h2. Inr (h2, head))
                    else Inr (h1, dll_next n))
            (\<lambda>(h2, head'). Inr (h2(dll := None), head'))))"

subsection \<open>Heaps that represent a sequence\<close>

text \<open>\<open>lseg h q p as r\<close>: from \<open>p\<close>, with \<open>q\<close> behind it, the entries \<open>as\<close> up to \<open>r\<close>.\<close>

fun lseg :: "'v dll_heap \<Rightarrow> nat option \<Rightarrow> nat option \<Rightarrow> nat list \<Rightarrow> nat option \<Rightarrow> bool" where
  "lseg h q p [] r \<longleftrightarrow> p = r"
| "lseg h q p (a # as) r \<longleftrightarrow>
     p = Some a \<and> (\<exists>n. h a = Some n \<and> dll_prev n = q \<and> lseg h (Some a) (dll_next n) as r)"

definition key_at :: "'v dll_heap \<Rightarrow> nat \<Rightarrow> string" where
  "key_at h a = dll_key (the (h a))"

definition dll_rep :: "'v dll_heap \<Rightarrow> nat option \<Rightarrow> nat list \<Rightarrow> bool" where
  "dll_rep h head as \<longleftrightarrow> lseg h None head as None \<and> distinct as"

definition dll_sorted :: "'v dll_heap \<Rightarrow> nat list \<Rightarrow> bool" where
  "dll_sorted h as \<longleftrightarrow> sorted_wrt (\<lambda>a b. strcasecmp (key_at h a) (key_at h b) < 0) as"

definition end_of :: "nat option \<Rightarrow> nat list \<Rightarrow> nat option" where
  "end_of q as = (if as = [] then q else Some (last as))"

lemma end_of_simps [simp]: "end_of q [] = q" "end_of q (a # as) = end_of (Some a) as"
  by (simp_all add: end_of_def)

lemma lseg_append: "lseg h q p (as @ bs) r \<longleftrightarrow> (\<exists>m. lseg h q p as m \<and> lseg h (end_of q as) m bs r)"
  by (induction as arbitrary: q p) auto

lemma lseg_cong: "(\<And>a. a \<in> set as \<Longrightarrow> h' a = h a) \<Longrightarrow> lseg h' q p as r = lseg h q p as r"
  by (induction as arbitrary: q p) auto

lemma lseg_frame [simp]: "a \<notin> set as \<Longrightarrow> lseg (h(a := v)) q p as r = lseg h q p as r"
  by (rule lseg_cong) auto

lemma lseg_dom: "lseg h q p as r \<Longrightarrow> a \<in> set as \<Longrightarrow> h a \<noteq> None"
  by (induction as arbitrary: q p) auto

lemma lseg_next:
  "lseg h q p (as @ [a]) r \<Longrightarrow> a \<notin> set as \<Longrightarrow>
   \<exists>n. h a = Some n \<and> lseg (h(a \<mapsto> n\<lparr>dll_next := r'\<rparr>)) q p (as @ [a]) r'"
  by (auto simp: lseg_append)

lemma lseg_prev:
  "lseg h q p (a # as) r \<Longrightarrow> a \<notin> set as \<Longrightarrow>
   \<exists>n. h a = Some n \<and> lseg (h(a \<mapsto> n\<lparr>dll_prev := q'\<rparr>)) q' p (a # as) r"
  by auto

lemma lseg_end: "lseg h q p (as @ [a]) r \<Longrightarrow> \<exists>n. h a = Some n \<and> dll_next n = r"
  by (auto simp: lseg_append)

subsection \<open>The pointer operations implement the sequence operations\<close>

text \<open>Everything of an entry but its links.\<close>

definition payload :: "'v dll_entry \<Rightarrow> string \<times> int \<times> 'v option" where
  "payload n = (dll_key n, dll_free_key n, dll_data n)"

definition same_payload :: "'v dll_heap \<Rightarrow> 'v dll_heap \<Rightarrow> bool" where
  "same_payload h h' \<longleftrightarrow> (\<forall>b. map_option payload (h' b) = map_option payload (h b))"

lemma same_payload_refl [simp]: "same_payload h h"
  by (simp add: same_payload_def)

lemma same_payload_upd:
  "same_payload h h' \<Longrightarrow> h' a = Some n \<Longrightarrow> payload m = payload n \<Longrightarrow> same_payload h (h'(a \<mapsto> m))"
  by (auto simp: same_payload_def) (metis option.map(2))

lemma payload_links [simp]:
  "payload (n\<lparr>dll_next := p\<rparr>) = payload n" "payload (n\<lparr>dll_prev := p\<rparr>) = payload n"
  by (simp_all add: payload_def)

lemma same_payload_key: "same_payload h h' \<Longrightarrow> h b \<noteq> None \<Longrightarrow> key_at h' b = key_at h b"
proof -
  assume "same_payload h h'" "h b \<noteq> None"
  then obtain y z where "h b = Some y" "h' b = Some z" "payload z = payload y"
    by (auto simp: same_payload_def dest!: spec [of _ b])
  then show ?thesis by (simp add: key_at_def payload_def)
qed

lemma dll_link_head:
  assumes "lseg h None head ys None" "distinct ys" "a \<notin> set ys" "h a = Some e" "dll_prev e = None"
  shows "\<exists>h' head'. dll_link h head a dll None = Inr (h', head') \<and>
           dll_rep h' head' (a # ys) \<and> same_payload h h'"
proof (cases ys)
  case Nil
  with assms show ?thesis
    by (auto simp: dll_link_def upd_entry_def dll_rep_def intro!: same_payload_upd)
next
  case (Cons y ys')
  with assms obtain n where n: "h y = Some n" "head = Some y" by auto
  let ?h1 = "h(a \<mapsto> e\<lparr>dll_next := head\<rparr>)"
  let ?h2 = "?h1(y \<mapsto> n\<lparr>dll_prev := Some a\<rparr>)"
  have "dll_link h head a dll None = Inr (?h2, Some a)"
    using assms Cons n by (auto simp: dll_link_def upd_entry_def)
  moreover have "dll_rep ?h2 (Some a) (a # ys)"
    using assms Cons n by (auto simp: dll_rep_def)
  moreover have "same_payload h ?h2"
    using assms Cons n by (intro same_payload_upd [of _ _ y n] same_payload_upd [of _ _ a e]) auto
  ultimately show ?thesis by blast
qed

lemma dll_link_tail:
  assumes "lseg h None head (xs @ [l]) None" "distinct (xs @ [l])" "a \<notin> set (xs @ [l])"
    and "h a = Some e" "dll_next e = None"
  shows "\<exists>h'. dll_link h head a None (Some l) = Inr (h', head) \<and>
           dll_rep h' head (xs @ [l, a]) \<and> same_payload h h'"
proof -
  let ?h1 = "h(a \<mapsto> e\<lparr>dll_prev := Some l\<rparr>)"
  have "lseg ?h1 None head (xs @ [l]) None" using assms by simp
  then obtain n where n: "?h1 l = Some n"
      "lseg (?h1(l \<mapsto> n\<lparr>dll_next := Some a\<rparr>)) None head (xs @ [l]) (Some a)"
    using lseg_next [of ?h1 None head xs l None "Some a"] assms by auto
  let ?h2 = "?h1(l \<mapsto> n\<lparr>dll_next := Some a\<rparr>)"
  have "lseg ?h2 None head ((xs @ [l]) @ [a]) None"
    using n assms by (subst lseg_append) (auto simp: end_of_def)
  then have "dll_rep ?h2 head (xs @ [l, a])"
    using assms by (auto simp: dll_rep_def)
  moreover have "dll_link h head a None (Some l) = Inr (?h2, head)"
    using assms n by (auto simp: dll_link_def upd_entry_def)
  moreover have "same_payload h ?h2"
    using assms n by (intro same_payload_upd [of _ _ l n] same_payload_upd [of _ _ a e]) auto
  ultimately show ?thesis by blast
qed

lemma dll_link_middle:
  assumes "lseg h None head (xs @ [l]) (Some y)" "lseg h (Some l) (Some y) (y # ys) None"
    and "distinct (xs @ [l] @ y # ys)" "a \<notin> set (xs @ [l] @ y # ys)" "h a = Some e"
  shows "\<exists>h'. dll_link h head a (Some y) (Some l) = Inr (h', head) \<and>
           dll_rep h' head (xs @ [l] @ a # y # ys) \<and> same_payload h h'"
proof -
  obtain m where m: "h y = Some m" "dll_prev m = Some l" "lseg h (Some y) (dll_next m) ys None"
    using assms(2) by auto
  let ?h1 = "h(a \<mapsto> e\<lparr>dll_next := Some y, dll_prev := Some l\<rparr>)"
  have "lseg ?h1 None head (xs @ [l]) (Some y)" using assms by simp
  then obtain n where n: "?h1 l = Some n"
      "lseg (?h1(l \<mapsto> n\<lparr>dll_next := Some a\<rparr>)) None head (xs @ [l]) (Some a)"
    using lseg_next [of ?h1 None head xs l "Some y" "Some a"] assms by auto
  let ?h2 = "?h1(l \<mapsto> n\<lparr>dll_next := Some a\<rparr>)"
  let ?h3 = "?h2(y \<mapsto> m\<lparr>dll_prev := Some a\<rparr>)"
  have "lseg ?h3 None head (xs @ [l]) (Some a)" using n assms by simp
  moreover have "lseg ?h3 (Some l) (Some a) (a # y # ys) None" using m assms by auto
  ultimately have "lseg ?h3 None head ((xs @ [l]) @ a # y # ys) None"
    by (subst lseg_append) (auto simp: end_of_def)
  then have "dll_rep ?h3 head (xs @ [l] @ a # y # ys)"
    using assms by (auto simp: dll_rep_def)
  moreover have "dll_link h head a (Some y) (Some l) = Inr (?h3, head)"
    using assms n m by (auto simp: dll_link_def upd_entry_def dll_prev_of_def)
  moreover have "same_payload h ?h3"
    using assms n m
    by (intro same_payload_upd [of _ _ y m] same_payload_upd [of _ _ l n] same_payload_upd [of _ _ a e])
       auto
  ultimately show ?thesis by blast
qed

text \<open>Any position: \<open>xs\<close> in front of the new entry, \<open>ys\<close> behind it.\<close>

lemma dll_link_rep:
  assumes seg: "lseg h None head xs dll" "lseg h (end_of None xs) dll ys None"
    and dist: "distinct (xs @ ys)" "a \<notin> set (xs @ ys)"
    and new: "h a = Some e" "dll_prev e = None" "dll_next e = None"
  shows "\<exists>h' head'. dll_link h head a dll (end_of None xs) = Inr (h', head') \<and>
           dll_rep h' head' (xs @ a # ys) \<and> same_payload h h'"
proof (cases xs rule: rev_cases)
  case Nil
  with assms show ?thesis using dll_link_head [of h head ys a e dll] by simp
next
  case xs: (snoc xs' l)
  then have last: "end_of None xs = Some l" by (simp add: end_of_def)
  show ?thesis
  proof (cases ys)
    case Nil
    with xs last assms show ?thesis using dll_link_tail [of h head xs' l a e] by auto
  next
    case (Cons y ys')
    with seg have "dll = Some y" by simp
    with xs last Cons assms show ?thesis
      using dll_link_middle [of h head xs' l y ys' a e] by auto
  qed
qed

subsection \<open>Lookup and creation\<close>

text \<open>The position of a key in a sequence of entries: those with smaller keys come first.\<close>

definition before :: "'v dll_heap \<Rightarrow> string \<Rightarrow> nat list \<Rightarrow> nat list" where
  "before h key as = takeWhile (\<lambda>a. 0 < strcasecmp key (key_at h a)) as"

definition behind :: "'v dll_heap \<Rightarrow> string \<Rightarrow> nat list \<Rightarrow> nat list" where
  "behind h key as = dropWhile (\<lambda>a. 0 < strcasecmp key (key_at h a)) as"

definition has_key :: "'v dll_heap \<Rightarrow> string \<Rightarrow> nat list \<Rightarrow> bool" where
  "has_key h key as \<longleftrightarrow> (\<exists>a\<in>set as. strcasecmp key (key_at h a) = 0)"

lemma before_behind [simp]: "before h key as @ behind h key as = as"
  by (simp add: before_def behind_def)

lemma scan_lseg:
  "lseg h q p as None \<Longrightarrow>
   \<exists>m. lseg h q p (before h key as) m \<and> lseg h (end_of q (before h key as)) m (behind h key as) None \<and>
     dll_scan h p q key =
       Some (Inr (behind h key as \<noteq> [] \<and> strcasecmp key (key_at h (hd (behind h key as))) = 0,
                  m, end_of q (before h key as)))"
proof (induction as arbitrary: q p)
  case Nil
  then show ?case
    by (simp add: before_def behind_def dll_scan.simps [of h None])
next
  case (Cons a as)
  then obtain n where n: "h a = Some n" "p = Some a" "lseg h (Some a) (dll_next n) as None"
    by auto
  have key: "key_at h a = dll_key n" using n by (simp add: key_at_def)
  show ?case
  proof (cases "0 < strcasecmp key (key_at h a)")
    case True
    with Cons.IH [OF n(3)] n key Cons.prems show ?thesis
      by (auto simp: before_def behind_def dll_scan.simps [of h "Some a"])
  next
    case False
    with n key Cons.prems show ?thesis
      by (auto simp: before_def behind_def dll_scan.simps [of h "Some a"])
  qed
qed

lemma lookup_lseg:
  "lseg h q p as None \<Longrightarrow>
     dll_lookup h p key =
       Some (Inr (if behind h key as \<noteq> [] \<and> strcasecmp key (key_at h (hd (behind h key as))) = 0
                  then Some (hd (behind h key as)) else None))"
proof (induction as arbitrary: q p)
  case Nil
  then show ?case by (simp add: behind_def dll_lookup.simps [of h None])
next
  case (Cons a as)
  then obtain n where n: "h a = Some n" "p = Some a" "lseg h (Some a) (dll_next n) as None"
    by auto
  have key: "key_at h a = dll_key n" using n by (simp add: key_at_def)
  show ?case
  proof (cases "0 < strcasecmp key (key_at h a)")
    case True
    with Cons.IH [OF n(3)] n key show ?thesis
      by (simp add: behind_def dll_lookup.simps [of h "Some a"])
  next
    case False
    with n key show ?thesis
      by (auto simp: behind_def dll_lookup.simps [of h "Some a"])
  qed
qed

lemma behind_hd:
  assumes "dll_sorted h as"
  shows "behind h key as \<noteq> [] \<and> strcasecmp key (key_at h (hd (behind h key as))) = 0 \<longleftrightarrow>
         has_key h key as"
  using assms
proof (induction as)
  case Nil
  then show ?case by (simp add: behind_def has_key_def)
next
  case (Cons a as)
  have srt: "sorted_wrt (\<lambda>x y. strcasecmp x y < 0) (map (key_at h) (a # as))"
    using Cons.prems by (simp add: dll_sorted_def sorted_wrt_map)
  show ?case
  proof (cases "0 < strcasecmp key (key_at h a)")
    case True
    with Cons show ?thesis by (simp add: behind_def has_key_def dll_sorted_def)
  next
    case False
    then consider "strcasecmp key (key_at h a) = 0" | "strcasecmp key (key_at h a) < 0" by linarith
    then show ?thesis
    proof cases
      case 1
      then show ?thesis by (simp add: behind_def has_key_def)
    next
      case 2
      have "strcasecmp key (key_at h b) \<noteq> 0" if "b \<in> set (a # as)" for b
        using cmp_case.stop_complete [of "key_at h a" "map (key_at h) as" key "key_at h b"]
          srt 2 that by auto
      with 2 show ?thesis by (auto simp: behind_def has_key_def)
    qed
  qed
qed

lemma dll_lookup_rep:
  assumes "dll_rep h head as" "dll_sorted h as"
  shows "dll_lookup h head key =
    Some (Inr (if has_key h key as then Some (hd (behind h key as)) else None))"
  using assms lookup_lseg [of h None head as key] behind_hd [of h as key]
  by (auto simp: dll_rep_def)

lemma has_key_hd:
  "dll_sorted h as \<Longrightarrow> has_key h key as \<Longrightarrow>
   hd (behind h key as) \<in> set as \<and> strcasecmp key (key_at h (hd (behind h key as))) = 0"
proof -
  assume "dll_sorted h as" "has_key h key as"
  then have "behind h key as \<noteq> [] \<and> strcasecmp key (key_at h (hd (behind h key as))) = 0"
    by (simp add: behind_hd)
  moreover have "set (behind h key as) \<subseteq> set as"
    by (auto simp: behind_def dest: set_dropWhileD)
  ultimately show ?thesis using hd_in_set by blast
qed

text \<open>Creation at an address that is not in use, as \<open>malloc\<close> promises.\<close>

lemma create_new:
  assumes rep: "dll_rep h head as" and srt: "dll_sorted h as"
    and new: "h a = None" and absent: "\<not> has_key h key as"
    and strdup: "free_key = 0 \<or> strdup_ok"
  shows "\<exists>h' head'. dll_lookup_or_create h head key free_key (Some a) strdup_ok =
             Some (Inr (Some a, h', head')) \<and>
           dll_rep h' head' (before h key as @ a # behind h key as) \<and>
           same_payload (h(a \<mapsto> \<lparr>dll_next = None, dll_prev = None, dll_key = key,
                                  dll_free_key = free_key, dll_data = None\<rparr>)) h'"
proof -
  let ?e = "\<lparr>dll_next = None, dll_prev = None, dll_key = key,
             dll_free_key = free_key, dll_data = None\<rparr>"
  have seg: "lseg h None head as None" and dist: "distinct as"
    using rep by (simp_all add: dll_rep_def)
  have notin: "a \<notin> set as" using lseg_dom [OF seg] new by blast
  obtain m where m: "lseg h None head (before h key as) m"
      "lseg h (end_of None (before h key as)) m (behind h key as) None"
      "dll_scan h head None key = Some (Inr (False, m, end_of None (before h key as)))"
    using scan_lseg [OF seg, of key] behind_hd [OF srt, of key] absent by auto
  have ab: "a \<notin> set (before h key as)" "a \<notin> set (behind h key as)"
    using notin by (auto simp: before_def behind_def dest: set_takeWhileD set_dropWhileD)
  let ?h = "h(a \<mapsto> ?e)"
  have "\<exists>h' head'. dll_link ?h head a m (end_of None (before h key as)) = Inr (h', head') \<and>
      dll_rep h' head' (before h key as @ a # behind h key as) \<and> same_payload ?h h'"
    using m ab dist notin by (intro dll_link_rep [of _ _ _ _ _ _ ?e]) auto
  then show ?thesis
    using m(3) strdup by (auto simp: dll_lookup_or_create_def)
qed

lemma create_present:
  assumes "dll_rep h head as" "dll_sorted h as" "has_key h key as"
  shows "dll_lookup_or_create h head key free_key malloc strdup_ok =
           Some (Inr (Some (hd (behind h key as)), h, head))"
proof -
  obtain m where m: "lseg h (end_of None (before h key as)) m (behind h key as) None"
      "dll_scan h head None key = Some (Inr (True, m, end_of None (before h key as)))"
    using scan_lseg [of h None head as key] behind_hd [of h as key] assms by (auto simp: dll_rep_def)
  moreover have "behind h key as \<noteq> []" using behind_hd [of h as key] assms by blast
  ultimately have "m = Some (hd (behind h key as))" by (cases "behind h key as") auto
  with m(2) show ?thesis by (simp add: dll_lookup_or_create_def)
qed

lemma new_sorted:
  assumes "dll_sorted h as" "\<not> has_key h key as" "\<forall>b\<in>set as. h b \<noteq> None" "a \<notin> set as"
    and "same_payload (h(a \<mapsto> e)) h'" "dll_key e = key"
  shows "dll_sorted h' (before h key as @ a # behind h key as)"
proof -
  have k: "key_at h' b = (if b = a then key else key_at h b)" if "b \<in> insert a (set as)" for b
    using that assms(3-) same_payload_key [OF assms(5), of b] by (auto simp: key_at_def)
  have pb: "before h key as @ a # behind h key as =
      place_before (\<lambda>x. strcasecmp key (key_at h x) < 0) a as"
  proof -
    have "strcasecmp key (key_at h x) < 0 \<longleftrightarrow> \<not> 0 < strcasecmp key (key_at h x)"
      if "x \<in> set as" for x
      using assms(2) that by (force simp: has_key_def)
    then have "takeWhile (\<lambda>x. \<not> strcasecmp key (key_at h x) < 0) as = before h key as"
      and "dropWhile (\<lambda>x. \<not> strcasecmp key (key_at h x) < 0) as = behind h key as"
      unfolding before_def behind_def by (auto intro!: takeWhile_cong dropWhile_cong)
    then show ?thesis by (simp add: place_before_split)
  qed
  let ?f = "\<lambda>x. if x = a then key else key_at h x"
  have "sorted_wrt (\<lambda>x y. strcasecmp (?f x) (?f y) < 0) as"
    using assms(4)
    by (intro sorted_wrt_mono_rel [OF _ assms(1) [unfolded dll_sorted_def]]) auto
  then have "sorted_wrt (\<lambda>x y. strcasecmp (?f x) (?f y) < 0)
      (place_before (\<lambda>x. strcasecmp (?f a) (?f x) < 0) a as)"
    using assms(2,4) by (intro cmp_case.strict_sorted_place) (auto simp: has_key_def)
  moreover have "place_before (\<lambda>x. strcasecmp (?f a) (?f x) < 0) a as =
      place_before (\<lambda>x. strcasecmp key (key_at h x) < 0) a as"
    using assms(4) by (induction as) auto
  ultimately have "sorted_wrt (\<lambda>x y. strcasecmp (?f x) (?f y) < 0) (before h key as @ a # behind h key as)"
    by (simp only: pb)
  moreover have "set (before h key as @ a # behind h key as) = insert a (set as)"
    by (subst pb) simp
  ultimately show ?thesis
    unfolding dll_sorted_def by (elim sorted_wrt_mono_rel [rotated]) (simp add: k)
qed

lemma dll_sorted_unique:
  assumes "dll_sorted h as" "b \<in> set as" "c \<in> set as"
    and "strcasecmp key (key_at h b) = 0" "strcasecmp key (key_at h c) = 0"
  shows "b = c"
proof (rule ccontr)
  assume "b \<noteq> c"
  have bc: "strcasecmp (key_at h b) (key_at h c) = 0" "strcasecmp (key_at h c) (key_at h b) = 0"
    using assms(4,5) by (simp_all add: cstr)
  from assms(1-3) \<open>b \<noteq> c\<close> have
    "strcasecmp (key_at h b) (key_at h c) < 0 \<or> strcasecmp (key_at h c) (key_at h b) < 0"
    unfolding dll_sorted_def by (induction as) auto
  with bc show False by simp
qed

lemma dll_lookup_iff:
  assumes "dll_rep h head as" "dll_sorted h as"
  shows "dll_lookup h head key = Some (Inr (Some p)) \<longleftrightarrow>
         p \<in> set as \<and> strcasecmp key (key_at h p) = 0"
    and "dll_lookup h head key = Some (Inr None) \<longleftrightarrow> \<not> has_key h key as"
proof -
  have eq: "dll_lookup h head key =
      Some (Inr (if has_key h key as then Some (hd (behind h key as)) else None))"
    by (rule dll_lookup_rep [OF assms])
  show "dll_lookup h head key = Some (Inr None) \<longleftrightarrow> \<not> has_key h key as"
    by (simp add: eq)
  show "dll_lookup h head key = Some (Inr (Some p)) \<longleftrightarrow>
         p \<in> set as \<and> strcasecmp key (key_at h p) = 0"
    using has_key_hd [OF assms(2), of key] dll_sorted_unique [OF assms(2)]
    by (auto simp: eq has_key_def)
qed

lemma create_rep:
  assumes "dll_rep h head as" "dll_sorted h as" "h a = None"
  shows "\<exists>p h' head' as'.
    dll_lookup_or_create h head key free_key (Some a) True = Some (Inr (Some p, h', head')) \<and>
    dll_rep h' head' as' \<and> dll_sorted h' as' \<and>
    p \<in> set as' \<and> strcasecmp key (key_at h' p) = 0 \<and>
    (if has_key h key as then h' = h \<and> head' = head \<and> as' = as
     else p = a \<and> as' = before h key as @ a # behind h key as \<and>
          (\<forall>b. b \<noteq> a \<longrightarrow> map_option payload (h' b) = map_option payload (h b)))"
proof (cases "has_key h key as")
  case True
  with create_present [OF assms(1,2) True] has_key_hd [OF assms(2) True] assms show ?thesis
    by auto
next
  case False
  let ?e = "\<lparr>dll_next = None, dll_prev = None, dll_key = key,
             dll_free_key = free_key, dll_data = None\<rparr>"
  obtain h' head' where c: "dll_lookup_or_create h head key free_key (Some a) True =
        Some (Inr (Some a, h', head'))"
      "dll_rep h' head' (before h key as @ a # behind h key as)"
      "same_payload (h(a \<mapsto> ?e)) h'"
    using create_new [OF assms False, of free_key True] by blast
  have seg: "lseg h None head as None" using assms(1) by (simp add: dll_rep_def)
  have dom: "\<forall>b\<in>set as. h b \<noteq> None" by (blast dest: lseg_dom [OF seg])
  with assms(3) have notin: "a \<notin> set as" by blast
  have "dll_sorted h' (before h key as @ a # behind h key as)"
    using new_sorted [OF assms(2) False dom notin c(3)] by simp
  moreover have "key_at h' a = key"
    using same_payload_key [OF c(3), of a] by (simp add: key_at_def)
  moreover have "\<forall>b. b \<noteq> a \<longrightarrow> map_option payload (h' b) = map_option payload (h b)"
    using c(3) by (simp add: same_payload_def)
  ultimately have "dll_sorted h' (before h key as @ a # behind h key as)"
    and "strcasecmp key (key_at h' a) = 0"
    and "\<forall>b. b \<noteq> a \<longrightarrow> map_option payload (h' b) = map_option payload (h b)"
    by (simp_all add: cstr)
  moreover have "a \<in> set (before h key as @ a # behind h key as)" by simp
  ultimately show ?thesis
    unfolding if_not_P [OF False] using c(1,2) by blast
qed

text \<open>
  C20: on a heap that holds a doubly linked list with strictly increasing keys (compared
  without case), \<open>dll_lookup_or_create\<close> with memory available ends, follows no dangling
  pointer and returns an entry with the key.  If the key was in the list nothing changes;
  otherwise the new entry is linked in at its place: the list is doubly linked and sorted
  again, holds one entry more, and the key and data of every other entry are unchanged.
\<close>

theorem dll_lookup_or_create_refines:
  assumes "dll_rep h head as" "dll_sorted h as" "h a = None"
  shows "\<exists>p h' head' as'.
    dll_lookup_or_create h head key free_key (Some a) True = Some (Inr (Some p, h', head')) \<and>
    dll_rep h' head' as' \<and> dll_sorted h' as' \<and>
    p \<in> set as' \<and> strcasecmp key (key_at h' p) = 0 \<and>
    (if has_key h key as then h' = h \<and> head' = head \<and> as' = as
     else p = a \<and> as' = before h key as @ a # behind h key as \<and>
          (\<forall>b. b \<noteq> a \<longrightarrow> map_option payload (h' b) = map_option payload (h b)))"
  using assms by (rule create_rep)

theorem dll_lookup_or_create_refines_witness:
  "\<exists>h' head'. dll_lookup_or_create [2 \<mapsto> \<lparr>dll_next = None, dll_prev = None, dll_key = ''b'',
        dll_free_key = 0, dll_data = Some (7::nat)\<rparr>] (Some 2) ''A'' 1 (Some 3) True =
      Some (Inr (Some 3, h', head')) \<and> dll_rep h' head' [3, 2]"
proof -
  define h where "h = ([2 \<mapsto> \<lparr>dll_next = None, dll_prev = None, dll_key = ''b'',
                    dll_free_key = 0, dll_data = Some (7::nat)\<rparr>] :: nat dll_heap)"
  have cmp: "strcasecmp ''A'' ''b'' < 0"
    by code_simp
  have rep: "dll_rep h (Some 2) [2]" "dll_sorted h [2]" "h 3 = None"
    by (simp_all add: dll_rep_def dll_sorted_def h_def)
  have "key_at h 2 = ''b''" by (simp add: h_def key_at_def)
  with cmp have no: "\<not> has_key h ''A'' [2]" and "before h ''A'' [2] = []" "behind h ''A'' [2] = [2]"
    by (simp_all add: has_key_def before_def behind_def)
  then show ?thesis
    using dll_lookup_or_create_refines [OF rep, of "''A''" 1]
    unfolding h_def [symmetric] if_not_P [OF no] by force
qed

subsection \<open>Removal\<close>

text \<open>The entry behind the removed one gets its back link.\<close>

lemma unlink_behind:
  assumes "lseg h (Some a) p ys None" "distinct ys"
  shows "\<exists>h1. (if p \<noteq> None then upd_entry h p (\<lambda>m. m\<lparr>dll_prev := q\<rparr>) else Inr h) = Inr h1 \<and>
    lseg h1 q p ys None \<and> same_payload h h1 \<and> (\<forall>b. b \<notin> set ys \<longrightarrow> h1 b = h b)"
proof (cases ys)
  case Nil
  with assms show ?thesis by auto
next
  case (Cons y ys')
  with assms(1) obtain m where m: "h y = Some m" "p = Some y" by auto
  with assms Cons show ?thesis
    by (auto simp: upd_entry_def intro!: same_payload_upd [of _ _ y m])
qed

text \<open>The entry in front gets its forward link, or the head moves.\<close>

lemma unlink_front:
  assumes "lseg h None head xs (Some a)" "lseg h (end_of None xs) p ys None" "distinct (xs @ ys)"
  shows "\<exists>h2 head'. (if end_of None xs \<noteq> None
        then and_then (upd_entry h (end_of None xs) (\<lambda>m. m\<lparr>dll_next := p\<rparr>)) (\<lambda>h2. Inr (h2, head))
        else Inr (h, p)) = Inr (h2, head') \<and>
      lseg h2 None head' (xs @ ys) None \<and> same_payload h h2"
proof (cases xs rule: rev_cases)
  case Nil
  with assms show ?thesis by auto
next
  case (snoc xs' l)
  then have pl: "end_of None xs = Some l" by (simp add: end_of_def)
  from assms snoc obtain m where m: "h l = Some m"
      "lseg (h(l \<mapsto> m\<lparr>dll_next := p\<rparr>)) None head xs p"
    using lseg_next [of h None head xs' l "Some a" p] by auto
  have "lseg (h(l \<mapsto> m\<lparr>dll_next := p\<rparr>)) (end_of None xs) p ys None"
    using assms snoc by auto
  with m have "lseg (h(l \<mapsto> m\<lparr>dll_next := p\<rparr>)) None head (xs @ ys) None"
    by (auto simp: lseg_append)
  moreover have "same_payload h (h(l \<mapsto> m\<lparr>dll_next := p\<rparr>))"
    using m(1) by (auto intro: same_payload_upd)
  ultimately show ?thesis using pl m by (auto simp: upd_entry_def)
qed

text \<open>
  C21: \<open>dll_remove_entry\<close> on any entry of a represented list crashes nowhere and leaves the
  doubly linked list of the other entries in their order, with the removed entry gone and
  the keys and data of the rest unchanged.
\<close>

theorem dll_remove_entry_refines:
  assumes "dll_rep h head (xs @ a # ys)"
  shows "\<exists>h' head'. dll_remove_entry h head a = Inr (h', head') \<and>
           dll_rep h' head' (xs @ ys) \<and> h' a = None \<and>
           (\<forall>b. b \<noteq> a \<longrightarrow> map_option payload (h' b) = map_option payload (h b))"
proof -
  have dist: "distinct (xs @ a # ys)" and seg: "lseg h None head (xs @ a # ys) None"
    using assms by (simp_all add: dll_rep_def)
  from dist have dys: "distinct ys" and dxy: "distinct (xs @ ys)" by auto
  from seg obtain n where n: "lseg h None head xs (Some a)" "h a = Some n"
      "dll_prev n = end_of None xs" "lseg h (Some a) (dll_next n) ys None"
    by (auto simp: lseg_append)
  obtain h1 where h1: "(if dll_next n \<noteq> None
        then upd_entry h (dll_next n) (\<lambda>m. m\<lparr>dll_prev := end_of None xs\<rparr>) else Inr h) = Inr h1"
      "lseg h1 (end_of None xs) (dll_next n) ys None" "same_payload h h1"
      "\<forall>b. b \<notin> set ys \<longrightarrow> h1 b = h b"
    using unlink_behind [OF n(4) dys, of "end_of None xs"] by blast
  have xs1: "lseg h1 None head xs (Some a)"
    using n(1) h1(4) dist by (subst lseg_cong [of xs h1 h]) auto
  obtain h2 head' where h2: "(if end_of None xs \<noteq> None
        then and_then (upd_entry h1 (end_of None xs) (\<lambda>m. m\<lparr>dll_next := dll_next n\<rparr>))
               (\<lambda>h2. Inr (h2, head))
        else Inr (h1, dll_next n)) = Inr (h2, head')"
      "lseg h2 None head' (xs @ ys) None" "same_payload h1 h2"
    using unlink_front [OF xs1 h1(2) dxy] by blast
  have "dll_remove_entry h head a = Inr (h2(a := None), head')"
    unfolding dll_remove_entry_def
    by (simp only: n(2,3) option.case h1(1) h2(1) and_then.simps split)
  moreover have "dll_rep (h2(a := None)) head' (xs @ ys)"
    using h2(2) dist by (auto simp: dll_rep_def)
  moreover have "\<forall>b. b \<noteq> a \<longrightarrow> map_option payload ((h2(a := None)) b) = map_option payload (h b)"
    using h1(3) h2(3) by (simp add: same_payload_def)
  ultimately show ?thesis by auto
qed

theorem dll_remove_entry_refines_witness:
  "\<exists>h' head'. dll_remove_entry
       [3 \<mapsto> \<lparr>dll_next = Some 2, dll_prev = None, dll_key = ''a'', dll_free_key = 0, dll_data = Some (7::nat)\<rparr>,
        2 \<mapsto> \<lparr>dll_next = None, dll_prev = Some 3, dll_key = ''b'', dll_free_key = 0, dll_data = None\<rparr>]
       (Some 3) 3 = Inr (h', head') \<and> dll_rep h' head' [2]"
  using dll_remove_entry_refines [of
      "[3 \<mapsto> \<lparr>dll_next = Some 2, dll_prev = None, dll_key = ''a'', dll_free_key = 0, dll_data = Some (7::nat)\<rparr>,
        2 \<mapsto> \<lparr>dll_next = None, dll_prev = Some 3, dll_key = ''b'', dll_free_key = 0, dll_data = None\<rparr>]"
      "Some 3" "[]" 3 "[2]"]
  by (auto simp: dll_rep_def)

subsection \<open>The list as a lookup-or-create table\<close>

text \<open>
  The list as its clients hold it: heap and head, with an allocator that hands out
  increasing addresses.  It provides the table contract with keys equal up to case.
\<close>

type_synonym 'v dll_table = "'v dll_heap \<times> nat option \<times> nat"

definition table_look :: "'v dll_table \<Rightarrow> string \<Rightarrow> nat option" where
  "table_look t key = (case t of (h, head, n) \<Rightarrow>
     (case dll_lookup h head key of Some (Inr r) \<Rightarrow> r | _ \<Rightarrow> None))"

definition table_add :: "'v dll_table \<Rightarrow> string \<Rightarrow> 'v dll_table" where
  "table_add t key = (case t of (h, head, n) \<Rightarrow>
     (case dll_lookup_or_create h head key 1 (Some n) True of
        Some (Inr (Some p, h', head')) \<Rightarrow> (h', head', if p = n then Suc n else n)
      | _ \<Rightarrow> t))"

definition table_ok :: "'v dll_table \<Rightarrow> bool" where
  "table_ok t \<longleftrightarrow> (case t of (h, head, n) \<Rightarrow>
     (\<exists>as. dll_rep h head as \<and> dll_sorted h as) \<and> (\<forall>b. n \<le> b \<longrightarrow> h b = None))"

lemma table_look_iff:
  assumes "dll_rep h head as" "dll_sorted h as"
  shows "table_look (h, head, n) key = Some p \<longleftrightarrow> p \<in> set as \<and> same_case key (key_at h p)"
    and "table_look (h, head, n) key = None \<longleftrightarrow> \<not> has_key h key as"
proof -
  have eq: "table_look (h, head, n) key =
      (if has_key h key as then Some (hd (behind h key as)) else None)"
    using dll_lookup_rep [OF assms, of key] by (simp add: table_look_def)
  show "table_look (h, head, n) key = Some p \<longleftrightarrow> p \<in> set as \<and> same_case key (key_at h p)"
    using dll_lookup_iff(1) [OF assms, of key p] dll_lookup_rep [OF assms, of key]
    by (simp add: eq same_case_def split: if_splits)
  show "table_look (h, head, n) key = None \<longleftrightarrow> \<not> has_key h key as"
    by (simp add: eq)
qed

lemma table_add_cases:
  assumes "table_ok t" "t = (h, head, n)" "dll_rep h head as" "dll_sorted h as"
  shows "if has_key h key as then table_add t key = t
         else \<exists>h' head'. table_add t key = (h', head', Suc n) \<and>
           dll_rep h' head' (before h key as @ n # behind h key as) \<and>
           dll_sorted h' (before h key as @ n # behind h key as) \<and>
           strcasecmp key (key_at h' n) = 0 \<and>
           (\<forall>b. b \<noteq> n \<longrightarrow> map_option payload (h' b) = map_option payload (h b))"
proof -
  have new: "h n = None" using assms(1,2) by (simp add: table_ok_def)
  show ?thesis
  proof (cases "has_key h key as")
    case True
    have "hd (behind h key as) \<noteq> n"
      using has_key_hd [OF assms(4) True] new lseg_dom [of h None head as None n] assms(3)
      by (auto simp: dll_rep_def)
    then show ?thesis
      using True assms create_present [OF assms(3,4) True, of 1 "Some n" True]
      by (simp add: table_add_def)
  next
    case False
    obtain p h' head' as' where c:
      "dll_lookup_or_create h head key 1 (Some n) True = Some (Inr (Some p, h', head'))"
      "dll_rep h' head' as'" "dll_sorted h' as'" "strcasecmp key (key_at h' p) = 0"
      "p = n" "as' = before h key as @ n # behind h key as"
      "\<forall>b. b \<noteq> n \<longrightarrow> map_option payload (h' b) = map_option payload (h b)"
      using create_rep [OF assms(3,4) new, of key 1] False by auto
    then have "table_add t key = (h', head', Suc n)"
      using assms(2) by (simp add: table_add_def)
    with c False show ?thesis by auto
  qed
qed

interpretation dll: keyed_table same_case table_look table_add table_ok
proof
  fix t :: "'v dll_table" and k k' :: string
  assume ok: "table_ok t"
  obtain h head n where t: "t = (h, head, n)" by (cases t)
  with ok obtain as where rep: "dll_rep h head as" "dll_sorted h as"
    and free: "\<forall>b\<ge>n. h b = None"
    by (auto simp: table_ok_def)
  have dom: "h b \<noteq> None" if "b \<in> set as" for b
    using rep(1) that lseg_dom [of h None head as None] by (auto simp: dll_rep_def)
  have "n \<notin> set as" using dom free by blast
  note look = table_look_iff [OF rep, of n]
  note cases = table_add_cases [OF ok t rep, of k]
  show "table_look t k = table_look t k'" if "same_case k k'"
    using that look t by (intro option_ext) (auto simp: same_case_def cstr)
  show "table_add t k = t" if "table_look t k \<noteq> None"
    using that look(2) [of k] t cases by simp
  show "table_ok (table_add t k)"
  proof (cases "has_key h k as")
    case True
    with cases ok show ?thesis by simp
  next
    case False
    with cases obtain h' head' where c: "table_add t k = (h', head', Suc n)"
      "dll_rep h' head' (before h k as @ n # behind h k as)"
      "dll_sorted h' (before h k as @ n # behind h k as)"
      "\<forall>b. b \<noteq> n \<longrightarrow> map_option payload (h' b) = map_option payload (h b)" by auto
    have "h' b = None" if "Suc n \<le> b" for b
      using c(4) free that by (metis Suc_le_lessD less_imp_le map_option_is_None nat_neq_iff)
    with c show ?thesis by (auto simp: table_ok_def)
  qed
  have added: "\<exists>h' head'. table_add t k = (h', head', Suc n) \<and>
      dll_rep h' head' (before h k as @ n # behind h k as) \<and>
      dll_sorted h' (before h k as @ n # behind h k as) \<and>
      same_case k (key_at h' n) \<and> (\<forall>b\<in>set as. key_at h' b = key_at h b)" if "\<not> has_key h k as"
  proof -
    from cases that obtain h' head' where c: "table_add t k = (h', head', Suc n)"
      "dll_rep h' head' (before h k as @ n # behind h k as)"
      "dll_sorted h' (before h k as @ n # behind h k as)"
      "strcasecmp k (key_at h' n) = 0"
      "\<forall>b. b \<noteq> n \<longrightarrow> map_option payload (h' b) = map_option payload (h b)" by auto
    have "key_at h' b = key_at h b" if "b \<in> set as" for b
    proof -
      have "same_payload (h(n := h' n)) h'" using c(5) by (simp add: same_payload_def)
      moreover have "b \<noteq> n" using that \<open>n \<notin> set as\<close> by blast
      ultimately show ?thesis
        using same_payload_key [of "h(n := h' n)" h' b] dom [OF that] by (simp add: key_at_def)
    qed
    with c show ?thesis by (auto simp: same_case_def)
  qed
  show "table_look (table_add t k) k' \<noteq> None" if same: "same_case k k'"
  proof (cases "has_key h k as")
    case True
    then have "has_key h k' as" using same by (auto simp: has_key_def same_case_def cstr)
    with True show ?thesis using cases look(2) [of k'] t by simp
  next
    case False
    from added [OF this] obtain h' head' where c: "table_add t k = (h', head', Suc n)"
      "dll_rep h' head' (before h k as @ n # behind h k as)"
      "dll_sorted h' (before h k as @ n # behind h k as)" "same_case k (key_at h' n)" by blast
    have "table_look (h', head', Suc n) k' = Some n"
      using table_look_iff(1) [OF c(2,3), of "Suc n" k' n] c(4) same
      by (simp add: same_case_def cstr)
    with c(1) show ?thesis by simp
  qed
  show "table_look (table_add t k) k' = table_look t k'" if other: "\<not> same_case k k'"
  proof (cases "has_key h k as")
    case True
    with cases show ?thesis by simp
  next
    case False
    from added [OF this] obtain h' head' where c: "table_add t k = (h', head', Suc n)"
      "dll_rep h' head' (before h k as @ n # behind h k as)"
      "dll_sorted h' (before h k as @ n # behind h k as)" "same_case k (key_at h' n)"
      "\<forall>b\<in>set as. key_at h' b = key_at h b" by blast
    have "set (before h k as @ n # behind h k as) = insert n (set as)"
      by (metis before_behind set_append list.simps(15) Un_insert_right)
    then have "table_look (h', head', Suc n) k' = Some p \<longleftrightarrow> table_look (h, head, n) k' = Some p" for p
      using table_look_iff(1) [OF c(2,3), of "Suc n" k' p] look(1) [of k' p] c(4,5) other
      by (auto simp: same_case_def cstr)
    then have "table_look (h', head', Suc n) k' = table_look (h, head, n) k'"
      by (intro option_ext) blast
    with c(1) t show ?thesis by simp
  qed
next
  show "same_case k k" for k by (simp add: same_case_def cstr)
qed

end
