(* ===== verification/Argcargv.thy ===== *)
theory Argcargv
  imports Prelude
begin

section \<open>Splitting command lines: argcargv.c\<close>

text \<open>
  \<open>acav_parse\<close> splits the lines of the configuration and of the command files,
  \<open>acav_parse2821\<close> the lines of an SMTP session.  Both write a NUL behind each word of
  the line and store the words' addresses in a vector that grows by \<open>ACV_ARGC\<close> slots.
  The model keeps the capacity of the vector: a store past it is \<open>OutOfBounds\<close>.  Addresses
  are offsets into the line; \<open>realloc_ok\<close> says for which capacities \<open>realloc\<close> succeeds.
\<close>

datatype acv_state = ACV_WHITE | ACV_WORD | ACV_BRACKET | ACV_DQUOTE

definition ACV_ARGC :: nat where
  "ACV_ARGC = 10"

record acav =
  acv_argc :: nat
  acv_argv :: "nat list"

text \<open>\<open>acv_argv[ ac++ ] = line\<close> with the growth of the vector; \<open>Inr None\<close> is the return of -1.\<close>

definition acav_push :: "(nat \<Rightarrow> bool) \<Rightarrow> nat \<Rightarrow> acav \<Rightarrow> acav option run" where
  "acav_push realloc_ok line a =
     (if acv_argc a \<le> length (acv_argv a) then Inl OutOfBounds
      else let a' = a\<lparr>acv_argv := acv_argv a @ [line]\<rparr>
           in if acv_argc a' \<le> length (acv_argv a') then
                (if realloc_ok (acv_argc a + ACV_ARGC)
                 then Inr (Some (a'\<lparr>acv_argc := acv_argc a + ACV_ARGC\<rparr>)) else Inr None)
              else Inr (Some a'))"

definition is_white :: "char \<Rightarrow> bool" where
  "is_white c \<longleftrightarrow> c = CHR '' '' \<or> c = TAB \<or> c = NL"

text \<open>
  The loop of \<open>acav_parse\<close>: the state, the offset and text of \<open>line\<close>, the vector, and the
  part of the buffer behind \<open>line\<close> (reversed), with the NULs written into it.
\<close>

fun acav_loop ::
  "(nat \<Rightarrow> bool) \<Rightarrow> acv_state \<Rightarrow> nat \<Rightarrow> string \<Rightarrow> acav \<Rightarrow> string \<Rightarrow> (acav \<times> string) option run" where
  "acav_loop realloc_ok state off [] a buf = Inr (Some (a, rev buf))"
| "acav_loop realloc_ok state off (c # line) a buf =
     (if is_white c then
        (if state = ACV_WORD then acav_loop realloc_ok ACV_WHITE (Suc off) line a (NUL # buf)
         else acav_loop realloc_ok state (Suc off) line a (c # buf))
      else if state = ACV_WHITE then
        and_then (acav_push realloc_ok off a)
          (\<lambda>r. case r of None \<Rightarrow> Inr None
               | Some a' \<Rightarrow> acav_loop realloc_ok ACV_WORD (Suc off) line a' (c # buf))
      else acav_loop realloc_ok state (Suc off) line a (c # buf))"

text \<open>The bracket and quote states behind a character that belongs to a word.\<close>

definition word_state :: "char \<Rightarrow> acv_state \<Rightarrow> acv_state" where
  "word_state c state =
     (let s1 = (if c = CHR ''<'' \<and> state = ACV_WORD then ACV_BRACKET else state)
      in if c = CHR 0x22 then
           (if s1 = ACV_BRACKET then ACV_DQUOTE
            else if s1 = ACV_DQUOTE then ACV_BRACKET else s1)
         else s1)"

text \<open>
  The loop of \<open>acav_parse2821\<close>.  A backslash in a quoted string skips the character behind
  it; a backslash or a closing bracket in white space starts no word.
\<close>

fun acav_loop2821 ::
  "(nat \<Rightarrow> bool) \<Rightarrow> acv_state \<Rightarrow> nat \<Rightarrow> string \<Rightarrow> acav \<Rightarrow> string \<Rightarrow> (acav \<times> string) option run" where
  "acav_loop2821 realloc_ok state off [] a buf = Inr (Some (a, rev buf))"
| "acav_loop2821 realloc_ok state off (c # line) a buf =
     (if is_white c then
        (if state = ACV_WORD then acav_loop2821 realloc_ok ACV_WHITE (Suc off) line a (NUL # buf)
         else acav_loop2821 realloc_ok state (Suc off) line a (c # buf))
      else if c = CHR 0x5C then
        (if state = ACV_DQUOTE \<and> line \<noteq> []
         then acav_loop2821 realloc_ok state (off + 2) (tl line) a (hd line # c # buf)
         else acav_loop2821 realloc_ok state (Suc off) line a (c # buf))
      else if c = CHR ''>'' then
        acav_loop2821 realloc_ok (if state = ACV_BRACKET then ACV_WORD else state)
          (Suc off) line a (c # buf)
      else if state = ACV_WHITE then
        and_then (acav_push realloc_ok off a)
          (\<lambda>r. case r of None \<Rightarrow> Inr None
               | Some a' \<Rightarrow>
                   acav_loop2821 realloc_ok (word_state c ACV_WORD) (Suc off) line a' (c # buf))
      else acav_loop2821 realloc_ok (word_state c state) (Suc off) line a (c # buf))"

text \<open>The string at an offset of the buffer.\<close>

definition cstr_at :: "string \<Rightarrow> nat \<Rightarrow> string" where
  "cstr_at buf off = takeWhile (\<lambda>c. c \<noteq> NUL) (drop off buf)"

text \<open>
  The end of both functions: \<open>acv_argv[ ac ] = NULL\<close>, then the count and the vector.
  \<open>Inr None\<close> is a return of -1; otherwise the words the vector points to and the capacity,
  which the static \<open>acavg\<close> keeps for the next call.
\<close>

definition acav_finish :: "(acav \<times> string) option run \<Rightarrow> (string list \<times> nat) option run" where
  "acav_finish r = and_then r (\<lambda>x. case x of
      None \<Rightarrow> Inr None
    | Some (a, buf) \<Rightarrow>
        if acv_argc a \<le> length (acv_argv a) then Inl OutOfBounds
        else Inr (Some (map (cstr_at buf) (acv_argv a), acv_argc a)))"

definition acav_parse :: "(nat \<Rightarrow> bool) \<Rightarrow> nat \<Rightarrow> string \<Rightarrow> (string list \<times> nat) option run" where
  "acav_parse realloc_ok cap line =
     acav_finish (acav_loop realloc_ok ACV_WHITE 0 line \<lparr>acv_argc = cap, acv_argv = []\<rparr> [])"

definition acav_parse2821 :: "(nat \<Rightarrow> bool) \<Rightarrow> nat \<Rightarrow> string \<Rightarrow> (string list \<times> nat) option run" where
  "acav_parse2821 realloc_ok cap line =
     acav_finish (acav_loop2821 realloc_ok ACV_WHITE 0 line \<lparr>acv_argc = cap, acv_argv = []\<rparr> [])"

subsection \<open>The vector never overflows\<close>

definition acav_room :: "acav \<Rightarrow> bool" where
  "acav_room a \<longleftrightarrow> length (acv_argv a) < acv_argc a"

lemma acav_push_room:
  "acav_room a \<Longrightarrow> \<exists>r. acav_push realloc_ok off a = Inr r \<and> (\<forall>a'. r = Some a' \<longrightarrow> acav_room a')"
  by (auto simp: acav_push_def acav_room_def ACV_ARGC_def Let_def)

lemma acav_loop_room:
  "acav_room a \<Longrightarrow> \<exists>r. acav_loop realloc_ok state off line a buf = Inr r \<and>
     (\<forall>a' buf'. r = Some (a', buf') \<longrightarrow> acav_room a')"
proof (induction realloc_ok state off line a buf rule: acav_loop.induct)
  case (2 realloc_ok state off c line a buf)
  obtain r where r: "acav_push realloc_ok off a = Inr r" "\<And>a'. r = Some a' \<Longrightarrow> acav_room a'"
    using acav_push_room [OF 2(5)] by blast
  with 2 show ?case by (cases r) auto
qed simp

lemma acav_loop2821_room:
  "acav_room a \<Longrightarrow> \<exists>r. acav_loop2821 realloc_ok state off line a buf = Inr r \<and>
     (\<forall>a' buf'. r = Some (a', buf') \<longrightarrow> acav_room a')"
proof (induction realloc_ok state off line a buf rule: acav_loop2821.induct)
  case (2 realloc_ok state off c line a buf)
  obtain r where r: "acav_push realloc_ok off a = Inr r" "\<And>a'. r = Some a' \<Longrightarrow> acav_room a'"
    using acav_push_room [OF 2(8)] by blast
  with 2 show ?case by (cases r) auto
qed simp

lemma acav_finish_room:
  assumes "\<exists>r. x = Inr r \<and> (\<forall>a' buf'. r = Some (a', buf') \<longrightarrow> acav_room a')"
  shows "\<exists>r. acav_finish x = Inr r"
proof -
  obtain r where r: "x = Inr r" "\<And>a' buf'. r = Some (a', buf') \<Longrightarrow> acav_room a'"
    using assms by blast
  then show ?thesis
    by (cases r) (auto simp: acav_finish_def acav_room_def)
qed

text \<open>
  C22: both parsers, given a vector with at least one slot, store no address past the end of
  the vector, on any line, whether or not \<open>realloc\<close> succeeds: they return, with the words
  or with -1.
\<close>

theorem acav_no_overflow:
  assumes "0 < cap"
  shows "(\<exists>r. acav_parse realloc_ok cap line = Inr r) \<and>
         (\<exists>r. acav_parse2821 realloc_ok cap line = Inr r)"
  using assms unfolding acav_parse_def acav_parse2821_def
  by (intro conjI acav_finish_room acav_loop_room acav_loop2821_room) (simp_all add: acav_room_def)

theorem acav_no_overflow_witness:
  "(\<exists>r. acav_parse (\<lambda>_. True) 1 ''a b c'' = Inr r) \<and>
   (\<exists>r. acav_parse2821 (\<lambda>_. False) 1 ''a b c'' = Inr r)"
  using acav_no_overflow [of 1 "\<lambda>_. True" "''a b c''"]
    acav_no_overflow [of 1 "\<lambda>_. False" "''a b c''"] by simp

subsection \<open>The words of a line\<close>

text \<open>What a reader expects: the maximal runs of characters that are not white.\<close>

fun line_words :: "string \<Rightarrow> string list" where
  "line_words [] = []"
| "line_words (c # s) =
     (if is_white c then line_words s
      else takeWhile (\<lambda>x. \<not> is_white x) (c # s) # line_words (dropWhile (\<lambda>x. \<not> is_white x) s))"

lemma cstr_at_simps [simp]:
  "cstr_at (c # s) 0 = (if c = NUL then [] else c # takeWhile (\<lambda>c. c \<noteq> NUL) s)"
  "cstr_at (c # s) (Suc i) = cstr_at s i"
  by (simp_all add: cstr_at_def)

lemma cstr_at_shift: "length b = off \<Longrightarrow> cstr_at (b @ s) (off + i) = cstr_at s i"
  by (simp add: cstr_at_def)

lemma not_white_NUL: "\<not> is_white NUL"
  by (simp add: is_white_def)

lemma acav_push_ok:
  "acav_room a \<Longrightarrow> \<exists>a'. acav_push (\<lambda>_. True) off a = Inr (Some a') \<and> acav_room a' \<and>
     acv_argv a' = acv_argv a @ [off]"
  by (auto simp: acav_push_def acav_room_def ACV_ARGC_def Let_def)

text \<open>
  From either state, the loop leaves the line with the words cut out of it: \<open>idx\<close> are the
  offsets of the new words in the part of the buffer written since.
\<close>

lemma acav_loop_words:
  assumes "acav_room a" "length buf = off" "NUL \<notin> set line" "state = ACV_WHITE \<or> state = ACV_WORD"
  shows "\<exists>a' tail idx. acav_loop (\<lambda>_. True) state off line a buf = Inr (Some (a', rev buf @ tail)) \<and>
     acav_room a' \<and> acv_argv a' = acv_argv a @ map ((+) off) idx \<and>
     (if state = ACV_WHITE then map (cstr_at tail) idx = line_words line
      else takeWhile (\<lambda>c. c \<noteq> NUL) tail = takeWhile (\<lambda>x. \<not> is_white x) line \<and>
           map (cstr_at tail) idx = line_words (dropWhile (\<lambda>x. \<not> is_white x) line))"
  using assms
proof (induction line arbitrary: state off a buf)
  case Nil
  then show ?case by (intro exI [of _ a] exI [of _ "[]"]) auto
next
  case (Cons c line)
  have hyp: "acav_room a'' \<Longrightarrow> st = ACV_WHITE \<or> st = ACV_WORD \<Longrightarrow>
     \<exists>a' tail idx. acav_loop (\<lambda>_. True) st (Suc off) line a'' (x # buf) =
         Inr (Some (a', rev (x # buf) @ tail)) \<and>
       acav_room a' \<and> acv_argv a' = acv_argv a'' @ map ((+) (Suc off)) idx \<and>
       (if st = ACV_WHITE then map (cstr_at tail) idx = line_words line
        else takeWhile (\<lambda>c. c \<noteq> NUL) tail = takeWhile (\<lambda>x. \<not> is_white x) line \<and>
             map (cstr_at tail) idx = line_words (dropWhile (\<lambda>x. \<not> is_white x) line))" for a'' st x
    using Cons.prems by (intro Cons.IH) auto
  have shift: "map ((+) (Suc off)) idx = map ((+) off) (map Suc idx)"
    and cut: "map (cstr_at (x # tail)) (map Suc idx) = map (cstr_at tail) idx" for idx x tail
    by auto
  show ?case
  proof (cases "is_white c")
    case True
    let ?x = "if state = ACV_WORD then NUL else c"
    obtain a' tail idx where "acav_loop (\<lambda>_. True) ACV_WHITE (Suc off) line a (?x # buf) =
          Inr (Some (a', rev (?x # buf) @ tail))"
        "acav_room a'" "acv_argv a' = acv_argv a @ map ((+) (Suc off)) idx"
        "map (cstr_at tail) idx = line_words line"
      using hyp [of a ACV_WHITE ?x] Cons.prems by auto
    with True Cons.prems(4) show ?thesis
      by (intro exI [of _ a'] exI [of _ "?x # tail"] exI [of _ "map Suc idx"])
        (auto simp: comp_def)
  next
    case False
    show ?thesis
    proof (cases "state = ACV_WHITE")
      case True
      obtain a'' where push: "acav_push (\<lambda>_. True) off a = Inr (Some a'')" "acav_room a''"
          "acv_argv a'' = acv_argv a @ [off]"
        using acav_push_ok [OF Cons.prems(1), of off] by blast
      obtain a' tail idx where "acav_loop (\<lambda>_. True) ACV_WORD (Suc off) line a'' (c # buf) =
          Inr (Some (a', rev (c # buf) @ tail))"
        "acav_room a'" "acv_argv a' = acv_argv a'' @ map ((+) (Suc off)) idx"
        "takeWhile (\<lambda>c. c \<noteq> NUL) tail = takeWhile (\<lambda>x. \<not> is_white x) line"
        "map (cstr_at tail) idx = line_words (dropWhile (\<lambda>x. \<not> is_white x) line)"
        using hyp [OF push(2), of ACV_WORD c] by auto
      with True False push Cons.prems(3) show ?thesis
        by (intro exI [of _ a'] exI [of _ "c # tail"] exI [of _ "0 # map Suc idx"])
          (auto simp: comp_def)
    next
      case word: False
      obtain a' tail idx where "acav_loop (\<lambda>_. True) ACV_WORD (Suc off) line a (c # buf) =
          Inr (Some (a', rev (c # buf) @ tail))"
        "acav_room a'" "acv_argv a' = acv_argv a @ map ((+) (Suc off)) idx"
        "takeWhile (\<lambda>c. c \<noteq> NUL) tail = takeWhile (\<lambda>x. \<not> is_white x) line"
        "map (cstr_at tail) idx = line_words (dropWhile (\<lambda>x. \<not> is_white x) line)"
        using hyp [of a ACV_WORD c] Cons.prems by auto
      with word False Cons.prems(3,4) show ?thesis
        by (intro exI [of _ a'] exI [of _ "c # tail"] exI [of _ "map Suc idx"])
          (auto simp: comp_def)
    qed
  qed
qed

lemma acav_parse_eq_words:
  assumes "0 < cap" "NUL \<notin> set line"
  shows "\<exists>cap'. acav_parse (\<lambda>_. True) cap line = Inr (Some (line_words line, cap'))"
proof -
  have "acav_room \<lparr>acv_argc = cap, acv_argv = []\<rparr>" using assms by (simp add: acav_room_def)
  from acav_loop_words [OF this, of "[]" 0 line ACV_WHITE] assms(2)
  show ?thesis
    by (auto simp: acav_parse_def acav_finish_def acav_room_def comp_def)
qed

definition plain :: "char \<Rightarrow> bool" where
  "plain c \<longleftrightarrow> c \<noteq> CHR ''<'' \<and> c \<noteq> CHR ''>'' \<and> c \<noteq> CHR 0x5C"

lemma acav_loop2821_plain:
  "\<forall>c\<in>set line. plain c \<Longrightarrow> state = ACV_WHITE \<or> state = ACV_WORD \<Longrightarrow>
   acav_loop2821 realloc_ok state off line a buf = acav_loop realloc_ok state off line a buf"
proof (induction line arbitrary: state off a buf)
  case (Cons c line)
  have "word_state c ACV_WORD = ACV_WORD"
    using Cons.prems(1) by (simp add: word_state_def plain_def)
  with Cons show ?case
    by (auto simp: plain_def cong: option.case_cong)
qed simp

text \<open>
  C23: on a line without NUL, \<open>acav_parse\<close> with memory available returns exactly the maximal
  runs of characters that are not white space, in order; and on a line without angle
  brackets and backslashes \<open>acav_parse2821\<close> returns the same words.
\<close>

theorem acav_parse_words:
  assumes "0 < cap" "NUL \<notin> set line"
  shows "(\<exists>cap'. acav_parse (\<lambda>_. True) cap line = Inr (Some (line_words line, cap'))) \<and>
    ((\<forall>c\<in>set line. plain c) \<longrightarrow>
       acav_parse2821 (\<lambda>_. True) cap line = acav_parse (\<lambda>_. True) cap line)"
  using acav_parse_eq_words [OF assms] acav_loop2821_plain
  by (simp add: acav_parse2821_def acav_parse_def)

theorem acav_parse_words_witness:
  "(\<exists>cap'. acav_parse (\<lambda>_. True) 10 '' HELO  host '' = Inr (Some ([''HELO'', ''host''], cap'))) \<and>
   acav_parse2821 (\<lambda>_. True) 10 '' HELO  host '' = acav_parse (\<lambda>_. True) 10 '' HELO  host ''"
proof -
  have h: "(0::nat) < 10" "NUL \<notin> set '' HELO  host ''" by (simp, code_simp)
  have "line_words '' HELO  host '' = [''HELO'', ''host'']" by code_simp
  moreover have "\<forall>c\<in>set '' HELO  host ''. plain c" by code_simp
  ultimately show ?thesis using acav_parse_words [OF h] by simp
qed

subsection \<open>An argument with a path in angle brackets\<close>

text \<open>Stretches of a line that leave the state of the loop as it is.\<close>

lemma stretch_word:
  "\<forall>c\<in>set xs. \<not> is_white c \<and> plain c \<Longrightarrow>
   acav_loop2821 realloc_ok ACV_WORD off (xs @ ys) a buf =
     acav_loop2821 realloc_ok ACV_WORD (off + length xs) ys a (rev xs @ buf)"
  by (induction xs arbitrary: off buf) (auto simp: word_state_def plain_def)

lemma stretch_bracket:
  "\<forall>c\<in>set xs. c \<noteq> CHR ''>'' \<and> c \<noteq> CHR 0x22 \<Longrightarrow>
   acav_loop2821 realloc_ok ACV_BRACKET off (xs @ ys) a buf =
     acav_loop2821 realloc_ok ACV_BRACKET (off + length xs) ys a (rev xs @ buf)"
  by (induction xs arbitrary: off buf) (auto simp: word_state_def)

lemma stretch_quote:
  "\<forall>c\<in>set xs. c \<noteq> CHR 0x5C \<and> c \<noteq> CHR 0x22 \<Longrightarrow>
   acav_loop2821 realloc_ok ACV_DQUOTE off (xs @ ys) a buf =
     acav_loop2821 realloc_ok ACV_DQUOTE (off + length xs) ys a (rev xs @ buf)"
  by (induction xs arbitrary: off buf) (auto simp: word_state_def)

text \<open>The start of a word, up to the end of a stretch of word characters.\<close>

lemma stretch_start:
  assumes "acav_room a" "xs \<noteq> []" "\<forall>c\<in>set xs. \<not> is_white c \<and> plain c"
  shows "\<exists>a'. acav_room a' \<and> acv_argv a' = acv_argv a @ [off] \<and>
    acav_loop2821 (\<lambda>_. True) ACV_WHITE off (xs @ ys) a buf =
      acav_loop2821 (\<lambda>_. True) ACV_WORD (off + length xs) ys a' (rev xs @ buf)"
proof -
  from assms(2) obtain x xs' where xs: "xs = x # xs'" by (cases xs) auto
  obtain a' where a': "acav_push (\<lambda>_. True) off a = Inr (Some a')" "acav_room a'"
      "acv_argv a' = acv_argv a @ [off]"
    using acav_push_ok [OF assms(1), of off] by blast
  have "word_state x ACV_WORD = ACV_WORD"
    using assms(3) xs by (simp add: word_state_def plain_def)
  with a' xs assms(3) show ?thesis
    by (intro exI [of _ a']) (simp add: stretch_word plain_def)
qed

lemma stretch_path:
  assumes "quoted = [] \<or>
      (\<exists>q. quoted = CHR 0x22 # q @ [CHR 0x22] \<and> (\<forall>c\<in>set q. c \<noteq> CHR 0x5C \<and> c \<noteq> CHR 0x22))"
    and "\<forall>c\<in>set rest. c \<noteq> CHR ''>'' \<and> c \<noteq> CHR 0x22"
  shows "acav_loop2821 realloc_ok ACV_WORD off (''<'' @ quoted @ rest @ ''>'') a buf =
    acav_loop2821 realloc_ok ACV_WORD (off + length (''<'' @ quoted @ rest @ ''>'')) [] a
      (rev (''<'' @ quoted @ rest @ ''>'') @ buf)"
proof -
  have rest: "acav_loop2821 realloc_ok ACV_BRACKET n (rest @ ''>'') a b =
      acav_loop2821 realloc_ok ACV_WORD (Suc (n + length rest)) [] a (CHR ''>'' # rev rest @ b)" for n b
    using assms(2) by (simp add: stretch_bracket is_white_def)
  have open_br: "acav_loop2821 realloc_ok ACV_WORD off (''<'' @ s) a buf =
      acav_loop2821 realloc_ok ACV_BRACKET (Suc off) s a (CHR ''<'' # buf)" for s
    by (simp add: word_state_def is_white_def)
  from assms(1) show ?thesis
  proof
    assume "quoted = []"
    then show ?thesis using rest [of "Suc off" "CHR ''<'' # buf"] open_br [of "rest @ ''>''"] by simp
  next
    assume "\<exists>q. quoted = CHR 0x22 # q @ [CHR 0x22] \<and> (\<forall>c\<in>set q. c \<noteq> CHR 0x5C \<and> c \<noteq> CHR 0x22)"
    then obtain q where q: "quoted = CHR 0x22 # q @ [CHR 0x22]"
        "\<forall>c\<in>set q. c \<noteq> CHR 0x5C \<and> c \<noteq> CHR 0x22" by blast
    then show ?thesis
      using open_br [of "quoted @ rest @ ''>''"]
        stretch_quote [OF q(2), of realloc_ok "Suc (Suc off)" "CHR 0x22 # rest @ ''>''" a
          "CHR 0x22 # CHR ''<'' # buf"]
        rest [of "Suc (Suc (Suc off) + length q)" "CHR 0x22 # rev q @ CHR 0x22 # CHR ''<'' # buf"]
      by (simp add: word_state_def is_white_def)
  qed
qed

text \<open>
  C24: an SMTP command of a verb and an argument with a path in angle brackets is split into
  exactly these two words, also where the path holds white space, or starts with a quoted
  local part that holds white space, angle brackets or anything else but a quote or a
  backslash.
\<close>

theorem acav_parse2821_path:
  assumes "0 < cap"
    and verb: "verb \<noteq> []" "\<forall>c\<in>set verb. \<not> is_white c \<and> plain c"
    and pre: "pre \<noteq> []" "\<forall>c\<in>set pre. \<not> is_white c \<and> plain c"
    and quoted: "quoted = [] \<or>
      (\<exists>q. quoted = CHR 0x22 # q @ [CHR 0x22] \<and> (\<forall>c\<in>set q. c \<noteq> CHR 0x5C \<and> c \<noteq> CHR 0x22))"
    and rest: "\<forall>c\<in>set rest. c \<noteq> CHR ''>'' \<and> c \<noteq> CHR 0x22"
    and nul: "NUL \<notin> set (verb @ pre @ quoted @ rest)"
  shows "\<exists>cap'. acav_parse2821 (\<lambda>_. True) cap (verb @ '' '' @ pre @ ''<'' @ quoted @ rest @ ''>'') =
           Inr (Some ([verb, pre @ ''<'' @ quoted @ rest @ ''>''], cap'))"
proof -
  let ?path = "''<'' @ quoted @ rest @ ''>''"
  let ?a = "\<lparr>acv_argc = cap, acv_argv = []\<rparr>"
  have room: "acav_room ?a" using assms(1) by (simp add: acav_room_def)
  obtain a1 where a1: "acav_room a1" "acv_argv a1 = [0]"
    "acav_loop2821 (\<lambda>_. True) ACV_WHITE 0 (verb @ '' '' @ pre @ ?path) ?a [] =
      acav_loop2821 (\<lambda>_. True) ACV_WORD (length verb) ('' '' @ pre @ ?path) a1 (rev verb)"
    using stretch_start [OF room verb, of 0 "'' '' @ pre @ ?path" "[]"] by auto
  obtain a2 where a2: "acav_room a2" "acv_argv a2 = [0, Suc (length verb)]"
    "acav_loop2821 (\<lambda>_. True) ACV_WHITE (Suc (length verb)) (pre @ ?path) a1 (NUL # rev verb) =
      acav_loop2821 (\<lambda>_. True) ACV_WORD (Suc (length verb) + length pre) ?path a2
        (rev pre @ NUL # rev verb)"
    using stretch_start [OF a1(1) pre, of "Suc (length verb)" ?path "NUL # rev verb"] a1(2) by auto
  have space: "acav_loop2821 (\<lambda>_. True) ACV_WORD n ('' '' @ s) a b =
      acav_loop2821 (\<lambda>_. True) ACV_WHITE (Suc n) s a (NUL # b)" for n s a b
    by (simp add: is_white_def)
  have loop: "acav_loop2821 (\<lambda>_. True) ACV_WHITE 0 (verb @ '' '' @ pre @ ?path) ?a [] =
      Inr (Some (a2, verb @ NUL # pre @ ?path))"
    by (simp only: a1(3) space a2(3) stretch_path [OF quoted rest]) simp
  have "takeWhile (\<lambda>c. c \<noteq> NUL) verb = verb" and "takeWhile (\<lambda>c. c \<noteq> NUL) (pre @ ?path) = pre @ ?path"
    using nul by (auto simp: takeWhile_eq_all_conv)
  then have "cstr_at (verb @ NUL # pre @ ?path) 0 = verb"
    and "cstr_at (verb @ NUL # pre @ ?path) (Suc (length verb)) = pre @ ?path"
    using nul by (auto simp: cstr_at_def takeWhile_append2 takeWhile_eq_all_conv takeWhile_tail)
  with loop a2(1,2) show ?thesis
    by (simp add: acav_parse2821_def acav_finish_def acav_room_def)
qed

theorem acav_parse2821_path_witness:
  "\<exists>cap'. acav_parse2821 (\<lambda>_. True) 10
     (''MAIL'' @ '' '' @ ''FROM:'' @ ''<'' @ (CHR 0x22 # ''a > b'' @ [CHR 0x22]) @ ''@x.org'' @ ''>'') =
   Inr (Some ([''MAIL'', ''FROM:<'' @ (CHR 0x22 # ''a > b'' @ [CHR 0x22]) @ ''@x.org>''], cap'))"
proof -
  have "\<forall>c\<in>set ''MAIL''. \<not> is_white c \<and> plain c" "\<forall>c\<in>set ''FROM:''. \<not> is_white c \<and> plain c"
    "\<forall>c\<in>set ''@x.org''. c \<noteq> CHR ''>'' \<and> c \<noteq> CHR 0x22"
    by (code_simp, code_simp, code_simp)
  then show ?thesis
    using acav_parse2821_path [of 10 "''MAIL''" "''FROM:''" "CHR 0x22 # ''a > b'' @ [CHR 0x22]" "''@x.org''"]
    by auto
qed

end
