(* ===== verification/Wildcard.thy ===== *)
theory Wildcard
  imports Prelude
begin

section \<open>Host name patterns: wildcard.c\<close>

text \<open>
  \<open>wildcard\<close> decides whether a string matches a pattern with \<open>*\<close>, numeric ranges
  \<open><min-max>\<close> and backslash escapes; a queue runner uses it to filter host names.  The end
  of a list is the terminating NUL.  \<open>atoi\<close> is taken without overflow.
\<close>

definition span_digits :: "string \<Rightarrow> nat \<times> string" where
  "span_digits s = (digits_val (takeWhile isdigit s), dropWhile isdigit s)"

text \<open>The numbers of a range and the pattern behind it, or None when it is ill-formed.\<close>

definition range_args :: "string \<Rightarrow> (nat \<times> nat \<times> string) option" where
  "range_args wild =
     (if wild = [] \<or> \<not> isdigit (hd wild) then None
      else (let (lo, w1) = span_digits wild
            in if w1 = [] \<or> hd w1 \<noteq> CHR ''-'' then None
               else let w2 = tl w1
                    in if w2 = [] \<or> \<not> isdigit (hd w2) then None
                       else (let (hi, w3) = span_digits w2
                             in if w3 = [] \<or> hd w3 \<noteq> CHR ''>'' then None
                                else Some (lo, hi, tl w3))))"

lemma range_args_shorter: "range_args wild = Some (lo, hi, w) \<Longrightarrow> length w < length wild"
proof -
  assume "range_args wild = Some (lo, hi, w)"
  then have w: "w = tl (dropWhile isdigit (tl (dropWhile isdigit wild)))" and ne: "wild \<noteq> []"
    by (auto simp: range_args_def span_digits_def Let_def split: if_splits)
  have "length w \<le> length (dropWhile isdigit (tl (dropWhile isdigit wild))) - 1" by (simp add: w)
  also have "\<dots> \<le> length (tl (dropWhile isdigit wild)) - 1"
    by (intro diff_le_mono length_dropWhile_le)
  also have "\<dots> \<le> length wild - 1"
    using length_dropWhile_le [of isdigit wild] by simp
  finally show ?thesis using ne by (cases wild) auto
qed

definition same_char :: "bool \<Rightarrow> char \<Rightarrow> char \<Rightarrow> bool" where
  "same_char sensitive a b \<longleftrightarrow> (if sensitive then a = b else tolower a = tolower b)"

function wildcard :: "string \<Rightarrow> string \<Rightarrow> bool \<Rightarrow> bool" where
  "wildcard [] p sensitive = (p = [])"
| "wildcard (c # wild) p sensitive =
     (if c = CHR ''*'' then
        (if wild = [] then True
         else list_ex (\<lambda>i. wildcard wild (drop i p) sensitive) [0..<length p])
      else if c = CHR ''<'' then
        (if p = [] \<or> \<not> isdigit (hd p) then False
         else (case range_args wild of
                 None \<Rightarrow> False
               | Some (lo, hi, wild') \<Rightarrow>
                   (let (i, p') = span_digits p
                    in if i < lo \<or> hi < i then False else wildcard wild' p' sensitive)))
      else if c = CHR 0x5C then
        (case wild of
           [] \<Rightarrow> p = []
         | w # wild' \<Rightarrow>
             (case p of [] \<Rightarrow> False
              | x # p' \<Rightarrow> same_char sensitive w x \<and> wildcard wild' p' sensitive))
      else (case p of [] \<Rightarrow> False
            | x # p' \<Rightarrow> same_char sensitive c x \<and> wildcard wild p' sensitive))"
  by pat_completeness auto
termination
  by (relation "measure (\<lambda>(w, p, s). length w)")
    (auto dest: range_args_shorter intro: less_SucI)

declare wildcard.simps [simp del]

subsection \<open>What a pattern means\<close>

datatype token = Star | Range nat nat | Literal char | Never | AtEnd

text \<open>The tokens of a pattern; a trailing backslash matches at the end only.\<close>

function tokens :: "string \<Rightarrow> token list" where
  "tokens [] = []"
| "tokens (c # w) =
     (if c = CHR ''*'' then Star # tokens w
      else if c = CHR ''<'' then
        (case range_args w of None \<Rightarrow> [Never] | Some (lo, hi, w') \<Rightarrow> Range lo hi # tokens w')
      else if c = CHR 0x5C then
        (case w of [] \<Rightarrow> [AtEnd] | x # w' \<Rightarrow> Literal x # tokens w')
      else Literal c # tokens w)"
  by pat_completeness auto
termination
  by (relation "measure length") (auto dest: range_args_shorter intro: less_SucI)

declare tokens.simps(2) [simp del]

text \<open>
  The usual meaning: a star matches any string, a range a maximal run of digits whose value
  lies in it, a literal its character.
\<close>

fun glob :: "bool \<Rightarrow> token list \<Rightarrow> string \<Rightarrow> bool" where
  "glob sensitive [] p = (p = [])"
| "glob sensitive (Star # ts) p = (\<exists>i\<le>length p. glob sensitive ts (drop i p))"
| "glob sensitive (Range lo hi # ts) p =
     (p \<noteq> [] \<and> isdigit (hd p) \<and>
      lo \<le> digits_val (takeWhile isdigit p) \<and> digits_val (takeWhile isdigit p) \<le> hi \<and>
      glob sensitive ts (dropWhile isdigit p))"
| "glob sensitive (Literal c # ts) p =
     (case p of [] \<Rightarrow> False | x # p' \<Rightarrow> same_char sensitive c x \<and> glob sensitive ts p')"
| "glob sensitive (Never # ts) p = False"
| "glob sensitive (AtEnd # ts) p = (p = [] \<and> ts = [])"

text \<open>No star in front of another star or of a trailing backslash.\<close>

fun stars_apart :: "token list \<Rightarrow> bool" where
  "stars_apart (Star # Star # ts) = False"
| "stars_apart (Star # AtEnd # ts) = False"
| "stars_apart (t # ts) = stars_apart ts"
| "stars_apart [] = True"

lemma glob_star_end: "glob sensitive [Star] p"
  by (auto intro: exI [of _ "length p"])

lemma stars_apart_tl: "stars_apart (t # ts) \<Longrightarrow> stars_apart ts"
  by (cases "(t, ts)" rule: prod.exhaust; cases t; cases ts rule: list.exhaust)
    (auto elim: stars_apart.elims)

lemma glob_star_nonempty:
  assumes "stars_apart (Star # ts)" "ts \<noteq> []"
  shows "\<not> glob sensitive ts []"
proof -
  obtain t ts' where "ts = t # ts'" using assms(2) by (cases ts) auto
  with assms(1) show ?thesis by (cases t) auto
qed

lemma tokens_eq_Nil [simp]: "tokens w = [] \<longleftrightarrow> w = []"
  by (cases w) (auto simp: tokens.simps(2) split: option.splits list.splits)

lemma wildcard_glob: "stars_apart (tokens w) \<Longrightarrow> wildcard w p sensitive = glob sensitive (tokens w) p"
proof (induction w p sensitive rule: wildcard.induct)
  case (1 p sensitive)
  then show ?case by (simp add: wildcard.simps)
next
  case (2 c w p sensitive)
  consider (star) "c = CHR ''*''" | (range) "c = CHR ''<''" | (esc) "c = CHR 0x5C"
    | (lit) "c \<noteq> CHR ''*''" "c \<noteq> CHR ''<''" "c \<noteq> CHR 0x5C" by blast
  then show ?case
  proof cases
    case star
    have tok: "tokens (c # w) = Star # tokens w" using star by (simp add: tokens.simps(2))
    with 2(5) have apart: "stars_apart (Star # tokens w)" by simp
    show ?thesis
    proof (cases "w = []")
      case True
      with star tok show ?thesis by (simp add: wildcard.simps glob_star_end del: glob.simps(2))
    next
      case False
      have "wildcard w (drop i p) sensitive = glob sensitive (tokens w) (drop i p)"
        if "i < length p" for i
        using 2(1) star False that stars_apart_tl [OF apart] by simp
      moreover have "\<not> glob sensitive (tokens w) []"
        using glob_star_nonempty [OF apart] False by simp
      ultimately show ?thesis
        using star False tok
        by (auto simp: wildcard.simps list_ex_iff le_less)
    qed
  next
    case range
    with 2 show ?thesis
      by (auto simp: wildcard.simps tokens.simps(2) span_digits_def not_less
          split: option.splits dest: stars_apart_tl)
  next
    case esc
    with 2 show ?thesis
      by (auto simp: wildcard.simps tokens.simps(2) split: list.splits dest: stars_apart_tl)
  next
    case lit
    with 2 show ?thesis
      by (auto simp: wildcard.simps tokens.simps(2) split: list.splits dest: stars_apart_tl)
  qed
qed




end
