(* ===== verification/DistName.thy ===== *)
theory DistName
  imports Prelude
begin

section \<open>Distinguished names: dn.c\<close>

text \<open>
  \<open>dn_normalize\<close> rewrites a distinguished name in place into the form in which permitted
  groups are compared.  The read pointer never falls behind the write pointer, so the model
  keeps the characters written (last one first) apart from those still to read; moving the
  write pointer in front of the name is \<open>OutOfBounds\<close>.
\<close>

datatype dn_state = B4TYPE | INTYPE | B4EQUAL | B4VALUE | INVALUE | INQUOTEDVALUE | B4SEPARATOR

definition SEPARATOR :: "char \<Rightarrow> bool" where
  "SEPARATOR c \<longleftrightarrow> c = CHR '','' \<or> c = CHR '';'' \<or> c = CHR ''+''"

definition SPACE :: "char \<Rightarrow> bool" where
  "SPACE c \<longleftrightarrow> c = CHR '' '' \<or> c = NL"

definition NEEDSESCAPE :: "char \<Rightarrow> bool" where
  "NEEDSESCAPE c \<longleftrightarrow> c = CHR 0x5C \<or> c = CHR 0x22"

text \<open>\<open>while ( SPACE( *(d - 1) ) ) d--;\<close>\<close>

fun back_spaces :: "string \<Rightarrow> string run" where
  "back_spaces [] = Inl OutOfBounds"
| "back_spaces (c # d) = (if SPACE c then back_spaces d else Inr (c # d))"

text \<open>\<open>*--d = *s; d++;\<close>\<close>

fun overwrite_last :: "char \<Rightarrow> string \<Rightarrow> string run" where
  "overwrite_last s [] = Inl OutOfBounds"
| "overwrite_last s (c # d) = Inr (s # d)"

text \<open>One round of the loop: the state, \<open>gotesc\<close> and the written characters.\<close>

definition dn_step :: "dn_state \<Rightarrow> bool \<Rightarrow> string \<Rightarrow> char \<Rightarrow> (dn_state \<times> string) run" where
  "dn_step state gotesc d s =
     (case state of
        B4TYPE \<Rightarrow> if \<not> SPACE s then Inr (INTYPE, s # d) else Inr (B4TYPE, d)
      | INTYPE \<Rightarrow>
          if s = CHR ''='' then Inr (B4VALUE, s # d)
          else if SPACE s then Inr (B4EQUAL, d)
          else Inr (INTYPE, s # d)
      | B4EQUAL \<Rightarrow>
          if s = CHR ''='' then Inr (B4VALUE, s # d)
          else if \<not> SPACE s then Inr (B4EQUAL, s # d)
          else Inr (B4EQUAL, d)
      | B4VALUE \<Rightarrow>
          if s = CHR 0x22 then Inr (INQUOTEDVALUE, s # d)
          else if \<not> SPACE s then Inr (INVALUE, s # d)
          else Inr (B4VALUE, d)
      | INVALUE \<Rightarrow>
          if \<not> gotesc \<and> SEPARATOR s then
            and_then (back_spaces d)
              (\<lambda>d'. Inr (B4TYPE, (if s = CHR ''+'' then s else CHR '','') # d'))
          else if gotesc \<and> \<not> NEEDSESCAPE s \<and> \<not> SEPARATOR s then
            and_then (overwrite_last s d) (\<lambda>d'. Inr (INVALUE, d'))
          else Inr (INVALUE, s # d)
      | INQUOTEDVALUE \<Rightarrow>
          if \<not> gotesc \<and> s = CHR 0x22 then Inr (B4SEPARATOR, s # d)
          else if gotesc \<and> \<not> NEEDSESCAPE s then
            and_then (overwrite_last s d) (\<lambda>d'. Inr (INQUOTEDVALUE, d'))
          else Inr (INQUOTEDVALUE, s # d)
      | B4SEPARATOR \<Rightarrow>
          if SEPARATOR s then Inr (B4TYPE, s # d) else Inr (B4SEPARATOR, d))"

fun dn_loop :: "dn_state \<Rightarrow> bool \<Rightarrow> string \<Rightarrow> string \<Rightarrow> string run" where
  "dn_loop state gotesc d [] = Inr (rev d)"
| "dn_loop state gotesc d (s # rest) =
     and_then (dn_step state gotesc d s)
       (\<lambda>(state', d'). dn_loop state' (s = CHR 0x5C) d' rest)"

definition dn_normalize :: "string \<Rightarrow> string run" where
  "dn_normalize dn = dn_loop B4TYPE False [] dn"

definition dn_normalize_case :: "string \<Rightarrow> string run" where
  "dn_normalize_case dn = and_then (dn_normalize dn) (\<lambda>d. Inr (map tolower d))"

subsection \<open>The write pointer stays inside the name\<close>

text \<open>Within a value, an equal sign that is no space has been written before.\<close>

definition dn_inv :: "dn_state \<Rightarrow> string \<Rightarrow> bool" where
  "dn_inv state d \<longleftrightarrow>
     (state = INVALUE \<or> state = B4VALUE \<longrightarrow> CHR ''='' \<in> set (tl d) \<or> (state = B4VALUE \<and> d \<noteq> [] \<and> hd d = CHR ''='')) \<and>
     (state = INQUOTEDVALUE \<longrightarrow> d \<noteq> [])"

lemma back_spaces_ok:
  "\<exists>c\<in>set d. \<not> SPACE c \<Longrightarrow> \<exists>d'. back_spaces d = Inr d' \<and> length d' \<le> length d"
  by (induction d) (auto intro: le_SucI)

lemma eq_not_space: "\<not> SPACE (CHR ''='')"
  by (simp add: SPACE_def)

lemma dn_step_safe:
  assumes "dn_inv state d"
  shows "\<exists>state' d'. dn_step state gotesc d s = Inr (state', d') \<and> dn_inv state' d' \<and>
           length d' \<le> Suc (length d)"
proof (cases state)
  case INVALUE
  with assms have eq: "CHR ''='' \<in> set (tl d)" by (simp add: dn_inv_def)
  then obtain c d1 where d: "d = c # d1" by (cases d) auto
  obtain d' where "back_spaces d = Inr d'" "length d' \<le> length d"
    using back_spaces_ok [of d] eq eq_not_space d by auto
  with INVALUE d eq show ?thesis
    by (auto simp: dn_step_def dn_inv_def)
next
  case B4VALUE
  with assms have "CHR ''='' \<in> set d" by (cases d) (auto simp: dn_inv_def)
  with B4VALUE assms show ?thesis
    by (auto simp: dn_step_def dn_inv_def)
next
  case INQUOTEDVALUE
  with assms show ?thesis
    by (cases d) (auto simp: dn_step_def dn_inv_def)
qed (auto simp: dn_step_def dn_inv_def)

lemma dn_loop_safe:
  "dn_inv state d \<Longrightarrow> \<exists>r. dn_loop state gotesc d s = Inr r \<and> length r \<le> length d + length s"
proof (induction s arbitrary: state gotesc d)
  case (Cons c s)
  obtain state' d' where step: "dn_step state gotesc d c = Inr (state', d')" "dn_inv state' d'"
      "length d' \<le> Suc (length d)"
    using dn_step_safe [OF Cons.prems] by blast
  then show ?case
    using Cons.IH [OF step(2), of "c = CHR 0x5C"] by fastforce
qed simp

lemma dn_normalize_total: "\<exists>r. dn_normalize dn = Inr r \<and> length r \<le> length dn"
  using dn_loop_safe [of B4TYPE "[]" False dn] by (simp add: dn_normalize_def dn_inv_def)

text \<open>
  C27: for every name, well-formed or not, \<open>dn_normalize\<close> and \<open>dn_normalize_case\<close> never move
  the write pointer in front of the buffer, and the result is never longer than the name,
  so it fits in the buffer it is written to.
\<close>

theorem dn_normalize_in_bounds:
  "(\<exists>r. dn_normalize dn = Inr r \<and> length r \<le> length dn) \<and>
   (\<exists>r. dn_normalize_case dn = Inr r \<and> length r \<le> length dn)"
  using dn_normalize_total [of dn] by (auto simp: dn_normalize_case_def)

subsection \<open>Canonical form of spaced names\<close>

text \<open>
  A relative name as it may be written: an attribute type and a value, with spaces before
  the type, on both sides of the equal sign and behind the value, and a separator.
\<close>

record rdn =
  r_before :: string
  r_type :: string
  r_mid1 :: string
  r_mid2 :: string
  r_value :: string
  r_after :: string
  r_sep :: char

definition spaces :: "string \<Rightarrow> bool" where
  "spaces s \<longleftrightarrow> (\<forall>c\<in>set s. SPACE c)"

text \<open>Characters that need no quoting and no escape inside a type or a value.\<close>

definition dn_plain :: "char \<Rightarrow> bool" where
  "dn_plain c \<longleftrightarrow> \<not> SEPARATOR c \<and> \<not> NEEDSESCAPE c \<and> c \<noteq> CHR ''=''"

definition rdn_ok :: "rdn \<Rightarrow> bool" where
  "rdn_ok r \<longleftrightarrow> spaces (r_before r) \<and> spaces (r_mid1 r) \<and> spaces (r_mid2 r) \<and> spaces (r_after r) \<and>
     r_type r \<noteq> [] \<and> (\<forall>c\<in>set (r_type r). dn_plain c \<and> \<not> SPACE c) \<and>
     r_value r \<noteq> [] \<and> (\<forall>c\<in>set (r_value r). dn_plain c) \<and>
     \<not> SPACE (hd (r_value r)) \<and> \<not> SPACE (last (r_value r)) \<and> SEPARATOR (r_sep r)"

definition rdn_text :: "rdn \<Rightarrow> string" where
  "rdn_text r = r_before r @ r_type r @ r_mid1 r @ ''='' @ r_mid2 r @ r_value r @ r_after r @ [r_sep r]"

definition rdn_canonical :: "rdn \<Rightarrow> string" where
  "rdn_canonical r = r_type r @ ''='' @ r_value r @
     [if r_sep r = CHR ''+'' then CHR ''+'' else CHR '','']"

declare dn_loop.simps(2) [simp del]

text \<open>One character in each state of an unquoted name.\<close>

lemma plain_facts:
  "dn_plain c \<Longrightarrow> c \<noteq> CHR 0x5C \<and> c \<noteq> CHR 0x22 \<and> c \<noteq> CHR ''='' \<and> \<not> SEPARATOR c"
  "SPACE c \<Longrightarrow> c \<noteq> CHR 0x5C \<and> c \<noteq> CHR 0x22 \<and> c \<noteq> CHR ''='' \<and> \<not> SEPARATOR c"
  by (auto simp: dn_plain_def NEEDSESCAPE_def SPACE_def SEPARATOR_def)

lemma step_b4type:
  "SPACE c \<Longrightarrow> dn_loop B4TYPE False d (c # t) = dn_loop B4TYPE False d t"
  "dn_plain c \<Longrightarrow> \<not> SPACE c \<Longrightarrow> dn_loop B4TYPE False d (c # t) = dn_loop INTYPE False (c # d) t"
  by (simp_all add: dn_loop.simps(2) dn_step_def plain_facts)

lemma step_intype:
  "dn_plain c \<Longrightarrow> \<not> SPACE c \<Longrightarrow> dn_loop INTYPE False d (c # t) = dn_loop INTYPE False (c # d) t"
  "SPACE c \<Longrightarrow> dn_loop INTYPE False d (c # t) = dn_loop B4EQUAL False d t"
  "dn_loop INTYPE False d (CHR ''='' # t) = dn_loop B4VALUE False (CHR ''='' # d) t"
  by (simp_all add: dn_loop.simps(2) dn_step_def plain_facts)

lemma step_b4equal:
  "SPACE c \<Longrightarrow> dn_loop B4EQUAL False d (c # t) = dn_loop B4EQUAL False d t"
  "dn_loop B4EQUAL False d (CHR ''='' # t) = dn_loop B4VALUE False (CHR ''='' # d) t"
  by (simp_all add: dn_loop.simps(2) dn_step_def plain_facts)

lemma step_b4value:
  "SPACE c \<Longrightarrow> dn_loop B4VALUE False d (c # t) = dn_loop B4VALUE False d t"
  "dn_plain c \<Longrightarrow> \<not> SPACE c \<Longrightarrow> dn_loop B4VALUE False d (c # t) = dn_loop INVALUE False (c # d) t"
  by (simp_all add: dn_loop.simps(2) dn_step_def plain_facts)

lemma step_invalue:
  "dn_plain c \<or> SPACE c \<Longrightarrow> dn_loop INVALUE False d (c # t) = dn_loop INVALUE False (c # d) t"
  by (auto simp: dn_loop.simps(2) dn_step_def plain_facts)

text \<open>Stretches of characters.\<close>

lemma loop_b4type_spaces: "spaces s \<Longrightarrow> dn_loop B4TYPE False d (s @ t) = dn_loop B4TYPE False d t"
  by (induction s) (simp_all add: spaces_def step_b4type)

lemma loop_intype:
  "\<forall>c\<in>set s. dn_plain c \<and> \<not> SPACE c \<Longrightarrow>
   dn_loop INTYPE False d (s @ t) = dn_loop INTYPE False (rev s @ d) t"
  by (induction s arbitrary: d) (simp_all add: step_intype)

lemma loop_type:
  assumes "s \<noteq> []" "\<forall>c\<in>set s. dn_plain c \<and> \<not> SPACE c"
  shows "dn_loop B4TYPE False d (s @ t) = dn_loop INTYPE False (rev s @ d) t"
  using assms by (cases s) (simp_all add: step_b4type loop_intype)

lemma loop_b4equal_spaces: "spaces s \<Longrightarrow> dn_loop B4EQUAL False d (s @ t) = dn_loop B4EQUAL False d t"
  by (induction s) (simp_all add: spaces_def step_b4equal)

lemma loop_equal:
  assumes "spaces s"
  shows "dn_loop INTYPE False d (s @ ''='' @ t) = dn_loop B4VALUE False (CHR ''='' # d) t"
proof (cases s)
  case Nil
  then show ?thesis by (simp add: step_intype)
next
  case (Cons c s')
  with assms show ?thesis
    using loop_b4equal_spaces [of s' d "''='' @ t"]
    by (simp add: spaces_def step_intype step_b4equal)
qed

lemma loop_b4value_spaces: "spaces s \<Longrightarrow> dn_loop B4VALUE False d (s @ t) = dn_loop B4VALUE False d t"
  by (induction s) (simp_all add: spaces_def step_b4value)

lemma loop_invalue:
  "\<forall>c\<in>set s. dn_plain c \<or> SPACE c \<Longrightarrow>
   dn_loop INVALUE False d (s @ t) = dn_loop INVALUE False (rev s @ d) t"
  by (induction s arbitrary: d) (simp_all add: step_invalue)

lemma loop_value:
  assumes "s \<noteq> []" "\<forall>c\<in>set s. dn_plain c" "\<not> SPACE (hd s)"
  shows "dn_loop B4VALUE False d (s @ t) = dn_loop INVALUE False (rev s @ d) t"
  using assms by (cases s) (simp_all add: step_b4value loop_invalue)

lemma back_spaces_strip: "spaces s \<Longrightarrow> back_spaces (rev s @ d) = back_spaces d"
proof -
  have "\<forall>c\<in>set s. SPACE c \<Longrightarrow> back_spaces (s @ d) = back_spaces d" for s
    by (induction s) auto
  then show "spaces s \<Longrightarrow> ?thesis" by (simp add: spaces_def)
qed

lemma loop_rdn:
  assumes "rdn_ok r"
  shows "dn_loop B4TYPE False d (rdn_text r @ t) = dn_loop B4TYPE False (rev (rdn_canonical r) @ d) t"
proof -
  note ok = assms [unfolded rdn_ok_def]
  let ?v = "rev (r_value r) @ CHR ''='' # rev (r_type r) @ d"
  have "dn_loop B4TYPE False d (rdn_text r @ t) =
      dn_loop INTYPE False (rev (r_type r) @ d)
        (r_mid1 r @ ''='' @ (r_mid2 r @ r_value r @ r_after r @ r_sep r # t))"
    using ok by (simp add: rdn_text_def loop_b4type_spaces loop_type)
  also have "\<dots> = dn_loop B4VALUE False (CHR ''='' # rev (r_type r) @ d)
        (r_value r @ r_after r @ r_sep r # t)"
    using ok by (simp only: loop_equal loop_b4value_spaces)
  also have "\<dots> = dn_loop INVALUE False (rev (r_after r) @ ?v) (r_sep r # t)"
    using ok loop_invalue [of "r_after r" ?v "r_sep r # t"] by (simp add: loop_value spaces_def)
  also have "\<dots> = dn_loop B4TYPE False
        ((if r_sep r = CHR ''+'' then CHR ''+'' else CHR '','') # ?v) t"
  proof -
    obtain v vs where v: "r_value r = vs @ [v]" "\<not> SPACE v"
      using ok by (cases "r_value r" rule: rev_cases) auto
    then have "back_spaces (rev (r_after r) @ ?v) = Inr ?v"
      using ok by (simp add: back_spaces_strip)
    moreover have "r_sep r \<noteq> CHR 0x5C" using ok by (auto simp: SEPARATOR_def)
    ultimately show ?thesis using ok by (simp add: dn_loop.simps(2) dn_step_def)
  qed
  finally show ?thesis by (simp add: rdn_canonical_def)
qed

lemma loop_rdns:
  "\<forall>r\<in>set rs. rdn_ok r \<Longrightarrow>
   dn_loop B4TYPE False d (concat (map rdn_text rs) @ t) =
     dn_loop B4TYPE False (rev (concat (map rdn_canonical rs)) @ d) t"
  by (induction rs arbitrary: d) (simp_all add: loop_rdn)




end
