(* ===== verification/LineFile.thy ===== *)
theory LineFile
  imports Prelude
begin

section \<open>Lists of text lines: line_file.c\<close>

text \<open>
  A \<open>struct line_file\<close> collects the error text of a recipient, an envelope or a host.  It
  is the list of the lines' data; a missing line file is None.  Flags say whether
  \<open>malloc\<close> and \<open>strdup\<close> succeed; the result is whether a line is returned, and the file.
\<close>

type_synonym line_file = "string list"

definition line_file_create :: "bool \<Rightarrow> line_file option" where
  "line_file_create malloc_ok = (if malloc_ok then Some [] else None)"

text \<open>
  The data that the new line gets, from \<open>data\<close> and \<open>copy\<close>.  Every call that copies
  passes a string; with NULL, \<open>strdup\<close> would be undefined.
\<close>

definition line_data_of :: "string option \<Rightarrow> bool \<Rightarrow> bool \<Rightarrow> string option" where
  "line_data_of data copy strdup_ok = (if copy then (if strdup_ok then data else None) else data)"

definition line_append :: "line_file \<Rightarrow> string option \<Rightarrow> bool \<Rightarrow> bool \<Rightarrow> bool \<Rightarrow> bool \<times> line_file" where
  "line_append lf data copy malloc_ok strdup_ok =
     (if \<not> malloc_ok then (False, lf)
      else (case line_data_of data copy strdup_ok of
              None \<Rightarrow> (False, lf)
            | Some l \<Rightarrow> (True, lf @ [l])))"

definition line_prepend :: "line_file \<Rightarrow> string option \<Rightarrow> bool \<Rightarrow> bool \<Rightarrow> bool \<Rightarrow> bool \<times> line_file" where
  "line_prepend lf data copy malloc_ok strdup_ok =
     (if \<not> malloc_ok then (False, lf)
      else (case line_data_of data copy strdup_ok of
              None \<Rightarrow> (False, lf)
            | Some l \<Rightarrow> (True, l # lf)))"

lemma line_append_length:
  "length (snd (line_append lf data copy m s)) = (if fst (line_append lf data copy m s)
     then Suc (length lf) else length lf)"
  by (simp add: line_append_def split: option.split)

lemma line_append_prefix: "prefix lf (snd (line_append lf data copy m s))"
  by (simp add: line_append_def split: option.split)

lemma line_prepend_suffix: "suffix lf (snd (line_prepend lf data copy m s))"
  by (simp add: line_prepend_def suffix_ConsI split: option.split)

lemma line_append_prepend_commute:
  "snd (line_append (snd (line_prepend lf (Some a) c True True)) (Some b) c' True True) =
   snd (line_prepend (snd (line_append lf (Some b) c' True True)) (Some a) c True True)"
  by (simp add: line_append_def line_prepend_def line_data_of_def)

end
