(* ===== verification/Red.thy ===== *)
theory Red
  imports Interfaces
begin

section \<open>Hosts with rules of their own: red.c\<close>

text \<open>
  The hosts the configuration knows: what to do when mail for one is received, expanded or
  delivered.  Each of the three lists (\<open>simta_red_hosts\<close>, \<open>simta_secondary_mx\<close>,
  \<open>simta_remote_hosts\<close>) is kept in descending order of the names without case, and the
  lookup gives up at the first smaller name.  A returned pointer is the entry itself.
\<close>

definition RED_CODE_R :: nat where "RED_CODE_R = 1"
definition RED_CODE_r :: nat where "RED_CODE_r = 2"
definition RED_CODE_E :: nat where "RED_CODE_E = 4"
definition RED_CODE_D :: nat where "RED_CODE_D = 16"

definition ACTION_REQUIRED :: int where "ACTION_REQUIRED = 1"
definition ACTION_SUFFICIENT :: int where "ACTION_SUFFICIENT = 2"

definition EXPANSION_TYPE_PASSWORD :: int where "EXPANSION_TYPE_PASSWORD = 1"
definition EXPANSION_TYPE_ALIAS :: int where "EXPANSION_TYPE_ALIAS = 2"

definition RED_DELIVER_SMTP_DEFAULT :: int where "RED_DELIVER_SMTP_DEFAULT = 0"
definition RED_DELIVER_SMTP :: int where "RED_DELIVER_SMTP = 1"
definition RED_DELIVER_BINARY :: int where "RED_DELIVER_BINARY = 2"

definition RED_HOST_TYPE_LOCAL :: int where "RED_HOST_TYPE_LOCAL = 1"
definition RED_HOST_TYPE_SECONDARY_MX :: int where "RED_HOST_TYPE_SECONDARY_MX = 2"
definition RED_HOST_TYPE_REMOTE :: int where "RED_HOST_TYPE_REMOTE = 3"

record action =
  a_action :: int
  a_flags :: int
  a_fname :: "string option"

record simta_red =
  red_host_name :: string
  red_host_type :: int
  red_receive :: "action list"
  red_expand :: "action list"
  red_deliver_type :: int
  red_deliver_argc :: int
  red_deliver_argv :: "string list option"
  red_min_wait :: int
  red_max_wait :: int
  red_no_punt :: int

record red_lists =
  simta_red_hosts :: "simta_red list"
  simta_secondary_mx :: "simta_red list"
  simta_remote_hosts :: "simta_red list"

subsection \<open>Lookup\<close>

fun red_scan :: "string \<Rightarrow> simta_red list \<Rightarrow> simta_red option" where
  "red_scan host_name [] = None"
| "red_scan host_name (red # rest) =
     (if strcasecmp host_name (red_host_name red) = 0 then Some red
      else if 0 < strcasecmp host_name (red_host_name red) then None
      else red_scan host_name rest)"

text \<open>
  With \<open>simta_domain_trailing_dot\<close>, a dot at the end is cut off during the walk; the code
  looks at the character in front of an empty name.
\<close>

definition simta_red_lookup_host_2 :: "int \<Rightarrow> string \<Rightarrow> simta_red list \<Rightarrow> simta_red option run" where
  "simta_red_lookup_host_2 trailing_dot host_name red =
     (if trailing_dot \<noteq> 0 then
        (if host_name = [] then Inl OutOfBounds
         else if last host_name = CHR ''.'' then Inr (red_scan (butlast host_name) red)
         else Inr (red_scan host_name red))
      else Inr (red_scan host_name red))"

definition simta_red_lookup_host :: "int \<Rightarrow> red_lists \<Rightarrow> string \<Rightarrow> simta_red option run" where
  "simta_red_lookup_host trailing_dot st host_name =
     simta_red_lookup_host_2 trailing_dot host_name (simta_red_hosts st)"

subsection \<open>Adding hosts and actions\<close>

definition new_red :: "string \<Rightarrow> int \<Rightarrow> simta_red" where
  "new_red host_name host_type =
     \<lparr>red_host_name = host_name, red_host_type = host_type, red_receive = [], red_expand = [],
      red_deliver_type = 0, red_deliver_argc = 0, red_deliver_argv = None,
      red_min_wait = 0, red_max_wait = 0, red_no_punt = 0\<rparr>"

text \<open>The walk to the place of a host; with \<open>new = None\<close> memory ran out and the list stays.\<close>

fun red_place :: "string \<Rightarrow> simta_red option \<Rightarrow> simta_red list \<Rightarrow> simta_red option \<times> simta_red list" where
  "red_place host_name new [] = (new, (case new of None \<Rightarrow> [] | Some n \<Rightarrow> [n]))"
| "red_place host_name new (red # rest) =
     (if strcasecmp (red_host_name red) host_name = 0 then (Some red, red # rest)
      else if strcasecmp (red_host_name red) host_name < 0 then
        (new, (case new of None \<Rightarrow> red # rest | Some n \<Rightarrow> n # red # rest))
      else (let (r, rest') = red_place host_name new rest in (r, red # rest')))"

definition simta_red_add_host ::
  "red_lists \<Rightarrow> string \<Rightarrow> int \<Rightarrow> bool \<Rightarrow> simta_red option \<times> red_lists" where
  "simta_red_add_host st host_name host_type malloc_ok =
     (let new = (if malloc_ok then Some (new_red host_name host_type) else None)
      in if host_type = RED_HOST_TYPE_SECONDARY_MX then
           (if simta_secondary_mx st \<noteq> [] then (None, st)
            else (let (r, l) = red_place host_name new (simta_secondary_mx st)
                  in (r, st\<lparr>simta_secondary_mx := l\<rparr>)))
         else if host_type = RED_HOST_TYPE_REMOTE then
           (let (r, l) = red_place host_name new (simta_remote_hosts st)
            in (r, st\<lparr>simta_remote_hosts := l\<rparr>))
         else if host_type = RED_HOST_TYPE_LOCAL then
           (let (r, l) = red_place host_name new (simta_red_hosts st)
            in (r, st\<lparr>simta_red_hosts := l\<rparr>))
         else (None, st))"

text \<open>
  An action goes to the end of its list.  When \<open>strdup\<close> fails the function returns NULL, yet
  the action, without its file name, has been linked in.
\<close>

definition simta_red_add_action ::
  "simta_red \<Rightarrow> nat \<Rightarrow> int \<Rightarrow> string option \<Rightarrow> bool \<Rightarrow> bool \<Rightarrow> action option \<times> simta_red" where
  "simta_red_add_action red red_type act fname malloc_ok strdup_ok =
     (if red_type \<noteq> RED_CODE_R \<and> red_type \<noteq> RED_CODE_r \<and> red_type \<noteq> RED_CODE_E then (None, red)
      else if \<not> malloc_ok then (None, red)
      else
        (let flags = (if red_type = RED_CODE_R then ACTION_SUFFICIENT
                      else if red_type = RED_CODE_r then ACTION_REQUIRED else 0);
             a = \<lparr>a_action = act, a_flags = flags, a_fname = (if strdup_ok then fname else None)\<rparr>;
             red' = (if red_type = RED_CODE_E then red\<lparr>red_expand := red_expand red @ [a]\<rparr>
                     else red\<lparr>red_receive := red_receive red @ [a]\<rparr>)
         in if fname \<noteq> None \<and> \<not> strdup_ok then (None, red') else (Some a, red')))"

text \<open>
  The default actions: \<open>R\<close> and \<open>E\<close> by alias file and by password file.  \<open>mem k\<close> says
  whether memory is available for the \<open>k\<close>-th action.
\<close>

definition add_two ::
  "nat \<Rightarrow> string option \<Rightarrow> string option \<Rightarrow> bool \<Rightarrow> bool \<Rightarrow> simta_red \<Rightarrow> int \<times> simta_red" where
  "add_two red_type alias_db passwd_file mem1 mem2 red =
     (case simta_red_add_action red red_type EXPANSION_TYPE_ALIAS alias_db mem1 mem1 of
        (None, r1) \<Rightarrow> (- 1, r1)
      | (Some _, r1) \<Rightarrow>
          (case simta_red_add_action r1 red_type EXPANSION_TYPE_PASSWORD passwd_file mem2 mem2 of
             (None, r2) \<Rightarrow> (- 1, r2)
           | (Some _, r2) \<Rightarrow> (0, r2)))"

definition simta_red_action_default ::
  "string option \<Rightarrow> string option \<Rightarrow> (nat \<Rightarrow> bool) \<Rightarrow> simta_red \<Rightarrow> int \<times> simta_red" where
  "simta_red_action_default alias_db passwd_file mem red =
     (let (rc1, r1) = (if red_receive red = []
            then add_two RED_CODE_R alias_db passwd_file (mem 0) (mem 1) red else (0, red))
      in if rc1 \<noteq> 0 then (rc1, r1)
         else
           (let (rc2, r2) = (if red_expand r1 = []
                  then add_two RED_CODE_E alias_db passwd_file (mem 2) (mem 3) r1 else (0, r1))
            in if rc2 \<noteq> 0 then (rc2, r2)
               else (0, if red_deliver_type r2 = 0
                        then r2\<lparr>red_deliver_type := RED_DELIVER_BINARY\<rparr> else r2)))"

subsection \<open>The lists stay sorted and are tables of hosts\<close>

definition red_sorted :: "simta_red list \<Rightarrow> bool" where
  "red_sorted reds \<longleftrightarrow>
     sorted_wrt (\<lambda>x y. strcasecmp (red_host_name y) (red_host_name x) < 0) reds"

definition knows :: "string \<Rightarrow> simta_red list \<Rightarrow> bool" where
  "knows host reds \<longleftrightarrow> (\<exists>r\<in>set reds. same_case host (red_host_name r))"

lemma red_scan_sound: "red_scan host reds = Some r \<Longrightarrow> r \<in> set reds \<and> same_case host (red_host_name r)"
  by (induction reds) (auto simp: same_case_def split: if_splits)

lemma red_scan_complete: "red_sorted reds \<Longrightarrow> red_scan host reds \<noteq> None \<longleftrightarrow> knows host reds"
proof (induction reds)
  case (Cons r reds)
  have srt: "sorted_wrt (\<lambda>x y. strcasecmp y x < 0) (map red_host_name (r # reds))"
    using Cons.prems by (simp add: red_sorted_def sorted_wrt_map)
  show ?case
  proof (cases "0 < strcasecmp host (red_host_name r)")
    case True
    then have "strcasecmp (red_host_name r) host < 0" by (simp add: cstr)
    then have "strcasecmp (red_host_name x) host \<noteq> 0" if "x \<in> set (r # reds)" for x
      using cmp_case_down.stop_complete [of "red_host_name r" "map red_host_name reds" host
          "red_host_name x"] srt that by auto
    then have "\<not> same_case host (red_host_name x)" if "x \<in> set (r # reds)" for x
      using that by (metis same_case_def cmp_case.sym0)
    then have "\<not> knows host (r # reds)" by (auto simp: knows_def)
    with True show ?thesis by simp
  next
    case False
    with Cons show ?thesis by (auto simp: knows_def same_case_def red_sorted_def)
  qed
qed (simp add: knows_def)

lemma red_scan_cong: "same_case a b \<Longrightarrow> red_scan a reds = red_scan b reds"
  by (induction reds) (simp_all add: same_case_def cstr)

lemma red_scan_iff:
  assumes "red_sorted reds"
  shows "red_scan host reds = Some r \<longleftrightarrow> r \<in> set reds \<and> same_case host (red_host_name r)"
proof
  assume r: "r \<in> set reds \<and> same_case host (red_host_name r)"
  then obtain r' where r': "red_scan host reds = Some r'"
    using red_scan_complete [OF assms, of host] by (auto simp: knows_def)
  have "r' = r"
  proof (rule ccontr)
    assume "r' \<noteq> r"
    with red_scan_sound [OF r'] r assms
    have "strcasecmp (red_host_name r') (red_host_name r) < 0 \<or>
        strcasecmp (red_host_name r) (red_host_name r') < 0"
      unfolding red_sorted_def by (induction reds) auto
    with red_scan_sound [OF r'] r show False by (auto simp: same_case_def cstr)
  qed
  with r' show "red_scan host reds = Some r" by simp
qed (simp add: red_scan_sound)

lemma red_place_known:
  "red_sorted reds \<Longrightarrow> knows host reds \<Longrightarrow> red_place host new reds = (red_scan host reds, reds)"
proof (induction reds)
  case (Cons r reds)
  have "red_scan host (r # reds) \<noteq> None"
    using iffD2 [OF red_scan_complete [OF Cons.prems(1)] Cons.prems(2)] .
  then have "\<not> 0 < strcasecmp host (red_host_name r)"
    by (cases "0 < strcasecmp host (red_host_name r)") auto
  then have le: "\<not> strcasecmp (red_host_name r) host < 0" by (simp add: cstr)
  show ?case
  proof (cases "same_case host (red_host_name r)")
    case True
    then show ?thesis by (simp add: same_case_def cstr)
  next
    case False
    then have "knows host reds" using Cons.prems(2) by (simp add: knows_def)
    moreover have "red_sorted reds" using Cons.prems(1) by (simp add: red_sorted_def)
    ultimately have "red_place host new reds = (red_scan host reds, reds)" by (rule Cons.IH [rotated])
    with False le show ?thesis by (auto simp: same_case_def cstr)
  qed
qed (simp add: knows_def)

lemma red_place_new:
  "\<not> knows host reds \<Longrightarrow> red_place host (Some n) reds =
     (Some n, place_before (\<lambda>x. strcasecmp (red_host_name x) host < 0) n reds)"
  by (induction reds) (auto simp: knows_def same_case_def cstr)

lemma red_place_nomem: "snd (red_place host None reds) = reds"
  by (induction reds) (auto split: prod.split)

lemma red_place_sorted:
  assumes "red_sorted reds" "\<And>n. new = Some n \<Longrightarrow> red_host_name n = host"
  shows "red_sorted (snd (red_place host new reds))"
proof (cases "new = None \<or> knows host reds")
  case True
  with assms show ?thesis using red_place_known red_place_nomem by fastforce
next
  case False
  then obtain n where n: "new = Some n" "\<not> knows host reds" by auto
  with assms(2) have h: "red_host_name n = host" by simp
  have "\<forall>x\<in>set reds. strcasecmp (red_host_name x) (red_host_name n) \<noteq> 0"
    using n(2) h by (auto simp: knows_def same_case_def cstr)
  then show ?thesis
    using cmp_case_down.strict_sorted_place [of red_host_name reds n] assms(1)
    by (simp add: n red_place_new h red_sorted_def)
qed

text \<open>The list of known hosts, as \<open>simta_red_add_host\<close> extends it for a host type.\<close>

definition red_add :: "simta_red list \<Rightarrow> string \<Rightarrow> simta_red list" where
  "red_add reds host = snd (red_place host (Some (new_red host RED_HOST_TYPE_LOCAL)) reds)"

lemma new_red_name [simp]: "red_host_name (new_red h t) = h"
  by (simp add: new_red_def)

lemma set_red_add: "red_sorted reds \<Longrightarrow>
  set (red_add reds h) = (if knows h reds then set reds
     else insert (new_red h RED_HOST_TYPE_LOCAL) (set reds))"
  by (simp add: red_add_def red_place_known red_place_new)

interpretation red: keyed_table same_case "\<lambda>reds host. red_scan host reds" red_add red_sorted
proof
  fix reds and k k' :: string
  assume srt: "red_sorted reds"
  show srt': "red_sorted (red_add reds k)"
    unfolding red_add_def by (rule red_place_sorted [OF srt]) auto
  show "red_scan k' (red_add reds k) \<noteq> None" if "same_case k k'"
  proof -
    have "knows k' (red_add reds k)"
      using that by (auto simp: knows_def set_red_add [OF srt] same_case_def cstr)
    then show ?thesis by (rule iffD2 [OF red_scan_complete [OF srt']])
  qed
  show "red_scan k' (red_add reds k) = red_scan k' reds" if "\<not> same_case k k'"
    using that
    by (intro option_ext) (auto simp: red_scan_iff srt srt' set_red_add same_case_def cstr)
  show "red_add reds k = reds" if "red_scan k reds \<noteq> None"
  proof -
    have "knows k reds" by (rule iffD1 [OF red_scan_complete [OF srt] that])
    with srt show ?thesis by (simp add: red_add_def red_place_known)
  qed
  show "red_scan k reds = red_scan k' reds" if "same_case k k'"
    by (rule red_scan_cong [OF that])
next
  show "same_case k k" for k by (simp add: same_case_def cstr)
qed

subsection \<open>Properties\<close>

lemma new_red_type [simp]: "red_host_type (new_red h t) = t"
  by (simp add: new_red_def)

lemma red_place_result:
  assumes "red_sorted reds" "red_host_name n = h"
  shows "fst (red_place h (Some n) reds) = red_scan h (snd (red_place h (Some n) reds))"
proof (cases "knows h reds")
  case True
  with assms show ?thesis by (simp add: red_place_known)
next
  case False
  have "red_sorted (snd (red_place h (Some n) reds))"
    by (rule red_place_sorted [OF assms(1)]) (simp add: assms(2))
  then have "red_scan h (snd (red_place h (Some n) reds)) = Some n"
    unfolding red_scan_iff [OF \<open>red_sorted (snd (red_place h (Some n) reds))\<close>]
    using False assms(2) by (simp add: red_place_new same_case_def cstr)
  then show ?thesis using False by (simp add: red_place_new)
qed

lemma red_add_host_local:
  assumes "red_sorted (simta_red_hosts st)"
  shows "simta_red_add_host st h RED_HOST_TYPE_LOCAL True =
    (red_scan h (red_add (simta_red_hosts st) h),
     st\<lparr>simta_red_hosts := red_add (simta_red_hosts st) h\<rparr>)"
  using red_place_result [OF assms new_red_name, of h RED_HOST_TYPE_LOCAL]
  by (auto simp: simta_red_add_host_def red_add_def RED_HOST_TYPE_LOCAL_def
      RED_HOST_TYPE_REMOTE_def RED_HOST_TYPE_SECONDARY_MX_def split: prod.split)

lemma red_lookup_host_scan: "simta_red_lookup_host 0 st h = Inr (red_scan h (simta_red_hosts st))"
  by (simp add: simta_red_lookup_host_def simta_red_lookup_host_2_def)


definition red_ex :: red_lists where
  "red_ex = \<lparr>simta_red_hosts = [new_red ''b.edu'' 1, new_red ''A.edu'' 1],
     simta_secondary_mx = [], simta_remote_hosts = []\<rparr>"

lemma red_ex_sorted: "red_sorted (simta_red_hosts red_ex)"
  by code_simp




text \<open>Once the defaults are set, every entry has what delivery and reception need.\<close>

lemma action_default_complete:
  assumes "simta_red_action_default db pw mem red = (0, red')"
  shows "red_receive red' \<noteq> [] \<and> red_expand red' \<noteq> [] \<and> red_deliver_type red' \<noteq> 0 \<and>
    red_host_name red' = red_host_name red"
  using assms
  by (auto simp: simta_red_action_default_def add_two_def simta_red_add_action_def Let_def
      RED_DELIVER_BINARY_def RED_CODE_R_def RED_CODE_r_def RED_CODE_E_def
      split: if_splits option.splits prod.splits)

lemma action_default_idem:
  assumes "simta_red_action_default db pw mem red = (0, red')"
  shows "simta_red_action_default db pw mem' red' = (0, red')"
  using action_default_complete [OF assms] by (simp add: simta_red_action_default_def)

end
