(* ===== verification/Sys.thy ===== *)
theory Sys
  imports Prelude
begin

section \<open>What the program shares with the system: files, time, globals\<close>

text \<open>
  The spool directories, the clock and the outcome of the calls that may fail, with the
  configuration the components read.  A path is a directory global of simta.c and a file
  name: \<open>sprintf( f, "%s/E%s", dir, id )\<close> is \<open>(dir, ''E'' @ id)\<close>.  Names refer to inodes,
  so that a link and a rename keep the data.  Every call that can fail (system calls, memory,
  printing to a file) takes its outcome from \<open>w_oracle\<close>; when that is used up, calls
  succeed.  A call that cannot succeed (a missing name, an existing target) fails without it.
\<close>

datatype simta_dir = DIR_FAST | DIR_SLOW | DIR_LOCAL | DIR_DEAD | DIR_COMMAND

type_synonym path = "simta_dir \<times> string"

type_synonym timeval = "int \<times> int"

record sys =
  w_names :: "path \<rightharpoonup> nat"
  w_data :: "nat \<Rightarrow> string"
  w_mtime :: "nat \<Rightarrow> int"
  w_locked :: "nat \<Rightarrow> bool"
  w_next :: nat
  w_oracle :: "bool list"
  w_clock :: "timeval list"
  w_pid :: int
  simta_tv_now :: timeval
  simta_fast_files :: int

subsection \<open>Configuration\<close>

record conf =
  simta_mail_jail :: int
  simta_bounce_seconds :: int
  simta_jail_seconds :: int
  simta_mid_list_enable :: int
  simta_sender_list_enable :: int
  simta_min_wait :: int
  simta_max_wait :: int
  simta_bitbucket :: int
  simta_domain_trailing_dot :: int
  simta_queue_incoming_smtp_mail :: int
  simta_aggressive_delivery :: int
  simta_process_type :: int
  simta_punt_host :: "string option"
  simta_jail_host :: "string option"
  simta_queue_filter :: "string option"
  simta_hostname :: string
  simta_dns_config :: int
  simta_bounce_jail :: int
  simta_jail_bounce_address :: "string option"
  simta_seen_before_domain :: string
  simta_outbound_data_session_timer :: int
  simta_deliver_default_argv :: "string list"
  simta_default_alias_db :: "string option"
  simta_default_passwd_file :: "string option"

subsection \<open>Calls\<close>

definition outcome :: "'a sys_scheme \<Rightarrow> bool \<times> 'a sys_scheme" where
  "outcome s = (case w_oracle s of [] \<Rightarrow> (True, s) | b # bs \<Rightarrow> (b, s\<lparr>w_oracle := bs\<rparr>))"

definition unlink :: "path \<Rightarrow> 'a sys_scheme \<Rightarrow> bool \<times> 'a sys_scheme" where
  "unlink p s =
     (if w_names s p = None then (False, s)
      else (let (ok, s') = outcome s
            in if ok then (True, s'\<lparr>w_names := (w_names s')(p := None)\<rparr>) else (False, s')))"

definition rename :: "path \<Rightarrow> path \<Rightarrow> 'a sys_scheme \<Rightarrow> bool \<times> 'a sys_scheme" where
  "rename p q s =
     (if w_names s p = None then (False, s)
      else (let (ok, s') = outcome s
            in if ok then (True, s'\<lparr>w_names := (w_names s')(p := None, q := w_names s' p)\<rparr>)
               else (False, s')))"

definition link :: "path \<Rightarrow> path \<Rightarrow> 'a sys_scheme \<Rightarrow> bool \<times> 'a sys_scheme" where
  "link p q s =
     (if w_names s p = None \<or> w_names s q \<noteq> None then (False, s)
      else (let (ok, s') = outcome s
            in if ok then (True, s'\<lparr>w_names := (w_names s')(q := w_names s' p)\<rparr>)
               else (False, s')))"

text \<open>\<open>open\<close> with \<open>O_CREAT | O_EXCL\<close>: a new, empty inode.\<close>

definition open_excl :: "path \<Rightarrow> 'a sys_scheme \<Rightarrow> nat option \<times> 'a sys_scheme" where
  "open_excl p s =
     (if w_names s p \<noteq> None then (None, s)
      else (let (ok, s') = outcome s
            in if ok then
                 (Some (w_next s'),
                  s'\<lparr>w_names := (w_names s')(p := Some (w_next s')),
                     w_data := (w_data s')(w_next s' := []),
                     w_next := Suc (w_next s')\<rparr>)
               else (None, s')))"

definition open_file :: "path \<Rightarrow> 'a sys_scheme \<Rightarrow> nat option \<times> 'a sys_scheme" where
  "open_file p s =
     (if w_names s p = None then (None, s)
      else (let (ok, s') = outcome s in if ok then (w_names s' p, s') else (None, s')))"

definition append_data :: "nat \<Rightarrow> string \<Rightarrow> 'a sys_scheme \<Rightarrow> bool \<times> 'a sys_scheme" where
  "append_data ino str s =
     (let (ok, s') = outcome s
      in if ok then (True, s'\<lparr>w_data := (w_data s')(ino := w_data s' ino @ str)\<rparr>) else (False, s'))"

subsection \<open>Time\<close>

text \<open>
  \<open>gettimeofday\<close> gives the next reading of the clock, which may stand still or go back;
  \<open>simta_gettimeofday\<close> turns the readings into times that never repeat.  The field for
  microseconds is taken without overflow.
\<close>

definition gettimeofday :: "'a sys_scheme \<Rightarrow> timeval option \<times> 'a sys_scheme" where
  "gettimeofday s =
     (let (ok, s') = outcome s
      in if \<not> ok then (None, s')
         else (case w_clock s' of
                 [] \<Rightarrow> (Some (simta_tv_now s'), s')
               | t # ts \<Rightarrow> (Some t, s'\<lparr>w_clock := ts\<rparr>)))"

definition later_than :: "timeval \<Rightarrow> timeval \<Rightarrow> timeval" where
  "later_than prev tv =
     (if fst tv < fst prev \<or> (fst tv = fst prev \<and> snd tv \<le> snd prev) then
        (let usec = snd prev + 1
         in if usec \<le> snd prev then (fst prev + 1, 0) else (fst prev, usec))
      else tv)"

definition simta_gettimeofday :: "'a sys_scheme \<Rightarrow> timeval option \<times> 'a sys_scheme" where
  "simta_gettimeofday s =
     (case gettimeofday s of
        (None, s') \<Rightarrow> (None, s')
      | (Some tv, s') \<Rightarrow>
          (let now = later_than (simta_tv_now s') tv
           in (Some now, s'\<lparr>simta_tv_now := now\<rparr>)))"

definition tv_less :: "timeval \<Rightarrow> timeval \<Rightarrow> bool" where
  "tv_less a b \<longleftrightarrow> fst a < fst b \<or> (fst a = fst b \<and> snd a < snd b)"

lemma later_than_less: "tv_less prev (later_than prev tv)"
  by (auto simp: tv_less_def later_than_def)

lemma tv_less_trans: "tv_less a b \<Longrightarrow> tv_less b c \<Longrightarrow> tv_less a c"
  by (auto simp: tv_less_def)

lemma tv_less_irrefl [simp]: "\<not> tv_less a a"
  by (simp add: tv_less_def)

subsection \<open>What the calls leave alone\<close>

text \<open>
  Calls change names, data, the oracle and the clock only; the bundle \<open>calls\<close> unfolds
  them and \<open>outcome_cases\<close> splits on an outcome.
\<close>

lemma outcome_cases:
  obtains (good) "outcome s = (True, s\<lparr>w_oracle := tl (w_oracle s)\<rparr>)"
  | (bad) "outcome s = (False, s\<lparr>w_oracle := tl (w_oracle s)\<rparr>)"
  by (cases "w_oracle s"; cases "fst (outcome s)") (auto simp: outcome_def)

lemma outcome_sure [simp]: "w_oracle s = [] \<Longrightarrow> outcome s = (True, s)"
  by (simp add: outcome_def)

lemma outcome_same:
  "snd (outcome s) = s\<lparr>w_oracle := tl (w_oracle s)\<rparr>"
  by (cases "w_oracle s") (simp_all add: outcome_def)

lemma simta_gettimeofday_later:
  assumes "simta_gettimeofday s = (Some tv, s')"
  shows "tv_less (simta_tv_now s) tv \<and> simta_tv_now s' = tv"
  using assms
  by (cases s rule: outcome_cases)
    (auto simp: simta_gettimeofday_def gettimeofday_def Let_def later_than_less
      split: option.splits list.splits if_splits)

text \<open>Steps that leave the files and their count alone; two states may differ in extensions.\<close>

definition same_files :: "'a sys_scheme \<Rightarrow> 'b sys_scheme \<Rightarrow> bool" where
  "same_files s s' \<longleftrightarrow> w_names s' = w_names s \<and> w_data s' = w_data s \<and> w_next s' = w_next s \<and>
     w_mtime s' = w_mtime s \<and> w_locked s' = w_locked s \<and> w_pid s' = w_pid s \<and>
     simta_fast_files s' = simta_fast_files s"

named_theorems frames \<open>which calls leave the files alone\<close>

lemma same_files_refl [simp]: "same_files s s"
  by (simp add: same_files_def)

lemma same_files_trans: "same_files s t \<Longrightarrow> same_files t u \<Longrightarrow> same_files s u"
  by (simp add: same_files_def)

lemma same_files_sym: "same_files s t \<Longrightarrow> same_files t s"
  by (simp add: same_files_def)

lemma outcome_frame [frames]: "outcome s = (b, s') \<Longrightarrow> same_files s s'"
  by (cases s rule: outcome_cases) (auto simp: same_files_def)

lemma simta_gettimeofday_frame [frames]: "simta_gettimeofday s = (r, s') \<Longrightarrow> same_files s s'"
  by (cases s rule: outcome_cases)
    (auto simp: simta_gettimeofday_def gettimeofday_def Let_def same_files_def
      split: option.splits list.splits)

lemma simta_gettimeofday_sure:
  assumes "w_oracle s = []"
  shows "\<exists>tv s'. simta_gettimeofday s = (Some tv, s') \<and> same_files s s' \<and> w_oracle s' = []"
  using assms
  by (auto simp: simta_gettimeofday_def gettimeofday_def Let_def same_files_def split: list.splits)

text \<open>What the calls on files do, whatever the outcome.\<close>

lemma unlink_result:
  assumes "unlink p s = (ok, s')"
  shows "same_files (s\<lparr>w_names := (if ok then (w_names s)(p := None) else w_names s)\<rparr>) s' \<and>
    (ok \<longrightarrow> w_names s p \<noteq> None)"
  using assms by (cases s rule: outcome_cases) (auto simp: unlink_def same_files_def split: if_splits)

lemma rename_result:
  assumes "rename p q s = (ok, s')"
  shows "same_files (s\<lparr>w_names := (if ok then (w_names s)(p := None, q := w_names s p) else w_names s)\<rparr>) s' \<and>
    (ok \<longrightarrow> w_names s p \<noteq> None)"
  using assms by (cases s rule: outcome_cases) (auto simp: rename_def same_files_def split: if_splits)

lemma link_result:
  assumes "link p q s = (ok, s')"
  shows "same_files (s\<lparr>w_names := (if ok then (w_names s)(q := w_names s p) else w_names s)\<rparr>) s' \<and>
    (ok \<longrightarrow> w_names s p \<noteq> None \<and> w_names s q = None)"
  using assms by (cases s rule: outcome_cases) (auto simp: link_def same_files_def split: if_splits)

lemma open_excl_result:
  assumes "open_excl p s = (r, s')"
  shows "case r of
      None \<Rightarrow> same_files s s'
    | Some ino \<Rightarrow> ino = w_next s \<and> w_names s p = None \<and>
        same_files (s\<lparr>w_names := (w_names s)(p := Some ino), w_data := (w_data s)(ino := []),
          w_next := Suc ino\<rparr>) s'"
  using assms by (cases s rule: outcome_cases) (auto simp: open_excl_def same_files_def split: if_splits)

lemma open_file_result:
  "open_file p s = (r, s') \<Longrightarrow> same_files s s' \<and> (r \<noteq> None \<longrightarrow> r = w_names s p)"
  by (cases s rule: outcome_cases) (auto simp: open_file_def same_files_def split: if_splits)

lemma append_data_result:
  assumes "append_data ino str s = (ok, s')"
  shows "same_files (s\<lparr>w_data := (if ok then (w_data s)(ino := w_data s ino @ str) else w_data s)\<rparr>) s'"
  using assms by (cases s rule: outcome_cases) (auto simp: append_data_def same_files_def split: if_splits)

end
