(* ===== verification/Snet.thy ===== *)
theory Snet
  imports Prelude
begin

section \<open>Lines from a file or a peer: libsnet/snet.c\<close>

text \<open>
  A \<open>SNET\<close> on its reading side is what is still to be read (buffered or not), the state
  of the line-end recogniser and the largest buffer (0: no limit).  At the end of what is to
  be read the descriptor gives end of file, or an error or time-out when \<open>sn_eof\<close> is false.
  A line ends with LF, CR, CR LF or NUL.
\<close>

datatype sn_rstate = SNET_BOL | SNET_FUZZY | SNET_IN

record snet =
  sn_rest :: string
  sn_rstate :: sn_rstate
  sn_maxlen :: nat
  sn_eof :: bool

definition SNET_BUFLEN :: nat where
  "SNET_BUFLEN = 4096"

definition snet_attach :: "string \<Rightarrow> nat \<Rightarrow> snet" where
  "snet_attach input maxlen = \<lparr>sn_rest = input, sn_rstate = SNET_BOL, sn_maxlen = maxlen, sn_eof = True\<rparr>"

text \<open>
  The buffer grows by \<open>SNET_BUFLEN\<close> while it is shorter than \<open>sn_maxlen\<close>; a line that
  fills it without an end gives NULL.
\<close>

definition buffer_full :: "nat \<Rightarrow> nat \<Rightarrow> bool" where
  "buffer_full maxlen n \<longleftrightarrow> maxlen \<noteq> 0 \<and> SNET_BUFLEN \<le> n \<and> maxlen \<le> n \<and> SNET_BUFLEN dvd n"

text \<open>
  The loop from \<open>sn_rcur\<close>: \<open>line\<close> is what lies between \<open>sn_rcur\<close> and \<open>eol\<close>, last
  character first.
\<close>

fun getline_scan ::
  "nat \<Rightarrow> bool \<Rightarrow> sn_rstate \<Rightarrow> string \<Rightarrow> string \<Rightarrow> string option \<times> sn_rstate \<times> string" where
  "getline_scan maxlen eof st line [] =
     (if buffer_full maxlen (length line) \<or> \<not> eof \<or> line = [] then (None, st, rev line)
      else (Some (rev line), st, []))"
| "getline_scan maxlen eof st line (c # rest) =
     (if buffer_full maxlen (length line) then (None, st, rev line @ c # rest)
      else if c = CR \<or> c = NUL then (Some (rev line), SNET_FUZZY, rest)
      else if c = NL then
        (if st = SNET_FUZZY then getline_scan maxlen eof SNET_BOL [] rest
         else (Some (rev line), SNET_BOL, rest))
      else getline_scan maxlen eof SNET_IN (c # line) rest)"

definition snet_getline :: "snet \<Rightarrow> string option \<times> snet" where
  "snet_getline sn =
     (let (r, st, rest) = getline_scan (sn_maxlen sn) (sn_eof sn) (sn_rstate sn) [] (sn_rest sn)
      in (r, sn\<lparr>sn_rest := rest, sn_rstate := st\<rparr>))"

text \<open>Data that is left after a line end whose LF may still be there.\<close>

definition snet_hasdata :: "snet \<Rightarrow> bool \<times> snet" where
  "snet_hasdata sn =
     (if sn_rest sn = [] then (False, sn)
      else (let sn' = (if sn_rstate sn = SNET_FUZZY
                       then sn\<lparr>sn_rest := (if hd (sn_rest sn) = NL then tl (sn_rest sn) else sn_rest sn),
                               sn_rstate := SNET_BOL\<rparr>
                       else sn)
            in (sn_rest sn' \<noteq> [], sn')))"

subsection \<open>What a line is\<close>

definition line_char :: "char \<Rightarrow> bool" where
  "line_char c \<longleftrightarrow> c \<noteq> NL \<and> c \<noteq> CR \<and> c \<noteq> NUL"

definition one_line :: "string \<Rightarrow> bool" where
  "one_line l \<longleftrightarrow> list_all line_char l"

definition fits :: "nat \<Rightarrow> string \<Rightarrow> bool" where
  "fits maxlen l \<longleftrightarrow> maxlen = 0 \<or> length l < max maxlen SNET_BUFLEN"

lemma fits_not_full: "fits maxlen (a @ b) \<Longrightarrow> \<not> buffer_full maxlen (length a)"
  by (auto simp: fits_def buffer_full_def)

lemma getline_scan_line:
  assumes "one_line l" "fits maxlen (rev line @ l)" "st = SNET_FUZZY \<Longrightarrow> line = [] \<and> l \<noteq> []"
  shows "getline_scan maxlen eof st line (l @ NL # rest) = (Some (rev line @ l), SNET_BOL, rest)"
  using assms
proof (induction l arbitrary: line st)
  case Nil
  then show ?case using fits_not_full [of maxlen "rev line" "[]"] by auto
next
  case (Cons c l)
  have "\<not> buffer_full maxlen (length line)"
    using fits_not_full [of maxlen "rev line" "c # l"] Cons.prems(2) by simp
  moreover have "getline_scan maxlen eof SNET_IN (c # line) (l @ NL # rest) =
      (Some (rev (c # line) @ l), SNET_BOL, rest)"
    using Cons.prems by (intro Cons.IH) (simp_all add: one_line_def)
  ultimately show ?case using Cons.prems(1) by (simp add: one_line_def line_char_def)
qed

lemma snet_getline_line:
  assumes "one_line l" "fits (sn_maxlen sn) l" "sn_rstate sn \<noteq> SNET_FUZZY"
    "sn_rest sn = l @ NL # rest"
  shows "snet_getline sn = (Some l, sn\<lparr>sn_rest := rest, sn_rstate := SNET_BOL\<rparr>)"
  using getline_scan_line [of l "sn_maxlen sn" "[]" "sn_rstate sn" "sn_eof sn" rest] assms
  by (simp add: snet_getline_def)

lemma snet_getline_end:
  assumes "sn_rest sn = []"
  shows "snet_getline sn = (None, sn)"
  using assms by (simp add: snet_getline_def)

text \<open>A line of the file, whatever its ends, is no longer than the file and has no end in it.\<close>

lemma getline_scan_one_line:
  "getline_scan maxlen eof st line inp = (Some l, st', rest) \<Longrightarrow> one_line line \<Longrightarrow> one_line l"
  by (induction maxlen eof st line inp rule: getline_scan.induct)
    (auto simp: one_line_def line_char_def split: if_splits)

lemma snet_getline_one_line: "snet_getline sn = (Some l, sn') \<Longrightarrow> one_line l"
  using getline_scan_one_line [of "sn_maxlen sn" "sn_eof sn" "sn_rstate sn" "[]" "sn_rest sn" l]
  by (auto simp: snet_getline_def one_line_def split: prod.splits)

lemma getline_scan_shorter:
  "getline_scan maxlen eof st line inp = (Some l, st', rest) \<Longrightarrow>
     length rest < length inp \<or> (inp = [] \<and> line \<noteq> [] \<and> rest = [])"
  by (induction maxlen eof st line inp arbitrary: l st' rest rule: getline_scan.induct)
    (force split: if_splits)+

lemma snet_getline_shorter:
  "snet_getline sn = (Some l, sn') \<Longrightarrow> length (sn_rest sn') < length (sn_rest sn)"
  using getline_scan_shorter [of "sn_maxlen sn" "sn_eof sn" "sn_rstate sn" "[]" "sn_rest sn" l]
  by (auto simp: snet_getline_def split: prod.splits)

text \<open>All the lines up to the first NULL.\<close>

function snet_lines :: "snet \<Rightarrow> string list" where
  "snet_lines sn = (case snet_getline sn of (None, sn') \<Rightarrow> [] | (Some l, sn') \<Rightarrow> l # snet_lines sn')"
  by auto
termination
  by (relation "measure (\<lambda>sn. length (sn_rest sn))") (auto dest: snet_getline_shorter [OF sym])

declare snet_lines.simps [simp del]

definition with_ends :: "string \<Rightarrow> string list \<Rightarrow> string" where
  "with_ends e ls = concat (map (\<lambda>l. l @ e) ls)"

lemma with_ends_Cons: "with_ends e (l # ls) = l @ e @ with_ends e ls"
  by (simp add: with_ends_def)

lemma with_ends_append: "with_ends e (ls @ ms) = with_ends e ls @ with_ends e ms"
  by (simp add: with_ends_def)

lemma snet_lines_LF_aux:
  assumes "list_all one_line ls" "list_all (fits maxlen) ls"
  shows "sn_rest sn = with_ends [NL] ls \<Longrightarrow> sn_rstate sn \<noteq> SNET_FUZZY \<Longrightarrow> sn_maxlen sn = maxlen \<Longrightarrow>
    snet_lines sn = ls"
  using assms
proof (induction ls arbitrary: sn)
  case Nil
  then show ?case by (simp add: snet_lines.simps [of sn] snet_getline_end with_ends_def)
next
  case (Cons l ls)
  have "snet_getline sn = (Some l, sn\<lparr>sn_rest := with_ends [NL] ls, sn_rstate := SNET_BOL\<rparr>)"
    using Cons.prems by (intro snet_getline_line) (simp_all add: with_ends_Cons)
  moreover have "snet_lines (sn\<lparr>sn_rest := with_ends [NL] ls, sn_rstate := SNET_BOL\<rparr>) = ls"
    using Cons.prems by (intro Cons.IH) simp_all
  ultimately show ?case by (simp add: snet_lines.simps [of sn])
qed

lemma getline_scan_CR:
  assumes "one_line l" "fits maxlen (rev line @ l)"
  shows "getline_scan maxlen eof st line (l @ CR # rest) = (Some (rev line @ l), SNET_FUZZY, rest)"
  using assms
proof (induction l arbitrary: line st)
  case Nil
  then show ?case using fits_not_full [of maxlen "rev line" "[]"] by simp
next
  case (Cons c l)
  have "\<not> buffer_full maxlen (length line)"
    using fits_not_full [of maxlen "rev line" "c # l"] Cons.prems(2) by simp
  moreover have "getline_scan maxlen eof SNET_IN (c # line) (l @ CR # rest) =
      (Some (rev (c # line) @ l), SNET_FUZZY, rest)"
    using Cons.prems by (intro Cons.IH) (simp_all add: one_line_def)
  ultimately show ?case using Cons.prems(1) by (simp add: one_line_def line_char_def)
qed

text \<open>With CR LF, the LF of a line is dropped when the next line is read.\<close>

lemma snet_getline_CRLF:
  assumes "one_line l" "fits (sn_maxlen sn) l"
    "sn_rest sn = (if sn_rstate sn = SNET_FUZZY then [NL] else []) @ l @ CR # rest"
  shows "snet_getline sn = (Some l, sn\<lparr>sn_rest := rest, sn_rstate := SNET_FUZZY\<rparr>)"
proof -
  have "\<not> buffer_full (sn_maxlen sn) 0" by (simp add: buffer_full_def SNET_BUFLEN_def)
  then show ?thesis
    using getline_scan_CR [of l "sn_maxlen sn" "[]" "sn_eof sn" SNET_BOL rest]
      getline_scan_CR [of l "sn_maxlen sn" "[]" "sn_eof sn" "sn_rstate sn" rest] assms
    by (simp add: snet_getline_def)
qed

lemma snet_lines_CRLF_aux:
  assumes "list_all one_line ls" "list_all (fits maxlen) ls"
  shows "sn_rest sn = (if sn_rstate sn = SNET_FUZZY then [NL] else []) @ with_ends [CR, NL] ls \<Longrightarrow>
    sn_maxlen sn = maxlen \<Longrightarrow> snet_lines sn = ls"
  using assms
proof (induction ls arbitrary: sn)
  case Nil
  have "\<not> buffer_full (sn_maxlen sn) 0" by (simp add: buffer_full_def SNET_BUFLEN_def)
  with Nil have "snet_getline sn = (None, snd (snet_getline sn))"
    by (simp add: snet_getline_def with_ends_def split: if_splits)
  then show ?case by (metis (no_types, lifting) snet_lines.simps case_prod_conv option.case(1))
next
  case (Cons l ls)
  let ?sn = "sn\<lparr>sn_rest := NL # with_ends [CR, NL] ls, sn_rstate := SNET_FUZZY\<rparr>"
  have "snet_getline sn = (Some l, ?sn)"
    using Cons.prems by (intro snet_getline_CRLF) (simp_all add: with_ends_Cons)
  moreover have "snet_lines ?sn = ls"
    using Cons.prems by (intro Cons.IH) simp_all
  ultimately show ?case by (simp add: snet_lines.simps [of sn])
qed

text \<open>
  C33: lines without line-end characters that fit the buffer are read back one by one,
  whether the writer ended them with LF or with CR LF, and then NULL follows.
\<close>

theorem snet_lines_ends:
  assumes "list_all one_line ls" "list_all (fits maxlen) ls" "e = [NL] \<or> e = [CR, NL]"
  shows "snet_lines (snet_attach (with_ends e ls) maxlen) = ls"
  using assms(3)
proof
  assume "e = [NL]"
  then show ?thesis using snet_lines_LF_aux [OF assms(1,2)] by (simp add: snet_attach_def)
next
  assume "e = [CR, NL]"
  then show ?thesis using snet_lines_CRLF_aux [OF assms(1,2)] by (simp add: snet_attach_def)
qed

theorem snet_lines_ends_witness:
  "snet_lines (snet_attach (with_ends [CR, NL] [''220 a'', '''', ''x'']) 1048576) = [''220 a'', '''', ''x'']"
  by (rule snet_lines_ends) (simp_all add: one_line_def line_char_def fits_def SNET_BUFLEN_def)

end
