(* ===== verification/Envelope.thy ===== *)
theory Envelope
  imports Sys LineFile StabList
begin

section \<open>Envelopes: envelope.c, in memory\<close>

text \<open>
  An envelope is a message in a spool directory: its sender, its recipients with their
  delivery status, its place in a host queue.  This theory holds the record and the
  operations that touch no file; EnvFile.thy holds the command files.  A directory is
  never NULL here (only the test program expander.c makes such envelopes).  The lists of
  messages and of senders are kept as sorted sequences of keys and data, the form to which
  DllHeap.thy refines the pointer code.
\<close>

named_theorems env_simps \<open>unfolding the operations on envelopes\<close>

subsection \<open>Data\<close>

definition R_TEMPFAIL :: int where "R_TEMPFAIL = 0"
definition R_ACCEPTED :: int where "R_ACCEPTED = 1"
definition R_FAILED :: int where "R_FAILED = 2"

definition ENV_AGE_UNKNOWN :: int where "ENV_AGE_UNKNOWN = 0"
definition ENV_AGE_OLD :: int where "ENV_AGE_OLD = 1"
definition ENV_AGE_NOT_OLD :: int where "ENV_AGE_NOT_OLD = 2"

definition ENV_JAIL_NO_CHANGE :: int where "ENV_JAIL_NO_CHANGE = 0"
definition ENV_JAIL_PAROLEE :: int where "ENV_JAIL_PAROLEE = 1"
definition ENV_JAIL_PRISONER :: int where "ENV_JAIL_PRISONER = 2"

lemmas env_codes = R_TEMPFAIL_def R_ACCEPTED_def R_FAILED_def ENV_AGE_UNKNOWN_def ENV_AGE_OLD_def
  ENV_AGE_NOT_OLD_def ENV_JAIL_NO_CHANGE_def ENV_JAIL_PAROLEE_def ENV_JAIL_PRISONER_def

definition flag_bit :: "nat \<Rightarrow> 32 word" where
  "flag_bit n = push_bit n 1"

definition ENV_FLAG_TFILE :: "32 word" where "ENV_FLAG_TFILE = flag_bit 0"
definition ENV_FLAG_EFILE :: "32 word" where "ENV_FLAG_EFILE = flag_bit 1"
definition ENV_FLAG_DFILE :: "32 word" where "ENV_FLAG_DFILE = flag_bit 2"
definition ENV_FLAG_BOUNCE :: "32 word" where "ENV_FLAG_BOUNCE = flag_bit 3"
definition ENV_FLAG_TEMPFAIL :: "32 word" where "ENV_FLAG_TEMPFAIL = flag_bit 4"
definition ENV_FLAG_PUNT :: "32 word" where "ENV_FLAG_PUNT = flag_bit 5"

lemmas env_flags = ENV_FLAG_TFILE_def ENV_FLAG_EFILE_def ENV_FLAG_DFILE_def ENV_FLAG_BOUNCE_def
  ENV_FLAG_TEMPFAIL_def ENV_FLAG_PUNT_def

text \<open>\<open>flags & f\<close>, \<open>flags |= f\<close> and \<open>flags & ~f\<close>.\<close>

unbundle bit_operations_syntax

definition has_flag :: "32 word \<Rightarrow> 32 word \<Rightarrow> bool" where
  "has_flag flags f \<longleftrightarrow> flags AND f \<noteq> 0"

definition set_flag :: "32 word \<Rightarrow> 32 word \<Rightarrow> 32 word" where
  "set_flag flags f = flags OR f"

definition clear_flag :: "32 word \<Rightarrow> 32 word \<Rightarrow> 32 word" where
  "clear_flag flags f = flags AND NOT f"

record recipient =
  r_rcpt :: string
  r_status :: int
  r_err_text :: "line_file option"

text \<open>The host queue an envelope is in.\<close>

datatype hq_ref = UnexpandedQ | PuntQ | HostQ string

record envelope =
  e_rcpt :: "recipient list"
  e_sender_entry :: "(string \<times> string) option"
  e_env_list_entry :: "string option"
  e_n_rcpt :: int
  e_n_exp_level :: int
  e_cycle :: int
  e_hq :: "hq_ref option"
  e_error :: int
  e_err_text :: "line_file option"
  e_dir :: simta_dir
  e_mail :: "string option"
  e_dinode :: nat
  e_age :: int
  e_flags :: "32 word"
  e_jail :: int
  e_etime :: int
  e_hostname :: "string option"
  e_id :: string
  e_attributes :: int

text \<open>What the lists of messages and of senders hold.\<close>

record sender_list =
  sl_n_entries :: int
  sl_entries :: "(string \<times> bool) list"

record env_state = sys +
  simta_env_list :: "(string \<times> bool) list"
  simta_sender_list :: "(string \<times> sender_list option) list"

subsection \<open>Flags\<close>

lemma bit_flag: "bit (flag_bit m) n \<longleftrightarrow> m = n \<and> n < 32"
  unfolding flag_bit_def by (auto simp: bit_simps simp del: push_bit_of_1)

lemma has_flag_bit [simp]: "n < 32 \<Longrightarrow> has_flag w (flag_bit n) \<longleftrightarrow> bit w n"
proof -
  assume n: "n < 32"
  have "bit (w AND flag_bit n) m \<longleftrightarrow> m = n \<and> bit w n" for m
    using n by (auto simp: bit_and_iff bit_flag)
  then show ?thesis
    by (metis has_flag_def bit_0_eq bot_apply bot_bool_def bit_word_eqI)
qed

lemma has_set_flag [simp]:
  "n < 32 \<Longrightarrow> has_flag (set_flag w f) (flag_bit n) \<longleftrightarrow> has_flag w (flag_bit n) \<or> has_flag f (flag_bit n)"
  by (simp add: set_flag_def bit_simps)

lemma has_clear_flag [simp]:
  "n < 32 \<Longrightarrow> has_flag (clear_flag w f) (flag_bit n) \<longleftrightarrow> has_flag w (flag_bit n) \<and> \<not> has_flag f (flag_bit n)"
  by (auto simp: clear_flag_def bit_simps)

lemma has_flag_of_flag [simp]:
  "n < 32 \<Longrightarrow> m < 32 \<Longrightarrow> has_flag (flag_bit m) (flag_bit n) \<longleftrightarrow> m = n"
  by (auto simp: bit_flag)

subsection \<open>Fields\<close>

definition env_jail_set :: "envelope \<Rightarrow> int \<Rightarrow> envelope" where
  "env_jail_set e val = e\<lparr>e_jail := val\<rparr>"

text \<open>A name is set once; a NULL name is compared only when there is a name already.\<close>

definition env_hostname :: "envelope \<Rightarrow> string option \<Rightarrow> 'a sys_scheme \<Rightarrow> (int \<times> envelope \<times> 'a sys_scheme) run" where
  "env_hostname env hostname s =
     (case e_hostname env of
        Some _ \<Rightarrow> (if hostname = None then Inl NullDeref else Inr (0, env, s))
      | None \<Rightarrow>
          (if hostname \<noteq> None \<and> hostname \<noteq> Some [] then
             (let (ok, s') = outcome s
              in if ok then Inr (0, env\<lparr>e_hostname := hostname\<rparr>, s') else Inr (1, env, s'))
           else Inr (0, env, s)))"

definition env_sender :: "envelope \<Rightarrow> string \<Rightarrow> 'a sys_scheme \<Rightarrow> int \<times> envelope \<times> 'a sys_scheme" where
  "env_sender env mail s =
     (if e_mail env \<noteq> None then (1, env, s)
      else (let (ok, s') = outcome s
            in if ok then (0, env\<lparr>e_mail := Some mail\<rparr>, s') else (1, env, s')))"

definition new_recipient :: "string \<Rightarrow> recipient" where
  "new_recipient addr = \<lparr>r_rcpt = addr, r_status = 0, r_err_text = None\<rparr>"

text \<open>A recipient goes to the front; NULL is the empty address.\<close>

definition env_recipient :: "envelope \<Rightarrow> string option \<Rightarrow> 'a sys_scheme \<Rightarrow> int \<times> envelope \<times> 'a sys_scheme" where
  "env_recipient e addr s =
     (let (malloc_ok, s1) = outcome s
      in if \<not> malloc_ok then (- 1, e, s1)
         else (let (strdup_ok, s2) = outcome s1
               in if \<not> strdup_ok then (- 1, e, s2)
                  else (0, e\<lparr>e_rcpt := new_recipient (case addr of None \<Rightarrow> [] | Some a \<Rightarrow> a) # e_rcpt e,
                             e_n_rcpt := e_n_rcpt e + 1\<rparr>, s2)))"

definition env_rcpt_free :: "envelope \<Rightarrow> envelope" where
  "env_rcpt_free env = env\<lparr>e_rcpt := [], e_n_rcpt := 0\<rparr>"

definition clear_recipient :: "recipient \<Rightarrow> recipient" where
  "clear_recipient r = r\<lparr>r_err_text := None, r_status := 0\<rparr>"

definition env_clear_errors :: "envelope \<Rightarrow> envelope" where
  "env_clear_errors env =
     env\<lparr>e_error := 0, e_err_text := None,
         e_flags := clear_flag (clear_flag (e_flags env) ENV_FLAG_BOUNCE) ENV_FLAG_TEMPFAIL,
         e_rcpt := map clear_recipient (e_rcpt env)\<rparr>"

subsection \<open>The lists of messages and senders\<close>

text \<open>
  \<open>dll_lookup_or_create\<close> on the sequence a list represents: an entry with the key is left
  alone, otherwise an entry without data is put in its place.
\<close>

fun dll_get :: "string \<Rightarrow> (string \<times> 'v) list \<Rightarrow> 'v option" where
  "dll_get key [] = None"
| "dll_get key ((k, v) # xs) =
     (if strcasecmp key k = 0 then Some v
      else if strcasecmp key k < 0 then None else dll_get key xs)"

fun dll_put :: "string \<Rightarrow> 'v \<Rightarrow> (string \<times> 'v) list \<Rightarrow> (string \<times> 'v) list" where
  "dll_put key v [] = [(key, v)]"
| "dll_put key v ((k, w) # xs) =
     (if strcasecmp key k = 0 then (k, v) # xs
      else if strcasecmp key k < 0 then (key, v) # (k, w) # xs
      else (k, w) # dll_put key v xs)"

fun dll_del :: "string \<Rightarrow> (string \<times> 'v) list \<Rightarrow> (string \<times> 'v) list" where
  "dll_del key [] = []"
| "dll_del key ((k, v) # xs) = (if strcasecmp key k = 0 then xs else (k, v) # dll_del key xs)"

definition env_list_add :: "envelope \<Rightarrow> 'a env_state_scheme \<Rightarrow> int \<times> envelope \<times> 'a env_state_scheme" where
  "env_list_add e s =
     (case dll_get (e_id e) (simta_env_list s) of
        Some True \<Rightarrow> (0, e, s)
      | Some False \<Rightarrow>
          (0, e\<lparr>e_env_list_entry := Some (e_id e)\<rparr>,
           s\<lparr>simta_env_list := dll_put (e_id e) True (simta_env_list s)\<rparr>)
      | None \<Rightarrow>
          (let (ok, s') = outcome s
           in if ok then (0, e\<lparr>e_env_list_entry := Some (e_id e)\<rparr>,
                          s'\<lparr>simta_env_list := dll_put (e_id e) True (simta_env_list s')\<rparr>)
              else (1, e, s')))"

text \<open>
  The sender's list: found, or made with its entry (two allocations for the entry, one for
  the list).  An entry whose list could not be made stays without data.
\<close>

definition sender_list_get :: "string \<Rightarrow> 'a env_state_scheme \<Rightarrow> sender_list option \<times> 'a env_state_scheme" where
  "sender_list_get mail s =
     (case dll_get mail (simta_sender_list s) of
        Some (Some l) \<Rightarrow> (Some l, s)
      | r \<Rightarrow>
          (let (ok, s1) = (if r = None then
                 (let (ok1, s1) = outcome s
                  in if ok1 then outcome s1 else (False, s1)) else (True, s))
           in if \<not> ok then (None, s1)
              else (let (ok2, s2) = outcome s1;
                        l = \<lparr>sl_n_entries = 0, sl_entries = []\<rparr>
                    in if ok2
                       then (Some l, s2\<lparr>simta_sender_list := dll_put mail (Some l) (simta_sender_list s2)\<rparr>)
                       else (None, s2\<lparr>simta_sender_list := dll_put mail None (simta_sender_list s2)\<rparr>))))"

definition sender_list_add :: "envelope \<Rightarrow> 'a env_state_scheme \<Rightarrow> (int \<times> envelope \<times> 'a env_state_scheme) run" where
  "sender_list_add e s =
     (case e_mail e of
        None \<Rightarrow> Inl NullDeref
      | Some mail \<Rightarrow>
          (case sender_list_get mail s of
             (None, s1) \<Rightarrow> Inr (1, e, s1)
           | (Some l, s1) \<Rightarrow>
               (if dll_get (e_id e) (sl_entries l) = Some True then Inr (0, e, s1)
                else
                  (let (ok1, s2) = (if dll_get (e_id e) (sl_entries l) = None then outcome s1 else (True, s1))
                   in if \<not> ok1 then Inr (1, e, s2)
                      else
                        (let (ok2, s3) = outcome s2;
                             l' = \<lparr>sl_n_entries = sl_n_entries l + (if ok2 then 1 else 0),
                                   sl_entries = dll_put (e_id e) ok2 (sl_entries l)\<rparr>;
                             s4 = s3\<lparr>simta_sender_list := dll_put mail (Some l') (simta_sender_list s3)\<rparr>
                         in if ok2 then Inr (0, e\<lparr>e_sender_entry := Some (mail, e_id e)\<rparr>, s4)
                            else Inr (1, e, s4))))))"

subsection \<open>Making and freeing an envelope\<close>

definition hex_digit :: "nat \<Rightarrow> char" where
  "hex_digit n = char_of (if n < 10 then 48 + n else 55 + n)"

fun show_hex :: "nat \<Rightarrow> string" where
  "show_hex n = (if n < 16 then [hex_digit n] else show_hex (n div 16) @ [hex_digit (n mod 16)])"

declare show_hex.simps [simp del]

text \<open>The cast to \<open>unsigned long\<close>.\<close>

definition unsigned_long :: "int \<Rightarrow> nat" where
  "unsigned_long i = nat (i mod 2 ^ 64)"

definition queue_id :: "timeval \<Rightarrow> int \<Rightarrow> string" where
  "queue_id tv pid =
     show_hex (unsigned_long (fst tv)) @ CHR ''.'' # show_hex (unsigned_long (snd tv)) @
     CHR ''.'' # show_int pid"

definition zero_env :: "simta_dir \<Rightarrow> string \<Rightarrow> envelope" where
  "zero_env dir idn =
     \<lparr>e_rcpt = [], e_sender_entry = None, e_env_list_entry = None, e_n_rcpt = 0,
      e_n_exp_level = 0, e_cycle = 0, e_hq = None, e_error = 0, e_err_text = None,
      e_dir = dir, e_mail = None, e_dinode = 0, e_age = 0, e_flags = 0, e_jail = 0,
      e_etime = 0, e_hostname = None, e_id = idn, e_attributes = 0\<rparr>"

text \<open>\<open>env_create\<close> in three steps: the id, the sender, and what a parent passes on.\<close>

definition env_create_id :: "string option \<Rightarrow> 'a sys_scheme \<Rightarrow> string option \<times> 'a sys_scheme" where
  "env_create_id idn s =
     (if idn = None \<or> idn = Some [] then
        (case simta_gettimeofday s of
           (None, s1) \<Rightarrow> (None, s1)
         | (Some tv, s1) \<Rightarrow>
             (if w_pid s1 < 0 then (None, s1)
              else (let (ok, s2) = outcome s1
                    in if ok then (Some (queue_id tv (w_pid s2)), s2) else (None, s2))))
      else (let (ok, s1) = outcome s in if ok then (idn, s1) else (None, s1)))"

definition env_inherit :: "conf \<Rightarrow> envelope option \<Rightarrow> envelope \<Rightarrow> envelope" where
  "env_inherit c parent env =
     (case parent of
        Some p \<Rightarrow> env_jail_set (env\<lparr>e_n_exp_level := e_n_exp_level p + 1\<rparr>) (e_jail p)
      | None \<Rightarrow> if simta_mail_jail c \<noteq> 0 then env_jail_set env ENV_JAIL_PRISONER else env)"

definition env_create ::
  "conf \<Rightarrow> simta_dir \<Rightarrow> string option \<Rightarrow> string option \<Rightarrow> envelope option \<Rightarrow> 'a sys_scheme \<Rightarrow>
   envelope option \<times> 'a sys_scheme" where
  "env_create c dir idn mail parent s =
     (let (malloc_ok, s1) = outcome s
      in if \<not> malloc_ok then (None, s1)
         else (case env_create_id idn s1 of
             (None, s2) \<Rightarrow> (None, s2)
           | (Some i, s2) \<Rightarrow>
               (case mail of
                  None \<Rightarrow> (Some (env_inherit c parent (zero_env dir i)), s2)
                | Some m \<Rightarrow>
                    (case env_sender (zero_env dir i) m s2 of
                       (rc, env, s3) \<Rightarrow>
                         if rc \<noteq> 0 then (None, s3)
                         else (Some (env_inherit c parent env), s3)))))"

text \<open>\<open>env_free\<close> as far as others see it: the lists of messages and senders.\<close>

definition sender_list_drop :: "string \<Rightarrow> string \<Rightarrow> 'a env_state_scheme \<Rightarrow> 'a env_state_scheme" where
  "sender_list_drop mail idn s =
     (case dll_get mail (simta_sender_list s) of
        Some (Some l) \<Rightarrow>
          (let l' = \<lparr>sl_n_entries = sl_n_entries l - 1, sl_entries = dll_del idn (sl_entries l)\<rparr>
           in s\<lparr>simta_sender_list :=
                (if sl_entries l' = [] then dll_del mail (simta_sender_list s)
                 else dll_put mail (Some l') (simta_sender_list s))\<rparr>)
      | _ \<Rightarrow> s)"

definition env_free :: "envelope option \<Rightarrow> 'a env_state_scheme \<Rightarrow> 'a env_state_scheme" where
  "env_free env s =
     (case env of
        None \<Rightarrow> s
      | Some e \<Rightarrow>
          (let s1 = (case e_env_list_entry e of
                 None \<Rightarrow> s
               | Some key \<Rightarrow> s\<lparr>simta_env_list := dll_del key (simta_env_list s)\<rparr>)
           in (case e_sender_entry e of
                 None \<Rightarrow> s1
               | Some (mail, idn) \<Rightarrow> sender_list_drop mail idn s1)))"

subsection \<open>Age\<close>

text \<open>The age of a message is that of its data file, found out once per envelope.\<close>

definition env_is_old :: "conf \<Rightarrow> envelope \<Rightarrow> nat \<Rightarrow> 'a sys_scheme \<Rightarrow> int \<times> envelope \<times> 'a sys_scheme" where
  "env_is_old c env dfile s =
     (if e_age env = ENV_AGE_UNKNOWN then
        (let (fstat_ok, s1) = outcome s
         in if \<not> fstat_ok then (0, env, s1)
            else (case simta_gettimeofday s1 of
                (None, s2) \<Rightarrow> (0, env, s2)
              | (Some now, s2) \<Rightarrow>
                  (let env' = (if 0 < simta_bounce_seconds c then
                         (if simta_bounce_seconds c < fst now - w_mtime s2 dfile
                          then env\<lparr>e_age := ENV_AGE_OLD\<rparr> else env\<lparr>e_age := ENV_AGE_NOT_OLD\<rparr>)
                       else env)
                   in (if e_age env' = ENV_AGE_OLD then 1 else 0, env', s2))))
      else (if e_age env = ENV_AGE_OLD then 1 else 0, env, s))"

subsection \<open>Operations that leave the files alone\<close>

lemma env_hostname_frame [frames]: "env_hostname env h s = Inr (rc, env', s') \<Longrightarrow> same_files s s'"
  by (auto simp: env_hostname_def Let_def split: option.splits if_splits prod.splits dest: frames)

lemma env_sender_frame [frames]: "env_sender env m s = (rc, env', s') \<Longrightarrow> same_files s s'"
  by (auto simp: env_sender_def Let_def split: if_splits prod.splits dest: frames)

lemma env_recipient_frame [frames]: "env_recipient env a s = (rc, env', s') \<Longrightarrow> same_files s s'"
  by (auto simp: env_recipient_def Let_def split: if_splits prod.splits
      dest!: frames elim: same_files_trans)

lemma env_list_add_frame [frames]: "env_list_add e s = (rc, e', s') \<Longrightarrow> same_files s s'"
  by (auto simp: env_list_add_def Let_def same_files_def split: bool.splits if_splits prod.splits option.splits
      dest!: frames)

lemma sender_list_get_frame [frames]: "sender_list_get m s = (r, s') \<Longrightarrow> same_files s s'"
  by (auto simp: sender_list_get_def Let_def same_files_def split: if_splits prod.splits option.splits
      dest!: frames)

lemma sender_list_add_frame [frames]: "sender_list_add e s = Inr (rc, e', s') \<Longrightarrow> same_files s s'"
  by (auto simp: sender_list_add_def Let_def same_files_def split: if_splits prod.splits option.splits
      dest!: frames)

lemma env_free_frame: "same_files s (env_free e s)"
  by (auto simp: env_free_def sender_list_drop_def same_files_def Let_def split: option.splits prod.splits)

subsection \<open>Queue ids do not repeat\<close>

definition hex_val :: "char \<Rightarrow> nat" where
  "hex_val c = (if code c < 58 then code c - 48 else code c - 55)"

lemma hex_val_digit: "n < 16 \<Longrightarrow> hex_val (hex_digit n) = n"
  by (simp add: hex_val_def hex_digit_def of_char_of)

lemma hex_digit_not_dot: "n < 16 \<Longrightarrow> hex_digit n \<noteq> CHR ''.''"
proof -
  assume "n < 16"
  then have "code (hex_digit n) \<noteq> code (CHR ''.'')"
    by (auto simp: hex_digit_def of_char_of)
  then show ?thesis by metis
qed

lemma show_hex_val: "foldl (\<lambda>a c. 16 * a + hex_val c) 0 (show_hex n) = n"
proof (induction n rule: show_hex.induct)
  case (1 n)
  show ?case
  proof (cases "n < 16")
    case True
    then show ?thesis by (simp add: show_hex.simps [of n] hex_val_digit)
  next
    case False
    with 1 show ?thesis by (simp add: show_hex.simps [of n] hex_val_digit)
  qed
qed

lemma show_hex_inject [simp]: "show_hex a = show_hex b \<longleftrightarrow> a = b"
  by (metis show_hex_val)

lemma show_hex_no_dot: "CHR ''.'' \<notin> set (show_hex n)"
proof (induction n rule: show_hex.induct)
  case (1 n)
  then show ?case
    by (cases "n < 16") (use hex_digit_not_dot [of n] hex_digit_not_dot [of "n mod 16"] in
      \<open>auto simp: show_hex.simps [of n] dest: sym\<close>)
qed

lemma sep_inject:
  "c \<notin> set a \<Longrightarrow> c \<notin> set a' \<Longrightarrow> a @ c # b = a' @ c # b' \<longleftrightarrow> a = a' \<and> b = b'"
proof (induction a arbitrary: a')
  case Nil
  then show ?case by (cases a') auto
next
  case (Cons x a)
  then show ?case by (cases a') auto
qed

definition long_time :: "timeval \<Rightarrow> bool" where
  "long_time tv \<longleftrightarrow> 0 \<le> fst tv \<and> fst tv < 2 ^ 64 \<and> 0 \<le> snd tv \<and> snd tv < 2 ^ 64"

lemma unsigned_long_inject:
  "0 \<le> a \<Longrightarrow> a < 2 ^ 64 \<Longrightarrow> 0 \<le> b \<Longrightarrow> b < 2 ^ 64 \<Longrightarrow> unsigned_long a = unsigned_long b \<longleftrightarrow> a = b"
  by (simp add: unsigned_long_def nat_eq_iff)

lemma queue_id_inject:
  assumes "long_time t" "long_time t'" "queue_id t p = queue_id t' p'"
  shows "t = t'"
proof -
  have "unsigned_long (fst t) = unsigned_long (fst t')" "unsigned_long (snd t) = unsigned_long (snd t')"
    using assms(3) by (simp_all add: queue_id_def sep_inject show_hex_no_dot)
  with assms(1,2) show ?thesis by (simp add: long_time_def unsigned_long_inject prod_eq_iff)
qed

lemma env_create_tv:
  assumes "env_create c dir None m p s = (Some e, s')"
  shows "\<exists>tv. tv_less (simta_tv_now s) tv \<and> simta_tv_now s' = tv \<and> e_id e = queue_id tv (w_pid s)"
proof -
  have tv: "simta_tv_now (snd (outcome t)) = simta_tv_now t" "w_pid (snd (outcome t)) = w_pid t"
    for t :: "'a sys_scheme"
    by (simp_all add: outcome_same)
  have ids: "\<exists>tv. tv_less (simta_tv_now t) tv \<and> simta_tv_now t' = tv \<and> i = queue_id tv (w_pid t)"
    if it: "env_create_id None t = (Some i, t')" for t t' :: "'a sys_scheme" and i
  proof -
    obtain now t1 where t1: "simta_gettimeofday t = (Some now, t1)"
      using it by (cases "simta_gettimeofday t"; cases "fst (simta_gettimeofday t)")
        (auto simp: env_create_id_def)
    with it have "i = queue_id now (w_pid t1)" "simta_tv_now t' = simta_tv_now t1"
      by (cases t1 rule: outcome_cases; auto simp: env_create_id_def split: if_splits)+
    then show ?thesis
      using simta_gettimeofday_later [OF t1] simta_gettimeofday_frame [OF t1]
      by (intro exI [of _ now]) (simp add: same_files_def)
  qed
  have inh: "e_id (env_inherit c p x) = e_id x" for x
    by (simp add: env_inherit_def env_jail_set_def split: option.split)
  have snd_s: "simta_tv_now s3 = simta_tv_now t \<and> e_id env = e_id x"
    if "env_sender x mail t = (rc, env, s3)" for x mail t rc env and s3 :: "'a sys_scheme"
    using that by (cases t rule: outcome_cases) (auto simp: env_sender_def split: if_splits)
  obtain s1 where s1: "s1 = snd (outcome s)" by simp
  obtain i s2 where i: "env_create_id None s1 = (Some i, s2)"
    using assms s1 by (auto simp: env_create_def split: prod.splits option.splits if_splits)
  moreover have "e_id e = i \<and> simta_tv_now s' = simta_tv_now s2"
    using assms i s1 by (auto simp: env_create_def inh zero_env_def
        split: prod.splits option.splits if_splits dest!: snd_s)
  ultimately show ?thesis using ids [OF i] tv [of s] s1 by auto
qed

text \<open>
  C32: two envelopes made one after the other without an id of their own, however the clock
  is set between the calls, get different queue ids: no message takes the files of another.
\<close>

theorem env_create_fresh_ids:
  assumes "env_create c dir None m p s = (Some e, s')"
    and "env_create c' dir' None m' p' t = (Some e', t')"
    and "\<not> tv_less (simta_tv_now t) (simta_tv_now s')"
    and "long_time (simta_tv_now s')" "long_time (simta_tv_now t')"
  shows "e_id e \<noteq> e_id e'"
proof
  assume "e_id e = e_id e'"
  then have eq: "simta_tv_now s' = simta_tv_now t'"
    using env_create_tv [OF assms(1)] env_create_tv [OF assms(2)] queue_id_inject [OF assms(4,5)]
    by metis
  have "tv_less (simta_tv_now t) (simta_tv_now t')" using env_create_tv [OF assms(2)] by auto
  with eq assms(3) show False by simp
qed

definition sys_ex :: sys where
  "sys_ex = \<lparr>w_names = (\<lambda>_. None), w_data = (\<lambda>_. []), w_mtime = (\<lambda>_. 0), w_locked = (\<lambda>_. False),
     w_next = 1, w_oracle = [], w_clock = [(1000, 5), (900, 7)], w_pid = 42, simta_tv_now = (0, 0),
     simta_fast_files = 0\<rparr>"

definition conf_ex :: conf where
  "conf_ex = \<lparr>simta_mail_jail = 0, simta_bounce_seconds = 259200, simta_jail_seconds = 3600,
     simta_mid_list_enable = 0, simta_sender_list_enable = 0, simta_min_wait = 300,
     simta_max_wait = 80000, simta_bitbucket = -1, simta_domain_trailing_dot = 1,
     simta_queue_incoming_smtp_mail = 0, simta_aggressive_delivery = 1, simta_process_type = 2,
     simta_punt_host = None, simta_jail_host = None, simta_queue_filter = None,
     simta_hostname = ''mx.example.edu'', simta_dns_config = 1, simta_bounce_jail = 0,
     simta_jail_bounce_address = None, simta_seen_before_domain = ''example.edu'',
     simta_outbound_data_session_timer = 0, simta_deliver_default_argv = [''mail.local'', ''$R''],
     simta_default_alias_db = None, simta_default_passwd_file = Some ''/etc/passwd''\<rparr>"

theorem env_create_fresh_ids_witness:
  "\<exists>e s' e' t'. env_create conf_ex DIR_FAST None (Some ''a'') None sys_ex = (Some e, s') \<and>
     env_create conf_ex DIR_FAST None (Some ''a'') None s' = (Some e', t') \<and> e_id e \<noteq> e_id e'"
proof -
  obtain e s' where 1: "env_create conf_ex DIR_FAST None (Some ''a'') None sys_ex = (Some e, s')"
      "simta_tv_now s' = (1000, 5)" "w_clock s' = [(900, 7)]" "w_oracle s' = []" "w_pid s' = 42"
    by (auto simp: env_create_def env_create_id_def simta_gettimeofday_def gettimeofday_def
        sys_ex_def later_than_def env_sender_def zero_env_def Let_def outcome_def)
  then obtain e' t' where 2: "env_create conf_ex DIR_FAST None (Some ''a'') None s' = (Some e', t')"
      "simta_tv_now t' = (1000, 6)"
    by (auto simp: env_create_def env_create_id_def simta_gettimeofday_def gettimeofday_def
        later_than_def env_sender_def zero_env_def Let_def)
  show ?thesis
    using env_create_fresh_ids [OF 1(1) 2(1)] 1 2 by (auto simp: long_time_def)
qed

end
