(* ===== verification/EnvFile.thy ===== *)
theory EnvFile
  imports Envelope Snet
begin

section \<open>Command files: envelope.c, on disk\<close>

text \<open>
  A message is two files of a spool directory: the data file \<open>Did\<close> and the command file
  \<open>Eid\<close>, which is written as \<open>tid\<close> and then renamed.  \<open>fprintf\<close> is one call per line
  that appends the line or fails; the file is read through \<open>snet_getline\<close>.
\<close>

definition SIMTA_EFILE_VERSION :: int where "SIMTA_EFILE_VERSION = 5"

definition READ_QUEUE_INFO :: int where "READ_QUEUE_INFO = 1"
definition READ_DELIVER_INFO :: int where "READ_DELIVER_INFO = 2"
definition READ_JAIL_INFO :: int where "READ_JAIL_INFO = 3"

lemmas read_modes = READ_QUEUE_INFO_def READ_DELIVER_INFO_def READ_JAIL_INFO_def

definition tfile :: "envelope \<Rightarrow> path" where "tfile e = (e_dir e, ''t'' @ e_id e)"
definition efile :: "envelope \<Rightarrow> path" where "efile e = (e_dir e, ''E'' @ e_id e)"
definition dfile :: "envelope \<Rightarrow> path" where "dfile e = (e_dir e, ''D'' @ e_id e)"

lemmas env_paths = tfile_def efile_def dfile_def

subsection \<open>Writing\<close>

fun fprintf_lines :: "nat \<Rightarrow> string list \<Rightarrow> 'a sys_scheme \<Rightarrow> bool \<times> 'a sys_scheme" where
  "fprintf_lines tff [] s = (True, s)"
| "fprintf_lines tff (l # ls) s =
     (case append_data tff (l @ [NL]) s of
        (ok, s') \<Rightarrow> if ok then fprintf_lines tff ls s' else (False, s'))"

definition tfile_head :: "envelope \<Rightarrow> string list" where
  "tfile_head e = [''V'' @ show_int SIMTA_EFILE_VERSION, ''E'' @ e_id e]"

definition tfile_body :: "envelope \<Rightarrow> string list" where
  "tfile_body e =
     [''I'' @ show_nat (e_dinode e),
      ''X'' @ show_int (e_n_exp_level e),
      ''J'' @ show_int (e_jail e),
      ''H'' @ (case e_hostname e of Some h \<Rightarrow> if e_dir e \<noteq> DIR_DEAD then h else [] | None \<Rightarrow> []),
      ''D'' @ show_nat (nat (e_attributes e mod 2 ^ 32)),
      ''F'' @ (case e_mail e of Some m \<Rightarrow> m | None \<Rightarrow> [])]"

definition tfile_rcpts :: "envelope \<Rightarrow> string list" where
  "tfile_rcpts e = map (\<lambda>r. ''R'' @ r_rcpt r) (e_rcpt e)"

definition tfile_cleanup :: "envelope \<Rightarrow> 'a sys_scheme \<Rightarrow> (int \<times> envelope \<times> 'a sys_scheme) run" where
  "tfile_cleanup e s = Inr (- 1, e, snd (unlink (tfile e) s))"

text \<open>A data inode of 0 ends the process in the middle of writing.\<close>

definition env_tfile :: "envelope \<Rightarrow> 'a sys_scheme \<Rightarrow> (int \<times> envelope \<times> 'a sys_scheme) run" where
  "env_tfile e s =
     (case open_excl (tfile e) s of
        (None, s1) \<Rightarrow> Inr (- 1, e, s1)
      | (Some tff, s1) \<Rightarrow>
          (let (fdopen_ok, s2) = outcome s1
           in if \<not> fdopen_ok then tfile_cleanup e s2
              else (let (head_ok, s3) = fprintf_lines tff (tfile_head e) s2
                in if \<not> head_ok then tfile_cleanup e s3
                   else if e_dinode e = 0 then Inl Panicked
                   else (let (body_ok, s4) = fprintf_lines tff (tfile_body e) s3
                     in if \<not> body_ok \<or> e_rcpt e = [] then tfile_cleanup e s4
                        else (let (rcpts_ok, s5) = fprintf_lines tff (tfile_rcpts e) s4
                          in if \<not> rcpts_ok then tfile_cleanup e s5
                             else (let (fclose_ok, s6) = outcome s5
                               in if \<not> fclose_ok then tfile_cleanup e s6
                                  else Inr (0, e\<lparr>e_flags := set_flag (e_flags e) ENV_FLAG_TFILE\<rparr>, s6)))))))"

text \<open>The lists the enabled configuration keeps, updated behind a good read or write.\<close>

definition env_lists_add :: "conf \<Rightarrow> envelope \<Rightarrow> 'a env_state_scheme \<Rightarrow> (int \<times> envelope \<times> 'a env_state_scheme) run" where
  "env_lists_add c e s =
     (let (rc, e1, s1) = (if simta_mid_list_enable c \<noteq> 0 then env_list_add e s else (0, e, s))
      in if rc \<noteq> 0 then Inr (1, e1, s1)
         else if simta_sender_list_enable c \<noteq> 0 then
           and_then (sender_list_add e1 s1)
             (\<lambda>(rc2, e2, s2). Inr (if rc2 \<noteq> 0 then 1 else 0, e2, s2))
         else Inr (0, e1, s1))"

definition env_efile :: "conf \<Rightarrow> envelope \<Rightarrow> 'a env_state_scheme \<Rightarrow> (int \<times> envelope \<times> 'a env_state_scheme) run" where
  "env_efile c e s =
     (let (rename_ok, s1) = rename (tfile e) (efile e) s
      in if \<not> rename_ok then Inr (- 1, e, snd (unlink (tfile e) s1))
         else
           (let s2 = (if e_dir e = DIR_FAST then s1\<lparr>simta_fast_files := simta_fast_files s1 + 1\<rparr> else s1);
                e2 = e\<lparr>e_flags := set_flag (clear_flag (e_flags e) ENV_FLAG_TFILE) ENV_FLAG_EFILE\<rparr>
            in case simta_gettimeofday s2 of
                 (None, s3) \<Rightarrow> Inr (- 1, e2, s3)
               | (Some now, s3) \<Rightarrow> env_lists_add c (e2\<lparr>e_etime := fst now\<rparr>) s3))"

definition env_outfile :: "conf \<Rightarrow> envelope \<Rightarrow> 'a env_state_scheme \<Rightarrow> (int \<times> envelope \<times> 'a env_state_scheme) run" where
  "env_outfile c e s =
     and_then (if \<not> has_flag (e_flags e) ENV_FLAG_TFILE then env_tfile e s else Inr (0, e, s))
       (\<lambda>(rc, e1, s1). if rc \<noteq> 0 then Inr (1, e1, s1)
          else and_then (env_efile c e1 s1) (\<lambda>(rc2, e2, s2). Inr (if rc2 \<noteq> 0 then 1 else 0, e2, s2)))"

definition env_dfile_open :: "envelope \<Rightarrow> 'a sys_scheme \<Rightarrow> nat option \<times> envelope \<times> 'a sys_scheme" where
  "env_dfile_open env s =
     (case open_excl (dfile env) s of
        (None, s1) \<Rightarrow> (None, env, s1)
      | (Some fd, s1) \<Rightarrow> (Some fd, env\<lparr>e_flags := set_flag (e_flags env) ENV_FLAG_DFILE\<rparr>, s1))"

subsection \<open>Removing and moving\<close>

definition env_tfile_unlink :: "envelope \<Rightarrow> 'a sys_scheme \<Rightarrow> int \<times> envelope \<times> 'a sys_scheme" where
  "env_tfile_unlink e s =
     (let (ok, s1) = unlink (tfile e) s
      in if \<not> ok then (- 1, e, s1)
         else (0, e\<lparr>e_flags := clear_flag (e_flags e) ENV_FLAG_TFILE\<rparr>, s1))"

definition env_dfile_unlink :: "envelope \<Rightarrow> 'a sys_scheme \<Rightarrow> int \<times> envelope \<times> 'a sys_scheme" where
  "env_dfile_unlink e s =
     (let (ok, s1) = unlink (dfile e) s
      in if \<not> ok then (- 1, e, s1)
         else (0, e\<lparr>e_flags := clear_flag (e_flags e) ENV_FLAG_DFILE\<rparr>, s1))"

text \<open>Whether the data file could be removed does not show in the result.\<close>

definition env_unlink :: "envelope \<Rightarrow> 'a sys_scheme \<Rightarrow> int \<times> envelope \<times> 'a sys_scheme" where
  "env_unlink env s =
     (let (ok, s1) = unlink (efile env) s
      in if \<not> ok then (- 1, env, s1)
         else
           (let e1 = env\<lparr>e_flags := clear_flag (e_flags env) ENV_FLAG_EFILE\<rparr>;
                s2 = (if e_dir env = DIR_FAST then s1\<lparr>simta_fast_files := simta_fast_files s1 - 1\<rparr> else s1);
                (rc, e2, s3) = env_dfile_unlink e1 s2
            in (0, e2, s3)))"

definition env_truncate_and_unlink :: "envelope \<Rightarrow> nat option \<Rightarrow> 'a sys_scheme \<Rightarrow> int \<times> envelope \<times> 'a sys_scheme" where
  "env_truncate_and_unlink env snet_lock s =
     (case snet_lock of
        Some fd \<Rightarrow>
          (let (ok, s1) = outcome s
           in if ok then
                (let (rc, e1, s2) = env_unlink env (s1\<lparr>w_data := (w_data s1)(fd := [])\<rparr>) in (0, e1, s2))
              else env_unlink env s1)
      | None \<Rightarrow> env_unlink env s)"

text \<open>
  A move links both files into the other directory before it unlinks the old ones, and
  unwinds the links when a step fails.
\<close>

definition env_move_unwind :: "path \<Rightarrow> path \<Rightarrow> simta_dir \<Rightarrow> 'a sys_scheme \<Rightarrow> 'a sys_scheme" where
  "env_move_unwind efile_new dfile_new target_dir s =
     (let (ok, s1) = unlink efile_new s
      in if \<not> ok then s1
         else (let s2 = (if target_dir = DIR_FAST then s1\<lparr>simta_fast_files := simta_fast_files s1 - 1\<rparr> else s1)
               in snd (unlink dfile_new s2)))"

definition env_move :: "envelope \<Rightarrow> simta_dir \<Rightarrow> 'a sys_scheme \<Rightarrow> (int \<times> envelope \<times> 'a sys_scheme) run" where
  "env_move env target_dir s =
     (if target_dir \<noteq> DIR_SLOW \<and> target_dir \<noteq> DIR_FAST then Inl AssertFail
      else if e_dir env = target_dir then Inr (0, env, s)
      else
        (let dfile_new = (target_dir, ''D'' @ e_id env);
             efile_new = (target_dir, ''E'' @ e_id env);
             (d_ok, s1) = link (dfile env) dfile_new s
         in if \<not> d_ok then Inr (- 1, env, s1)
            else
              (let (e_ok, s2) = link (efile env) efile_new s1
               in if \<not> e_ok then Inr (- 1, env, snd (unlink dfile_new s2))
                  else
                    (let s3 = (if target_dir = DIR_FAST
                               then s2\<lparr>simta_fast_files := simta_fast_files s2 + 1\<rparr> else s2);
                         (rc, e1, s4) = env_unlink env s3
                     in if rc \<noteq> 0
                        then Inr (- 1, e1, env_move_unwind efile_new dfile_new target_dir s4)
                        else Inr (0, e1\<lparr>e_dir := target_dir,
                                       e_flags := set_flag (e_flags e1) ENV_FLAG_EFILE\<rparr>, s4)))))"

text \<open>The time of the last attempt is that of the command file.\<close>

definition clock_now :: "'a sys_scheme \<Rightarrow> int" where
  "clock_now s = (case w_clock s of [] \<Rightarrow> fst (simta_tv_now s) | t # ts \<Rightarrow> fst t)"

definition env_touch :: "envelope \<Rightarrow> 'a sys_scheme \<Rightarrow> int \<times> envelope \<times> 'a sys_scheme" where
  "env_touch env s =
     (case w_names s (efile env) of
        None \<Rightarrow> (- 1, env, s)
      | Some ino \<Rightarrow>
          (let (ok, s1) = outcome s
           in if \<not> ok then (- 1, env, s1)
              else (case simta_gettimeofday (s1\<lparr>w_mtime := (w_mtime s1)(ino := clock_now s1)\<rparr>) of
                      (None, s2) \<Rightarrow> (- 1, env, s2)
                    | (Some now, s2) \<Rightarrow> (0, env\<lparr>e_etime := fst now\<rparr>, s2))))"

subsection \<open>Reading\<close>

text \<open>
  The result of a reading step: whether to go on (False is the jump to \<open>cleanup\<close>), the
  envelope, the rest of the file, the state.
\<close>

type_synonym 's reading = "(bool \<times> envelope \<times> snet \<times> 's) run"

definition and_read :: "'s reading \<Rightarrow> (envelope \<Rightarrow> snet \<Rightarrow> 's \<Rightarrow> 's reading) \<Rightarrow> 's reading" where
  "and_read m f =
     and_then m (\<lambda>(go, env, sn, s). if go then f env sn s else Inr (False, env, sn, s))"

text \<open>The next line, if it starts with a given letter: what follows the letter.\<close>

definition lettered :: "char \<Rightarrow> snet \<Rightarrow> (string \<times> snet) option" where
  "lettered k sn =
     (case snet_getline sn of
        (Some (ch # rest), sn1) \<Rightarrow> if ch = k then Some (rest, sn1) else None
      | _ \<Rightarrow> None)"

text \<open>A number that \<open>sscanf\<close> could not read is used without having been set.\<close>

definition read_version :: "snet \<Rightarrow> (int \<times> snet) option run" where
  "read_version sn =
     (case lettered (CHR ''V'') sn of
        None \<Rightarrow> Inr None
      | Some (l, sn1) \<Rightarrow>
          (case scan_int l of
             None \<Rightarrow> Inl Uninit
           | Some version \<Rightarrow>
               (if version < 1 \<or> SIMTA_EFILE_VERSION < version then Inr None
                else Inr (Some (version, sn1)))))"

definition read_id :: "int \<Rightarrow> envelope \<Rightarrow> snet \<Rightarrow> 's \<Rightarrow> 's reading" where
  "read_id version env sn s =
     (if version < 2 then Inr (True, env, sn, s)
      else (case lettered (CHR ''E'') sn of
              None \<Rightarrow> Inr (False, env, sn, s)
            | Some (l, sn1) \<Rightarrow> Inr (strcmp l (e_id env) = 0, env, sn1, s)))"

definition scan_ulong :: "string \<Rightarrow> nat option" where
  "scan_ulong l = map_option unsigned_long (scan_int l)"

definition read_dinode :: "int \<Rightarrow> envelope \<Rightarrow> snet \<Rightarrow> 's \<Rightarrow> 's reading" where
  "read_dinode mode env sn s =
     (let sn' = (case lettered (CHR ''M'') sn of Some (l, sn1) \<Rightarrow> sn1 | None \<Rightarrow> sn)
      in case lettered (CHR ''I'') sn' of
           None \<Rightarrow> Inr (False, env, sn', s)
         | Some (l, sn2) \<Rightarrow>
             (case scan_ulong l of
                None \<Rightarrow> Inl Uninit
              | Some dinode \<Rightarrow>
                  Inr (True, if mode = READ_QUEUE_INFO then env\<lparr>e_dinode := dinode\<rparr> else env, sn2, s)))"

definition read_level :: "int \<Rightarrow> int \<Rightarrow> envelope \<Rightarrow> snet \<Rightarrow> 's \<Rightarrow> 's reading" where
  "read_level mode version env sn s =
     (if version < 3 then Inr (True, env, sn, s)
      else (case lettered (CHR ''X'') sn of
              None \<Rightarrow> Inr (False, env, sn, s)
            | Some (l, sn1) \<Rightarrow>
                (case scan_int l of
                   None \<Rightarrow> Inr (False, env, sn1, s)
                 | Some exp_level \<Rightarrow>
                     Inr (True, if mode = READ_QUEUE_INFO then env\<lparr>e_n_exp_level := exp_level\<rparr> else env,
                          sn1, s))))"

definition read_jail :: "int \<Rightarrow> int \<Rightarrow> envelope \<Rightarrow> snet \<Rightarrow> 's \<Rightarrow> 's reading" where
  "read_jail mode version env sn s =
     (if version < 5 then Inr (True, env, sn, s)
      else (case lettered (CHR ''J'') sn of
              None \<Rightarrow> Inr (False, env, sn, s)
            | Some (l, sn1) \<Rightarrow>
                (case scan_int l of
                   None \<Rightarrow> Inr (False, env, sn1, s)
                 | Some jail \<Rightarrow>
                     Inr (True, if mode = READ_QUEUE_INFO then env_jail_set env jail else env, sn1, s))))"

definition read_host :: "int \<Rightarrow> envelope \<Rightarrow> snet \<Rightarrow> 'a sys_scheme \<Rightarrow> 'a sys_scheme reading" where
  "read_host mode env sn s =
     (case lettered (CHR ''H'') sn of
        None \<Rightarrow> Inr (False, env, sn, s)
      | Some (hostname, sn1) \<Rightarrow>
          (if mode = READ_QUEUE_INFO then
             and_then (env_hostname env (Some hostname) s)
               (\<lambda>(rc, env1, s1). Inr (rc = 0, env1, sn1, s1))
           else (case e_hostname env of
                   None \<Rightarrow> Inr (hostname = [], env, sn1, s)
                 | Some h \<Rightarrow> Inr (strcasecmp hostname h = 0, env, sn1, s))))"

definition read_attr :: "int \<Rightarrow> int \<Rightarrow> envelope \<Rightarrow> snet \<Rightarrow> 's \<Rightarrow> 's reading" where
  "read_attr mode version env sn s =
     (if version < 4 then Inr (True, env, sn, s)
      else (case lettered (CHR ''D'') sn of
              None \<Rightarrow> Inr (False, env, sn, s)
            | Some (l, sn1) \<Rightarrow>
                (case scan_int l of
                   None \<Rightarrow> Inr (False, env, sn1, s)
                 | Some attributes \<Rightarrow>
                     Inr (True, if mode = READ_QUEUE_INFO then env\<lparr>e_attributes := attributes\<rparr> else env,
                          sn1, s))))"

definition read_from :: "int \<Rightarrow> envelope \<Rightarrow> snet \<Rightarrow> 'a sys_scheme \<Rightarrow> 'a sys_scheme reading" where
  "read_from mode env sn s =
     (case lettered (CHR ''F'') sn of
        None \<Rightarrow> Inr (False, env, sn, s)
      | Some (mail, sn1) \<Rightarrow>
          (if mode = READ_QUEUE_INFO then
             (case env_sender env mail s of (rc, env1, s1) \<Rightarrow> Inr (rc = 0, env1, sn1, s1))
           else (case e_mail env of
                   None \<Rightarrow> Inl NullDeref
                 | Some m \<Rightarrow> Inr (strcmp m mail = 0, env, sn1, s))))"

function read_rcpts :: "envelope \<Rightarrow> snet \<Rightarrow> 'a sys_scheme \<Rightarrow> bool \<times> envelope \<times> snet \<times> 'a sys_scheme" where
  "read_rcpts env sn s =
     (case snet_getline sn of
        (None, sn1) \<Rightarrow> (True, env, sn1, s)
      | (Some line, sn1) \<Rightarrow>
          (if line = [] \<or> hd line \<noteq> CHR ''R'' then (False, env, sn1, s)
           else (case env_recipient env (Some (tl line)) s of
                   (rc, env1, s1) \<Rightarrow>
                     if rc \<noteq> 0 then (False, env1, sn1, s1) else read_rcpts env1 sn1 s1)))"
  by auto
termination
  by (relation "measure (\<lambda>(env, sn, s). length (sn_rest sn))") (auto dest: snet_getline_shorter [OF sym])

declare read_rcpts.simps [simp del]

definition read_all :: "int \<Rightarrow> envelope \<Rightarrow> snet \<Rightarrow> 'a sys_scheme \<Rightarrow> 'a sys_scheme reading" where
  "read_all mode env sn s =
     and_then (read_version sn) (\<lambda>r. case r of
        None \<Rightarrow> Inr (False, env, sn, s)
      | Some (version, sn1) \<Rightarrow>
          and_read (read_id version env sn1 s) (\<lambda>env sn s.
          and_read (read_dinode mode env sn s) (\<lambda>env sn s.
          and_read (read_level mode version env sn s) (\<lambda>env sn s.
          and_read (read_jail mode version env sn s) (\<lambda>env sn s.
          and_read (read_host mode env sn s) (\<lambda>env sn s.
          and_read (read_attr mode version env sn s) (\<lambda>env sn s.
          and_read (read_from mode env sn s) (\<lambda>env sn s.
            if mode = READ_QUEUE_INFO then Inr (True, env, sn, s)
            else (case read_rcpts env sn s of
                    (go, env, sn, s) \<Rightarrow> Inr (go \<and> e_rcpt env \<noteq> [], env, sn, s))))))))))"

text \<open>
  Opening and locking; the lock, when one is asked for, is the open inode.  A file that
  another process holds is not read.
\<close>

definition env_read_open :: "int \<Rightarrow> envelope \<Rightarrow> bool \<Rightarrow> 'a sys_scheme \<Rightarrow> nat option \<times> bool \<times> 'a sys_scheme" where
  "env_read_open mode env want_lock s =
     (case open_file (efile env) s of
        (None, s1) \<Rightarrow> (None, False, s1)
      | (Some fd, s1) \<Rightarrow>
          (if mode = READ_QUEUE_INFO \<or> want_lock then
             (let (ok, s2) = outcome s1 in (Some fd, ok \<and> \<not> w_locked s2 fd, s2))
           else (Some fd, True, s1)))"

definition env_read ::
  "conf \<Rightarrow> int \<Rightarrow> envelope \<Rightarrow> bool \<Rightarrow> 'a env_state_scheme \<Rightarrow>
   (int \<times> nat option \<times> envelope \<times> 'a env_state_scheme) run" where
  "env_read c mode env want_lock s =
     (if mode \<notin> {READ_QUEUE_INFO, READ_DELIVER_INFO, READ_JAIL_INFO} \<or>
         (mode = READ_QUEUE_INFO \<and> want_lock) then Inr (1, None, env, s)
      else
        (case env_read_open mode env want_lock s of
           (None, _, s1) \<Rightarrow> Inr (1, None, env, s1)
         | (Some fd, lock_ok, s1) \<Rightarrow>
             and_then (if lock_ok then read_all mode env (snet_attach (w_data s1 fd) (1024 * 1024)) s1
                       else Inr (False, env, snet_attach [] 0, s1))
               (\<lambda>(good, env2, sn, s2).
                  let close = (\<not> good \<or> mode = READ_QUEUE_INFO \<or> \<not> want_lock);
                      (close_ok, s3) = (if close then outcome s2 else (True, s2));
                      lock = (if close then None else Some fd)
                  in if \<not> good \<or> \<not> close_ok then Inr (1, lock, env2, s3)
                     else and_then (env_lists_add c env2 s3)
                            (\<lambda>(rc, env3, s4). Inr (rc, lock, env3, s4)))))"

subsection \<open>What writing changes\<close>

definition efile_text :: "envelope \<Rightarrow> string" where
  "efile_text e = with_ends [NL] (tfile_head e @ tfile_body e @ tfile_rcpts e)"

lemma fprintf_lines_result:
  "fprintf_lines tff ls s = (ok, s') \<Longrightarrow>
    \<exists>out. same_files (s\<lparr>w_data := (w_data s)(tff := w_data s tff @ out)\<rparr>) s' \<and>
      (ok \<longrightarrow> out = with_ends [NL] ls)"
proof (induction ls arbitrary: s)
  case Nil
  then show ?case by (intro exI [of _ "[]"]) (auto simp: with_ends_def)
next
  case (Cons l ls)
  obtain ok1 s1 where s1: "append_data tff (l @ [NL]) s = (ok1, s1)" by fastforce
  note r = append_data_result [OF s1]
  show ?case
  proof (cases ok1)
    case False
    with Cons.prems s1 r show ?thesis
      by (intro exI [of _ "[]"]) (auto simp: same_files_def)
  next
    case True
    with Cons.prems s1 have "fprintf_lines tff ls s1 = (ok, s')" by simp
    from Cons.IH [OF this] obtain out where
      t: "same_files (s1\<lparr>w_data := (w_data s1)(tff := w_data s1 tff @ out)\<rparr>) s'"
      "ok \<longrightarrow> out = with_ends [NL] ls" by blast
    from t r True show ?thesis
      by (intro exI [of _ "(l @ [NL]) @ out"]) (auto simp: same_files_def with_ends_Cons)
  qed
qed

lemma tfile_cleanup_result:
  assumes "tfile_cleanup e s = Inr (rc, e', s')"
  shows "rc = - 1 \<and> e' = e \<and>
    (\<exists>ok. same_files (s\<lparr>w_names := (if ok then (w_names s)(tfile e := None) else w_names s)\<rparr>) s')"
proof -
  obtain ok s1 where u: "unlink (tfile e) s = (ok, s1)" by fastforce
  with assms have "rc = - 1" "e' = e" "s' = s1" by (auto simp: tfile_cleanup_def)
  with unlink_result [OF u] show ?thesis by blast
qed

text \<open>What \<open>env_tfile\<close> may have touched: the name \<open>tid\<close> and the inode it made.\<close>

definition only_tfile :: "envelope \<Rightarrow> 'a sys_scheme \<Rightarrow> 'a sys_scheme \<Rightarrow> bool" where
  "only_tfile e s s' \<longleftrightarrow>
     (\<forall>p. p \<noteq> tfile e \<longrightarrow> w_names s' p = w_names s p) \<and>
     (\<forall>i. i < w_next s \<longrightarrow> w_data s' i = w_data s i) \<and>
     simta_fast_files s' = simta_fast_files s \<and> w_next s \<le> w_next s' \<and>
     w_mtime s' = w_mtime s \<and> w_locked s' = w_locked s"

lemma only_tfile_refl: "only_tfile e s s"
  by (simp add: only_tfile_def)

lemma only_tfile_trans: "only_tfile e s t \<Longrightarrow> only_tfile e t u \<Longrightarrow> only_tfile e s u"
  by (auto simp: only_tfile_def)

lemma only_tfile_same: "same_files s s' \<Longrightarrow> only_tfile e s s'"
  by (simp add: only_tfile_def same_files_def)

lemma only_tfile_cleanup: "tfile_cleanup e s = Inr (rc, e', s') \<Longrightarrow> only_tfile e s s'"
  by (auto simp: only_tfile_def same_files_def dest!: tfile_cleanup_result split: if_splits)

text \<open>Lines written to the new inode, in the order of the code.\<close>

lemma env_tfile_result:
  assumes "env_tfile e s = Inr (rc, e', s')"
  shows "only_tfile e s s' \<and>
    (if rc = 0 then w_names s (tfile e) = None \<and> w_names s' (tfile e) = Some (w_next s) \<and>
        w_data s' (w_next s) = efile_text e \<and> e_dinode e \<noteq> 0 \<and> e_rcpt e \<noteq> [] \<and>
        w_next s' = Suc (w_next s) \<and> e' = e\<lparr>e_flags := set_flag (e_flags e) ENV_FLAG_TFILE\<rparr>
     else e' = e)"
proof -
  obtain r s1 where o: "open_excl (tfile e) s = (r, s1)" by fastforce
  note o' = open_excl_result [OF o]
  show ?thesis
  proof (cases r)
    case None
    with assms o o' show ?thesis by (auto simp: env_tfile_def intro: only_tfile_same)
  next
    case (Some tff)
    have tff: "tff = w_next s" "w_names s (tfile e) = None" using o' Some by auto
    obtain fd s2 where fd: "outcome s1 = (fd, s2)" by fastforce
    obtain h s3 where h: "fprintf_lines tff (tfile_head e) s2 = (h, s3)" by fastforce
    obtain b s4 where b: "fprintf_lines tff (tfile_body e) s3 = (b, s4)" by fastforce
    obtain rr s5 where rr: "fprintf_lines tff (tfile_rcpts e) s4 = (rr, s5)" by fastforce
    obtain fc s6 where fc: "outcome s5 = (fc, s6)" by fastforce
    have s2: "w_data s2 tff = []" "only_tfile e s s2" "w_next s2 = Suc tff" "w_names s2 (tfile e) = Some tff"
      using o' Some outcome_frame [OF fd] by (auto simp: only_tfile_def same_files_def)
    have lines: "only_tfile e s t' \<and> w_next t' = w_next t \<and> w_names t' = w_names t \<and>
        (ok \<longrightarrow> w_data t' tff = w_data t tff @ with_ends [NL] ls)"
      if "fprintf_lines tff ls t = (ok, t')" "only_tfile e s t" for ls ok and t t' :: "'a sys_scheme"
      using fprintf_lines_result [OF that(1)] that(2) tff(1)
      by (auto simp: only_tfile_def same_files_def)
    note s3 = lines [OF h s2(2)]
    note s4 = lines [OF b s3 [THEN conjunct1]]
    note s5 = lines [OF rr s4 [THEN conjunct1]]
    have s6: "only_tfile e s s6" "w_names s6 = w_names s5" "w_data s6 = w_data s5" "w_next s6 = w_next s5"
      using s5 outcome_frame [OF fc] by (auto simp: only_tfile_def same_files_def)
    have cl: "only_tfile e s s' \<and> rc \<noteq> 0 \<and> e' = e"
      if "tfile_cleanup e t = Inr (rc, e', s')" "only_tfile e s t" for t :: "'a sys_scheme"
      using only_tfile_cleanup [OF that(1)] tfile_cleanup_result [OF that(1)] that(2)
      by (auto intro: only_tfile_trans)
    show ?thesis
    proof (cases "fd \<and> h \<and> e_dinode e \<noteq> 0 \<and> b \<and> e_rcpt e \<noteq> [] \<and> rr \<and> fc")
      case True
      then have "rc = 0" "s' = s6" "e' = e\<lparr>e_flags := set_flag (e_flags e) ENV_FLAG_TFILE\<rparr>"
        using assms o Some fd h b rr fc by (auto simp: env_tfile_def)
      moreover have "w_data s6 tff = efile_text e"
        using s2(1) s3 s4 s5 s6 True by (simp add: efile_text_def with_ends_append)
      ultimately show ?thesis using s2 s3 s4 s5 s6 tff True by simp
    next
      case False
      then have "\<exists>t. only_tfile e s t \<and> tfile_cleanup e t = Inr (rc, e', s')"
        using assms o Some fd h b rr fc s2(2) s3 s4 s5 s6(1)
        by (auto simp: env_tfile_def split: if_splits)
      with cl show ?thesis by auto
    qed
  qed
qed

lemma env_lists_add_frame [frames]:
  assumes "env_lists_add c e s = Inr (rc, e', s')"
  shows "same_files s s'"
proof -
  obtain r1 e1 s1 where 1: "(if simta_mid_list_enable c \<noteq> 0 then env_list_add e s else (0, e, s)) = (r1, e1, s1)"
    by (metis prod.exhaust)
  then have s1: "same_files s s1" by (auto split: if_splits dest: frames)
  show ?thesis
  proof (cases "r1 = 0 \<and> simta_sender_list_enable c \<noteq> 0")
    case False
    with assms 1 have "s' = s1" by (auto simp: env_lists_add_def split: if_splits)
    with s1 show ?thesis by simp
  next
    case True
    then obtain r2 where "sender_list_add e1 s1 = Inr (r2, e', s')"
      using assms 1 by (auto simp: env_lists_add_def)
    with s1 show ?thesis by (auto dest: frames intro: same_files_trans)
  qed
qed

text \<open>The rename puts the new file in the place of the old one at once.\<close>

lemma env_efile_result:
  assumes "env_efile c e s = Inr (rc, e', s')" "w_names s (tfile e) = Some i"
  shows "(\<forall>p. p \<noteq> tfile e \<and> p \<noteq> efile e \<longrightarrow> w_names s' p = w_names s p) \<and> w_data s' = w_data s \<and>
    w_locked s' = w_locked s \<and>
    (w_names s' (efile e) = Some i \<and> w_names s' (tfile e) = None \<and>
       simta_fast_files s' = simta_fast_files s + (if e_dir e = DIR_FAST then 1 else 0) \<or>
     rc \<noteq> 0 \<and> w_names s' (efile e) = w_names s (efile e) \<and> simta_fast_files s' = simta_fast_files s)"
proof -
  have ne: "tfile e \<noteq> efile e" by (simp add: env_paths)
  obtain ok s1 where rn: "rename (tfile e) (efile e) s = (ok, s1)" by fastforce
  note r = rename_result [OF rn]
  show ?thesis
  proof (cases ok)
    case False
    obtain u s2 where u: "unlink (tfile e) s1 = (u, s2)" by fastforce
    with assms(1) rn False have "rc = - 1" "s' = s2" by (auto simp: env_efile_def)
    with unlink_result [OF u] r False ne show ?thesis by (auto simp: same_files_def)
  next
    case True
    define s2 where "s2 = (if e_dir e = DIR_FAST then s1\<lparr>simta_fast_files := simta_fast_files s1 + 1\<rparr> else s1)"
    obtain tv s3 where g: "simta_gettimeofday s2 = (tv, s3)" by fastforce
    have "same_files s2 s'"
      using assms(1) rn True g simta_gettimeofday_frame [OF g]
      by (auto simp: env_efile_def Let_def s2_def [symmetric] split: option.splits
          dest!: env_lists_add_frame elim: same_files_trans)
    with r True ne assms(2) show ?thesis by (auto simp: same_files_def s2_def split: if_splits)
  qed
qed

lemma env_outfile_result:
  assumes "env_outfile c e s = Inr (rc, e', s')" "\<not> has_flag (e_flags e) ENV_FLAG_TFILE"
    and "\<forall>i. w_names s (efile e) = Some i \<longrightarrow> i < w_next s"
  shows "(\<forall>p. p \<noteq> tfile e \<and> p \<noteq> efile e \<longrightarrow> w_names s' p = w_names s p) \<and>
    (\<forall>i. i < w_next s \<longrightarrow> w_data s' i = w_data s i) \<and> w_locked s' = w_locked s \<and>
    ((\<exists>i. w_names s' (efile e) = Some i \<and> w_data s' i = efile_text e \<and> w_names s' (tfile e) = None \<and>
        simta_fast_files s' = simta_fast_files s + (if e_dir e = DIR_FAST then 1 else 0)) \<or>
     rc \<noteq> 0 \<and> w_names s' (efile e) = w_names s (efile e) \<and> simta_fast_files s' = simta_fast_files s)"
proof -
  have ne: "tfile e \<noteq> efile e" by (simp add: env_paths)
  obtain rc1 e1 s1 where t: "env_tfile e s = Inr (rc1, e1, s1)"
    using assms(1,2) by (auto simp: env_outfile_def)
  note r = env_tfile_result [OF t]
  show ?thesis
  proof (cases "rc1 = 0")
    case False
    with assms(1,2) t have "rc = 1" "s' = s1" by (auto simp: env_outfile_def)
    moreover have "w_names s1 (efile e) = w_names s (efile e)"
      using r ne by (simp add: only_tfile_def)
    ultimately show ?thesis using r by (simp add: only_tfile_def)
  next
    case True
    then have e1: "tfile e1 = tfile e" "efile e1 = efile e" "e_dir e1 = e_dir e"
      using r by (auto simp: env_paths)
    obtain rc2 where f: "env_efile c e1 s1 = Inr (rc2, e', s')" "rc = (if rc2 = 0 then 0 else 1)"
      using assms(1,2) t True by (auto simp: env_outfile_def)
    have "w_names s1 (tfile e1) = Some (w_next s)" using r True e1 by auto
    note g = env_efile_result [OF f(1) this]
    have "w_names s1 (efile e) = w_names s (efile e)" using r ne by (simp add: only_tfile_def)
    with g r True f(2) e1 show ?thesis by (auto simp: only_tfile_def)
  qed
qed

subsection \<open>When every call succeeds\<close>

named_theorems sure \<open>calls with the oracle used up\<close>

lemma fprintf_lines_sure [sure]:
  "w_oracle s = [] \<Longrightarrow> fprintf_lines tff ls s =
     (True, s\<lparr>w_data := (w_data s)(tff := w_data s tff @ with_ends [NL] ls)\<rparr>)"
proof (induction ls arbitrary: s)
  case Nil
  then show ?case by (simp add: with_ends_def)
next
  case (Cons l ls)
  define d where "d = w_data s"
  define s1 where "s1 = s\<lparr>w_data := d(tff := d tff @ l @ [NL])\<rparr>"
  have "append_data tff (l @ [NL]) s = (True, s1)"
    using Cons.prems by (simp add: append_data_def s1_def d_def)
  moreover have "w_oracle s1 = []" "w_data s1 = d(tff := d tff @ l @ [NL])"
    using Cons.prems by (simp_all add: s1_def)
  ultimately show ?case
    using Cons.IH [of s1] by (simp add: with_ends_Cons s1_def d_def cong: if_cong)
qed

definition writable :: "envelope \<Rightarrow> 'a sys_scheme \<Rightarrow> bool" where
  "writable e s \<longleftrightarrow> w_oracle s = [] \<and> w_names s (tfile e) = None \<and>
     \<not> has_flag (e_flags e) ENV_FLAG_TFILE \<and> e_dinode e \<noteq> 0 \<and> e_rcpt e \<noteq> []"

lemma env_tfile_sure:
  assumes "writable e s"
  shows "\<exists>s'. env_tfile e s = Inr (0, e\<lparr>e_flags := set_flag (e_flags e) ENV_FLAG_TFILE\<rparr>, s') \<and>
    w_oracle s' = []"
  using assms
  by (simp add: writable_def env_tfile_def open_excl_def fprintf_lines_sure)

lemma env_efile_sure:
  assumes "w_oracle s = []" "w_names s (tfile e) \<noteq> None"
    and "simta_mid_list_enable c = 0" "simta_sender_list_enable c = 0"
  shows "\<exists>t s'. env_efile c e s = Inr (0, e\<lparr>e_etime := t,
      e_flags := set_flag (clear_flag (e_flags e) ENV_FLAG_TFILE) ENV_FLAG_EFILE\<rparr>, s') \<and> w_oracle s' = []"
proof -
  obtain s1 where rn: "rename (tfile e) (efile e) s = (True, s1)" "w_oracle s1 = []"
    using assms by (auto simp: rename_def)
  define s2 where "s2 = (if e_dir e = DIR_FAST then s1\<lparr>simta_fast_files := simta_fast_files s1 + 1\<rparr> else s1)"
  then have "w_oracle s2 = []" using rn by simp
  from simta_gettimeofday_sure [OF this] obtain tv s3 where
    "simta_gettimeofday s2 = (Some tv, s3)" "w_oracle s3 = []" by auto
  with rn assms show ?thesis
    by (auto simp: env_efile_def s2_def [symmetric] env_lists_add_def intro!: exI [of _ "fst tv"])
qed

lemma env_outfile_sure:
  assumes "writable e s" "simta_mid_list_enable c = 0" "simta_sender_list_enable c = 0"
  shows "\<exists>t f s'. env_outfile c e s = Inr (0, e\<lparr>e_etime := t, e_flags := f\<rparr>, s') \<and> w_oracle s' = []"
proof -
  obtain s1 where t: "env_tfile e s = Inr (0, e\<lparr>e_flags := set_flag (e_flags e) ENV_FLAG_TFILE\<rparr>, s1)"
    "w_oracle s1 = []" using env_tfile_sure [OF assms(1)] by auto
  have "w_names s1 (tfile (e\<lparr>e_flags := set_flag (e_flags e) ENV_FLAG_TFILE\<rparr>)) \<noteq> None"
    using env_tfile_result [OF t(1)] by (simp add: tfile_def)
  from env_efile_sure [OF t(2) this assms(2,3)] t assms(1) show ?thesis
    by (fastforce simp: env_outfile_def writable_def)
qed

text \<open>
  C1: whatever calls fail on the way, \<open>env_outfile\<close> leaves the command file either as it
  was or replaced by the complete new text, never in between; it returns 0 only with the
  new text in place and nothing left of the temporary file, and touches no other file.
\<close>

theorem env_outfile_atomic:
  assumes "env_outfile c e s = Inr (rc, e', s')" "\<not> has_flag (e_flags e) ENV_FLAG_TFILE"
    and "\<forall>i. w_names s (efile e) = Some i \<longrightarrow> i < w_next s"
  shows "(\<forall>p. p \<noteq> tfile e \<and> p \<noteq> efile e \<longrightarrow> w_names s' p = w_names s p) \<and>
    (\<forall>i. i < w_next s \<longrightarrow> w_data s' i = w_data s i) \<and> w_locked s' = w_locked s \<and>
    ((\<exists>i. w_names s' (efile e) = Some i \<and> w_data s' i = efile_text e \<and> w_names s' (tfile e) = None \<and>
        simta_fast_files s' = simta_fast_files s + (if e_dir e = DIR_FAST then 1 else 0)) \<or>
     rc \<noteq> 0 \<and> w_names s' (efile e) = w_names s (efile e) \<and> simta_fast_files s' = simta_fast_files s)"
  using assms by (rule env_outfile_result)

definition env_ex :: envelope where
  "env_ex = (zero_env DIR_FAST ''1A'')\<lparr>e_dinode := 17, e_mail := Some ''a@b.c'', e_n_rcpt := 2,
     e_rcpt := [new_recipient ''x@y.z'', new_recipient ''u@v.w''], e_hostname := Some ''y.z'',
     e_n_exp_level := 1, e_jail := 2\<rparr>"

definition env_state_ex :: "bool list \<Rightarrow> env_state" where
  "env_state_ex os = \<lparr>w_names = (\<lambda>_. None), w_data = (\<lambda>_. []), w_mtime = (\<lambda>_. 0),
     w_locked = (\<lambda>_. False), w_next = 1, w_oracle = os, w_clock = [(1000, 5)], w_pid = 42,
     simta_tv_now = (0, 0), simta_fast_files = 0, simta_env_list = [], simta_sender_list = []\<rparr>"

lemma env_ex_writable: "writable env_ex (env_state_ex [])"
  by (simp add: writable_def env_ex_def env_state_ex_def zero_env_def ENV_FLAG_TFILE_def)

theorem env_outfile_atomic_witness:
  "\<exists>e' s'. env_outfile conf_ex env_ex (env_state_ex []) = Inr (0, e', s') \<and>
     (\<exists>i. w_names s' (DIR_FAST, ''E1A'') = Some i \<and> w_data s' i = efile_text env_ex)"
proof -
  obtain e' s' where o: "env_outfile conf_ex env_ex (env_state_ex []) = Inr (0, e', s')"
    using env_outfile_sure [OF env_ex_writable, of conf_ex] by (auto simp: conf_ex_def)
  have "efile env_ex = (DIR_FAST, ''E1A'')" "\<not> has_flag (e_flags env_ex) ENV_FLAG_TFILE"
    by (simp_all add: efile_def env_ex_def zero_env_def ENV_FLAG_TFILE_def)
  with env_outfile_atomic [OF o] o show ?thesis by (force simp: env_state_ex_def)
qed

subsection \<open>What is written is read back\<close>

definition reader :: "string \<Rightarrow> snet" where
  "reader t = \<lparr>sn_rest = t, sn_rstate = SNET_BOL, sn_maxlen = 1048576, sn_eof = True\<rparr>"

definition good_line :: "string \<Rightarrow> bool" where
  "good_line l \<longleftrightarrow> one_line l \<and> fits 1048576 l"

lemma reader_line [sure]:
  "good_line l \<Longrightarrow> snet_getline (reader (with_ends [NL] (l # ls))) = (Some l, reader (with_ends [NL] ls))"
  by (subst snet_getline_line) (auto simp: reader_def good_line_def with_ends_Cons)

lemma lettered_line [sure]:
  "good_line (k # l) \<Longrightarrow>
     lettered k' (reader (with_ends [NL] ((k # l) # ls))) =
       (if k = k' then Some (l, reader (with_ends [NL] ls)) else None)"
  by (simp add: lettered_def reader_line)

lemma read_rcpts_lines [sure]:
  "w_oracle s = [] \<Longrightarrow> list_all (\<lambda>r. good_line (CHR ''R'' # r)) rs \<Longrightarrow>
     read_rcpts env (reader (with_ends [NL] (map (\<lambda>r. CHR ''R'' # r) rs))) s =
       (True, env\<lparr>e_rcpt := rev (map new_recipient rs) @ e_rcpt env,
                  e_n_rcpt := e_n_rcpt env + int (length rs)\<rparr>, reader [], s)"
proof (induction rs arbitrary: env)
  case Nil
  then show ?case
    by (simp add: read_rcpts.simps [of env] snet_getline_end reader_def with_ends_def)
next
  case (Cons r rs)
  let ?env = "env\<lparr>e_rcpt := new_recipient r # e_rcpt env, e_n_rcpt := e_n_rcpt env + 1\<rparr>"
  have "snet_getline (reader (with_ends [NL] (map (\<lambda>r. CHR ''R'' # r) (r # rs)))) =
      (Some (CHR ''R'' # r), reader (with_ends [NL] (map (\<lambda>r. CHR ''R'' # r) rs)))"
    using Cons.prems(2) by (simp add: reader_line)
  moreover have "env_recipient env (Some r) s = (0, ?env, s)"
    using Cons.prems(1) by (simp add: env_recipient_def)
  ultimately have "read_rcpts env (reader (with_ends [NL] (map (\<lambda>r. CHR ''R'' # r) (r # rs)))) s =
      read_rcpts ?env (reader (with_ends [NL] (map (\<lambda>r. CHR ''R'' # r) rs))) s"
    by (simp add: read_rcpts.simps [of env])
  also have "\<dots> = (True, ?env\<lparr>e_rcpt := rev (map new_recipient rs) @ e_rcpt ?env,
      e_n_rcpt := e_n_rcpt ?env + int (length rs)\<rparr>, reader [], s)"
    using Cons.prems by (intro Cons.IH) simp_all
  finally show ?case by simp
qed

text \<open>An envelope that a file can hold.\<close>

definition storable :: "envelope \<Rightarrow> bool" where
  "storable e \<longleftrightarrow> list_all good_line (tfile_head e @ tfile_body e @ tfile_rcpts e) \<and>
     e_dinode e < 2 ^ 64 \<and> 0 \<le> e_attributes e \<and> e_attributes e < 2 ^ 32 \<and> e_dir e \<noteq> DIR_DEAD \<and>
     e_hostname e \<noteq> Some []"

definition mail_of :: "envelope \<Rightarrow> string" where
  "mail_of e = (case e_mail e of Some m \<Rightarrow> m | None \<Rightarrow> [])"

definition host_of :: "envelope \<Rightarrow> string" where
  "host_of e = (case e_hostname e of Some h \<Rightarrow> h | None \<Rightarrow> [])"

text \<open>What a queue runner knows of a message after it has read the directory.\<close>

definition queued :: "envelope \<Rightarrow> envelope" where
  "queued e = (zero_env (e_dir e) (e_id e))\<lparr>e_dinode := e_dinode e, e_n_exp_level := e_n_exp_level e,
     e_jail := e_jail e, e_hostname := e_hostname e, e_attributes := e_attributes e,
     e_mail := Some (mail_of e)\<rparr>"

lemma efile_text_lines:
  assumes "storable e"
  shows "efile_text e = with_ends [NL] ([''V'' @ show_int 5, ''E'' @ e_id e, ''I'' @ show_nat (e_dinode e),
    ''X'' @ show_int (e_n_exp_level e), ''J'' @ show_int (e_jail e), ''H'' @ host_of e,
    ''D'' @ show_nat (nat (e_attributes e)), ''F'' @ mail_of e] @
    map (\<lambda>r. CHR ''R'' # r) (map r_rcpt (e_rcpt e)))"
  using assms
  by (simp add: efile_text_def tfile_head_def tfile_body_def tfile_rcpts_def storable_def host_of_def
      mail_of_def SIMTA_EFILE_VERSION_def comp_def split: option.split)

lemma storable_lines:
  assumes "storable e"
  shows "good_line (CHR ''V'' # show_int 5)" "good_line (CHR ''E'' # e_id e)"
    "good_line (CHR ''I'' # show_nat (e_dinode e))" "good_line (CHR ''X'' # show_int (e_n_exp_level e))"
    "good_line (CHR ''J'' # show_int (e_jail e))" "good_line (CHR ''H'' # host_of e)"
    "good_line (CHR ''D'' # show_nat (nat (e_attributes e)))" "good_line (CHR ''F'' # mail_of e)"
    "list_all (\<lambda>r. good_line (CHR ''R'' # r)) (map r_rcpt (e_rcpt e))"
  using assms
  by (auto simp: tfile_head_def tfile_body_def tfile_rcpts_def storable_def host_of_def
      mail_of_def SIMTA_EFILE_VERSION_def list_all_iff split: option.splits)

lemma scan_ulong_show [simp]: "n < 2 ^ 64 \<Longrightarrow> scan_ulong (show_nat n) = Some n"
  by (simp add: scan_ulong_def unsigned_long_def nat_mod_distrib)

lemma read_all_queue:
  assumes "storable e" "w_oracle s = []"
  shows "\<exists>rest. read_all READ_QUEUE_INFO (zero_env (e_dir e) (e_id e)) (reader (efile_text e)) s =
    Inr (True, queued e, reader rest, s)"
proof -
  have d: "e_dinode e < 2 ^ 64" and a: "0 \<le> e_attributes e" and h: "e_hostname e \<noteq> Some []"
    using assms(1) by (auto simp: storable_def)
  have "strcmp (e_id e) (e_id e) = 0" by (simp add: cstr)
  then show ?thesis
    unfolding efile_text_lines [OF assms(1)] read_all_def read_version_def read_id_def and_read_def
      read_dinode_def read_level_def read_jail_def read_host_def read_attr_def read_from_def
    using d a h assms(2) storable_lines [OF assms(1)]
    by (auto simp: sure SIMTA_EFILE_VERSION_def Let_def read_modes queued_def zero_env_def
        env_jail_set_def env_hostname_def env_sender_def host_of_def split: option.splits)
qed

lemma read_all_deliver:
  assumes "storable e" "w_oracle s = []" "e_rcpt e \<noteq> []"
  shows "read_all READ_DELIVER_INFO (queued e) (reader (efile_text e)) s =
    Inr (True, (queued e)\<lparr>e_rcpt := rev (map new_recipient (map r_rcpt (e_rcpt e))),
       e_n_rcpt := int (length (e_rcpt e))\<rparr>, reader [], s)"
proof -
  have d: "e_dinode e < 2 ^ 64" and a: "0 \<le> e_attributes e" and h: "e_hostname e \<noteq> Some []"
    using assms(1) by (auto simp: storable_def)
  have "strcmp x x = 0" "strcasecmp x x = 0" for x by (simp_all add: cstr)
  moreover have "read_rcpts (queued e) (reader (with_ends [NL] (map (\<lambda>r. CHR ''R'' # r) (map r_rcpt (e_rcpt e))))) s =
      (True, (queued e)\<lparr>e_rcpt := rev (map new_recipient (map r_rcpt (e_rcpt e))),
       e_n_rcpt := int (length (e_rcpt e))\<rparr>, reader [], s)"
    using read_rcpts_lines [OF assms(2) storable_lines(9) [OF assms(1)], of "queued e"]
    by (simp add: queued_def zero_env_def)
  ultimately show ?thesis
    unfolding efile_text_lines [OF assms(1)] read_all_def read_version_def read_id_def and_read_def
      read_dinode_def read_level_def read_jail_def read_host_def read_attr_def read_from_def
    using d a h assms(2,3) storable_lines(1-8) [OF assms(1)]
    by (auto simp: sure SIMTA_EFILE_VERSION_def Let_def read_modes host_of_def
        queued_def zero_env_def split: option.splits)
qed

lemma env_read_queue:
  assumes "storable e" "w_oracle s = []" "w_names s (efile e) = Some i" "w_data s i = efile_text e"
    "\<not> w_locked s i" "simta_mid_list_enable c = 0" "simta_sender_list_enable c = 0"
  shows "env_read c READ_QUEUE_INFO (zero_env (e_dir e) (e_id e)) False s = Inr (0, None, queued e, s)"
proof -
  obtain r where "read_all READ_QUEUE_INFO (zero_env (e_dir e) (e_id e)) (reader (efile_text e)) s =
      Inr (True, queued e, reader r, s)" using read_all_queue [OF assms(1,2)] by blast
  moreover have "efile (zero_env (e_dir e) (e_id e)) = efile e" by (simp add: efile_def zero_env_def)
  moreover have "snet_attach (w_data s i) (1024 * 1024) = reader (efile_text e)"
    by (simp add: snet_attach_def reader_def assms(4))
  ultimately show ?thesis
    using assms by (simp add: env_read_def env_read_open_def open_file_def Let_def
        env_lists_add_def)
qed

lemma env_read_deliver:
  assumes "storable e" "w_oracle s = []" "w_names s (efile e) = Some i" "w_data s i = efile_text e"
    "\<not> w_locked s i" "simta_mid_list_enable c = 0" "simta_sender_list_enable c = 0" "e_rcpt e \<noteq> []"
  shows "env_read c READ_DELIVER_INFO (queued e) True s = Inr (0, Some i,
    (queued e)\<lparr>e_rcpt := rev (map new_recipient (map r_rcpt (e_rcpt e))),
       e_n_rcpt := int (length (e_rcpt e))\<rparr>, s)"
proof -
  have "efile (queued e) = efile e" by (simp add: efile_def queued_def zero_env_def)
  moreover have "snet_attach (w_data s i) (1024 * 1024) = reader (efile_text e)"
    by (simp add: snet_attach_def reader_def assms(4))
  ultimately show ?thesis
    using assms read_all_deliver [OF assms(1,2,8)]
    by (simp add: env_read_def env_read_open_def open_file_def Let_def env_lists_add_def read_modes)
qed

text \<open>
  C10: an envelope that a file can hold, written when all calls succeed, is read back by a
  queue runner with the same inode, level, jail code, host, attributes and sender, and read
  again for delivery, under a lock, with the same recipients in reverse order.
\<close>

theorem env_outfile_read_roundtrip:
  assumes "writable e s" "storable e" "\<forall>i. \<not> w_locked s i"
    and "simta_mid_list_enable c = 0" "simta_sender_list_enable c = 0"
    and "\<forall>i. w_names s (efile e) = Some i \<longrightarrow> i < w_next s"
  shows "\<exists>e' s' i. env_outfile c e s = Inr (0, e', s') \<and>
    env_read c READ_QUEUE_INFO (zero_env (e_dir e) (e_id e)) False s' = Inr (0, None, queued e, s') \<and>
    env_read c READ_DELIVER_INFO (queued e) True s' = Inr (0, Some i,
      (queued e)\<lparr>e_rcpt := rev (map new_recipient (map r_rcpt (e_rcpt e))),
         e_n_rcpt := int (length (e_rcpt e))\<rparr>, s')"
proof -
  obtain e' s' where o: "env_outfile c e s = Inr (0, e', s')" "w_oracle s' = []"
    using env_outfile_sure [OF assms(1,4,5)] by blast
  have w: "\<not> has_flag (e_flags e) ENV_FLAG_TFILE" "e_rcpt e \<noteq> []"
    using assms(1) by (auto simp: writable_def)
  obtain i where i: "w_names s' (efile e) = Some i" "w_data s' i = efile_text e" "\<not> w_locked s' i"
    using env_outfile_result [OF o(1) w(1) assms(6)] assms(3) by auto
  show ?thesis
    using o(1) env_read_queue [OF assms(2) o(2) i assms(4,5)]
      env_read_deliver [OF assms(2) o(2) i assms(4,5) w(2)] by blast
qed

lemma env_ex_lines: "tfile_head env_ex @ tfile_body env_ex @ tfile_rcpts env_ex =
    [''V5'', ''E1A'', ''I17'', ''X1'', ''J2'', ''Hy.z'', ''D0'', ''Fa@b.c'', ''Rx@y.z'', ''Ru@v.w'']"
  by code_simp

lemma env_ex_storable: "storable env_ex"
  unfolding storable_def env_ex_lines
  by (simp add: good_line_def one_line_def line_char_def fits_def SNET_BUFLEN_def env_ex_def zero_env_def)

theorem env_outfile_read_roundtrip_witness:
  "\<exists>e' s' i. env_outfile conf_ex env_ex (env_state_ex []) = Inr (0, e', s') \<and>
    env_read conf_ex READ_DELIVER_INFO (queued env_ex) True s' = Inr (0, Some i,
      (queued env_ex)\<lparr>e_rcpt := [new_recipient ''u@v.w'', new_recipient ''x@y.z''], e_n_rcpt := 2\<rparr>, s')"
proof -
  have "simta_mid_list_enable conf_ex = 0" "simta_sender_list_enable conf_ex = 0"
    "\<forall>i. \<not> w_locked (env_state_ex []) i"
    "\<forall>i. w_names (env_state_ex []) (efile env_ex) = Some i \<longrightarrow> i < w_next (env_state_ex [])"
    by (simp_all add: conf_ex_def env_state_ex_def)
  from env_outfile_read_roundtrip [OF env_ex_writable env_ex_storable this(3,1,2,4)]
  obtain e' s' i where "env_outfile conf_ex env_ex (env_state_ex []) = Inr (0, e', s')"
    "env_read conf_ex READ_DELIVER_INFO (queued env_ex) True s' = Inr (0, Some i,
      (queued env_ex)\<lparr>e_rcpt := rev (map new_recipient (map r_rcpt (e_rcpt env_ex))),
         e_n_rcpt := int (length (e_rcpt env_ex))\<rparr>, s')" by blast
  moreover have "map r_rcpt (e_rcpt env_ex) = [''x@y.z'', ''u@v.w'']" "length (e_rcpt env_ex) = 2"
    by (simp_all add: env_ex_def new_recipient_def)
  ultimately show ?thesis by force
qed

subsection \<open>Moving keeps the message\<close>

text \<open>The files of a message in a directory, as two inodes.\<close>

definition held :: "simta_dir \<Rightarrow> string \<Rightarrow> nat \<times> nat \<Rightarrow> 'a sys_scheme \<Rightarrow> bool" where
  "held dir idn files s \<longleftrightarrow>
     w_names s (dir, ''E'' @ idn) = Some (fst files) \<and> w_names s (dir, ''D'' @ idn) = Some (snd files)"

definition fast_names :: "(path \<rightharpoonup> nat) \<Rightarrow> string set" where
  "fast_names names = {idn. names (DIR_FAST, ''E'' @ idn) \<noteq> None}"

text \<open>\<open>simta_fast_files\<close> counts the command files of the fast directory.\<close>

definition fast_count_ok :: "'a sys_scheme \<Rightarrow> bool" where
  "fast_count_ok s \<longleftrightarrow> finite (fast_names (w_names s)) \<and>
     simta_fast_files s = int (card (fast_names (w_names s)))"

lemma fast_names_upd [simp]:
  "fast_names (n((d, CHR ''E'' # idn) := v)) =
     (if d \<noteq> DIR_FAST then fast_names n
      else if v = None then fast_names n - {idn} else insert idn (fast_names n))"
  "fast_names (n((d, CHR ''D'' # idn) := v)) = fast_names n"
  "fast_names (n((d, CHR ''t'' # idn) := v)) = fast_names n"
  by (auto simp: fast_names_def)

lemma in_fast_names: "idn \<in> fast_names n \<longleftrightarrow> n (DIR_FAST, CHR ''E'' # idn) \<noteq> None"
  by (simp add: fast_names_def)

lemma env_unlink_result:
  assumes "env_unlink env s = (rc, env', s')"
  shows "env' = env\<lparr>e_flags := e_flags env'\<rparr> \<and>
    (if rc = 0 then w_names s (efile env) \<noteq> None \<and>
       (\<exists>d. d \<in> {None, w_names s (dfile env)} \<and>
         same_files (s\<lparr>w_names := (w_names s)(efile env := None, dfile env := d),
           simta_fast_files := simta_fast_files s - (if e_dir env = DIR_FAST then 1 else 0)\<rparr>) s')
     else same_files s s')"
proof -
  have ne: "efile env \<noteq> dfile env" by (simp add: env_paths)
  obtain ok s1 where u: "unlink (efile env) s = (ok, s1)" by fastforce
  note r = unlink_result [OF u]
  show ?thesis
  proof (cases ok)
    case False
    with assms u r show ?thesis by (auto simp: env_unlink_def)
  next
    case True
    define s2 where "s2 = (if e_dir env = DIR_FAST then s1\<lparr>simta_fast_files := simta_fast_files s1 - 1\<rparr> else s1)"
    obtain ok2 s3 where d: "unlink (dfile env) s2 = (ok2, s3)" by fastforce
    then have e: "rc = 0" "s' = s3" "env' = env\<lparr>e_flags := e_flags env'\<rparr>"
      using assms u True
      by (cases ok2; auto simp: env_unlink_def env_dfile_unlink_def s2_def dfile_def Let_def
          split: if_splits)+
    have "same_files (s\<lparr>w_names := (w_names s)(efile env := None,
            dfile env := (if ok2 then None else w_names s (dfile env))),
          simta_fast_files := simta_fast_files s - (if e_dir env = DIR_FAST then 1 else 0)\<rparr>) s3"
      using unlink_result [OF d] r True ne by (auto simp: same_files_def s2_def)
    with e r True show ?thesis by (auto split: if_splits)
  qed
qed

lemma env_move_result:
  assumes mv: "env_move env t s = Inr (rc, env', s')" and h: "held (e_dir env) (e_id env) f s"
    and ne: "e_dir env \<noteq> t"
  shows "e_id env' = e_id env \<and>
    (if rc = 0 then e_dir env' = t \<and> held t (e_id env) f s' \<and> w_names s' (efile env) = None
     else e_dir env' = e_dir env \<and> held (e_dir env) (e_id env) f s') \<and>
    (fast_count_ok s \<longrightarrow> fast_count_ok s')"
proof -
  let ?i = "e_id env" and ?o = "e_dir env"
  let ?D = "(?o, ''D'' @ ?i)" and ?E = "(?o, ''E'' @ ?i)" and ?Dn = "(t, ''D'' @ ?i)" and ?En = "(t, ''E'' @ ?i)"
  have t: "t = DIR_SLOW \<or> t = DIR_FAST" using mv by (auto simp: env_move_def split: if_splits)
  obtain d s1 where d: "link ?D ?Dn s = (d, s1)" by fastforce
  obtain e s2 where e: "link ?E ?En s1 = (e, s2)" by fastforce
  obtain u s2' where u: "unlink ?Dn s2 = (u, s2')" by fastforce
  define s3 where "s3 = (if t = DIR_FAST then s2\<lparr>simta_fast_files := simta_fast_files s2 + 1\<rparr> else s2)"
  obtain rc1 e1 s4 where ul: "env_unlink env s3 = (rc1, e1, s4)" by (metis prod.exhaust)
  note dr = link_result [OF d] and er = link_result [OF e] and ur = unlink_result [OF u]
    and ulr = env_unlink_result [OF ul]
  have n0: "w_names s ?E = Some (fst f)" "w_names s ?D = Some (snd f)" using h by (auto simp: held_def)
  have fin: "fast_count_ok s \<longleftrightarrow> finite (fast_names (w_names s)) \<and>
     simta_fast_files s = int (card (fast_names (w_names s)))" by (rule fast_count_ok_def)
  have n1: "w_names s1 = (w_names s)(?Dn := Some (snd f))" "simta_fast_files s1 = simta_fast_files s" if d
    using dr n0 that by (simp_all add: same_files_def)
  have n2: "w_names s2 = (w_names s)(?Dn := Some (snd f), ?En := Some (fst f))"
    "simta_fast_files s2 = simta_fast_files s" "w_names s ?En = None" if d e
    using er n0 n1 that ne by (simp_all add: same_files_def)
  have n3: "w_names s3 = (w_names s)(?Dn := Some (snd f), ?En := Some (fst f))"
    "simta_fast_files s3 = simta_fast_files s + (if t = DIR_FAST then 1 else 0)" if d e
    using n2 that by (simp_all add: s3_def)
  have mv': "env_move env t s = (if \<not> d then Inr (- 1, env, s1) else if \<not> e then Inr (- 1, env, s2')
      else if rc1 \<noteq> 0 then Inr (- 1, e1, env_move_unwind ?En ?Dn t s4)
      else Inr (0, e1\<lparr>e_dir := t, e_flags := set_flag (e_flags e1) ENV_FLAG_EFILE\<rparr>, s4))"
    using t ne d e u ul [unfolded s3_def]
    by (cases "t = DIR_FAST") (simp_all add: env_move_def dfile_def efile_def)
  obtain fl where "e1 = env\<lparr>e_flags := fl\<rparr>" using ulr by blast
  then have e1: "e_id e1 = ?i" "e_dir e1 = ?o" by simp_all
  consider "\<not> d" | "d" "\<not> e" | "d" "e" "rc1 = 0" | "d" "e" "rc1 \<noteq> 0" by blast
  then show ?thesis
  proof cases
    case 1
    then have "rc = - 1" "env' = env" "s' = s1"
      using mv [unfolded mv'] by auto
    with dr 1 h show ?thesis by (simp add: same_files_def held_def fast_count_ok_def)
  next
    case 2
    then have "rc = - 1" "env' = env" "s' = s2'"
      using 2 mv [unfolded mv'] by auto
    moreover have "w_names s2 = w_names s1" "simta_fast_files s2 = simta_fast_files s1"
      using er 2(2) by (simp_all add: same_files_def)
    then have "w_names s2' = (if u then (w_names s1)(?Dn := None) else w_names s1)"
      "simta_fast_files s2' = simta_fast_files s1" using ur by (simp_all add: same_files_def)
    ultimately show ?thesis using n1 [OF 2(1)] n0 ne
      by (simp add: held_def fast_count_ok_def)
  next
    case 3
    then have r: "rc = 0" "s' = s4" "e_dir env' = t" "e_id env' = e_id e1"
      using 3 mv [unfolded mv'] by auto
    note n2 = n3 [OF 3(1,2)] n2(3) [OF 3(1,2)]
    obtain x where x: "same_files (s3\<lparr>w_names := (w_names s3)(?E := None, ?D := x),
           simta_fast_files := simta_fast_files s3 - (if ?o = DIR_FAST then 1 else 0)\<rparr>) s4"
      using ulr unfolding 3(3) efile_def dfile_def if_P [OF refl] by blast
    have "fast_count_ok s4" if fc: "fast_count_ok s"
    proof -
      have f: "fast_names (w_names s4) = (if t = DIR_FAST then insert ?i (fast_names (w_names s))
          else fast_names (w_names s)) - (if ?o = DIR_FAST then {?i} else {})"
        using x n2(1) ne by (auto simp: same_files_def)
      have m: "?o = DIR_FAST \<Longrightarrow> ?i \<in> fast_names (w_names s)" "t = DIR_FAST \<Longrightarrow> ?i \<notin> fast_names (w_names s)"
        using n0 n2(3) by (auto simp: in_fast_names)
      have pos: "?o = DIR_FAST \<Longrightarrow> Suc 0 \<le> card (fast_names (w_names s))"
        using m(1) fc by (auto simp: fast_count_ok_def Suc_le_eq card_gt_0_iff)
      show ?thesis using fc x n2(2) ne m pos
        unfolding fast_count_ok_def f
        by (cases "t = DIR_FAST"; cases "?o = DIR_FAST")
          (auto simp: same_files_def card_Diff_singleton of_nat_diff)
    qed
    with r x n2 ne e1 show ?thesis
      by (auto simp: same_files_def held_def efile_def)
  next
    case 4
    obtain e2 s5 where un: "unlink ?En s4 = (e2, s5)" by fastforce
    define s6 where "s6 = (if t = DIR_FAST then s5\<lparr>simta_fast_files := simta_fast_files s5 - 1\<rparr> else s5)"
    obtain u7 s7 where u7: "unlink ?Dn s6 = (u7, s7)" by fastforce
    have "env_move_unwind ?En ?Dn t s4 = (if e2 then s7 else s5)"
      using un u7 [unfolded s6_def] by (simp add: env_move_unwind_def)
    then have r: "rc = - 1" "env' = e1" "s' = (if e2 then s7 else s5)"
      using 4 mv [unfolded mv'] by auto
    note n2 = n3 [OF 4(1,2)] n2(3) [OF 4(1,2)]
    have x: "w_names s4 = w_names s3" "simta_fast_files s4 = simta_fast_files s3"
      using ulr unfolding same_files_def by (simp_all only: if_not_P [OF 4(3)])
    have i: "t = DIR_FAST \<Longrightarrow> ?i \<notin> fast_names (w_names s)" using n2(3) by (auto simp: in_fast_names)
    show ?thesis
    proof (cases e2)
      case False
      with r unlink_result [OF un] x n2 n0 ne i e1 show ?thesis
        by (auto simp: same_files_def held_def fast_count_ok_def)
    next
      case True
      with r unlink_result [OF un] unlink_result [OF u7] x n2 n0 ne i e1
      show ?thesis
        by (auto simp: same_files_def held_def fast_count_ok_def s6_def)
    qed
  qed
qed
text \<open>
  C16: a message is never lost by \<open>env_move\<close>, whichever of its calls fail: on success both
  its files are in the target directory and the old command file is gone, on failure both
  are still where they were; the count of command files in the fast directory stays right.
\<close>

theorem env_move_keeps_message:
  assumes "env_move env t s = Inr (rc, env', s')" "held (e_dir env) (e_id env) f s" "e_dir env \<noteq> t"
  shows "e_id env' = e_id env \<and>
    (if rc = 0 then e_dir env' = t \<and> held t (e_id env) f s' \<and> w_names s' (efile env) = None
     else e_dir env' = e_dir env \<and> held (e_dir env) (e_id env) f s') \<and>
    (fast_count_ok s \<longrightarrow> fast_count_ok s')"
  using assms by (rule env_move_result)

definition spool_ex :: "bool list \<Rightarrow> env_state" where
  "spool_ex os = (env_state_ex os)\<lparr>w_names := [(DIR_FAST, ''E1A'') \<mapsto> 3, (DIR_FAST, ''D1A'') \<mapsto> 2],
     w_next := 4, simta_fast_files := 1\<rparr>"

theorem env_move_keeps_message_witness:
  "\<exists>rc env' s'. env_move env_ex DIR_SLOW (spool_ex [True, True, False]) = Inr (rc, env', s') \<and>
     rc \<noteq> 0 \<and> held DIR_FAST ''1A'' (3, 2) s'"
proof -
  obtain env' s' where m: "env_move env_ex DIR_SLOW (spool_ex [True, True, False]) = Inr (- 1, env', s')"
    by (simp add: env_move_def link_def outcome_def spool_ex_def env_state_ex_def env_ex_def zero_env_def
        env_paths env_unlink_def unlink_def Let_def)
  have "held (e_dir env_ex) (e_id env_ex) (3, 2) (spool_ex [True, True, False])" "e_dir env_ex = DIR_FAST"
    "e_id env_ex = ''1A''"
    by (simp_all add: held_def spool_ex_def env_ex_def zero_env_def)
  with env_move_keeps_message [OF m, of "(3, 2)"] m show ?thesis by auto
qed

end
