(* ===== verification/Frames.thy ===== *)
theory Frames
  imports EnvFile
begin

section \<open>What the operations leave of an extended state\<close>

text \<open>
  The components above add fields to the state.  Operations on files keep all of them
  (\<open>sys.more\<close>), operations that also keep lists of messages and senders keep the fields
  behind those lists (\<open>env_state.more\<close>).
\<close>

named_theorems mores \<open>which operations keep the fields of extensions\<close>

lemma outcome_more [mores]: "outcome s = (b, s') \<Longrightarrow> sys.more s' = sys.more s"
  by (cases s rule: outcome_cases) auto

lemma unlink_more [mores]: "unlink p s = (b, s') \<Longrightarrow> sys.more s' = sys.more s"
  by (auto simp: unlink_def split: if_splits prod.splits dest!: mores)

lemma rename_more [mores]: "rename p q s = (b, s') \<Longrightarrow> sys.more s' = sys.more s"
  by (auto simp: rename_def split: if_splits prod.splits dest!: mores)

lemma link_more [mores]: "link p q s = (b, s') \<Longrightarrow> sys.more s' = sys.more s"
  by (auto simp: link_def split: if_splits prod.splits dest!: mores)

lemma open_excl_more [mores]: "open_excl p s = (r, s') \<Longrightarrow> sys.more s' = sys.more s"
  by (auto simp: open_excl_def Let_def split: if_splits prod.splits dest!: mores)

lemma open_file_more [mores]: "open_file p s = (r, s') \<Longrightarrow> sys.more s' = sys.more s"
  by (auto simp: open_file_def Let_def split: if_splits prod.splits dest!: mores)

lemma append_data_more [mores]: "append_data i x s = (r, s') \<Longrightarrow> sys.more s' = sys.more s"
  by (auto simp: append_data_def Let_def split: if_splits prod.splits dest!: mores)

lemma gettimeofday_more [mores]: "simta_gettimeofday s = (r, s') \<Longrightarrow> sys.more s' = sys.more s"
  by (cases s rule: outcome_cases)
    (auto simp: simta_gettimeofday_def gettimeofday_def Let_def split: option.splits list.splits)

lemma env_state_more: "sys.more s' = sys.more s \<Longrightarrow> env_state.more s' = env_state.more s"
  by (cases s; cases s') simp

lemma fprintf_lines_more [mores]: "fprintf_lines tff ls s = (b, s') \<Longrightarrow> sys.more s' = sys.more s"
  by (induction ls arbitrary: s) (auto split: if_splits prod.splits dest!: mores)

lemma tfile_cleanup_more [mores]: "tfile_cleanup e s = Inr (rc, e', s') \<Longrightarrow> sys.more s' = sys.more s"
  by (cases "unlink (tfile e) s") (auto simp: tfile_cleanup_def dest!: mores)

lemma env_tfile_more [mores]: "env_tfile e s = Inr (rc, e', s') \<Longrightarrow> sys.more s' = sys.more s"
  by (auto simp: env_tfile_def Let_def split: if_splits prod.splits option.splits dest!: mores)

lemma env_list_add_more: "env_list_add e s = (rc, e', s') \<Longrightarrow> env_state.more s' = env_state.more s"
  by (auto simp: env_list_add_def Let_def split: bool.splits if_splits prod.splits option.splits
      dest!: mores env_state_more)

lemma sender_list_get_more: "sender_list_get m s = (r, s') \<Longrightarrow> env_state.more s' = env_state.more s"
  by (auto simp: sender_list_get_def Let_def split: if_splits prod.splits option.splits
      dest!: mores [THEN env_state_more])

lemma sender_list_add_more: "sender_list_add e s = Inr (rc, e', s') \<Longrightarrow> env_state.more s' = env_state.more s"
  by (auto simp: sender_list_add_def Let_def split: if_splits prod.splits option.splits
      dest!: mores [THEN env_state_more] sender_list_get_more)

lemma env_lists_add_more:
  assumes "env_lists_add c e s = Inr (rc, e', s')"
  shows "env_state.more s' = env_state.more s"
proof -
  obtain r1 e1 s1 where 1: "(if simta_mid_list_enable c \<noteq> 0 then env_list_add e s else (0, e, s)) = (r1, e1, s1)"
    by (metis prod.exhaust)
  then have "env_state.more s1 = env_state.more s" by (auto split: if_splits dest: env_list_add_more)
  with assms 1 show ?thesis
    by (auto simp: env_lists_add_def split: if_splits dest!: sender_list_add_more)
qed

lemma env_efile_more:
  assumes "env_efile c e s = Inr (rc, e', s')"
  shows "env_state.more s' = env_state.more s"
proof -
  obtain ok s1 where rn: "rename (tfile e) (efile e) s = (ok, s1)" by fastforce
  note m1 = rename_more [OF rn, THEN env_state_more]
  show ?thesis
  proof (cases ok)
    case False
    obtain u s2 where "unlink (tfile e) s1 = (u, s2)" by fastforce
    with assms rn False m1 show ?thesis
      by (auto simp: env_efile_def dest!: unlink_more [THEN env_state_more])
  next
    case True
    define s2 where "s2 = (if e_dir e = DIR_FAST then s1\<lparr>simta_fast_files := simta_fast_files s1 + 1\<rparr> else s1)"
    obtain tv s3 where g: "simta_gettimeofday s2 = (tv, s3)" by fastforce
    then have "env_state.more s3 = env_state.more s"
      using m1 gettimeofday_more [THEN env_state_more, OF g] by (simp add: s2_def split: if_splits)
    then show ?thesis
      using assms rn True g
      by (auto simp: env_efile_def Let_def s2_def [symmetric] split: option.splits
          dest!: env_lists_add_more)
  qed
qed

lemma env_outfile_more: "env_outfile c e s = Inr (rc, e', s') \<Longrightarrow> env_state.more s' = env_state.more s"
  by (auto simp: env_outfile_def split: if_splits dest!: env_efile_more env_tfile_more [THEN env_state_more])

lemma env_dfile_unlink_more [mores]: "env_dfile_unlink e s = (rc, e', s') \<Longrightarrow> sys.more s' = sys.more s"
  by (auto simp: env_dfile_unlink_def Let_def split: if_splits prod.splits dest!: mores)

lemma env_unlink_more [mores]: "env_unlink e s = (rc, e', s') \<Longrightarrow> sys.more s' = sys.more s"
  by (auto simp: env_unlink_def Let_def split: if_splits prod.splits dest!: mores)

lemma env_truncate_more [mores]:
  "env_truncate_and_unlink e lk s = (rc, e', s') \<Longrightarrow> sys.more s' = sys.more s"
  by (auto simp: env_truncate_and_unlink_def Let_def split: if_splits prod.splits option.splits dest!: mores)

lemma env_move_unwind_more: "sys.more (env_move_unwind p q d s) = sys.more s"
proof -
  obtain ok s1 where u: "unlink p s = (ok, s1)" by fastforce
  obtain ok2 s2 where u2: "unlink q (if d = DIR_FAST then s1\<lparr>simta_fast_files := simta_fast_files s1 - 1\<rparr> else s1) = (ok2, s2)"
    by fastforce
  show ?thesis using u u2 unlink_more [OF u] unlink_more [OF u2]
    by (simp add: env_move_unwind_def split: if_splits)
qed

lemma env_move_more [mores]:
  assumes "env_move e t s = Inr (rc, e', s')"
  shows "sys.more s' = sys.more s"
proof (cases "e_dir e = t")
  case True
  with assms show ?thesis by (auto simp: env_move_def split: if_splits)
next
  case False
  let ?Dn = "(t, ''D'' @ e_id e)" and ?En = "(t, ''E'' @ e_id e)"
  have t: "t = DIR_SLOW \<or> t = DIR_FAST" using assms by (auto simp: env_move_def split: if_splits)
  obtain d s1 where d: "link (dfile e) ?Dn s = (d, s1)" by fastforce
  obtain f s2 where f: "link (efile e) ?En s1 = (f, s2)" by fastforce
  obtain u s2' where u: "unlink ?Dn s2 = (u, s2')" by fastforce
  define s3 where "s3 = (if t = DIR_FAST then s2\<lparr>simta_fast_files := simta_fast_files s2 + 1\<rparr> else s2)"
  obtain rc1 e1 s4 where ul: "env_unlink e s3 = (rc1, e1, s4)" by (metis prod.exhaust)
  have "env_move e t s = (if \<not> d then Inr (- 1, e, s1) else if \<not> f then Inr (- 1, e, s2')
      else if rc1 \<noteq> 0 then Inr (- 1, e1, env_move_unwind ?En ?Dn t s4)
      else Inr (0, e1\<lparr>e_dir := t, e_flags := set_flag (e_flags e1) ENV_FLAG_EFILE\<rparr>, s4))"
    using t False d f u ul [unfolded s3_def] by (cases "t = DIR_FAST") (simp_all add: env_move_def)
  moreover have "sys.more s3 = sys.more s2" by (simp add: s3_def)
  ultimately show ?thesis
    using assms link_more [OF d] link_more [OF f] unlink_more [OF u] env_unlink_more [OF ul]
    by (auto simp: env_move_unwind_more split: if_splits)
qed

lemma env_touch_more [mores]:
  assumes "env_touch e s = (rc, e', s')"
  shows "sys.more s' = sys.more s"
  using assms
  by (auto simp: env_touch_def Let_def split: option.splits if_splits prod.splits dest!: mores)

lemma env_is_old_more [mores]: "env_is_old c e i s = (rc, e', s') \<Longrightarrow> sys.more s' = sys.more s"
  by (auto simp: env_is_old_def Let_def split: option.splits if_splits prod.splits dest!: mores)

lemma env_hostname_more [mores]: "env_hostname e h s = Inr (rc, e', s') \<Longrightarrow> sys.more s' = sys.more s"
  by (auto simp: env_hostname_def Let_def split: option.splits if_splits prod.splits dest!: mores)

lemma env_sender_more [mores]: "env_sender e m s = (rc, e', s') \<Longrightarrow> sys.more s' = sys.more s"
  by (auto simp: env_sender_def Let_def split: if_splits prod.splits dest!: mores)

lemma env_recipient_more [mores]: "env_recipient e a s = (rc, e', s') \<Longrightarrow> sys.more s' = sys.more s"
  by (auto simp: env_recipient_def Let_def split: if_splits prod.splits dest!: mores)

lemma read_rcpts_more [mores]: "read_rcpts e sn s = (g, e', sn', s') \<Longrightarrow> sys.more s' = sys.more s"
proof (induction e sn s rule: read_rcpts.induct)
  case (1 env sn s)
  from 1(2) show ?case
    unfolding read_rcpts.simps [of env sn s]
    by (auto split: option.splits prod.splits if_splits dest: env_recipient_more
        dest!: 1(1) [OF sym refl _ sym refl])
qed

text \<open>A reading step keeps what \<open>Q\<close> says of the state.\<close>

lemma and_read_keeps:
  assumes "and_read m f = Inr (g, e', sn', s')"
    and "\<And>g e sn s. m = Inr (g, e, sn, s) \<Longrightarrow> Q s"
    and "\<And>e sn s. Q s \<Longrightarrow> f e sn s = Inr (g, e', sn', s') \<Longrightarrow> Q s'"
  shows "Q s'"
  using assms by (auto simp: and_read_def split: if_splits)

lemma read_steps_same:
  "read_id v e sn s = Inr (g, e', sn', s') \<Longrightarrow> s' = s"
  "read_dinode m e sn s = Inr (g, e', sn', s') \<Longrightarrow> s' = s"
  "read_level m v e sn s = Inr (g, e', sn', s') \<Longrightarrow> s' = s"
  "read_jail m v e sn s = Inr (g, e', sn', s') \<Longrightarrow> s' = s"
  "read_attr m v e sn s = Inr (g, e', sn', s') \<Longrightarrow> s' = s"
  by (auto simp: read_id_def read_dinode_def read_level_def read_jail_def read_attr_def Let_def
      split: if_splits option.splits)

lemma read_host_more [mores]: "read_host m e sn s = Inr (g, e', sn', s') \<Longrightarrow> sys.more s' = sys.more s"
  by (auto simp: read_host_def split: if_splits option.splits dest: mores)

lemma read_from_more [mores]: "read_from m e sn s = Inr (g, e', sn', s') \<Longrightarrow> sys.more s' = sys.more s"
  by (auto simp: read_from_def split: if_splits option.splits prod.splits dest: mores)

lemma read_all_more:
  assumes "read_all m env sn s = Inr (g, e', sn', s')"
  shows "sys.more s' = sys.more s"
proof (cases "read_version sn")
  case (Inr r)
  show ?thesis
  proof (cases r)
    case None
    with Inr assms show ?thesis by (simp add: read_all_def)
  next
    case (Some vs)
    obtain v sn1 where vs: "vs = (v, sn1)" by fastforce
    let ?Q = "\<lambda>t. sys.more t = sys.more s"
    have "and_read (read_id v env sn1 s) (\<lambda>env sn s.
          and_read (read_dinode m env sn s) (\<lambda>env sn s.
          and_read (read_level m v env sn s) (\<lambda>env sn s.
          and_read (read_jail m v env sn s) (\<lambda>env sn s.
          and_read (read_host m env sn s) (\<lambda>env sn s.
          and_read (read_attr m v env sn s) (\<lambda>env sn s.
          and_read (read_from m env sn s) (\<lambda>env sn s.
            if m = READ_QUEUE_INFO then Inr (True, env, sn, s)
            else (case read_rcpts env sn s of
                    (go, env, sn, s) \<Rightarrow> Inr (go \<and> e_rcpt env \<noteq> [], env, sn, s))))))))) = Inr (g, e', sn', s')"
      using assms Inr Some vs by (simp add: read_all_def)
    then show ?thesis
      by (elim and_read_keeps [where Q = ?Q])
        (auto dest!: read_steps_same mores split: if_splits prod.splits)
  qed
qed (use assms in \<open>simp add: read_all_def\<close>)

lemma env_read_more:
  assumes "env_read c m env l s = Inr (rc, lk, e', s')"
  shows "env_state.more s' = env_state.more s"
proof -
  obtain fd ok s1 where o: "env_read_open m env l s = (fd, ok, s1)" by (metis prod.exhaust)
  then have m1: "env_state.more s1 = env_state.more s"
    by (intro env_state_more)
      (auto simp: env_read_open_def Let_def split: option.splits if_splits prod.splits dest!: mores)
  show ?thesis
  proof (cases "m \<notin> {READ_QUEUE_INFO, READ_DELIVER_INFO, READ_JAIL_INFO} \<or> (m = READ_QUEUE_INFO \<and> l) \<or> fd = None")
    case True
    with assms o m1 show ?thesis by (auto simp: env_read_def split: if_splits)
  next
    case False
    then obtain f where f: "fd = Some f" by auto
    obtain g e2 sn s2 where r: "(if ok then read_all m env (snet_attach (w_data s1 f) (1024 * 1024)) s1
                       else Inr (False, env, snet_attach [] 0, s1)) = Inr (g, e2, sn, s2)"
      using assms o False f by (auto simp: env_read_def split: if_splits)
    have m2: "env_state.more s2 = env_state.more s"
      using r m1 by (auto split: if_splits dest!: read_all_more [THEN env_state_more])
    define close where "close = (\<not> g \<or> m = READ_QUEUE_INFO \<or> \<not> l)"
    obtain cok s3 where c3: "(if close then outcome s2 else (True, s2)) = (cok, s3)" by fastforce
    have m3: "env_state.more s3 = env_state.more s"
      using c3 m2 by (auto split: if_splits dest!: outcome_more [THEN env_state_more])
    show ?thesis
    proof (cases "\<not> g \<or> \<not> cok")
      case True
      then have "s' = s3" using assms o False f r c3 by (auto simp: env_read_def Let_def close_def)
      with m3 show ?thesis by simp
    next
      case False2: False
      then obtain rc3 e3 where "env_lists_add c e2 s3 = Inr (rc3, e3, s')"
        using assms o False f r c3 by (auto simp: env_read_def Let_def close_def)
      with m3 show ?thesis by (auto dest!: env_lists_add_more)
    qed
  qed
qed

lemma env_free_more: "env_state.more (env_free e s) = env_state.more s"
  by (auto simp: env_free_def sender_list_drop_def Let_def split: option.splits prod.splits)

text \<open>The lists of messages and senders know nothing of files and flags.\<close>

lemma env_list_add_flags: "env_list_add e s = (rc, e', s') \<Longrightarrow> e_flags e' = e_flags e"
  by (auto simp: env_list_add_def Let_def split: if_splits prod.splits option.splits bool.splits)

lemma sender_list_add_flags: "sender_list_add e s = Inr (rc, e', s') \<Longrightarrow> e_flags e' = e_flags e"
  by (auto simp: sender_list_add_def Let_def split: if_splits prod.splits option.splits bool.splits)

lemma env_lists_add_flags:
  assumes "env_lists_add c e s = Inr (rc, e', s')"
  shows "e_flags e' = e_flags e"
proof (cases "simta_mid_list_enable c = 0")
  case True
  with assms show ?thesis by (auto simp: env_lists_add_def split: if_splits dest: sender_list_add_flags)
next
  case False
  obtain r1 e1 s1 where 1: "env_list_add e s = (r1, e1, s1)" by (metis prod.exhaust)
  with assms False env_list_add_flags [OF 1] show ?thesis
    by (auto simp: env_lists_add_def split: if_splits dest: sender_list_add_flags)
qed

lemma env_free_names: "w_names (env_free e s) = w_names s"
  by (auto simp: env_free_def sender_list_drop_def Let_def split: option.splits if_splits)

lemma has_flag_zero [simp]: "has_flag 0 f = False"
  by (simp add: has_flag_def)

end
