(* ===== verification/HostQueue.thy ===== *)
theory HostQueue
  imports Frames Red Wildcard
begin

section \<open>Host queues: queue.c, the queues and their order\<close>

text \<open>
  The messages waiting for one host, oldest attempt first.  There is one queue per host
  (\<open>simta_host_q\<close>), one for unexpanded messages and one for the punt host; a pointer to a
  queue is its name.  A queue holds its envelopes; a pointer to an envelope is its queue
  id.  The doubly linked list \<open>simta_deliver_q\<close> and the ring \<open>simta_env_queue\<close> are the
  sequences they represent.
\<close>

datatype host_status = HOST_UNKNOWN | HOST_NULL | HOST_LOCAL | HOST_MX | HOST_BOUNCE | HOST_DOWN
  | HOST_PUNT | HOST_PUNT_DOWN | HOST_SUPRESSED | HOST_BITBUCKET

definition NOPUNT_MX :: "32 word" where "NOPUNT_MX = 1"
definition NOPUNT_CONFIG :: "32 word" where "NOPUNT_CONFIG = 2"

definition PROCESS_RECEIVE :: int where "PROCESS_RECEIVE = 3"

definition S_UNEXPANDED :: string where "S_UNEXPANDED = ''Unexpanded''"

record host_q =
  hq_entries :: int
  hq_entries_new :: int
  hq_entries_removed :: int
  hq_jail_envs :: int
  hq_red :: "simta_red option"
  hq_hostname :: string
  hq_smtp_hostname :: "string option"
  hq_primary :: int
  hq_status :: host_status
  hq_no_punt :: "32 word"
  hq_min_wait :: int
  hq_max_wait :: int
  hq_leaky :: int
  hq_env_head :: "envelope list"
  hq_err_text :: "line_file option"
  hq_last_launch :: int
  hq_next_launch :: int
  hq_wait_last :: int

record q_state = env_state +
  simta_reds :: red_lists
  simta_unexpanded_q :: "host_q option"
  simta_punt_q :: "host_q option"
  simta_host_q :: "host_q list"
  simta_deliver_q :: "hq_ref list"
  simta_env_queue :: "string list"
  simta_disk_cycle :: int

subsection \<open>Finding a queue\<close>

fun hosts_lookup :: "string \<Rightarrow> host_q list \<Rightarrow> host_q option" where
  "hosts_lookup hostname [] = None"
| "hosts_lookup hostname (hq # hqs) =
     (if strcasecmp (hq_hostname hq) hostname = 0 then Some hq else hosts_lookup hostname hqs)"

definition host_q_lookup :: "string \<Rightarrow> 'a q_state_scheme \<Rightarrow> host_q option" where
  "host_q_lookup hostname s = hosts_lookup hostname (simta_host_q s)"

fun hosts_update :: "string \<Rightarrow> (host_q \<Rightarrow> host_q) \<Rightarrow> host_q list \<Rightarrow> host_q list" where
  "hosts_update hostname f [] = []"
| "hosts_update hostname f (hq # hqs) =
     (if strcasecmp (hq_hostname hq) hostname = 0 then f hq # hqs else hq # hosts_update hostname f hqs)"

text \<open>Reading and writing through a pointer to a queue.\<close>

definition get_hq :: "hq_ref \<Rightarrow> 'a q_state_scheme \<Rightarrow> host_q option" where
  "get_hq r s = (case r of UnexpandedQ \<Rightarrow> simta_unexpanded_q s | PuntQ \<Rightarrow> simta_punt_q s
     | HostQ h \<Rightarrow> host_q_lookup h s)"

definition upd_hq :: "hq_ref \<Rightarrow> (host_q \<Rightarrow> host_q) \<Rightarrow> 'a q_state_scheme \<Rightarrow> 'a q_state_scheme" where
  "upd_hq r f s = (case r of
       UnexpandedQ \<Rightarrow> s\<lparr>simta_unexpanded_q := map_option f (simta_unexpanded_q s)\<rparr>
     | PuntQ \<Rightarrow> s\<lparr>simta_punt_q := map_option f (simta_punt_q s)\<rparr>
     | HostQ h \<Rightarrow> s\<lparr>simta_host_q := hosts_update h f (simta_host_q s)\<rparr>)"

subsection \<open>Making a queue\<close>

definition zero_hq :: "string \<Rightarrow> host_q" where
  "zero_hq hostname =
     \<lparr>hq_entries = 0, hq_entries_new = 0, hq_entries_removed = 0, hq_jail_envs = 0, hq_red = None,
      hq_hostname = hostname, hq_smtp_hostname = None, hq_primary = 0, hq_status = HOST_UNKNOWN,
      hq_no_punt = 0, hq_min_wait = 0, hq_max_wait = 0, hq_leaky = 0, hq_env_head = [],
      hq_err_text = None, hq_last_launch = 0, hq_next_launch = 0, hq_wait_last = 0\<rparr>"

text \<open>The queues that must always be there.\<close>

definition make_null_queues :: "conf \<Rightarrow> 'a q_state_scheme \<Rightarrow> bool \<times> 'a q_state_scheme" where
  "make_null_queues c s =
     (if simta_unexpanded_q s \<noteq> None then (True, s)
      else (let (ok, s1) = outcome s
            in if \<not> ok then (False, s1)
               else (let s2 = s1\<lparr>simta_unexpanded_q := Some ((zero_hq S_UNEXPANDED)\<lparr>hq_status := HOST_NULL\<rparr>)\<rparr>
                     in case simta_punt_host c of
                          None \<Rightarrow> (True, s2)
                        | Some punt \<Rightarrow>
                            (let (ok2, s3) = outcome s2
                             in if \<not> ok2 then (False, s3)
                                else (True, s3\<lparr>simta_punt_q :=
                                        Some ((zero_hq punt)\<lparr>hq_status := HOST_PUNT\<rparr>)\<rparr>)))))"

text \<open>What a new host queue is set up with: its red entry and status, then its waiting times.\<close>

definition host_q_status :: "conf \<Rightarrow> red_lists \<Rightarrow> host_q \<Rightarrow> host_q run" where
  "host_q_status c reds hq =
     (if 0 \<le> simta_bitbucket c then Inr (hq\<lparr>hq_status := HOST_BITBUCKET\<rparr>)
      else and_then (simta_red_lookup_host (simta_domain_trailing_dot c) reds (hq_hostname hq))
        (\<lambda>r. Inr (case r of
             None \<Rightarrow> hq
           | Some red \<Rightarrow>
               (if red_deliver_type red = RED_DELIVER_BINARY
                then hq\<lparr>hq_red := Some red, hq_status := HOST_LOCAL\<rparr> else hq\<lparr>hq_red := Some red\<rparr>))))"

definition host_q_waits :: "conf \<Rightarrow> red_lists \<Rightarrow> host_q \<Rightarrow> host_q run" where
  "host_q_waits c reds hq =
     and_then (simta_red_lookup_host_2 (simta_domain_trailing_dot c) (hq_hostname hq) (simta_remote_hosts reds))
       (\<lambda>r. Inr (case r of
            Some red \<Rightarrow>
              hq\<lparr>hq_min_wait := red_min_wait red, hq_max_wait := red_max_wait red,
                 hq_no_punt := (if red_no_punt red \<noteq> 0 then NOPUNT_CONFIG else 0)\<rparr>
          | None \<Rightarrow>
              hq\<lparr>hq_min_wait := simta_min_wait c, hq_max_wait := simta_max_wait c,
                 hq_no_punt := (case simta_jail_host c of
                     Some j \<Rightarrow> if strcasecmp j (hq_hostname hq) = 0 then NOPUNT_CONFIG else 0
                   | None \<Rightarrow> 0)\<rparr>))"

definition host_q_suppress :: "conf \<Rightarrow> host_q \<Rightarrow> host_q" where
  "host_q_suppress c hq =
     (if hq_status hq = HOST_UNKNOWN \<and> simta_queue_incoming_smtp_mail c \<noteq> 0 \<and>
         simta_process_type c = PROCESS_RECEIVE
      then hq\<lparr>hq_status := HOST_SUPRESSED\<rparr> else hq)"

definition new_host_q :: "conf \<Rightarrow> red_lists \<Rightarrow> string \<Rightarrow> host_q run" where
  "new_host_q c reds hostname =
     and_then (and_then (host_q_status c reds (zero_hq hostname)) (host_q_waits c reds))
       (\<lambda>hq. Inr (host_q_suppress c hq))"

definition host_q_create_or_lookup ::
  "conf \<Rightarrow> string option \<Rightarrow> 'a q_state_scheme \<Rightarrow> (hq_ref option \<times> 'a q_state_scheme) run" where
  "host_q_create_or_lookup c hostname s =
     (let (ok, s1) = make_null_queues c s
      in if \<not> ok then Inr (None, s1)
         else if hostname = None \<or> hostname = Some [] then Inr (Some UnexpandedQ, s1)
         else
           (let h = the hostname
            in case host_q_lookup h s1 of
                 Some hq \<Rightarrow> Inr (Some (HostQ (hq_hostname hq)), s1)
               | None \<Rightarrow>
                   (let (malloc_ok, s2) = outcome s1
                    in if \<not> malloc_ok then Inr (None, s2)
                       else (let (strdup_ok, s3) = outcome s2
                         in if \<not> strdup_ok then Inr (None, s3)
                            else and_then (new_host_q c (simta_reds s3) h)
                              (\<lambda>hq. Inr (Some (HostQ h), s3\<lparr>simta_host_q := hq # simta_host_q s3\<rparr>))))))"

definition hq_clear_errors :: "host_q \<Rightarrow> host_q" where
  "hq_clear_errors hq = hq\<lparr>hq_err_text := None\<rparr>"

subsection \<open>Envelopes in and out of a queue\<close>

definition is_prisoner :: "envelope \<Rightarrow> bool" where
  "is_prisoner env \<longleftrightarrow> e_jail env = ENV_JAIL_PRISONER"

text \<open>Behind all that were tried at the same time or before.\<close>

definition hq_insert :: "envelope \<Rightarrow> host_q \<Rightarrow> host_q" where
  "hq_insert env hq =
     hq\<lparr>hq_env_head := place_before (\<lambda>x. e_etime env < e_etime x) env (hq_env_head hq),
        hq_entries := hq_entries hq + 1,
        hq_jail_envs := hq_jail_envs hq + (if is_prisoner env then 1 else 0)\<rparr>"

definition queue_envelope :: "conf \<Rightarrow> envelope \<Rightarrow> 'a q_state_scheme \<Rightarrow> (int \<times> envelope \<times> 'a q_state_scheme) run" where
  "queue_envelope c env s =
     (if e_dir env = DIR_DEAD then Inr (0, env, s)
      else if e_hq env \<noteq> None then Inr (0, env, s)
      else
        and_then (if has_flag (e_flags env) ENV_FLAG_PUNT then Inr (Some PuntQ, s)
                  else host_q_create_or_lookup c (e_hostname env) s)
          (\<lambda>(hq, s1). case hq of
               None \<Rightarrow> Inr (1, env, s1)
             | Some r \<Rightarrow>
                 (if get_hq r s1 = None then Inl NullDeref
                  else (let env' = env\<lparr>e_hq := Some r\<rparr>
                        in Inr (0, env', upd_hq r (hq_insert env') s1)))))"

fun unlink_env :: "string \<Rightarrow> envelope list \<Rightarrow> envelope list option" where
  "unlink_env idn [] = None"
| "unlink_env idn (e # es) =
     (if e_id e = idn then Some es else map_option ((#) e) (unlink_env idn es))"

definition queue_remove_envelope ::
  "envelope \<Rightarrow> 'a q_state_scheme \<Rightarrow> (envelope \<times> 'a q_state_scheme) run" where
  "queue_remove_envelope env s =
     (case e_hq env of
        None \<Rightarrow> Inl NullDeref
      | Some r \<Rightarrow>
          (case get_hq r s of
             None \<Rightarrow> Inl NullDeref
           | Some hq \<Rightarrow>
               (case unlink_env (e_id env) (hq_env_head hq) of
                  None \<Rightarrow> Inl NullDeref
                | Some es \<Rightarrow>
                    Inr (env\<lparr>e_hq := None\<rparr>,
                      upd_hq r (\<lambda>hq. hq\<lparr>hq_env_head := es, hq_entries := hq_entries hq - 1,
                        hq_jail_envs := hq_jail_envs hq - (if is_prisoner env then 1 else 0)\<rparr>) s))))"

text \<open>
  The queue is taken apart and its envelopes are queued again; those whose command file is
  gone are freed.
\<close>

fun requeue_all :: "conf \<Rightarrow> envelope list \<Rightarrow> 'a q_state_scheme \<Rightarrow> 'a q_state_scheme run" where
  "requeue_all c [] s = Inr s"
| "requeue_all c (env # envs) s =
     (let env' = env\<lparr>e_hq := None\<rparr>;
          (stat_ok, s1) = (if w_names s (efile env') = None then (False, s) else outcome s)
      in if \<not> stat_ok then requeue_all c envs (env_free (Some env') s1)
         else and_then (queue_envelope c env' s1) (\<lambda>(rc, e, s2). requeue_all c envs s2))"

definition queue_time_order :: "conf \<Rightarrow> hq_ref \<Rightarrow> 'a q_state_scheme \<Rightarrow> 'a q_state_scheme run" where
  "queue_time_order c r s =
     (case get_hq r s of
        None \<Rightarrow> Inr s
      | Some hq \<Rightarrow>
          requeue_all c (hq_env_head hq)
            (upd_hq r (\<lambda>hq. hq\<lparr>hq_entries := 0, hq_jail_envs := 0, hq_env_head := []\<rparr>) s))"

text \<open>
  Changing the jail code of a message, in its command file and in the counter of its queue.
  The envelope stands in its queue, so what happens to it is written back there.
\<close>

definition store_env :: "envelope \<Rightarrow> envelope \<Rightarrow> 'a q_state_scheme \<Rightarrow> 'a q_state_scheme" where
  "store_env e e' s = (case e_hq e of
       None \<Rightarrow> s
     | Some r \<Rightarrow> upd_hq r (\<lambda>hq. hq\<lparr>hq_env_head :=
         map (\<lambda>x. if e_id x = e_id e then e' else x) (hq_env_head hq)\<rparr>) s)"

definition env_jail_status :: "conf \<Rightarrow> envelope option \<Rightarrow> int \<Rightarrow> 'a q_state_scheme \<Rightarrow>
  (int \<times> 'a q_state_scheme) run" where
  "env_jail_status c env jail s =
     (case env of
        None \<Rightarrow> Inr (0, s)
      | Some e \<Rightarrow>
          (if jail \<notin> {ENV_JAIL_PRISONER, ENV_JAIL_PAROLEE} then Inr (1, s)
           else if e_jail e \<notin> {ENV_JAIL_PRISONER, ENV_JAIL_PAROLEE} then Inr (1, s)
           else if e_jail e = jail then Inr (0, s)
           else
             (let s1 = (case e_hq e of
                   None \<Rightarrow> s
                 | Some r \<Rightarrow> upd_hq r (\<lambda>hq. hq\<lparr>hq_jail_envs :=
                       hq_jail_envs hq + (if jail = ENV_JAIL_PRISONER then - 1 else 1)\<rparr>) s)
              in and_then (env_read c READ_JAIL_INFO e True s1) (\<lambda>(rc, lock, e2, s2).
                   if rc \<noteq> 0 then Inr (0, store_env e e2 s2)
                   else and_then (env_outfile c (env_jail_set e2 jail) s2) (\<lambda>(rc2, e3, s3).
                     if rc2 \<noteq> 0 then Inr (1, store_env e e3 s3)
                     else Inr (0, store_env e (env_rcpt_free e3) s3))))))"

subsection \<open>One queue per host\<close>

definition hosts_distinct :: "host_q list \<Rightarrow> bool" where
  "hosts_distinct hqs \<longleftrightarrow> distinct (map (\<lambda>hq. lower (hq_hostname hq)) hqs)"

lemma hosts_lookup_Some:
  "hosts_lookup h hqs = Some hq \<Longrightarrow> hq \<in> set hqs \<and> same_case h (hq_hostname hq)"
  by (induction hqs) (auto simp: same_case_def cstr split: if_splits)

lemma hosts_lookup_None: "hosts_lookup h hqs = None \<longleftrightarrow> (\<forall>hq\<in>set hqs. \<not> same_case h (hq_hostname hq))"
  by (induction hqs) (auto simp: same_case_def cstr)

lemma hosts_lookup_cong: "same_case a b \<Longrightarrow> hosts_lookup a hqs = hosts_lookup b hqs"
  by (induction hqs) (auto simp: same_case_def cstr)

lemma hosts_lookup_iff:
  "hosts_distinct hqs \<Longrightarrow>
     hosts_lookup h hqs = Some hq \<longleftrightarrow> hq \<in> set hqs \<and> same_case h (hq_hostname hq)"
  by (induction hqs) (auto simp: hosts_distinct_def same_case_def cstr)

text \<open>Setting up a queue leaves its name and its envelopes alone.\<close>

definition same_queue :: "host_q \<Rightarrow> host_q \<Rightarrow> bool" where
  "same_queue hq hq' \<longleftrightarrow> hq_hostname hq' = hq_hostname hq \<and> hq_env_head hq' = hq_env_head hq \<and>
     hq_entries hq' = hq_entries hq \<and> hq_jail_envs hq' = hq_jail_envs hq \<and>
     hq_wait_last hq' = hq_wait_last hq \<and> hq_leaky hq' = hq_leaky hq"

lemma host_q_status_same: "host_q_status c reds hq = Inr hq' \<Longrightarrow> same_queue hq hq'"
  by (auto simp: host_q_status_def same_queue_def split: if_splits option.splits)

lemma host_q_waits_same: "host_q_waits c reds hq = Inr hq' \<Longrightarrow> same_queue hq hq'"
  unfolding host_q_waits_def and_then_Inr_iff
  by (elim exE conjE, drule Inr_inject, hypsubst) (simp add: same_queue_def split: option.splits)

lemma host_q_suppress_same: "same_queue hq (host_q_suppress c hq)"
  by (simp add: host_q_suppress_def same_queue_def)

lemma same_queue_trans: "same_queue a b \<Longrightarrow> same_queue b d \<Longrightarrow> same_queue a d"
  by (simp add: same_queue_def)

lemma new_host_q_same: "new_host_q c reds h = Inr hq \<Longrightarrow> same_queue (zero_hq h) hq"
  unfolding new_host_q_def and_then_Inr_iff
  by (metis Inr_inject host_q_status_same host_q_waits_same host_q_suppress_same same_queue_trans)

lemma new_host_q_name: "new_host_q c reds h = Inr hq \<Longrightarrow> hq_hostname hq = h"
  by (drule new_host_q_same) (simp add: same_queue_def zero_hq_def)

lemma new_host_q_empty:
  "new_host_q c reds h = Inr hq \<Longrightarrow> hq_env_head hq = [] \<and> hq_entries hq = 0 \<and> hq_jail_envs hq = 0"
  by (drule new_host_q_same) (simp add: same_queue_def zero_hq_def)

lemma red_lookup_total: "h \<noteq> [] \<Longrightarrow> \<exists>r. simta_red_lookup_host_2 d h reds = Inr r"
  by (simp add: simta_red_lookup_host_2_def)

lemma new_host_q_total:
  assumes "h \<noteq> []"
  shows "\<exists>hq. new_host_q c reds h = Inr hq"
proof -
  have 1: "\<exists>hq'. host_q_status c reds hq = Inr hq'" if "hq_hostname hq = h" for hq
    using red_lookup_total [OF assms] that
    by (fastforce simp: host_q_status_def simta_red_lookup_host_def)
  have 2: "\<exists>hq'. host_q_waits c reds hq = Inr hq'" if "hq_hostname hq = h" for hq
    using red_lookup_total [OF assms] that by (fastforce simp: host_q_waits_def)
  obtain hq1 where "host_q_status c reds (zero_hq h) = Inr hq1" "hq_hostname hq1 = h"
    using 1 [of "zero_hq h"] host_q_status_same
    by (fastforce simp: zero_hq_def same_queue_def)
  with 2 [of hq1] show ?thesis by (auto simp: new_host_q_def)
qed

text \<open>What \<open>host_q_create_or_lookup\<close> does to the list of hosts for a name, memory permitting.\<close>

definition hosts_add :: "conf \<Rightarrow> red_lists \<Rightarrow> host_q list \<Rightarrow> string \<Rightarrow> host_q list" where
  "hosts_add c reds hqs h =
     (case hosts_lookup h hqs of
        Some _ \<Rightarrow> hqs
      | None \<Rightarrow> (case new_host_q c reds h of Inr hq \<Rightarrow> hq | Inl _ \<Rightarrow> zero_hq h) # hqs)"

lemma zero_hq_name [simp]: "hq_hostname (zero_hq h) = h"
  by (simp add: zero_hq_def)

lemma hosts_add_name: "hq_hostname (case new_host_q c reds h of Inr hq \<Rightarrow> hq | Inl _ \<Rightarrow> zero_hq h) = h"
  by (auto simp: new_host_q_name split: sum.split)

interpretation hosts: keyed_table same_case "\<lambda>hqs h. hosts_lookup h hqs" "hosts_add c reds"
  hosts_distinct for c reds
proof
  fix hqs :: "host_q list" and k k' :: string
  show "hosts_distinct (hosts_add c reds hqs k)" if "hosts_distinct hqs"
    using that hosts_lookup_None [of k hqs] hosts_add_name [of k c reds]
    by (auto simp: hosts_add_def hosts_distinct_def same_case_def cstr split: option.splits sum.splits)
  show "hosts_lookup k' (hosts_add c reds hqs k) \<noteq> None" if "same_case k k'"
    using that hosts_add_name [of k c reds] hosts_lookup_cong [OF that]
    by (auto simp: hosts_add_def same_case_def cstr split: option.splits sum.splits)
  show "hosts_lookup k' (hosts_add c reds hqs k) = hosts_lookup k' hqs" if "\<not> same_case k k'"
    using that hosts_add_name [of k c reds]
    by (auto simp: hosts_add_def same_case_def cstr split: option.splits sum.splits)
  show "hosts_add c reds hqs k = hqs" if "hosts_lookup k hqs \<noteq> None"
    using that by (auto simp: hosts_add_def)
  show "hosts_lookup k hqs = hosts_lookup k' hqs" if "same_case k k'"
    by (rule hosts_lookup_cong [OF that])
next
  show "same_case k k" for k by (simp add: same_case_def cstr)
qed

subsection \<open>Queues are in order and counted\<close>

text \<open>The name by which envelopes know their queue.\<close>

definition ref_of :: "hq_ref \<Rightarrow> host_q \<Rightarrow> hq_ref" where
  "ref_of r hq = (case r of HostQ _ \<Rightarrow> HostQ (hq_hostname hq) | _ \<Rightarrow> r)"

definition hq_ok :: "hq_ref \<Rightarrow> host_q \<Rightarrow> bool" where
  "hq_ok r hq \<longleftrightarrow>
     hq_entries hq = int (length (hq_env_head hq)) \<and>
     hq_jail_envs hq = int (length (filter is_prisoner (hq_env_head hq))) \<and>
     sorted_wrt (\<lambda>x y. e_etime x - e_etime y \<le> 0) (hq_env_head hq) \<and>
     (\<forall>e\<in>set (hq_env_head hq). e_hq e = Some (ref_of r hq))"

definition queues_ok :: "'a q_state_scheme \<Rightarrow> bool" where
  "queues_ok s \<longleftrightarrow> hosts_distinct (simta_host_q s) \<and> (\<forall>r hq. get_hq r s = Some hq \<longrightarrow> hq_ok r hq)"

fun same_ref :: "hq_ref \<Rightarrow> hq_ref \<Rightarrow> bool" where
  "same_ref (HostQ a) (HostQ b) = same_case a b"
| "same_ref r q = (r = q)"

lemma hosts_lookup_update:
  assumes "\<And>hq. hq_hostname (f hq) = hq_hostname hq"
  shows "hosts_lookup k (hosts_update h f hqs) =
    (if same_case h k then map_option f (hosts_lookup h hqs) else hosts_lookup k hqs)"
  using assms by (induction hqs) (auto simp: same_case_def cstr)

lemma hosts_update_names:
  "(\<And>hq. hq_hostname (f hq) = hq_hostname hq) \<Longrightarrow>
     map (\<lambda>hq. lower (hq_hostname hq)) (hosts_update h f hqs) = map (\<lambda>hq. lower (hq_hostname hq)) hqs"
  by (induction hqs) auto

lemma get_upd_hq:
  assumes "\<And>hq. hq_hostname (f hq) = hq_hostname hq"
  shows "get_hq q (upd_hq r f s) = (if same_ref r q then map_option f (get_hq r s) else get_hq q s)"
  by (cases r; cases q) (simp_all add: get_hq_def upd_hq_def host_q_lookup_def hosts_lookup_update [OF assms])

lemma same_ref_get: "same_ref r q \<Longrightarrow> get_hq q s = get_hq r s"
  by (cases r; cases q) (simp_all add: get_hq_def host_q_lookup_def hosts_lookup_cong)

lemma same_ref_of: "same_ref r q \<Longrightarrow> ref_of q hq = ref_of r hq"
  by (cases r; cases q) (simp_all add: ref_of_def)

lemma queues_ok_upd:
  assumes "queues_ok s" "\<And>hq. hq_hostname (f hq) = hq_hostname hq"
    and "\<And>hq. get_hq r s = Some hq \<Longrightarrow> hq_ok r hq \<Longrightarrow> hq_ok r (f hq)"
  shows "queues_ok (upd_hq r f s)"
proof -
  have "hosts_distinct (simta_host_q (upd_hq r f s))"
    using assms(1) hosts_update_names [OF assms(2)]
    by (cases r) (simp_all add: queues_ok_def upd_hq_def hosts_distinct_def)
  moreover have "hq_ok q hq" if "get_hq q (upd_hq r f s) = Some hq" for q hq
  proof (cases "same_ref r q")
    case True
    with that have "map_option f (get_hq r s) = Some hq" by (simp add: get_upd_hq [OF assms(2)])
    then obtain hq0 where "get_hq r s = Some hq0" "hq = f hq0" by auto
    with assms(1,3) same_ref_of [OF True] show ?thesis
      by (auto simp: queues_ok_def hq_ok_def)
  next
    case False
    with that have "get_hq q s = Some hq" by (simp add: get_upd_hq [OF assms(2)])
    with assms(1) show ?thesis by (simp add: queues_ok_def)
  qed
  ultimately show ?thesis by (simp add: queues_ok_def)
qed

lemma hq_insert_ok:
  assumes "hq_ok r hq" "e_hq env = Some (ref_of r hq)"
  shows "hq_ok r (hq_insert env hq)"
proof -
  have "(\<lambda>x. e_etime env < e_etime x) = (\<lambda>x. e_etime env - e_etime x < 0)" by auto
  then have "sorted_wrt (\<lambda>x y. e_etime x - e_etime y \<le> 0) (hq_env_head (hq_insert env hq))"
    using cmp_time.sorted_place [of e_etime "hq_env_head hq" env] assms(1)
    by (simp add: hq_insert_def hq_ok_def)
  moreover have "length (filter P (place_before Q env es)) = length (filter P es) + (if P env then 1 else 0)"
    for P Q and es :: "envelope list"
    by (induction es) auto
  ultimately show ?thesis
    using assms by (auto simp: hq_ok_def hq_insert_def ref_of_def split: hq_ref.splits)
qed

lemma hq_insert_name [simp]: "hq_hostname (hq_insert e hq) = hq_hostname hq"
  by (simp add: hq_insert_def)

text \<open>An envelope is put behind those with the same time of attempt.\<close>

lemma hq_insert_fifo:
  assumes "hq_ok r hq"
  shows "filter (\<lambda>x. e_etime x = e_etime env) (hq_env_head (hq_insert env hq)) =
    filter (\<lambda>x. e_etime x = e_etime env) (hq_env_head hq) @ [env]"
proof -
  have h: "hq_env_head (hq_insert env hq) =
      place_before (\<lambda>x. e_etime env - e_etime x < 0) env (hq_env_head hq)"
    and eq: "(\<lambda>x. e_etime x = e_etime env) = (\<lambda>x. e_etime env - e_etime x = 0)"
    by (auto simp: hq_insert_def)
  show ?thesis unfolding h eq
    by (rule cmp_time.place_behind_equal) (use assms in \<open>simp only: hq_ok_def\<close>)
qed

text \<open>Finding or making a queue keeps the others.\<close>

definition keeps_queues :: "'a q_state_scheme \<Rightarrow> 'a q_state_scheme \<Rightarrow> bool" where
  "keeps_queues s s' \<longleftrightarrow> (\<forall>r hq. get_hq r s = Some hq \<longrightarrow> get_hq r s' = Some hq) \<and>
     (\<forall>r hq. get_hq r s = None \<longrightarrow> get_hq r s' = Some hq \<longrightarrow> hq_env_head hq = []) \<and>
     (queues_ok s \<longrightarrow> queues_ok s') \<and> same_files s s'"

lemma keeps_queues_refl [simp]: "keeps_queues s s"
  by (simp add: keeps_queues_def)

lemma keeps_queues_trans: "keeps_queues s t \<Longrightarrow> keeps_queues t u \<Longrightarrow> keeps_queues s u"
  unfolding keeps_queues_def
  by (intro conjI allI impI; (elim conjE)?)
    (meson, metis option.exhaust_sel option.inject option.distinct(1), blast, blast intro: same_files_trans)

lemma get_hq_oracle [simp]: "get_hq r (s\<lparr>w_oracle := os\<rparr>) = get_hq r s"
  by (simp add: get_hq_def host_q_lookup_def split: hq_ref.split)

lemma outcome_keeps: "outcome s = (ok, s') \<Longrightarrow> keeps_queues s s'"
  by (cases s rule: outcome_cases) (auto simp: keeps_queues_def queues_ok_def same_files_def)

lemma hq_ok_empty:
  "hq_env_head hq = [] \<Longrightarrow> hq_entries hq = 0 \<Longrightarrow> hq_jail_envs hq = 0 \<Longrightarrow> hq_ok r hq"
  by (simp add: hq_ok_def)

lemma make_null_queues_keeps:
  assumes "make_null_queues c s = (ok, s')" "simta_unexpanded_q s = None \<Longrightarrow> simta_punt_q s = None"
  shows "keeps_queues s s' \<and> simta_host_q s' = simta_host_q s \<and> simta_reds s' = simta_reds s \<and>
    (ok \<longrightarrow> simta_unexpanded_q s' \<noteq> None)"
proof (cases "simta_unexpanded_q s")
  case (Some q)
  with assms show ?thesis by (auto simp: make_null_queues_def)
next
  case None
  have un: "keeps_queues t (t\<lparr>simta_unexpanded_q := Some ((zero_hq S_UNEXPANDED)\<lparr>hq_status := HOST_NULL\<rparr>)\<rparr>)"
    if "simta_unexpanded_q t = None" for t :: "'a q_state_scheme"
    using that by (auto simp: keeps_queues_def queues_ok_def get_hq_def host_q_lookup_def same_files_def
        zero_hq_def intro!: hq_ok_empty split: hq_ref.splits)
  have pu: "keeps_queues t (t\<lparr>simta_punt_q := Some ((zero_hq p)\<lparr>hq_status := HOST_PUNT\<rparr>)\<rparr>)"
    if "simta_punt_q t = None" for p and t :: "'a q_state_scheme"
    using that by (auto simp: keeps_queues_def queues_ok_def get_hq_def host_q_lookup_def same_files_def
        zero_hq_def intro!: hq_ok_empty split: hq_ref.splits)
  obtain ok1 s1 where o: "outcome s = (ok1, s1)" by fastforce
  have s1: "simta_unexpanded_q s1 = None" "simta_punt_q s1 = None" "simta_host_q s1 = simta_host_q s"
    "simta_reds s1 = simta_reds s"
    using o None assms(2) by (cases s rule: outcome_cases; auto)+
  define s2 where "s2 = s1\<lparr>simta_unexpanded_q := Some ((zero_hq S_UNEXPANDED)\<lparr>hq_status := HOST_NULL\<rparr>)\<rparr>"
  have s2: "simta_host_q s2 = simta_host_q s" "simta_reds s2 = simta_reds s" "simta_unexpanded_q s2 \<noteq> None"
    using s1 by (simp_all add: s2_def)
  obtain ok3 s3 where o3: "outcome s2 = (ok3, s3)" by fastforce
  have s3: "simta_punt_q s3 = None" "simta_host_q s3 = simta_host_q s" "simta_reds s3 = simta_reds s"
    "simta_unexpanded_q s3 = simta_unexpanded_q s2"
    using o3 s1 by (cases s2 rule: outcome_cases; auto simp: s2_def)+
  have k: "keeps_queues s s1" "keeps_queues s s2" "keeps_queues s s3"
    using outcome_keeps [OF o] outcome_keeps [OF o3] un [OF s1(1), folded s2_def]
    by (blast intro: keeps_queues_trans)+
  show ?thesis
    using assms(1) None o o3 k s1 s2 s3 pu [OF s3(1)]
    by (auto simp: make_null_queues_def s2_def [symmetric] split: option.splits if_splits
        intro: keeps_queues_trans)
qed

definition null_ok :: "'a q_state_scheme \<Rightarrow> bool" where
  "null_ok s \<longleftrightarrow> (simta_unexpanded_q s = None \<longrightarrow> simta_punt_q s = None)"

lemma new_hq_keeps:
  assumes "host_q_lookup h s = None" "new_host_q c reds h = Inr hq"
  shows "keeps_queues s (s\<lparr>simta_host_q := hq # simta_host_q s\<rparr>)"
proof -
  have n: "hq_hostname hq = h" "hq_ok r hq" for r
    using new_host_q_name [OF assms(2)] new_host_q_empty [OF assms(2)] by (simp_all add: hq_ok_empty)
  have no: "\<forall>x\<in>set (simta_host_q s). \<not> same_case h (hq_hostname x)"
    using assms(1) by (simp add: host_q_lookup_def hosts_lookup_None)
  have "get_hq r (s\<lparr>simta_host_q := hq # simta_host_q s\<rparr>) =
      (if same_ref r (HostQ h) then Some hq else get_hq r s)" for r
    using n by (cases r) (auto simp: get_hq_def host_q_lookup_def same_case_def cstr)
  moreover have "same_ref r (HostQ h) \<Longrightarrow> get_hq r s = None" for r
    using assms(1) same_ref_get [of r "HostQ h" s] by (simp add: get_hq_def)
  moreover have "hosts_distinct (simta_host_q s) \<Longrightarrow> hosts_distinct (hq # simta_host_q s)"
    using no n by (auto simp: hosts_distinct_def same_case_def cstr)
  ultimately show ?thesis
    using n new_host_q_empty [OF assms(2)]
    by (auto simp: keeps_queues_def queues_ok_def same_files_def split: if_splits)
qed

lemma host_q_create_keeps:
  assumes "host_q_create_or_lookup c hostname s = Inr (r, s')" "null_ok s"
  shows "keeps_queues s s'"
    and "r = Some q \<Longrightarrow> \<exists>hq. get_hq q s' = Some hq \<and> ref_of q hq = q"
    and "r \<noteq> None \<Longrightarrow> hostname = Some h \<Longrightarrow> h \<noteq> [] \<Longrightarrow>
      simta_host_q s' = hosts_add c (simta_reds s) (simta_host_q s) h"
proof -
  obtain ok s1 where m: "make_null_queues c s = (ok, s1)" by fastforce
  note k = make_null_queues_keeps [OF m] assms(2) [unfolded null_ok_def]
  then have k1: "keeps_queues s s1" "simta_host_q s1 = simta_host_q s" "simta_reds s1 = simta_reds s"
    "ok \<Longrightarrow> simta_unexpanded_q s1 \<noteq> None" by auto
  obtain ok2 s2 where o2: "outcome s1 = (ok2, s2)" by fastforce
  obtain ok3 s3 where o3: "outcome s2 = (ok3, s3)" by fastforce
  have k3: "keeps_queues s s2" "keeps_queues s s3"
    using k1 outcome_keeps [OF o2] outcome_keeps [OF o3] by (blast intro: keeps_queues_trans)+
  have h3: "simta_host_q s3 = simta_host_q s" "simta_reds s3 = simta_reds s"
    using o2 o3 k1 by (cases s1 rule: outcome_cases; cases s2 rule: outcome_cases; auto)+
  consider "\<not> ok" "r = None" "s' = s1"
    | "ok" "hostname = None \<or> hostname = Some []" "r = Some UnexpandedQ" "s' = s1"
    | x hq where "hostname = Some x" "x \<noteq> []" "host_q_lookup x s1 = Some hq" "r = Some (HostQ (hq_hostname hq))" "s' = s1"
    | "r = None" "s' = s2 \<or> s' = s3"
    | x hq where "hostname = Some x" "x \<noteq> []" "host_q_lookup x s1 = None" "new_host_q c (simta_reds s3) x = Inr hq"
      "r = Some (HostQ x)" "s' = s3\<lparr>simta_host_q := hq # simta_host_q s3\<rparr>"
  proof -
    have eq: "host_q_create_or_lookup c hostname s =
       (if \<not> ok then Inr (None, s1)
        else if hostname = None \<or> hostname = Some [] then Inr (Some UnexpandedQ, s1)
        else (case host_q_lookup (the hostname) s1 of
            Some hq \<Rightarrow> Inr (Some (HostQ (hq_hostname hq)), s1)
          | None \<Rightarrow> if \<not> ok2 then Inr (None, s2) else if \<not> ok3 then Inr (None, s3)
              else and_then (new_host_q c (simta_reds s3) (the hostname))
                (\<lambda>hq. Inr (Some (HostQ (the hostname)), s3\<lparr>simta_host_q := hq # simta_host_q s3\<rparr>))))"
      by (simp add: host_q_create_or_lookup_def m o2 o3 Let_def split: option.split)
    show ?thesis
    proof (cases "\<not> ok \<or> hostname = None \<or> hostname = Some []")
      case True
      show ?thesis
      proof (cases ok)
        case False
        with assms(1) have "r = None" "s' = s1" unfolding eq by simp_all
        with False show ?thesis by (rule that(1))
      next
        case ok: True
        with True assms(1) have "r = Some UnexpandedQ" "s' = s1" unfolding eq by auto
        with ok True show ?thesis by (intro that(2)) simp_all
      qed
    next
      case False
      then obtain x where x: "hostname = Some x" "x \<noteq> []" "ok" by auto
      show ?thesis
      proof (cases "host_q_lookup x s1")
        case (Some hq)
        with assms(1) x have "r = Some (HostQ (hq_hostname hq))" "s' = s1" unfolding eq by simp_all
        with x Some show ?thesis by (intro that(3))
      next
        case None
        show ?thesis
        proof (cases "ok2 \<and> ok3")
          case False
          with assms(1) x None have "r = None" "s' = s2 \<or> s' = s3" unfolding eq by (auto split: if_splits)
          then show ?thesis by (rule that(4))
        next
          case True
          with assms(1) x None obtain hq where "new_host_q c (simta_reds s3) x = Inr hq"
            "r = Some (HostQ x)" "s' = s3\<lparr>simta_host_q := hq # simta_host_q s3\<rparr>" unfolding eq by auto
          with x None show ?thesis by (intro that(5))
        qed
      qed
    qed
  qed
  then have "keeps_queues s s' \<and> (\<forall>q. r = Some q \<longrightarrow> (\<exists>hq. get_hq q s' = Some hq \<and> ref_of q hq = q)) \<and>
      (\<forall>h. r \<noteq> None \<and> hostname = Some h \<and> h \<noteq> [] \<longrightarrow> simta_host_q s' = hosts_add c (simta_reds s) (simta_host_q s) h)"
  proof cases
    case 1
    with k1 show ?thesis by simp
  next
    case 2
    with k1 show ?thesis by (auto simp: get_hq_def ref_of_def)
  next
    case 3
    then have "same_case x (hq_hostname hq)" "hosts_lookup x (simta_host_q s) = Some hq"
      using hosts_lookup_Some k1(2) by (auto simp: host_q_lookup_def)
    then have "hosts_lookup (hq_hostname hq) (simta_host_q s) = Some hq"
      using hosts_lookup_cong by metis
    with 3 k1 show ?thesis
      by (auto simp: get_hq_def host_q_lookup_def ref_of_def hosts_add_def)
  next
    case 4
    with k3 show ?thesis by auto
  next
    case 5
    have "host_q_lookup x s3 = None" using 5(3) h3(1) k1(2) by (simp add: host_q_lookup_def)
    from new_hq_keeps [OF this 5(4)] have "keeps_queues s s'"
      using k3(2) 5(6) by (auto intro: keeps_queues_trans)
    moreover have "get_hq (HostQ x) s' = Some hq" "hq_hostname hq = x"
      using new_host_q_name [OF 5(4)] 5(6) by (simp_all add: get_hq_def host_q_lookup_def cstr)
    moreover have "simta_host_q s' = hosts_add c (simta_reds s) (simta_host_q s) x"
      using 5(3,4,6) h3 k1(2) by (simp add: hosts_add_def host_q_lookup_def)
    ultimately show ?thesis using 5(1,5) by (simp add: ref_of_def)
  qed
  then show "keeps_queues s s'"
    and "r = Some q \<Longrightarrow> \<exists>hq. get_hq q s' = Some hq \<and> ref_of q hq = q"
    and "r \<noteq> None \<Longrightarrow> hostname = Some h \<Longrightarrow> h \<noteq> [] \<Longrightarrow>
      simta_host_q s' = hosts_add c (simta_reds s) (simta_host_q s) h" by blast+
qed

lemma same_ref_refl [simp]: "same_ref r r"
  by (cases r) (simp_all add: same_case_def cstr)

lemma upd_hq_files [simp]: "same_files (upd_hq r f s) s' \<longleftrightarrow> same_files s s'"
  "same_files s' (upd_hq r f s) \<longleftrightarrow> same_files s' s"
  by (cases r; simp add: upd_hq_def same_files_def)+

lemma queue_envelope_result:
  assumes "queue_envelope c env s = Inr (rc, env', s')" "queues_ok s" "null_ok s"
  shows "queues_ok s' \<and> same_files s s' \<and>
    (if rc = 0 \<and> e_dir env \<noteq> DIR_DEAD \<and> e_hq env = None then
       \<exists>r hq s1. keeps_queues s s1 \<and> env' = env\<lparr>e_hq := Some r\<rparr> \<and> get_hq r s1 = Some hq \<and>
         s' = upd_hq r (hq_insert env') s1 \<and> get_hq r s' = Some (hq_insert env' hq) \<and> ref_of r hq = r \<and>
         (\<forall>q. \<not> same_ref r q \<longrightarrow> get_hq q s' = get_hq q s1)
     else env' = env \<and> keeps_queues s s')"
proof (cases "e_dir env \<noteq> DIR_DEAD \<and> e_hq env = None")
  case False
  with assms show ?thesis by (auto simp: queue_envelope_def split: if_splits)
next
  case True
  then obtain q s1 where q: "(if has_flag (e_flags env) ENV_FLAG_PUNT then Inr (Some PuntQ, s)
      else host_q_create_or_lookup c (e_hostname env) s) = Inr (q, s1)"
    using assms(1) by (auto simp: queue_envelope_def)
  have k: "keeps_queues s s1" "\<And>r hq. q = Some r \<Longrightarrow> get_hq r s1 = Some hq \<Longrightarrow> ref_of r hq = r"
    using q host_q_create_keeps [OF _ assms(3)]
    by (auto simp: ref_of_def split: if_splits hq_ref.splits) fastforce
  show ?thesis
  proof (cases q)
    case None
    with assms(1,2) True q k show ?thesis by (auto simp: queue_envelope_def keeps_queues_def)
  next
    case (Some r)
    then obtain hq where hq: "get_hq r s1 = Some hq"
      using assms(1) True q by (auto simp: queue_envelope_def split: if_splits)
    have e: "rc = 0" "env' = env\<lparr>e_hq := Some r\<rparr>" "s' = upd_hq r (hq_insert env') s1"
      using assms(1) True q Some hq by (auto simp: queue_envelope_def Let_def)
    have "queues_ok s1" using k(1) assms(2) by (simp add: keeps_queues_def)
    moreover have "hq_ok r hq' \<Longrightarrow> hq_ok r (hq_insert env' hq')" if "get_hq r s1 = Some hq'" for hq'
      using k(2) [OF Some that] e(2) by (intro hq_insert_ok) simp_all
    ultimately have "queues_ok s'" unfolding e(3) by (intro queues_ok_upd) simp_all
    moreover have "same_files s s'" using k(1) e(3) by (simp add: keeps_queues_def)
    moreover have "get_hq p s' = (if same_ref r p then Some (hq_insert env' hq) else get_hq p s1)" for p
      using get_upd_hq [of "hq_insert env'" p r s1] e(3) hq by simp
    then have "\<exists>r hq s1. keeps_queues s s1 \<and> env' = env\<lparr>e_hq := Some r\<rparr> \<and> get_hq r s1 = Some hq \<and>
         s' = upd_hq r (hq_insert env') s1 \<and> get_hq r s' = Some (hq_insert env' hq) \<and> ref_of r hq = r \<and>
         (\<forall>q. \<not> same_ref r q \<longrightarrow> get_hq q s' = get_hq q s1)"
      using k(1) k(2) [OF Some hq] hq e(2,3)
      by (intro exI [of _ r] exI [of _ hq] exI [of _ s1]) simp
    ultimately show ?thesis using True e(1) by simp
  qed
qed

text \<open>Operations on files keep the queues.\<close>

lemma more_queues:
  assumes "env_state.more s' = env_state.more (s :: 'a q_state_scheme)"
  shows "get_hq r s' = get_hq r s" "simta_host_q s' = simta_host_q s"
    "simta_unexpanded_q s' = simta_unexpanded_q s" "simta_punt_q s' = simta_punt_q s"
    "simta_reds s' = simta_reds s" "queues_ok s' = queues_ok s" "null_ok s' = null_ok s"
proof -
  have q: "simta_host_q s' = simta_host_q s \<and> simta_unexpanded_q s' = simta_unexpanded_q s \<and>
      simta_punt_q s' = simta_punt_q s \<and> simta_reds s' = simta_reds s"
    using assms by (cases s; cases s') simp
  then have g: "get_hq r s' = get_hq r s" for r
    by (simp add: get_hq_def host_q_lookup_def split: hq_ref.split)
  from q g show "get_hq r s' = get_hq r s" "simta_host_q s' = simta_host_q s"
    "simta_unexpanded_q s' = simta_unexpanded_q s" "simta_punt_q s' = simta_punt_q s"
    "simta_reds s' = simta_reds s" "queues_ok s' = queues_ok s" "null_ok s' = null_ok s"
    by (simp_all add: queues_ok_def null_ok_def)
qed

lemma unlink_env_remove1:
  "env \<in> set es \<Longrightarrow> distinct (map e_id es) \<Longrightarrow> unlink_env (e_id env) es = Some (remove1 env es)"
  by (induction es) (auto simp: image_iff)

lemma unlink_env_place:
  "e_id env \<notin> e_id ` set es \<Longrightarrow> unlink_env (e_id env) (place_before P env es) = Some es"
  by (induction es) auto

lemma length_filter_remove1:
  "x \<in> set xs \<Longrightarrow> int (length (filter P (remove1 x xs))) = int (length (filter P xs)) - (if P x then 1 else 0)"
  by (induction xs) auto

lemma sorted_remove1: "sorted_wrt P xs \<Longrightarrow> sorted_wrt P (remove1 x xs)"
  by (induction xs) (auto dest: notin_set_remove1 [rotated] simp: subset_code(1) [symmetric]
      intro: set_remove1_subset [THEN subsetD])

lemma queue_remove_result:
  assumes "queues_ok s" "e_hq env = Some r" "get_hq r s = Some hq" "env \<in> set (hq_env_head hq)"
    and "distinct (map e_id (hq_env_head hq))"
  shows "\<exists>s'. queue_remove_envelope env s = Inr (env\<lparr>e_hq := None\<rparr>, s') \<and> queues_ok s' \<and>
    get_hq r s' = Some (hq\<lparr>hq_env_head := remove1 env (hq_env_head hq), hq_entries := hq_entries hq - 1,
       hq_jail_envs := hq_jail_envs hq - (if is_prisoner env then 1 else 0)\<rparr>) \<and>
    (\<forall>q. \<not> same_ref r q \<longrightarrow> get_hq q s' = get_hq q s) \<and> same_files s s'"
proof -
  let ?es = "remove1 env (hq_env_head hq)"
  let ?f = "\<lambda>hq. hq\<lparr>hq_env_head := ?es, hq_entries := hq_entries hq - 1,
    hq_jail_envs := hq_jail_envs hq - (if is_prisoner env then 1 else 0)\<rparr>"
  have rm: "queue_remove_envelope env s = Inr (env\<lparr>e_hq := None\<rparr>, upd_hq r ?f s)"
    using assms by (simp add: queue_remove_envelope_def unlink_env_remove1)
  have "hq_ok r hq" using assms(1,3) by (simp add: queues_ok_def)
  moreover have "int (length (hq_env_head hq) - Suc 0) = int (length (hq_env_head hq)) - 1"
    using length_pos_if_in_set [OF assms(4)] by linarith
  ultimately have "hq_ok r (?f hq)"
    using assms(4)
    by (auto simp: hq_ok_def length_remove1 length_filter_remove1 sorted_remove1 ref_of_def
        dest: notin_set_remove1 [rotated] split: hq_ref.splits)
  then have ok: "queues_ok (upd_hq r ?f s)" using assms(1,3) by (intro queues_ok_upd) auto
  have g: "get_hq q (upd_hq r ?f s) = (if same_ref r q then map_option ?f (get_hq r s) else get_hq q s)" for q
    by (rule get_upd_hq) simp
  show ?thesis
  proof (intro exI [of _ "upd_hq r ?f s"] conjI)
    show "get_hq r (upd_hq r ?f s) = Some (?f hq)" unfolding g assms(3) by simp
    show "\<forall>q. \<not> same_ref r q \<longrightarrow> get_hq q (upd_hq r ?f s) = get_hq q s" unfolding g by simp
    show "same_files s (upd_hq r ?f s)" by simp
  qed (rule rm, rule ok)
qed

text \<open>
  C17: putting an envelope into its queue keeps every queue sorted by the time of the last
  attempt and its counters right; the envelope comes behind those tried at the same time,
  all others keep their order, and no file changes.
\<close>

theorem queue_envelope_keeps_order:
  assumes "queue_envelope c env s = Inr (0, env', s')" "queues_ok s" "null_ok s"
    and "e_dir env \<noteq> DIR_DEAD" "e_hq env = None"
  shows "queues_ok s' \<and> same_files s s' \<and>
    (\<exists>r hq hq'. e_hq env' = Some r \<and> get_hq r s' = Some hq' \<and>
       (\<forall>old. get_hq r s = Some old \<longrightarrow> hq = old) \<and>
       hq_env_head hq' = place_before (\<lambda>x. e_etime env < e_etime x) env' (hq_env_head hq) \<and>
       filter (\<lambda>x. e_etime x = e_etime env) (hq_env_head hq') =
         filter (\<lambda>x. e_etime x = e_etime env) (hq_env_head hq) @ [env'])"
proof -
  obtain r hq s1 where q: "keeps_queues s s1" "env' = env\<lparr>e_hq := Some r\<rparr>" "get_hq r s1 = Some hq"
      "get_hq r s' = Some (hq_insert env' hq)"
    using queue_envelope_result [OF assms(1-3)] assms(4,5) by auto
  have ok: "queues_ok s1" using q(1) assms(2) by (simp add: keeps_queues_def)
  then have "hq_ok r hq" using q(3) by (simp add: queues_ok_def)
  from hq_insert_fifo [OF this, of env'] have
    "filter (\<lambda>x. e_etime x = e_etime env) (hq_env_head (hq_insert env' hq)) =
       filter (\<lambda>x. e_etime x = e_etime env) (hq_env_head hq) @ [env']"
    using q(2) by simp
  moreover have "get_hq r s = Some old \<Longrightarrow> hq = old" for old
    using q(1,3) by (auto simp: keeps_queues_def)
  ultimately show ?thesis
    using queue_envelope_result [OF assms(1-3)] q
    by (intro conjI exI [of _ r] exI [of _ hq] exI [of _ "hq_insert env' hq"])
      (auto simp: hq_insert_def)
qed

lemma host_q_create_total:
  assumes "w_oracle s = []" "null_ok s"
  shows "\<exists>q s'. host_q_create_or_lookup c hostname s = Inr (Some q, s')"
proof -
  obtain s1 where s1: "make_null_queues c s = (True, s1)" "w_oracle s1 = []"
    using assms by (cases "simta_unexpanded_q s"; cases "simta_punt_host c") (auto simp: make_null_queues_def)
  show ?thesis
  proof (cases "hostname = None \<or> hostname = Some []")
    case True
    with s1 show ?thesis by (auto simp: host_q_create_or_lookup_def)
  next
    case False
    then obtain h where h: "hostname = Some h" "h \<noteq> []" by auto
    obtain hq where "new_host_q c (simta_reds s1) h = Inr hq" using new_host_q_total [OF h(2)] by blast
    with s1 h show ?thesis
      by (cases "host_q_lookup h s1") (auto simp: host_q_create_or_lookup_def)
  qed
qed

lemma queue_envelope_total:
  assumes "w_oracle s = []" "null_ok s" "\<not> has_flag (e_flags env) ENV_FLAG_PUNT"
  shows "\<exists>env' s'. queue_envelope c env s = Inr (0, env', s')"
proof -
  obtain q s1 where q: "host_q_create_or_lookup c (e_hostname env) s = Inr (Some q, s1)"
    using host_q_create_total [OF assms(1,2)] by blast
  with host_q_create_keeps(2) [OF q assms(2) refl] assms(3) show ?thesis
    by (auto simp: queue_envelope_def Let_def)
qed

definition q_state_ex :: "(path \<rightharpoonup> nat) \<Rightarrow> host_q list \<Rightarrow> q_state" where
  "q_state_ex names hqs =
     \<lparr>w_names = names, w_data = (\<lambda>_. []), w_mtime = (\<lambda>_. 0), w_locked = (\<lambda>_. False), w_next = 9,
      w_oracle = [], w_clock = [], w_pid = 42, simta_tv_now = (1000, 0), simta_fast_files = 0,
      simta_env_list = [], simta_sender_list = [],
      simta_reds = \<lparr>simta_red_hosts = [], simta_secondary_mx = [], simta_remote_hosts = []\<rparr>,
      simta_unexpanded_q = None, simta_punt_q = None, simta_host_q = hqs, simta_deliver_q = [],
      simta_env_queue = [], simta_disk_cycle = 1\<rparr>"

lemma q_state_ex_ok: "queues_ok (q_state_ex n [])" "null_ok (q_state_ex n [])" "w_oracle (q_state_ex n hqs) = []"
  by (auto simp: queues_ok_def null_ok_def q_state_ex_def get_hq_def host_q_lookup_def
      hosts_distinct_def split: hq_ref.splits)

lemma env_ex_flags: "\<not> has_flag (e_flags env_ex) ENV_FLAG_PUNT" "e_hq env_ex = None" "e_dir env_ex \<noteq> DIR_DEAD"
  by (simp_all add: env_ex_def zero_env_def ENV_FLAG_PUNT_def)

theorem queue_envelope_keeps_order_witness:
  "\<exists>env' s' r hq'. queue_envelope conf_ex env_ex (q_state_ex (\<lambda>_. None) []) = Inr (0, env', s') \<and>
     get_hq r s' = Some hq' \<and> hq_ok r hq' \<and> env' \<in> set (hq_env_head hq')"
proof -
  obtain env' s' where q: "queue_envelope conf_ex env_ex (q_state_ex (\<lambda>_. None) []) = Inr (0, env', s')"
    using queue_envelope_total [OF q_state_ex_ok(3,2) env_ex_flags(1)] by blast
  from queue_envelope_keeps_order [OF q q_state_ex_ok(1,2) env_ex_flags(3,2)]
  obtain r hq' and hq :: host_q where "queues_ok s'" "get_hq r s' = Some hq'"
    "hq_env_head hq' = place_before (\<lambda>x. e_etime env_ex < e_etime x) env' (hq_env_head hq)"
    by blast
  with q show ?thesis by (force simp: queues_ok_def)
qed

text \<open>
  C18: taking an envelope out of the queue it was put into gives the envelope and every queue
  there was back as they were.
\<close>

theorem queue_remove_undoes_queue:
  assumes "queue_envelope c env s = Inr (0, env', s1)" "queues_ok s" "null_ok s"
    and "e_dir env \<noteq> DIR_DEAD" "e_hq env = None"
    and "\<forall>r hq. get_hq r s = Some hq \<longrightarrow> distinct (map e_id (hq_env_head hq)) \<and> e_id env \<notin> e_id ` set (hq_env_head hq)"
  shows "\<exists>s2. queue_remove_envelope env' s1 = Inr (env, s2) \<and> queues_ok s2 \<and>
    (\<forall>q hq. get_hq q s = Some hq \<longrightarrow> get_hq q s2 = Some hq)"
proof -
  obtain r hq t where q: "keeps_queues s t" "env' = env\<lparr>e_hq := Some r\<rparr>" "get_hq r t = Some hq"
      "get_hq r s1 = Some (hq_insert env' hq)" "queues_ok s1"
      "\<forall>q. \<not> same_ref r q \<longrightarrow> get_hq q s1 = get_hq q t"
    using queue_envelope_result [OF assms(1-3)] assms(4,5) by auto
  have old: "get_hq r s = Some old \<Longrightarrow> hq = old" for old
    using q(1,3) by (auto simp: keeps_queues_def)
  have new: "get_hq r s = None \<Longrightarrow> hq_env_head hq = []"
    using q(1,3) by (auto simp: keeps_queues_def)
  have ids: "distinct (map e_id (hq_env_head hq)) \<and> e_id env \<notin> e_id ` set (hq_env_head hq)"
    using assms(6) old new by (cases "get_hq r s") auto
  let ?head = "hq_env_head (hq_insert env' hq)"
  have pl: "distinct (map e_id (place_before P env' es)) \<and> remove1 env' (place_before P env' es) = es"
    if "distinct (map e_id es)" "e_id env' \<notin> e_id ` set es" for P and es :: "envelope list"
    using that by (induction es) auto
  have "e_id env' = e_id env" using q(2) by simp
  then have d: "distinct (map e_id ?head)" "remove1 env' ?head = hq_env_head hq" "env' \<in> set ?head"
    using pl [of "hq_env_head hq"] ids by (auto simp: hq_insert_def)
  obtain s2 where s2: "queue_remove_envelope env' s1 = Inr (env'\<lparr>e_hq := None\<rparr>, s2)" "queues_ok s2"
      "get_hq r s2 = Some ((hq_insert env' hq)\<lparr>hq_env_head := hq_env_head hq,
         hq_entries := hq_entries (hq_insert env' hq) - 1,
         hq_jail_envs := hq_jail_envs (hq_insert env' hq) - (if is_prisoner env' then 1 else 0)\<rparr>)"
      "\<forall>q. \<not> same_ref r q \<longrightarrow> get_hq q s2 = get_hq q s1"
    using queue_remove_result [OF q(5) _ q(4) d(3,1)] q(2) d(2) by auto
  have "get_hq r s2 = Some hq" using s2(3) by (simp add: hq_insert_def)
  moreover have "env'\<lparr>e_hq := None\<rparr> = env" using q(2) assms(5) by simp
  moreover have "get_hq p s = Some x \<Longrightarrow> get_hq p s2 = Some x" for p x
  proof (cases "same_ref r p")
    case True
    then show "get_hq p s = Some x \<Longrightarrow> get_hq p s2 = Some x"
      using \<open>get_hq r s2 = Some hq\<close> old same_ref_get [OF True, of s] same_ref_get [OF True, of s2] by auto
  next
    case False
    then show "get_hq p s = Some x \<Longrightarrow> get_hq p s2 = Some x"
      using s2(4) q(1,6) by (auto simp: keeps_queues_def)
  qed
  ultimately show ?thesis using s2(1,2) by auto
qed

theorem queue_remove_undoes_queue_witness:
  "\<exists>env' s1 s2. queue_envelope conf_ex env_ex (q_state_ex (\<lambda>_. None) []) = Inr (0, env', s1) \<and>
     queue_remove_envelope env' s1 = Inr (env_ex, s2) \<and> queues_ok s2"
proof -
  obtain env' s1 where q: "queue_envelope conf_ex env_ex (q_state_ex (\<lambda>_. None) []) = Inr (0, env', s1)"
    using queue_envelope_total [OF q_state_ex_ok(3,2) env_ex_flags(1)] by blast
  have "\<forall>r hq. get_hq r (q_state_ex (\<lambda>_. None) []) = Some hq \<longrightarrow>
      distinct (map e_id (hq_env_head hq)) \<and> e_id env_ex \<notin> e_id ` set (hq_env_head hq)"
    by (simp add: get_hq_def host_q_lookup_def q_state_ex_def split: hq_ref.split)
  from queue_remove_undoes_queue [OF q q_state_ex_ok(1,2) env_ex_flags(3,2) this] q
  show ?thesis by blast
qed

text \<open>
  C34: paroling a queued prisoner raises the counter of jailed messages of its queue, which
  holds as many messages as before and one prisoner less at best.
\<close>

theorem env_jail_status_miscounts:
  assumes "env_jail_status c (Some e) ENV_JAIL_PAROLEE s = Inr (0, s')"
    and "e_jail e = ENV_JAIL_PRISONER" "e_hq e = Some r" "get_hq r s = Some hq"
  shows "\<exists>hq'. get_hq r s' = Some hq' \<and> hq_jail_envs hq' = hq_jail_envs hq + 1 \<and>
    length (hq_env_head hq') = length (hq_env_head hq)"
proof -
  let ?s1 = "upd_hq r (\<lambda>hq. hq\<lparr>hq_jail_envs := hq_jail_envs hq + 1\<rparr>) s"
  obtain rc lk e2 s2 where rd: "env_read c READ_JAIL_INFO e True ?s1 = Inr (rc, lk, e2, s2)"
    using assms by (auto simp: env_jail_status_def env_codes)
  have "\<exists>e' t. s' = store_env e e' t \<and> env_state.more t = env_state.more ?s1"
  proof (cases "rc = 0")
    case False
    with assms rd env_read_more [OF rd] show ?thesis
      by (auto simp: env_jail_status_def env_codes)
  next
    case True
    then obtain rc2 e3 s3 where o: "env_outfile c (env_jail_set e2 ENV_JAIL_PAROLEE) s2 = Inr (rc2, e3, s3)"
      using assms rd by (auto simp: env_jail_status_def env_codes)
    with assms rd True env_read_more [OF rd] env_outfile_more [OF o] show ?thesis
      by (auto simp: env_jail_status_def env_codes split: if_splits)
  qed
  then obtain e' t where t: "s' = store_env e e' t" "env_state.more t = env_state.more ?s1" by blast
  have "get_hq r t = Some (hq\<lparr>hq_jail_envs := hq_jail_envs hq + 1\<rparr>)"
    using get_upd_hq [of "\<lambda>hq. hq\<lparr>hq_jail_envs := hq_jail_envs hq + 1\<rparr>" r r s] assms(4)
      more_queues(1) [OF t(2), of r] by simp
  then show ?thesis
    using get_upd_hq [of "\<lambda>hq. hq\<lparr>hq_env_head := map (\<lambda>x. if e_id x = e_id e then e' else x) (hq_env_head hq)\<rparr>" r r t]
    by (simp add: t(1) store_env_def assms(3))
qed

theorem env_jail_status_miscounts_witness:
  "\<exists>s' hq'. env_jail_status conf_ex (Some (env_ex\<lparr>e_hq := Some (HostQ ''y.z'')\<rparr>)) ENV_JAIL_PAROLEE
       (q_state_ex (\<lambda>_. None) [(zero_hq ''y.z'')\<lparr>hq_jail_envs := 1, hq_entries := 1,
          hq_env_head := [env_ex\<lparr>e_hq := Some (HostQ ''y.z'')\<rparr>]\<rparr>]) = Inr (0, s') \<and>
     get_hq (HostQ ''y.z'') s' = Some hq' \<and> hq_jail_envs hq' = 2"
proof -
  let ?e = "env_ex\<lparr>e_hq := Some (HostQ ''y.z'')\<rparr>"
  let ?hq = "(zero_hq ''y.z'')\<lparr>hq_jail_envs := 1, hq_entries := 1, hq_env_head := [?e]\<rparr>"
  let ?s = "q_state_ex (\<lambda>_. None) [?hq]"
  obtain s' where s': "env_jail_status conf_ex (Some ?e) ENV_JAIL_PAROLEE ?s = Inr (0, s')"
    by (auto simp: env_jail_status_def env_codes env_ex_def zero_env_def env_read_def env_read_open_def
        open_file_def read_modes q_state_ex_def upd_hq_def)
  have "e_jail ?e = ENV_JAIL_PRISONER" "e_hq ?e = Some (HostQ ''y.z'')"
    by (simp_all add: env_ex_def zero_env_def env_codes)
  moreover have "get_hq (HostQ ''y.z'') ?s = Some ?hq"
    by (simp add: get_hq_def host_q_lookup_def q_state_ex_def zero_hq_def cstr)
  ultimately have "\<exists>hq'. get_hq (HostQ ''y.z'') s' = Some hq' \<and> hq_jail_envs hq' = hq_jail_envs ?hq + 1 \<and>
    length (hq_env_head hq') = length (hq_env_head ?hq)"
    by (rule env_jail_status_miscounts [OF s'])
  with s' show ?thesis by auto
qed

end
