(* ===== verification/Schedule.thy ===== *)
theory Schedule
  imports HostQueue
begin

section \<open>When hosts are tried and how directories are read: queue.c\<close>

text \<open>
  \<open>simta_deliver_q\<close> lists the host queues by the time of their next launch; a queue that
  was launched in vain waits twice as long as before, within its limits.  \<open>q_read_dir\<close> walks
  a spool directory one entry per call and, at its end, drops the messages and queues whose
  files have gone.  \<open>rnd\<close> is what \<open>random()\<close> returns for a queue.
\<close>

subsection \<open>How long to wait\<close>

text \<open>\<open>hq_wait_last\<close>, \<open>hq_next_launch\<close> and \<open>hq_leaky\<close> as the push computes them.\<close>

definition hq_wait :: "conf \<Rightarrow> int \<Rightarrow> int option \<Rightarrow> nat \<Rightarrow> host_q \<Rightarrow> (int \<times> int \<times> int) run" where
  "hq_wait c now delay rnd hq =
     (case delay of
        Some d \<Rightarrow>
          (if hq_max_wait hq < d then Inr (hq_max_wait hq, hq_max_wait hq + now, hq_leaky hq)
           else Inr (if d < hq_min_wait hq then hq_min_wait hq else d, d + now, hq_leaky hq))
      | None \<Rightarrow>
          (if simta_mail_jail c \<noteq> 0 \<and> hq_entries hq = hq_jail_envs hq then
             (if hq_last_launch hq = 0 then
                (if simta_jail_seconds c = 0 then Inl DivByZero
                 else Inr (simta_jail_seconds c, int rnd mod \<bar>simta_jail_seconds c\<bar> + now, hq_leaky hq))
              else Inr (simta_jail_seconds c, simta_jail_seconds c + now, hq_leaky hq))
           else if hq_wait_last hq = 0 \<or> hq_leaky hq \<noteq> 0 then
             (if hq_min_wait hq = 0 then Inl DivByZero
              else Inr (hq_min_wait hq, int rnd mod \<bar>hq_min_wait hq\<bar> + now, 0))
           else
             (let w = (if hq_wait_last hq * 2 \<le> hq_max_wait hq
                       then (if hq_wait_last hq * 2 < hq_min_wait hq then hq_min_wait hq
                             else hq_wait_last hq * 2)
                       else hq_max_wait hq)
              in Inr (w, w + now, hq_leaky hq))))"

text \<open>The new time counts if the queue has been launched since the old one, or is sooner.\<close>

definition hq_set_wait :: "int \<times> int \<times> int \<Rightarrow> host_q \<Rightarrow> host_q" where
  "hq_set_wait w hq =
     (case w of (wait_last, next_launch, leaky) \<Rightarrow>
        (if hq_next_launch hq \<le> hq_last_launch hq \<or> next_launch < hq_next_launch hq
         then hq\<lparr>hq_leaky := leaky, hq_wait_last := wait_last, hq_next_launch := next_launch\<rparr>
         else hq\<lparr>hq_leaky := leaky\<rparr>))"

subsection \<open>The list of launches\<close>

text \<open>In front of a head that is not sooner, else behind all that follow the head in time.\<close>

fun deliver_insert :: "('k \<Rightarrow> int) \<Rightarrow> 'k \<Rightarrow> 'k list \<Rightarrow> 'k list" where
  "deliver_insert t k [] = [k]"
| "deliver_insert t k (x # xs) =
     (if t k \<le> t x then k # x # xs else x # place_before (\<lambda>y. \<not> t y \<le> t k) k xs)"

definition next_launch :: "'a q_state_scheme \<Rightarrow> hq_ref \<Rightarrow> int" where
  "next_launch s r = (case get_hq r s of Some hq \<Rightarrow> hq_next_launch hq | None \<Rightarrow> 0)"

definition hq_deliver_push ::
  "conf \<Rightarrow> hq_ref \<Rightarrow> int option \<Rightarrow> int option \<Rightarrow> nat \<Rightarrow> 'a q_state_scheme \<Rightarrow> (int \<times> 'a q_state_scheme) run" where
  "hq_deliver_push c r tv_now tv_delay rnd s =
     (let (now, s1) = (case tv_now of
            Some n \<Rightarrow> (Some n, s)
          | None \<Rightarrow> (case simta_gettimeofday s of (tv, s1) \<Rightarrow> (map_option fst tv, s1)))
      in case now of
           None \<Rightarrow> Inr (1, s1)
         | Some n \<Rightarrow>
             (case get_hq r s1 of
                None \<Rightarrow> Inl NullDeref
              | Some hq \<Rightarrow>
                  and_then (hq_wait c n tv_delay rnd hq) (\<lambda>w.
                    let s2 = upd_hq r (hq_set_wait w) s1
                    in Inr (0, s2\<lparr>simta_deliver_q :=
                         deliver_insert (next_launch s2) r (simta_deliver_q s2)\<rparr>))))"

definition hq_deliver_pop :: "hq_ref \<Rightarrow> 'a q_state_scheme \<Rightarrow> 'a q_state_scheme" where
  "hq_deliver_pop r s = s\<lparr>simta_deliver_q := remove1 r (simta_deliver_q s)\<rparr>"

fun hosts_remove :: "string \<Rightarrow> host_q list \<Rightarrow> host_q list" where
  "hosts_remove h [] = []"
| "hosts_remove h (hq # hqs) =
     (if strcasecmp (hq_hostname hq) h = 0 then hqs else hq # hosts_remove h hqs)"

text \<open>\<open>*hq = (*hq)->hq_next; hq_free( h_free )\<close>.\<close>

definition hq_free :: "string \<Rightarrow> 'a q_state_scheme \<Rightarrow> 'a q_state_scheme" where
  "hq_free h s = hq_deliver_pop (HostQ h) (s\<lparr>simta_host_q := hosts_remove h (simta_host_q s)\<rparr>)"

subsection \<open>Dropping messages whose files have gone\<close>

text \<open>The loop over a queue: what stays, how many went, the ring, the state.\<close>

fun prune_loop :: "envelope list \<Rightarrow> 'a q_state_scheme \<Rightarrow> (envelope list \<times> int \<times> 'a q_state_scheme) run" where
  "prune_loop [] s = Inr ([], 0, s)"
| "prune_loop (e # es) s =
     (if e_cycle e \<noteq> simta_disk_cycle s then
        (if e_id e \<notin> set (simta_env_queue s) then Inl NullDeref
         else and_then (prune_loop es (env_free (Some e) (s\<lparr>simta_env_queue := remove1 (e_id e) (simta_env_queue s)\<rparr>)))
                (\<lambda>(kept, n, s'). Inr (kept, n + 1, s')))
      else and_then (prune_loop es s) (\<lambda>(kept, n, s'). Inr (e # kept, n, s')))"

definition prune_messages :: "hq_ref \<Rightarrow> 'a q_state_scheme \<Rightarrow> 'a q_state_scheme run" where
  "prune_messages r s =
     (case get_hq r s of
        None \<Rightarrow> Inl NullDeref
      | Some hq \<Rightarrow>
          and_then (prune_loop (hq_env_head hq) s) (\<lambda>(kept, n, s').
            Inr (upd_hq r (\<lambda>hq. hq\<lparr>hq_env_head := kept, hq_entries := int (length kept),
                   hq_entries_new := 0, hq_entries_removed := n,
                   hq_jail_envs := int (length (filter is_prisoner kept))\<rparr>) s')))"

subsection \<open>Reading a spool directory\<close>

record simta_dirp =
  sd_dirp :: "string list option"
  sd_dir :: simta_dir
  sd_cycle :: int
  sd_entries :: int

text \<open>The end of the directory: empty host queues go, new ones are scheduled.\<close>

fun prune_hosts :: "conf \<Rightarrow> int \<Rightarrow> (hq_ref \<Rightarrow> nat) \<Rightarrow> string list \<Rightarrow> 'a q_state_scheme \<Rightarrow> (int \<times> 'a q_state_scheme) run" where
  "prune_hosts c now rnd [] s = Inr (0, s)"
| "prune_hosts c now rnd (h # hs) s =
     and_then (prune_messages (HostQ h) s) (\<lambda>s1.
       case get_hq (HostQ h) s1 of
         None \<Rightarrow> Inl NullDeref
       | Some hq \<Rightarrow>
           (let s2 = upd_hq (HostQ h) (\<lambda>hq. hq\<lparr>hq_entries_new := 0, hq_entries_removed := 0\<rparr>) s1
            in if hq_env_head hq = [] then prune_hosts c now rnd hs (hq_free h s2)
               else if hq_next_launch hq = 0 then
                 and_then (hq_deliver_push c (HostQ h) (Some now) None (rnd (HostQ h)) s2)
                   (\<lambda>(rc, s3). if rc \<noteq> 0 then Inr (1, s3) else prune_hosts c now rnd hs s3)
               else prune_hosts c now rnd hs s2))"

definition q_read_end :: "conf \<Rightarrow> (hq_ref \<Rightarrow> nat) \<Rightarrow> simta_dirp \<Rightarrow> 'a q_state_scheme \<Rightarrow>
  (int \<times> simta_dirp \<times> 'a q_state_scheme) run" where
  "q_read_end c rnd sd s =
     (let (closedir_ok, s1) = outcome s
      in if \<not> closedir_ok then Inr (1, sd, s1)
         else
           (let sd1 = sd\<lparr>sd_dirp := None\<rparr>
            in case simta_gettimeofday s1 of
                 (None, s2) \<Rightarrow> Inr (1, sd1, s2)
               | (Some tv, s2) \<Rightarrow>
                   and_then (if simta_unexpanded_q s2 = None then Inr s2 else prune_messages UnexpandedQ s2)
                     (\<lambda>s3. and_then (prune_hosts c (fst tv) rnd (map hq_hostname (simta_host_q s3)) s3)
                       (\<lambda>(rc, s4). Inr (rc, sd1, s4)))))"

text \<open>
  A message that is known gets the number of the disk read.  The search goes around the
  ring from its head: \<open>last_read\<close> is NULL in every call.
\<close>

definition map_envs :: "(envelope \<Rightarrow> envelope) \<Rightarrow> host_q \<Rightarrow> host_q" where
  "map_envs f hq = hq\<lparr>hq_env_head := map f (hq_env_head hq)\<rparr>"

definition set_cycle :: "string \<Rightarrow> 'a q_state_scheme \<Rightarrow> 'a q_state_scheme" where
  "set_cycle idn s =
     (let f = map_envs (\<lambda>e. if e_id e = idn then e\<lparr>e_cycle := simta_disk_cycle s\<rparr> else e)
      in s\<lparr>simta_unexpanded_q := map_option f (simta_unexpanded_q s),
           simta_punt_q := map_option f (simta_punt_q s),
           simta_host_q := map f (simta_host_q s)\<rparr>)"

definition q_read_message :: "conf \<Rightarrow> simta_dirp \<Rightarrow> string \<Rightarrow> 'a q_state_scheme \<Rightarrow> (int \<times> 'a q_state_scheme) run" where
  "q_read_message c sd idn s =
     (if idn \<in> set (simta_env_queue s) then Inr (0, set_cycle idn s)
      else (case env_create c (sd_dir sd) (Some idn) None None s of
          (None, s1) \<Rightarrow> Inr (1, s1)
        | (Some env, s1) \<Rightarrow>
            and_then (env_read c READ_QUEUE_INFO env False s1) (\<lambda>(rc, lock, env2, s2).
              if rc \<noteq> 0 then Inr (0, env_free (Some env2) s2)
              else if (case simta_queue_filter c of
                  None \<Rightarrow> False
                | Some flt \<Rightarrow> (case e_hostname env2 of None \<Rightarrow> True | Some h \<Rightarrow> \<not> wildcard flt h False))
                then Inr (0, env_free (Some env2) s2)
              else and_then (queue_envelope c env2 s2) (\<lambda>(rc2, env3, s3).
                if rc2 \<noteq> 0 then Inr (1, s3)
                else Inr (0, (set_cycle (e_id env3) s3)\<lparr>simta_env_queue := e_id env3 # simta_env_queue s3\<rparr>)))))"

definition q_read_dir :: "conf \<Rightarrow> (hq_ref \<Rightarrow> nat) \<Rightarrow> string list \<Rightarrow> simta_dirp \<Rightarrow> 'a q_state_scheme \<Rightarrow>
  (int \<times> simta_dirp \<times> 'a q_state_scheme) run" where
  "q_read_dir c rnd listing sd s =
     (case sd_dirp sd of
        None \<Rightarrow>
          (case simta_gettimeofday s of
             (None, s1) \<Rightarrow> Inr (1, sd, s1)
           | (Some tv, s1) \<Rightarrow>
               (let (opendir_ok, s2) = outcome s1
                in if \<not> opendir_ok then Inr (1, sd, s2)
                   else Inr (0, sd\<lparr>sd_dirp := Some listing, sd_entries := 0, sd_cycle := sd_cycle sd + 1\<rparr>, s2)))
      | Some [] \<Rightarrow>
          (let (readdir_ok, s1) = outcome s
           in if \<not> readdir_ok then Inr (1, sd, s1) else q_read_end c rnd sd s1)
      | Some (name # names) \<Rightarrow>
          (let sd1 = sd\<lparr>sd_dirp := Some names\<rparr>
           in case name of
                [] \<Rightarrow> Inr (0, sd1, s)
              | k # idn \<Rightarrow>
                  (if k = CHR ''E'' then
                     and_then (q_read_message c sd1 idn s)
                       (\<lambda>(rc, s1). Inr (rc, sd1\<lparr>sd_entries := sd_entries sd1 + 1\<rparr>, s1))
                   else Inr (0, sd1, s))))"

subsection \<open>The next queue to deliver\<close>

text \<open>\<open>q_runner\<close> delivers the queues with most messages first.\<close>

definition deliver_first :: "host_q \<Rightarrow> host_q list \<Rightarrow> host_q list" where
  "deliver_first hq dq = place_before (\<lambda>x. hq_entries x \<le> hq_entries hq) hq dq"

definition is_deliverable :: "host_q \<Rightarrow> bool" where
  "is_deliverable hq \<longleftrightarrow> hq_env_head hq \<noteq> [] \<and>
     hq_status hq \<in> {HOST_UNKNOWN, HOST_LOCAL, HOST_MX, HOST_BITBUCKET}"

subsection \<open>Properties of the waiting times\<close>

lemma hq_wait_normal:
  assumes "simta_mail_jail c = 0" "0 < hq_min_wait hq" "hq_min_wait hq \<le> hq_max_wait hq"
    and "hq_wait c now None rnd hq = Inr (w, n, l)"
  shows "hq_min_wait hq \<le> w" "w \<le> hq_max_wait hq" "now \<le> n" "n \<le> now + w" "l = 0 \<or> l = hq_leaky hq"
proof -
  have "0 \<le> int rnd mod hq_min_wait hq" "int rnd mod hq_min_wait hq \<le> hq_min_wait hq"
    using assms(2) by (simp_all add: less_imp_le)
  then show "hq_min_wait hq \<le> w" "w \<le> hq_max_wait hq" "now \<le> n" "n \<le> now + w" "l = 0 \<or> l = hq_leaky hq"
    using assms by (auto simp: hq_wait_def Let_def split: if_splits)
qed

text \<open>
  C35: with a minimal wait above zero and no jail, a launch in vain is followed by a wait
  between the queue's limits; the first time in the window it opens is drawn at random, and
  from the minimum on each wait is twice the one before until the maximum is reached.
\<close>

theorem hq_wait_backoff:
  assumes "simta_mail_jail c = 0" "0 < hq_min_wait hq" "hq_min_wait hq \<le> hq_max_wait hq"
  shows "\<exists>w n l. hq_wait c now None rnd hq = Inr (w, n, l) \<and>
    hq_min_wait hq \<le> w \<and> w \<le> hq_max_wait hq \<and> now \<le> n \<and> n \<le> now + w \<and>
    (hq_wait_last hq = 0 \<longrightarrow> w = hq_min_wait hq) \<and>
    (hq_leaky hq = 0 \<and> hq_wait_last hq = min (hq_max_wait hq) (hq_min_wait hq * 2 ^ k) \<longrightarrow>
       w = min (hq_max_wait hq) (hq_min_wait hq * 2 ^ Suc k) \<and> n = now + w)"
proof -
  obtain w n l where w: "hq_wait c now None rnd hq = Inr (w, n, l)"
    using assms by (cases "hq_wait_last hq = 0 \<or> hq_leaky hq \<noteq> 0") (auto simp: hq_wait_def Let_def)
  have "hq_min_wait hq * 1 \<le> hq_min_wait hq * 2 ^ k"
    using assms(2) by (intro mult_left_mono) simp_all
  then have "hq_wait_last hq = min (hq_max_wait hq) (hq_min_wait hq * 2 ^ k) \<Longrightarrow>
      hq_min_wait hq \<le> hq_wait_last hq"
    using assms(3) by simp
  then have "hq_leaky hq = 0 \<and> hq_wait_last hq = min (hq_max_wait hq) (hq_min_wait hq * 2 ^ k) \<longrightarrow>
       w = min (hq_max_wait hq) (hq_min_wait hq * 2 ^ Suc k) \<and> n = now + w"
    using w assms by (auto simp: hq_wait_def Let_def min_def split: if_splits)
  moreover have "hq_wait_last hq = 0 \<longrightarrow> w = hq_min_wait hq"
    using w assms by (auto simp: hq_wait_def split: if_splits)
  ultimately show ?thesis using w hq_wait_normal(1-4) [OF assms w] by blast
qed

theorem hq_wait_backoff_witness:
  "\<exists>n l. hq_wait conf_ex 1000 None 7 ((zero_hq ''h'')\<lparr>hq_min_wait := 300, hq_max_wait := 4800,
      hq_wait_last := 1200\<rparr>) = Inr (2400, n, l) \<and> n = 3400"
proof -
  let ?hq = "(zero_hq ''h'')\<lparr>hq_min_wait := 300, hq_max_wait := 4800, hq_wait_last := 1200\<rparr>"
  have "simta_mail_jail conf_ex = 0" "0 < hq_min_wait ?hq" "hq_min_wait ?hq \<le> hq_max_wait ?hq"
    by (simp_all add: conf_ex_def)
  from hq_wait_backoff [OF this, of 1000 7 2] show ?thesis by (auto simp: zero_hq_def)
qed


definition reds_ex :: red_lists where
  "reds_ex = snd (simta_red_add_host \<lparr>simta_red_hosts = [], simta_secondary_mx = [], simta_remote_hosts = []\<rparr>
     ''slow.net'' RED_HOST_TYPE_REMOTE True)"


subsection \<open>The list of launches stays sorted\<close>

lemma deliver_insert_sorted:
  assumes "sorted_wrt (\<lambda>x y. t x \<le> t y) xs"
  shows "sorted_wrt (\<lambda>x y. t x \<le> (t y :: int)) (deliver_insert t k xs)"
proof (cases xs)
  case (Cons x ys)
  show ?thesis
  proof (cases "t k \<le> t x")
    case True
    with Cons assms show ?thesis by force
  next
    case False
    have "(\<lambda>y. \<not> t y \<le> t k) = (\<lambda>y. t k - t y < 0)" by auto
    then have "sorted_wrt (\<lambda>x y. t x \<le> t y) (place_before (\<lambda>y. \<not> t y \<le> t k) k ys)"
      using cmp_time.sorted_place [of t ys k] assms Cons by simp
    with Cons False assms show ?thesis by auto
  qed
qed simp

lemma set_deliver_insert [simp]: "set (deliver_insert t k xs) = insert k (set xs)"
  by (cases xs) auto

lemma mset_deliver_insert: "mset (deliver_insert t k xs) = add_mset k (mset xs)"
  by (cases xs) auto

lemma remove1_place_before: "k \<notin> set xs \<Longrightarrow> remove1 k (place_before P k xs) = xs"
  by (induction xs) auto

lemma remove1_deliver_insert: "k \<notin> set xs \<Longrightarrow> remove1 k (deliver_insert t k xs) = xs"
  by (cases xs) (auto simp: remove1_place_before)

lemma place_before_cong:
  "(\<forall>x\<in>set xs. P x = Q x) \<Longrightarrow> place_before P k xs = place_before Q k xs"
  by (induction xs) auto

lemma deliver_insert_cong:
  assumes "\<And>x. x \<in> insert k (set xs) \<Longrightarrow> t x = t' x"
  shows "deliver_insert t k xs = deliver_insert t' k xs"
proof (cases xs)
  case (Cons x ys)
  with assms have "\<forall>y\<in>set ys. (\<not> t y \<le> t k) = (\<not> t' y \<le> t' k)" by simp
  from place_before_cong [OF this, of k] Cons assms show ?thesis by simp
qed simp

lemma hq_set_wait_name: "hq_hostname (hq_set_wait w hq) = hq_hostname hq"
  by (simp add: hq_set_wait_def split: prod.split)

lemma next_launch_upd:
  "\<not> same_ref r q \<Longrightarrow> next_launch (upd_hq r (hq_set_wait w) s) q = next_launch s q"
  by (simp add: next_launch_def get_upd_hq hq_set_wait_name)

definition deliver_ok :: "'a q_state_scheme \<Rightarrow> bool" where
  "deliver_ok s \<longleftrightarrow> sorted_wrt (\<lambda>x y. next_launch s x \<le> next_launch s y) (simta_deliver_q s)"

lemma more_deliver:
  assumes "env_state.more s' = env_state.more (s :: 'a q_state_scheme)"
  shows "simta_deliver_q s' = simta_deliver_q s" "next_launch s' = next_launch s"
    "simta_env_queue s' = simta_env_queue s" "simta_disk_cycle s' = simta_disk_cycle s"
  using more_queues(1) [OF assms] assms
  by (cases s; cases s'; simp add: next_launch_def fun_eq_iff)+

lemma upd_hq_deliver [simp]: "simta_deliver_q (upd_hq r f s) = simta_deliver_q s"
  "simta_env_queue (upd_hq r f s) = simta_env_queue s"
  "simta_disk_cycle (upd_hq r f s) = simta_disk_cycle s"
  by (simp_all add: upd_hq_def split: hq_ref.split)

lemma get_hq_deliver_q [simp]: "get_hq r (s\<lparr>simta_deliver_q := d\<rparr>) = get_hq r s"
  by (simp add: get_hq_def host_q_lookup_def split: hq_ref.split)

lemma next_launch_deliver_q [simp]: "next_launch (s\<lparr>simta_deliver_q := d\<rparr>) = next_launch s"
  by (simp add: next_launch_def fun_eq_iff)

lemma hq_deliver_push_result:
  assumes "hq_deliver_push c r tv_now delay rnd s = Inr (0, s')" "deliver_ok s"
    and "\<forall>q\<in>set (simta_deliver_q s). \<not> same_ref r q"
  shows "deliver_ok s' \<and> mset (simta_deliver_q s') = add_mset r (mset (simta_deliver_q s)) \<and>
    simta_deliver_q (hq_deliver_pop r s') = simta_deliver_q s"
proof -
  obtain now s1 where n: "(case tv_now of Some n \<Rightarrow> (Some n, s)
      | None \<Rightarrow> (case simta_gettimeofday s of (tv, s1) \<Rightarrow> (map_option fst tv, s1))) = (now, s1)"
    by fastforce
  then have "env_state.more s1 = env_state.more s"
    by (auto split: option.splits prod.splits dest!: gettimeofday_more intro: env_state_more)
  note m = more_deliver [OF this]
  obtain k where k: "now = Some k" using assms(1) n by (cases now) (auto simp: hq_deliver_push_def)
  obtain hq w where w: "get_hq r s1 = Some hq" "hq_wait c k delay rnd hq = Inr w"
    using assms(1) n k by (auto simp: hq_deliver_push_def split: option.splits)
  define s2 where "s2 = upd_hq r (hq_set_wait w) s1"
  have s': "s' = s2\<lparr>simta_deliver_q := deliver_insert (next_launch s2) r (simta_deliver_q s2)\<rparr>"
    using assms(1) n k w by (auto simp: hq_deliver_push_def Let_def s2_def)
  have q: "simta_deliver_q s2 = simta_deliver_q s" by (simp add: s2_def m)
  have t: "next_launch s2 x = next_launch s x" if "x \<in> set (simta_deliver_q s)" for x
    using assms(3) that by (simp add: s2_def next_launch_upd m)
  have "sorted_wrt (\<lambda>x y. next_launch s2 x \<le> next_launch s2 y) (simta_deliver_q s)"
    using assms(2) t by (auto simp: deliver_ok_def intro: sorted_wrt_mono_rel [rotated])
  from deliver_insert_sorted [OF this, of r] have "deliver_ok s'"
    by (simp add: s' deliver_ok_def q)
  moreover have "r \<notin> set (simta_deliver_q s)" using assms(3) by auto
  ultimately show ?thesis
    by (simp add: s' q mset_deliver_insert hq_deliver_pop_def remove1_deliver_insert)
qed

text \<open>
  C36: scheduling a queue that is not scheduled yet keeps the list of launches sorted by time
  and adds just that queue; taking the queue out again gives the old list.
\<close>

theorem hq_deliver_push_sorted:
  assumes "hq_deliver_push c r tv_now delay rnd s = Inr (0, s')" "deliver_ok s"
    and "\<forall>q\<in>set (simta_deliver_q s). \<not> same_ref r q"
  shows "deliver_ok s' \<and> mset (simta_deliver_q s') = add_mset r (mset (simta_deliver_q s)) \<and>
    simta_deliver_q (hq_deliver_pop r s') = simta_deliver_q s"
  using assms by (rule hq_deliver_push_result)

definition hosts_ex :: "host_q list" where
  "hosts_ex = [(zero_hq ''a.edu'')\<lparr>hq_min_wait := 10, hq_max_wait := 80, hq_next_launch := 50, hq_wait_last := 10\<rparr>,
     (zero_hq ''b.edu'')\<lparr>hq_min_wait := 10, hq_max_wait := 80, hq_wait_last := 20\<rparr>]"

theorem hq_deliver_push_sorted_witness:
  "\<exists>s'. hq_deliver_push conf_ex (HostQ ''b.edu'') (Some 100) None 3
       ((q_state_ex (\<lambda>_. None) hosts_ex)\<lparr>simta_deliver_q := [HostQ ''a.edu'']\<rparr>) = Inr (0, s') \<and>
     deliver_ok s' \<and> simta_deliver_q (hq_deliver_pop (HostQ ''b.edu'') s') = [HostQ ''a.edu'']"
proof -
  let ?s = "(q_state_ex (\<lambda>_. None) hosts_ex)\<lparr>simta_deliver_q := [HostQ ''a.edu'']\<rparr>"
  have g: "get_hq (HostQ ''b.edu'') ?s = Some ((zero_hq ''b.edu'')\<lparr>hq_min_wait := 10, hq_max_wait := 80,
      hq_wait_last := 20\<rparr>)"
  proof -
    have "strcasecmp ''a.edu'' ''b.edu'' \<noteq> 0" "strcasecmp ''b.edu'' ''b.edu'' = 0" by code_simp+
    then show ?thesis by (simp add: get_hq_def host_q_lookup_def q_state_ex_def hosts_ex_def zero_hq_def)
  qed
  then have "\<exists>s'. hq_deliver_push conf_ex (HostQ ''b.edu'') (Some 100) None 3 ?s = Inr (0, s')"
    by (simp add: hq_deliver_push_def hq_wait_def conf_ex_def zero_hq_def Let_def)
  then obtain s' where s': "hq_deliver_push conf_ex (HostQ ''b.edu'') (Some 100) None 3 ?s = Inr (0, s')"
    by blast
  have "\<not> same_case ''b.edu'' ''a.edu''" unfolding same_case_def by code_simp
  then have "\<forall>q\<in>set (simta_deliver_q ?s). \<not> same_ref (HostQ ''b.edu'') q" "deliver_ok ?s"
    by (simp_all add: deliver_ok_def)
  from hq_deliver_push_sorted [OF s' this(2,1)] s' show ?thesis by auto
qed

subsection \<open>What a disk read leaves\<close>

definition current :: "'a q_state_scheme \<Rightarrow> envelope \<Rightarrow> bool" where
  "current s e \<longleftrightarrow> e_cycle e = simta_disk_cycle s"

lemma env_free_keeps:
  "get_hq r (env_free e s) = get_hq r s" "simta_disk_cycle (env_free e s) = simta_disk_cycle s"
  "simta_env_queue (env_free e s) = simta_env_queue s"
  using more_queues(1) [OF env_free_more [of e s]] more_deliver(3,4) [OF env_free_more [of e s]]
  by simp_all

lemma get_hq_env_queue [simp]: "get_hq r (s\<lparr>simta_env_queue := x\<rparr>) = get_hq r s"
  by (simp add: get_hq_def host_q_lookup_def split: hq_ref.split)

lemma ring_split: "x \<in> set q \<Longrightarrow> mset q = add_mset x (mset q - {#x#})"
  by simp

lemma prune_loop_result:
  "prune_loop es s = Inr (kept, n, s') \<Longrightarrow>
     kept = filter (current s) es \<and> n = int (length (filter (\<lambda>e. \<not> current s e) es)) \<and>
     (\<forall>r. get_hq r s' = get_hq r s) \<and> simta_disk_cycle s' = simta_disk_cycle s \<and>
     simta_host_q s' = simta_host_q s \<and>
     mset (simta_env_queue s) = mset (simta_env_queue s') + mset (map e_id (filter (\<lambda>e. \<not> current s e) es))"
proof (induction es arbitrary: s kept n)
  case (Cons e es)
  show ?case
  proof (cases "current s e")
    case True
    with Cons.prems obtain k where k: "prune_loop es s = Inr (k, n, s')" "kept = e # k"
      by (auto simp: current_def)
    with Cons.IH [OF k(1)] True show ?thesis by simp
  next
    case False
    let ?t = "env_free (Some e) (s\<lparr>simta_env_queue := remove1 (e_id e) (simta_env_queue s)\<rparr>)"
    obtain m where m: "prune_loop es ?t = Inr (kept, m, s')" "n = m + 1" "e_id e \<in> set (simta_env_queue s)"
      using False Cons.prems by (auto simp: current_def split: if_splits)
    have t: "get_hq r ?t = get_hq r s" "simta_disk_cycle ?t = simta_disk_cycle s"
      "simta_env_queue ?t = remove1 (e_id e) (simta_env_queue s)" "simta_host_q ?t = simta_host_q s" for r
      using more_queues(2) [OF env_free_more, of "Some e" "s\<lparr>simta_env_queue := remove1 (e_id e) (simta_env_queue s)\<rparr>"]
      by (simp_all add: env_free_keeps)
    then have "current ?t = current s" by (simp add: current_def fun_eq_iff)
    with Cons.IH [OF m(1)] t have ih: "mset (simta_env_queue s) - {#e_id e#} =
        mset (simta_env_queue s') + mset (map e_id (filter (\<lambda>e. \<not> current s e) es))"
      by simp
    have "mset (simta_env_queue s) = add_mset (e_id e)
        (mset (simta_env_queue s') + mset (map e_id (filter (\<lambda>e. \<not> current s e) es)))"
      using ring_split [OF m(3)] unfolding ih .
    with Cons.IH [OF m(1)] t m(2) False \<open>current ?t = current s\<close> show ?thesis by simp
  qed
qed simp

lemma prune_messages_result:
  assumes "prune_messages r s = Inr s'" "queues_ok s"
  shows "queues_ok s' \<and> (\<exists>hq hq'. get_hq r s = Some hq \<and> get_hq r s' = Some hq' \<and>
      hq_env_head hq' = filter (current s) (hq_env_head hq) \<and>
      hq_entries_removed hq' = hq_entries hq - hq_entries hq' \<and>
      mset (simta_env_queue s) = mset (simta_env_queue s') +
        mset (map e_id (filter (\<lambda>e. \<not> current s e) (hq_env_head hq)))) \<and>
    (\<forall>q. \<not> same_ref r q \<longrightarrow> get_hq q s' = get_hq q s)"
proof -
  obtain hq where hq: "get_hq r s = Some hq"
    using assms(1) by (auto simp: prune_messages_def split: option.splits)
  obtain kept n s1 where p: "prune_loop (hq_env_head hq) s = Inr (kept, n, s1)"
    using assms(1) hq by (auto simp: prune_messages_def)
  note pr = prune_loop_result [OF p]
  let ?f = "\<lambda>hq. hq\<lparr>hq_env_head := kept, hq_entries := int (length kept),
                   hq_entries_new := 0, hq_entries_removed := n,
                   hq_jail_envs := int (length (filter is_prisoner kept))\<rparr>"
  have s': "s' = upd_hq r ?f s1" using assms(1) hq p by (auto simp: prune_messages_def)
  have ok1: "queues_ok s1" using pr assms(2) by (simp add: queues_ok_def)
  have "hq_ok r hq" using assms(2) hq by (simp add: queues_ok_def)
  then have ok: "hq_ok r (?f hq)" "int (length (hq_env_head hq)) = hq_entries hq"
    using pr by (auto simp: hq_ok_def ref_of_def sorted_wrt_filter split: hq_ref.splits)
  have "queues_ok s'" unfolding s'
    using ok1 pr hq ok(1) by (intro queues_ok_upd) auto
  moreover have g: "get_hq q s' = (if same_ref r q then map_option ?f (get_hq r s1) else get_hq q s1)" for q
    unfolding s' by (rule get_upd_hq) simp
  moreover have "n = hq_entries hq - int (length kept)"
  proof -
    have "kept = filter (current s) (hq_env_head hq)"
      "n = int (length (filter (\<lambda>e. \<not> current s e) (hq_env_head hq)))" using pr by blast+
    moreover from this(1) have "length kept = length (filter (current s) (hq_env_head hq))" by simp
    ultimately show ?thesis
      using ok(2) sum_length_filter_compl [of "current s" "hq_env_head hq"] by linarith
  qed
  moreover have "simta_env_queue s' = simta_env_queue s1" by (simp add: s')
  ultimately show ?thesis using hq pr by (auto intro!: exI [of _ hq])
qed

text \<open>
  C37: at the end of a disk read a queue keeps exactly the messages the read has seen, in
  their order, with right counters; the messages that went leave the ring of messages, and
  no other queue changes.
\<close>

theorem prune_keeps_current:
  assumes "prune_messages r s = Inr s'" "queues_ok s"
  shows "queues_ok s' \<and> (\<exists>hq hq'. get_hq r s = Some hq \<and> get_hq r s' = Some hq' \<and>
      hq_env_head hq' = filter (current s) (hq_env_head hq) \<and>
      hq_entries_removed hq' = hq_entries hq - hq_entries hq' \<and>
      mset (simta_env_queue s) = mset (simta_env_queue s') +
        mset (map e_id (filter (\<lambda>e. \<not> current s e) (hq_env_head hq)))) \<and>
    (\<forall>q. \<not> same_ref r q \<longrightarrow> get_hq q s' = get_hq q s)"
  using assms by (rule prune_messages_result)

definition prune_ex :: q_state where
  "prune_ex =
     (let seen = (zero_env DIR_SLOW ''1A'')\<lparr>e_cycle := 1, e_hq := Some UnexpandedQ\<rparr>;
          gone = (zero_env DIR_SLOW ''2B'')\<lparr>e_hq := Some UnexpandedQ\<rparr>
      in (q_state_ex (\<lambda>_. None) [])\<lparr>simta_env_queue := [''1A'', ''2B''],
           simta_unexpanded_q := Some ((zero_hq [])\<lparr>hq_env_head := [seen, gone], hq_entries := 2\<rparr>)\<rparr>)"

lemma prune_ex_queues:
  "simta_unexpanded_q prune_ex = Some ((zero_hq [])\<lparr>hq_env_head :=
     [(zero_env DIR_SLOW ''1A'')\<lparr>e_cycle := 1, e_hq := Some UnexpandedQ\<rparr>,
      (zero_env DIR_SLOW ''2B'')\<lparr>e_hq := Some UnexpandedQ\<rparr>], hq_entries := 2\<rparr>)"
  "simta_punt_q prune_ex = None" "simta_host_q prune_ex = []" "simta_disk_cycle prune_ex = 1"
  "simta_env_queue prune_ex = [''1A'', ''2B'']" "w_oracle prune_ex = []"
  by (simp_all add: prune_ex_def q_state_ex_def Let_def)

lemma prune_ex_ok: "queues_ok prune_ex"
  by (auto simp: queues_ok_def hosts_distinct_def hq_ok_def prune_ex_queues get_hq_def
      host_q_lookup_def is_prisoner_def ENV_JAIL_PRISONER_def zero_hq_def zero_env_def ref_of_def split: hq_ref.splits)

theorem prune_keeps_current_witness:
  "\<exists>s' hq'. prune_messages UnexpandedQ prune_ex = Inr s' \<and> get_hq UnexpandedQ s' = Some hq' \<and>
     map e_id (hq_env_head hq') = [''1A''] \<and> simta_env_queue s' = [''1A'']"
proof -
  obtain s' where s': "prune_messages UnexpandedQ prune_ex = Inr s'"
    by (simp add: prune_messages_def prune_ex_queues get_hq_def zero_env_def env_free_keeps)
  from prune_keeps_current [OF s' prune_ex_ok] show ?thesis using s'
    by (auto simp: prune_ex_queues get_hq_def current_def zero_env_def)
qed

end
