(* ===== verification/Net.thy ===== *)
theory Net
  imports Schedule
begin

section \<open>Delivery state: struct deliver, DNS answers, connections\<close>

text \<open>
  What a delivery carries from message to message (\<open>struct deliver\<close>, queue.h), and what it
  meets outside: the answers of the resolver (\<open>w_dns\<close>), the peers it connects to and all
  they will send (\<open>w_peers\<close>), the output and end of the programs it starts
  (\<open>w_children\<close>).  Each is consumed in the order of use; when a list is used up, lookups
  and connections fail and programs are killed.  A descriptor is the inode it is open on.
\<close>

subsection \<open>Addresses and answers\<close>

type_synonym in_addr = "nat \<times> nat \<times> nat \<times> nat"

definition inet_ntoa :: "in_addr \<Rightarrow> string" where
  "inet_ntoa ip = (case ip of (a, b, c, d) \<Rightarrow>
     show_nat a @ ''.'' @ show_nat b @ ''.'' @ show_nat c @ ''.'' @ show_nat d)"

definition DNSR_TYPE_A :: nat where "DNSR_TYPE_A = 1"
definition DNSR_TYPE_CNAME :: nat where "DNSR_TYPE_CNAME = 5"
definition DNSR_TYPE_MX :: nat where "DNSR_TYPE_MX = 15"

lemmas dnsr_types = DNSR_TYPE_A_def DNSR_TYPE_CNAME_def DNSR_TYPE_MX_def

text \<open>
  The members of the union are fields of their own; the field of another type than
  \<open>rr_type\<close> says what the bytes of the answer happen to be when read that way.
\<close>

record dnsr_rr =
  rr_name :: string
  rr_ip :: "in_addr option"
  rr_type :: nat
  rr_a :: in_addr
  rr_cname :: string
  rr_mx_preference :: nat
  rr_mx_exchange :: string

type_synonym dnsr_result = "dnsr_rr list"

subsection \<open>Connections and delivery\<close>

text \<open>A connection: what is still to come from the peer, and all that was written to it.\<close>

record smtp_conn =
  conn_in :: snet
  conn_out :: string

text \<open>The retry list is a list of addresses; \<open>d_retry_cur\<close> is a place in it, or NULL.\<close>

record deliver =
  d_deliver_argc :: int
  d_deliver_argv :: "string list option"
  d_env :: envelope
  d_rcpt :: "nat option"
  d_size :: int
  d_sent :: int
  d_dfile_fd :: nat
  d_n_message_accepted_total :: int
  d_n_message_failed_total :: int
  d_n_message_tempfailed_total :: int
  d_n_rcpt_accepted :: int
  d_n_rcpt_accepted_total :: int
  d_n_rcpt_failed :: int
  d_n_rcpt_failed_total :: int
  d_n_rcpt_tempfailed :: int
  d_n_rcpt_tempfailed_total :: int
  d_delivered :: int
  d_unlinked :: int
  d_queue_movement :: int
  d_retry_list :: "in_addr list"
  d_retry_cur :: "nat option"
  d_dnsr_result :: "dnsr_result option"
  d_dnsr_result_ip :: "dnsr_result option"
  d_sin :: in_addr
  d_snet_smtp :: "smtp_conn option"
  d_snet_dfile :: "snet option"
  d_mx_preference_cutoff :: nat
  d_cur_dnsr_result :: int
  d_cur_dnsr_result_ip :: int
  d_tls_supported :: int
  d_tls_banner_check :: int

datatype wait_status = Exited int | Killed

record net_state = q_state +
  simta_dnsr :: bool
  w_dns :: "dnsr_result option list"
  w_peers :: "snet list"
  w_children :: "(string \<times> wait_status) list"
  w_readahead :: "nat list"
  simta_leaky_queue :: int
  simta_smtp_outbound_attempts :: int
  simta_smtp_outbound_delivered :: int

definition zero_deliver :: "envelope \<Rightarrow> deliver" where
  "zero_deliver env =
     \<lparr>d_deliver_argc = 0, d_deliver_argv = None, d_env = env, d_rcpt = None, d_size = 0, d_sent = 0,
      d_dfile_fd = 0, d_n_message_accepted_total = 0, d_n_message_failed_total = 0,
      d_n_message_tempfailed_total = 0, d_n_rcpt_accepted = 0, d_n_rcpt_accepted_total = 0,
      d_n_rcpt_failed = 0, d_n_rcpt_failed_total = 0, d_n_rcpt_tempfailed = 0,
      d_n_rcpt_tempfailed_total = 0, d_delivered = 0, d_unlinked = 0, d_queue_movement = 0,
      d_retry_list = [], d_retry_cur = None, d_dnsr_result = None, d_dnsr_result_ip = None,
      d_sin = (0, 0, 0, 0), d_snet_smtp = None, d_snet_dfile = None, d_mx_preference_cutoff = 0,
      d_cur_dnsr_result = 0, d_cur_dnsr_result_ip = 0, d_tls_supported = 0, d_tls_banner_check = 0\<rparr>"

subsection \<open>Rewinding a file under its reader\<close>

text \<open>
  \<open>lseek( fd, 0, SEEK_SET )\<close> goes around the reader's buffer: what it holds (the first
  \<open>k\<close> characters to come, of the environment's choice) is read before the file from its
  start.  Nothing is buffered before the first line is read.  A last line without an end
  leaves the reader one character before its buffer.
\<close>

definition snet_rewind :: "nat \<Rightarrow> string \<Rightarrow> snet \<Rightarrow> snet run" where
  "snet_rewind k file sn =
     (if sn_rest sn = file then Inr sn
      else if sn_rest sn = [] \<and> file \<noteq> [] \<and> line_char (last file) then Inl OutOfBounds
      else Inr (sn\<lparr>sn_rest := take k (sn_rest sn) @ file\<rparr>))"

definition readahead :: "'a net_state_scheme \<Rightarrow> nat \<times> 'a net_state_scheme" where
  "readahead s = (case w_readahead s of [] \<Rightarrow> (0, s) | k # ks \<Rightarrow> (k, s\<lparr>w_readahead := ks\<rparr>))"

subsection \<open>The resolver: mx.c\<close>

text \<open>
  \<open>get_a\<close> and the query of \<open>get_mx\<close>: the handle is made on first use, then the query is sent,
  then the answer is awaited.
\<close>

definition dns_query :: "'a net_state_scheme \<Rightarrow> dnsr_result option \<times> 'a net_state_scheme" where
  "dns_query s =
     (let (new_ok, s1) = (if simta_dnsr s then (True, s) else outcome s)
      in if \<not> new_ok then (None, s1)
         else
           (let s2 = s1\<lparr>simta_dnsr := True\<rparr>; (query_ok, s3) = outcome s2
            in if \<not> query_ok then (None, s3)
               else (case w_dns s3 of
                       [] \<Rightarrow> (None, s3)
                     | a # answers \<Rightarrow> (a, s3\<lparr>w_dns := answers\<rparr>))))"

definition get_a :: "string \<Rightarrow> 'a net_state_scheme \<Rightarrow> dnsr_result option \<times> 'a net_state_scheme" where
  "get_a hostname s = dns_query s"

text \<open>Memory for a new red entry and its four default actions.\<close>

fun outcomes :: "nat \<Rightarrow> 'a sys_scheme \<Rightarrow> bool list \<times> 'a sys_scheme" where
  "outcomes 0 s = ([], s)"
| "outcomes (Suc n) s = (let (b, s1) = outcome s; (bs, s2) = outcomes n s1 in (b # bs, s2))"

text \<open>Writing a red entry back into its list.\<close>

fun red_store :: "simta_red \<Rightarrow> simta_red list \<Rightarrow> simta_red list" where
  "red_store red [] = []"
| "red_store red (r # rs) =
     (if red_host_name r = red_host_name red then red # rs else r # red_store red rs)"

text \<open>
  An exchange that is this host makes the domain a local one: the lookup is of \<open>key\<close>, the
  entry that is added is for \<open>rr_name\<close>.  False is the return of NULL.
\<close>

definition dns_add_local :: "conf \<Rightarrow> string \<Rightarrow> string \<Rightarrow> 'a net_state_scheme \<Rightarrow> (bool \<times> 'a net_state_scheme) run" where
  "dns_add_local c key name s =
     and_then (simta_red_lookup_host (simta_domain_trailing_dot c) (simta_reds s) key) (\<lambda>r. case r of
        Some _ \<Rightarrow> Inr (True, s)
      | None \<Rightarrow>
          (let (malloc_ok, s1) = outcome s
           in case simta_red_add_host (simta_reds s1) name RED_HOST_TYPE_LOCAL malloc_ok of
                (None, reds) \<Rightarrow> Inr (False, s1\<lparr>simta_reds := reds\<rparr>)
              | (Some red, reds) \<Rightarrow>
                  (let (mem, s2) = outcomes 4 s1;
                       (rc, red') = simta_red_action_default (simta_default_alias_db c)
                         (simta_default_passwd_file c) ((!) mem) red
                   in Inr (rc = 0, s2\<lparr>simta_reds := reds\<lparr>simta_red_hosts := red_store red' (simta_red_hosts reds)\<rparr>\<rparr>))))"

fun dns_config_loop :: "conf \<Rightarrow> nat \<Rightarrow> dnsr_result \<Rightarrow> 'a net_state_scheme \<Rightarrow> (bool \<times> 'a net_state_scheme) run" where
  "dns_config_loop c first [] s = Inr (True, s)"
| "dns_config_loop c first (rr # rrs) s =
     and_then
       (if rr_type rr = DNSR_TYPE_CNAME \<and> strcasecmp (simta_hostname c) (rr_cname rr) = 0
        then dns_add_local c (rr_cname rr) (rr_name rr) s
        else if rr_type rr = DNSR_TYPE_MX \<and> strcasecmp (simta_hostname c) (rr_mx_exchange rr) = 0 \<and>
          rr_mx_preference rr \<le> first
        then dns_add_local c (rr_name rr) (rr_name rr) s
        else Inr (True, s))
       (\<lambda>(go, s1). if go then dns_config_loop c first rrs s1 else Inr (False, s1))"

definition get_mx :: "conf \<Rightarrow> string \<Rightarrow> 'a net_state_scheme \<Rightarrow> (dnsr_result option \<times> 'a net_state_scheme) run" where
  "get_mx c hostname s =
     (case dns_query s of
        (None, s1) \<Rightarrow> Inr (None, s1)
      | (Some result, s1) \<Rightarrow>
          (if simta_dns_config c \<noteq> 0 \<and> result \<noteq> [] then
             and_then (dns_config_loop c (rr_mx_preference (hd result)) result s1)
               (\<lambda>(go, s2). Inr (if go then Some result else None, s2))
           else Inr (Some result, s1)))"

text \<open>The secondary exchange counts if the first answer that is no alias is preferred to it.\<close>

fun secondary_scan :: "simta_red \<Rightarrow> dnsr_result \<Rightarrow> nat \<Rightarrow> dnsr_result \<Rightarrow> bool run" where
  "secondary_scan sec all cname_offset [] = Inr False"
| "secondary_scan sec all cname_offset (rr # rrs) =
     (if rr_type rr = DNSR_TYPE_CNAME then secondary_scan sec all (cname_offset + 1) rrs
      else if rr_type rr = DNSR_TYPE_MX \<and> strcasecmp (red_host_name sec) (rr_mx_exchange rr) = 0 then
        (if length all \<le> cname_offset then Inl OutOfBounds
         else if rr_mx_preference (all ! cname_offset) < rr_mx_preference rr then Inr True
         else secondary_scan sec all cname_offset rrs)
      else secondary_scan sec all cname_offset rrs)"

definition host_local :: "conf \<Rightarrow> string \<Rightarrow> 'a net_state_scheme \<Rightarrow> (simta_red option \<times> 'a net_state_scheme) run" where
  "host_local c hostname s =
     and_then (simta_red_lookup_host (simta_domain_trailing_dot c) (simta_reds s) hostname) (\<lambda>r.
       if r \<noteq> None then Inr (r, s)
       else and_then (get_mx c hostname s) (\<lambda>(result, s1).
         case result of
           None \<Rightarrow> Inr (None, s1)
         | Some [] \<Rightarrow> Inr (None, s1)
         | Some answers \<Rightarrow>
             and_then (simta_red_lookup_host (simta_domain_trailing_dot c) (simta_reds s1) hostname) (\<lambda>r.
               if r \<noteq> None then Inr (r, s1)
               else (case simta_secondary_mx (simta_reds s1) of
                       [] \<Rightarrow> Inr (None, s1)
                     | sec # _ \<Rightarrow>
                         and_then (secondary_scan sec answers 0 answers)
                           (\<lambda>found. Inr (if found then Some sec else None, s1))))))"

end
