(* ===== verification/DnsHost.thy ===== *)
theory DnsHost
  imports Net
begin

section \<open>Which address to try next: queue.c, next\_dnsr\_host\<close>

text \<open>
  A delivery walks the MX answers of its host, the addresses of each exchange, and a list of
  addresses that took mail before.  The results are 0 (\<open>d_sin\<close> is the address to try) and
  1 (none is left); the host queue and the delivery are passed and returned.
\<close>

subsection \<open>The retry list\<close>

definition connection_data_create :: "deliver \<Rightarrow> bool \<Rightarrow> deliver" where
  "connection_data_create d malloc_ok =
     (if malloc_ok then d\<lparr>d_retry_list := d_retry_list d @ [d_sin d]\<rparr> else d)"

text \<open>Taking out an entry makes the one behind it current, or else the first.\<close>

definition connection_data_free :: "deliver \<Rightarrow> nat \<Rightarrow> deliver" where
  "connection_data_free d i =
     (let rest = take i (d_retry_list d) @ drop (Suc i) (d_retry_list d)
      in d\<lparr>d_retry_list := rest,
           d_retry_cur := (if i < length rest then Some i else if rest \<noteq> [] then Some 0 else None)\<rparr>)"

subsection \<open>Finding the answers\<close>

fun mx_cutoff :: "conf \<Rightarrow> simta_red list \<Rightarrow> dnsr_result \<Rightarrow> nat option" where
  "mx_cutoff c secondary [] = None"
| "mx_cutoff c secondary (rr # rrs) =
     (if rr_type rr \<noteq> DNSR_TYPE_MX then mx_cutoff c secondary rrs
      else if strcasecmp (simta_hostname c) (rr_mx_exchange rr) = 0 then Some (rr_mx_preference rr)
      else if secondary \<noteq> [] \<and> strcasecmp (red_host_name (hd secondary)) (rr_mx_exchange rr) = 0
      then Some (rr_mx_preference rr)
      else mx_cutoff c secondary rrs)"

definition host_missing :: "host_q \<Rightarrow> 'a sys_scheme \<Rightarrow> bool \<times> host_q \<times> 'a sys_scheme" where
  "host_missing hq s =
     (let (create_ok, s1) = (if hq_err_text hq = None then outcome s else (True, s))
      in if \<not> create_ok then (False, hq, s1)
         else (let lf = (case hq_err_text hq of None \<Rightarrow> [] | Some l \<Rightarrow> l);
                   (malloc_ok, s2) = outcome s1;
                   (strdup_ok, s3) = (if malloc_ok then outcome s2 else (True, s2));
                   (ok, lf') = line_append lf (Some ''Host does not exist'') True malloc_ok strdup_ok
               in (ok, hq\<lparr>hq_err_text := Some lf'\<rparr>, s3)))"

definition get_outboud_dns :: "conf \<Rightarrow> deliver \<Rightarrow> host_q \<Rightarrow> 'a net_state_scheme \<Rightarrow>
  (int \<times> deliver \<times> host_q \<times> 'a net_state_scheme) run" where
  "get_outboud_dns c d hq s =
     and_then (get_mx c (hq_hostname hq) s) (\<lambda>(mx, s1). case mx of
        None \<Rightarrow> Inr (1, d\<lparr>d_dnsr_result := None\<rparr>,
                  hq\<lparr>hq_no_punt := set_flag (hq_no_punt hq) NOPUNT_MX\<rparr>, s1)
      | Some result \<Rightarrow>
          (let d1 = d\<lparr>d_dnsr_result := Some result\<rparr>
           in if result \<noteq> [] \<and> (length result \<noteq> 1 \<or> rr_type (hd result) \<noteq> DNSR_TYPE_CNAME) then
                (case mx_cutoff c (simta_secondary_mx (simta_reds s1)) result of
                   None \<Rightarrow> Inr (0, d1, hq, s1)
                 | Some cutoff \<Rightarrow> Inr (0, d1\<lparr>d_mx_preference_cutoff := cutoff\<rparr>,
                     hq\<lparr>hq_no_punt := set_flag (hq_no_punt hq) NOPUNT_MX\<rparr>, s1))
              else
                (case get_a (hq_hostname hq) s1 of
                   (None, s2) \<Rightarrow> Inr (1, d1\<lparr>d_dnsr_result := None\<rparr>, hq, s2)
                 | (Some [], s2) \<Rightarrow>
                     (case host_missing hq s2 of
                        (ok, hq1, s3) \<Rightarrow>
                          if \<not> ok then Inr (1, d1\<lparr>d_dnsr_result := Some []\<rparr>, hq1, s3)
                          else Inr (1, d1\<lparr>d_dnsr_result := Some [],
                                 d_env := (d_env d)\<lparr>e_flags := set_flag (e_flags (d_env d)) ENV_FLAG_BOUNCE\<rparr>\<rparr>,
                                 hq1\<lparr>hq_status := HOST_BOUNCE\<rparr>, s3))
                 | (Some answers, s2) \<Rightarrow> Inr (0, d1\<lparr>d_dnsr_result := Some answers\<rparr>, hq, s2))))"

definition dns_setup :: "conf \<Rightarrow> deliver \<Rightarrow> host_q \<Rightarrow> 'a net_state_scheme \<Rightarrow>
  (int \<times> deliver \<times> host_q \<times> 'a net_state_scheme) run" where
  "dns_setup c d hq s =
     (if d_dnsr_result d \<noteq> None then Inr (0, d, hq, s)
      else
        (let hq1 = hq\<lparr>hq_no_punt := clear_flag (hq_no_punt hq) NOPUNT_MX\<rparr>;
             d1 = d\<lparr>d_mx_preference_cutoff := 0, d_cur_dnsr_result := 0\<rparr>
         in if hq_status hq = HOST_DOWN then
              and_then (get_outboud_dns c d1 hq1 s) (\<lambda>(rc, d2, hq2, s2).
                if rc \<noteq> 0 then Inr (1, d2, hq2, s2)
                else Inr (0, d2\<lparr>d_cur_dnsr_result := - 1\<rparr>, hq2, s2))
            else if hq_status hq = HOST_PUNT_DOWN then
              (case simta_punt_host c of
                 None \<Rightarrow> Inl NullDeref
               | Some punt \<Rightarrow>
                   (case get_a punt s of
                      (None, s2) \<Rightarrow> Inr (1, d1\<lparr>d_dnsr_result := None\<rparr>, hq1, s2)
                    | (Some [], s2) \<Rightarrow> Inr (1, d1\<lparr>d_dnsr_result := Some []\<rparr>, hq1, s2)
                    | (Some answers, s2) \<Rightarrow>
                        Inr (0, d1\<lparr>d_dnsr_result := Some answers, d_cur_dnsr_result := - 1\<rparr>, hq1, s2)))
            else Inl Panicked))"

subsection \<open>Walking the answers\<close>

definition sin_of :: "in_addr \<Rightarrow> deliver \<Rightarrow> deliver" where
  "sin_of ip d = d\<lparr>d_sin := ip\<rparr>"

definition loopback :: "in_addr \<Rightarrow> bool" where
  "loopback ip \<longleftrightarrow> strcmp (inet_ntoa ip) ''127.0.0.1'' = 0 \<or> strcmp (inet_ntoa ip) ''0.0.0.0'' = 0"

text \<open>The jump to \<open>retry\<close>, and the start of the retry list where there is one.\<close>

definition dns_retry :: "deliver \<Rightarrow> (int \<times> deliver) run" where
  "dns_retry d = (case d_retry_cur d of
       None \<Rightarrow> Inl NullDeref
     | Some i \<Rightarrow> if length (d_retry_list d) \<le> i then Inl NullDeref
                 else Inr (0, sin_of (d_retry_list d ! i) d))"

definition dns_exhausted :: "deliver \<Rightarrow> (int \<times> deliver) run" where
  "dns_exhausted d =
     (if d_retry_list d \<noteq> [] then dns_retry (d\<lparr>d_retry_cur := Some 0\<rparr>) else Inr (1, d))"

text \<open>The current retry address stays when it moved mail, and goes when it did not.\<close>

definition dns_retry_next :: "deliver \<Rightarrow> nat \<Rightarrow> (int \<times> deliver) run" where
  "dns_retry_next d i =
     (if d_queue_movement d = 0 then
        (let d1 = connection_data_free d i
         in if d_retry_cur d1 = None
            then (if d_retry_list d1 \<noteq> [] then dns_retry (d1\<lparr>d_retry_cur := Some 0\<rparr>) else Inr (1, d1))
            else dns_retry d1)
      else dns_retry (d\<lparr>d_retry_cur :=
             (if Suc i < length (d_retry_list d) then Some (Suc i)
              else if d_retry_list d \<noteq> [] then Some 0 else None)\<rparr>))"

text \<open>
  The answers from \<open>d_cur_dnsr_result\<close> on.  The result is what the loop ended with: a
  return, or (None) the fall to the addresses of an exchange.
\<close>

fun mx_loop :: "host_q \<Rightarrow> deliver \<Rightarrow> dnsr_result \<Rightarrow> 'a net_state_scheme \<Rightarrow>
  (int option \<times> deliver \<times> 'a net_state_scheme) run" where
  "mx_loop hq d [] s = Inr (None, d, s)"
| "mx_loop hq d (rr # rrs) s =
     (let next = d\<lparr>d_cur_dnsr_result := d_cur_dnsr_result d + 1\<rparr>
      in if rr_type rr = DNSR_TYPE_A then
           (if hq_status hq = HOST_DOWN \<and> loopback (rr_a rr) then mx_loop hq (sin_of (rr_a rr) next) rrs s
            else Inr (Some 0, sin_of (rr_a rr) d, s))
         else if rr_type rr \<noteq> DNSR_TYPE_MX \<or> hq_status hq \<noteq> HOST_DOWN then mx_loop hq next rrs s
         else if has_flag (hq_no_punt hq) NOPUNT_MX \<and> d_mx_preference_cutoff d = rr_mx_preference rr then
           and_then (dns_exhausted d) (\<lambda>(rc, d1). Inr (Some rc, d1, s))
         else (case rr_ip rr of
             Some ip \<Rightarrow> Inr (Some 0, sin_of ip d, s)
           | None \<Rightarrow>
               (case get_a (rr_mx_exchange rr) s of
                  (None, s1) \<Rightarrow> mx_loop hq (next\<lparr>d_dnsr_result_ip := None\<rparr>) rrs s1
                | (Some [], s1) \<Rightarrow> mx_loop hq (next\<lparr>d_dnsr_result_ip := None\<rparr>) rrs s1
                | (Some answers, s1) \<Rightarrow>
                    Inr (None, d\<lparr>d_dnsr_result_ip := Some answers, d_cur_dnsr_result_ip := - 1\<rparr>, s1))))"

fun ip_loop :: "deliver \<Rightarrow> dnsr_result \<Rightarrow> bool \<times> deliver" where
  "ip_loop d [] = (False, d)"
| "ip_loop d (rr # rrs) =
     (let next = d\<lparr>d_cur_dnsr_result_ip := d_cur_dnsr_result_ip d + 1\<rparr>
      in if rr_type rr \<noteq> DNSR_TYPE_A then ip_loop next rrs
         else if loopback (rr_a rr) then ip_loop (sin_of (rr_a rr) next) rrs
         else (True, sin_of (rr_a rr) d))"

definition dns_addresses :: "deliver \<Rightarrow> (int \<times> deliver) run" where
  "dns_addresses d =
     (case d_dnsr_result_ip d of
        None \<Rightarrow> dns_exhausted d
      | Some answers \<Rightarrow>
          (let d1 = d\<lparr>d_cur_dnsr_result_ip := d_cur_dnsr_result_ip d + 1\<rparr>;
               (found, d2) = ip_loop d1 (drop (nat (d_cur_dnsr_result_ip d1)) answers)
           in if found then Inr (0, d2) else dns_exhausted d2))"

definition dns_answers :: "host_q \<Rightarrow> deliver \<Rightarrow> 'a net_state_scheme \<Rightarrow> (int \<times> deliver \<times> 'a net_state_scheme) run" where
  "dns_answers hq d s =
     (if d_dnsr_result_ip d \<noteq> None then and_then (dns_addresses d) (\<lambda>(rc, d1). Inr (rc, d1, s))
      else (case d_dnsr_result d of
          None \<Rightarrow> Inl NullDeref
        | Some answers \<Rightarrow>
            (let d1 = d\<lparr>d_cur_dnsr_result := d_cur_dnsr_result d + 1\<rparr>
             in and_then (mx_loop hq d1 (drop (nat (d_cur_dnsr_result d1)) answers) s) (\<lambda>(r, d2, s2).
                  case r of
                    Some rc \<Rightarrow> Inr (rc, d2, s2)
                  | None \<Rightarrow> and_then (dns_addresses d2) (\<lambda>(rc, d3). Inr (rc, d3, s2))))))"

definition next_dnsr_host :: "conf \<Rightarrow> deliver \<Rightarrow> host_q \<Rightarrow> 'a net_state_scheme \<Rightarrow>
  (int \<times> deliver \<times> host_q \<times> 'a net_state_scheme) run" where
  "next_dnsr_host c d hq s =
     and_then (dns_setup c d hq s) (\<lambda>(rc, d1, hq1, s1).
       if rc \<noteq> 0 then Inr (1, d1, hq1, s1)
       else (case d_retry_cur d1 of
           Some i \<Rightarrow> and_then (dns_retry_next d1 i) (\<lambda>(rc2, d2). Inr (rc2, d2, hq1, s1))
         | None \<Rightarrow>
             (let (d2, s2) = (if simta_aggressive_delivery c \<noteq> 0 \<and> d_queue_movement d1 \<noteq> 0
                    then (let (malloc_ok, s2) = outcome s1 in (connection_data_create d1 malloc_ok, s2))
                    else (d1, s1))
              in and_then (dns_answers hq1 (sin_of (0, 0, 0, 0) d2) s2)
                   (\<lambda>(rc3, d3, s3). Inr (rc3, d3, hq1, s3)))))"


subsection \<open>What a step of the walk leaves\<close>

text \<open>How far the walk is behind: whether there is an answer, its entries left, the addresses.\<close>

definition mx_left :: "deliver \<Rightarrow> nat" where
  "mx_left d = (case d_dnsr_result d of None \<Rightarrow> 0 | Some answers \<Rightarrow> nat (int (length answers) - d_cur_dnsr_result d))"

definition flag_of :: "bool \<Rightarrow> nat" where
  "flag_of b = (if b then 1 else 0)"

lemma flag_of_less [simp]: "flag_of a < flag_of b \<longleftrightarrow> \<not> a \<and> b"
  by (simp add: flag_of_def)

text \<open>Steps that only choose an address: they keep the answers, where they are, and what was counted.\<close>

definition same_walk :: "deliver \<Rightarrow> deliver \<Rightarrow> bool" where
  "same_walk d d' \<longleftrightarrow> d_dnsr_result d' = d_dnsr_result d \<and> d_dnsr_result_ip d' = d_dnsr_result_ip d \<and>
     d_cur_dnsr_result d' = d_cur_dnsr_result d \<and> d_mx_preference_cutoff d' = d_mx_preference_cutoff d"

lemma same_walk_refl [simp]: "same_walk d d"
  by (simp add: same_walk_def)

lemma same_walk_trans: "same_walk d e \<Longrightarrow> same_walk e f \<Longrightarrow> same_walk d f"
  by (simp add: same_walk_def)

lemma same_walk_upd [simp]:
  "same_walk d (d\<lparr>d_retry_cur := x\<rparr>)" "same_walk d (d\<lparr>d_cur_dnsr_result_ip := i\<rparr>)"
  "same_walk d (sin_of ip d)" "same_walk d (connection_data_create d ok)"
  "same_walk d (connection_data_free d n)"
  by (simp_all add: same_walk_def sin_of_def connection_data_create_def connection_data_free_def Let_def)

lemma dns_retry_result: "dns_retry d = Inr (rc, d') \<Longrightarrow> rc = 0 \<and> same_walk d d' \<and> d_sin d' \<in> set (d_retry_list d) \<and>
    d_retry_list d' = d_retry_list d"
  by (auto simp: dns_retry_def sin_of_def same_walk_def split: option.splits if_splits)

lemma dns_exhausted_result:
  "dns_exhausted d = Inr (rc, d') \<Longrightarrow> same_walk d d' \<and> d_retry_list d' = d_retry_list d \<and>
     (rc = 0 \<longrightarrow> d_sin d' \<in> set (d_retry_list d)) \<and> (rc \<noteq> 0 \<longrightarrow> rc = 1)"
  by (auto simp: dns_exhausted_def same_walk_def dest!: dns_retry_result split: if_splits)

lemma retry_free_subset: "set (d_retry_list (connection_data_free d i)) \<subseteq> set (d_retry_list d)"
  using set_take_subset [of i "d_retry_list d"] set_drop_subset [of "Suc i" "d_retry_list d"]
  by (auto simp: connection_data_free_def Let_def)

lemma dns_retry_next_result:
  assumes "dns_retry_next d i = Inr (rc, d')"
  shows "same_walk d d' \<and> (rc = 0 \<longrightarrow> d_sin d' \<in> set (d_retry_list d)) \<and> (rc \<noteq> 0 \<longrightarrow> rc = 1)"
proof (cases "d_queue_movement d = 0")
  case True
  have "same_walk d (connection_data_free d i)" by simp
  with True assms retry_free_subset [of d i] show ?thesis
    by (auto simp: dns_retry_next_def Let_def split: if_splits dest!: dns_retry_result
        intro: same_walk_trans simp: same_walk_def)
next
  case False
  then have "dns_retry (d\<lparr>d_retry_cur := (if Suc i < length (d_retry_list d) then Some (Suc i)
      else if d_retry_list d \<noteq> [] then Some 0 else None)\<rparr>) = Inr (rc, d')"
    using assms by (simp add: dns_retry_next_def)
  from dns_retry_result [OF this] show ?thesis by (simp add: same_walk_def)
qed

lemma ip_loop_result:
  "ip_loop d rrs = (found, d') \<Longrightarrow> same_walk d d' \<and> d_retry_list d' = d_retry_list d \<and>
     (found \<longrightarrow> \<not> loopback (d_sin d'))"
  by (induction d rrs rule: ip_loop.induct)
    (auto simp: Let_def sin_of_def same_walk_def split: if_splits)

lemma dns_addresses_result:
  assumes "dns_addresses d = Inr (rc, d')"
  shows "same_walk d d' \<and> (rc = 0 \<longrightarrow> d_sin d' \<in> set (d_retry_list d) \<or> \<not> loopback (d_sin d')) \<and>
    (rc \<noteq> 0 \<longrightarrow> rc = 1)"
proof (cases "d_dnsr_result_ip d")
  case None
  with assms show ?thesis by (auto simp: dns_addresses_def dest!: dns_exhausted_result)
next
  case (Some answers)
  let ?d1 = "d\<lparr>d_cur_dnsr_result_ip := d_cur_dnsr_result_ip d + 1\<rparr>"
  obtain found d2 where l: "ip_loop ?d1 (drop (nat (d_cur_dnsr_result_ip ?d1)) answers) = (found, d2)"
    by fastforce
  note r = ip_loop_result [OF l]
  then have "same_walk d d2" "d_retry_list d2 = d_retry_list d" by (auto simp: same_walk_def)
  with assms Some l r show ?thesis
    by (auto simp: dns_addresses_def Let_def split: if_splits dest!: dns_exhausted_result
        intro: same_walk_trans)
qed

text \<open>The loop over the answers stops inside them when it returns or finds an exchange.\<close>

lemma mx_loop_result:
  "mx_loop hq d rrs s = Inr (r, d', s') \<Longrightarrow>
     d_dnsr_result d' = d_dnsr_result d \<and> d_mx_preference_cutoff d' = d_mx_preference_cutoff d \<and>
     d_retry_list d' = d_retry_list d \<and>
     d_cur_dnsr_result d \<le> d_cur_dnsr_result d' \<and>
     (r \<noteq> None \<longrightarrow> d_dnsr_result_ip d = None \<longrightarrow> d_dnsr_result_ip d' = None) \<and>
     (d_dnsr_result_ip d = None \<longrightarrow> d_dnsr_result_ip d' \<noteq> None \<longrightarrow> rrs \<noteq> []) \<and>
     (r \<noteq> None \<longrightarrow> r = Some 0 \<or> r = Some 1)"
proof (induction hq d rrs s rule: mx_loop.induct)
  case (2 hq d rr rrs s)
  let ?next = "d\<lparr>d_cur_dnsr_result := d_cur_dnsr_result d + 1\<rparr>"
  consider "rr_type rr = DNSR_TYPE_A" "hq_status hq = HOST_DOWN \<and> loopback (rr_a rr)"
    | "rr_type rr = DNSR_TYPE_A" "\<not> (hq_status hq = HOST_DOWN \<and> loopback (rr_a rr))"
    | "rr_type rr \<noteq> DNSR_TYPE_A" "rr_type rr \<noteq> DNSR_TYPE_MX \<or> hq_status hq \<noteq> HOST_DOWN"
    | "rr_type rr = DNSR_TYPE_MX" "rr_type rr \<noteq> DNSR_TYPE_A" "hq_status hq = HOST_DOWN" by blast
  then show ?case
  proof cases
    case 1
    with "2.IH"(1) "2.prems" show ?thesis by (auto simp: sin_of_def)
  next
    case 2
    with "2.prems" show ?thesis by (auto simp: sin_of_def)
  next
    case 3
    with "2.IH"(2) "2.prems" show ?thesis by auto
  next
    case 4
    show ?thesis
    proof (cases "has_flag (hq_no_punt hq) NOPUNT_MX \<and> d_mx_preference_cutoff d = rr_mx_preference rr")
      case True
      with "2.prems" 4 show ?thesis by (auto simp: same_walk_def dest!: dns_exhausted_result)
    next
      case cut: False
      show ?thesis
      proof (cases "rr_ip rr")
        case (Some ip)
        with "2.prems" 4 cut show ?thesis by (auto simp: sin_of_def)
      next
        case None
        obtain g s1 where g: "get_a (rr_mx_exchange rr) s = (g, s1)" by fastforce
        show ?thesis
        proof (cases "g = None \<or> g = Some []")
          case True
          then have "mx_loop hq (?next\<lparr>d_dnsr_result_ip := None\<rparr>) rrs s1 = Inr (r, d', s')"
            using "2.prems" 4 cut None g by (elim disjE) auto
          moreover have "mx_loop hq (?next\<lparr>d_dnsr_result_ip := None\<rparr>) rrs s1 = Inr (r, d', s') \<Longrightarrow> ?thesis"
            using "2.IH"(3,4) [OF refl _ _ _ _ g [symmetric]] 4 cut None True by auto
          ultimately show ?thesis by blast
        next
          case False
          then obtain a as where "g = Some (a # as)" by (metis list.exhaust option.exhaust)
          with "2.prems" 4 cut None g show ?thesis by auto
        qed
      qed
    qed
  qed
qed auto


subsection \<open>No exchange at or above our own preference is tried\<close>

definition is_mx :: "dnsr_rr \<Rightarrow> bool" where
  "is_mx rr \<longleftrightarrow> rr_type rr = DNSR_TYPE_MX"

text \<open>The answers of the resolver, its MX records by preference.\<close>

definition mx_sorted :: "dnsr_result \<Rightarrow> bool" where
  "mx_sorted answers \<longleftrightarrow>
     sorted_wrt (\<lambda>x y. is_mx x \<and> is_mx y \<longrightarrow> rr_mx_preference x \<le> rr_mx_preference y) answers"

definition mx_below :: "nat \<Rightarrow> dnsr_rr list \<Rightarrow> bool" where
  "mx_below p rrs \<longleftrightarrow> (\<forall>rr\<in>set rrs. is_mx rr \<longrightarrow> rr_mx_preference rr < p)"

definition has_mx :: "nat \<Rightarrow> dnsr_rr list \<Rightarrow> bool" where
  "has_mx p rrs \<longleftrightarrow> (\<exists>rr\<in>set rrs. is_mx rr \<and> rr_mx_preference rr = p)"

text \<open>The walk stands at an answer, and all up to it are below our own preference.\<close>

definition walked :: "nat \<Rightarrow> dnsr_result \<Rightarrow> deliver \<Rightarrow> bool" where
  "walked p answers d \<longleftrightarrow> - 1 \<le> d_cur_dnsr_result d \<and>
     mx_below p (take (nat (d_cur_dnsr_result d + 1)) answers) \<and>
     (d_dnsr_result_ip d \<noteq> None \<longrightarrow> 0 \<le> d_cur_dnsr_result d \<and>
        nat (d_cur_dnsr_result d) < length answers \<and> is_mx (answers ! nat (d_cur_dnsr_result d)))"

text \<open>The address is one the answer at which the walk stands gives.\<close>

definition offered :: "dnsr_result \<Rightarrow> deliver \<Rightarrow> bool" where
  "offered answers d \<longleftrightarrow> 0 \<le> d_cur_dnsr_result d \<and> nat (d_cur_dnsr_result d) < length answers \<and>
     (let rr = answers ! nat (d_cur_dnsr_result d)
      in rr_type rr = DNSR_TYPE_A \<and> d_sin d = rr_a rr \<and> \<not> loopback (d_sin d) \<or>
         is_mx rr \<and> (rr_ip rr = Some (d_sin d) \<or>
           (\<exists>as a. d_dnsr_result_ip d = Some as \<and> a \<in> set as \<and> rr_a a = d_sin d \<and> \<not> loopback (d_sin d))))"

lemma mx_below_next:
  assumes "mx_sorted (prior @ rr # rrs)" "mx_below p prior" "has_mx p (prior @ rr # rrs)"
    and "\<not> (is_mx rr \<and> rr_mx_preference rr = p)"
  shows "mx_below p (prior @ [rr])"
proof -
  have "rr_mx_preference rr < p" if mx: "is_mx rr"
  proof (rule ccontr)
    assume "\<not> rr_mx_preference rr < p"
    then have gr: "p < rr_mx_preference rr" using assms(4) mx by simp
    obtain x where x: "x \<in> set (prior @ rr # rrs)" "is_mx x" "rr_mx_preference x = p"
      using assms(3) by (auto simp: has_mx_def)
    with assms(2,4) have "x \<in> set rrs" by (auto simp: mx_below_def)
    with assms(1) mx x have "rr_mx_preference rr \<le> p"
      by (auto simp: mx_sorted_def sorted_wrt_append)
    with gr show False by simp
  qed
  with assms(2) show ?thesis by (auto simp: mx_below_def)
qed

definition chosen :: "nat \<Rightarrow> dnsr_result \<Rightarrow> deliver \<Rightarrow> bool" where
  "chosen p answers d \<longleftrightarrow>
     (if d_retry_cur d \<noteq> None then d_sin d \<in> set (d_retry_list d)
      else offered answers d \<and> walked p answers d)"

lemma dns_retry_cur: "dns_retry d = Inr (rc, d') \<Longrightarrow> d_retry_cur d' \<noteq> None \<and> d_retry_cur d' = d_retry_cur d"
  by (auto simp: dns_retry_def sin_of_def split: option.splits if_splits)

lemma dns_exhausted_chosen:
  assumes "dns_exhausted d = Inr (rc, d')" "rc = 0"
  shows "chosen p answers d'"
proof -
  have r: "dns_retry (d\<lparr>d_retry_cur := Some 0\<rparr>) = Inr (rc, d')"
    using assms by (simp add: dns_exhausted_def split: if_splits)
  from dns_retry_result [OF r] dns_retry_cur [OF r] show ?thesis by (auto simp: chosen_def)
qed

lemma walkedI:
  assumes "d_cur_dnsr_result d = int (length prior)" "mx_below p (prior @ [rr])"
    and "d_dnsr_result_ip d = None \<or> is_mx rr"
  shows "walked p (prior @ rr # rrs) d"
  using assms by (auto simp: walked_def nat_add_distrib)

lemma mx_loop_chosen:
  assumes "mx_loop hq d rrs s = Inr (r, d', s')" "hq_status hq = HOST_DOWN"
    and "has_flag (hq_no_punt hq) NOPUNT_MX" "d_mx_preference_cutoff d = p"
    and "mx_sorted (prior @ rrs)" "has_mx p (prior @ rrs)" "mx_below p prior"
    and "d_cur_dnsr_result d = int (length prior)" "d_dnsr_result_ip d = None" "d_retry_cur d = None"
  shows "(r = Some 0 \<longrightarrow> chosen p (prior @ rrs) d') \<and>
    (r = None \<longrightarrow> d_dnsr_result_ip d' \<noteq> None \<longrightarrow> walked p (prior @ rrs) d' \<and> d_retry_cur d' = None)"
  using assms
proof (induction hq d rrs s arbitrary: prior rule: mx_loop.induct)
  case (2 hq d rr rrs s)
  let ?next = "d\<lparr>d_cur_dnsr_result := d_cur_dnsr_result d + 1\<rparr>"
  have types: "DNSR_TYPE_A \<noteq> DNSR_TYPE_MX" by (simp add: dnsr_types)
  have pr: "(prior @ [rr]) @ rrs = prior @ rr # rrs" by simp
  have below: "mx_below p (prior @ [rr])" if "\<not> (is_mx rr \<and> rr_mx_preference rr = p)"
    using mx_below_next "2.prems"(5,6,7) that by blast
  have at: "(prior @ rr # rrs) ! nat (d_cur_dnsr_result d) = rr" using "2.prems"(8) by simp
  consider "rr_type rr = DNSR_TYPE_A" "loopback (rr_a rr)"
    | "rr_type rr = DNSR_TYPE_A" "\<not> loopback (rr_a rr)"
    | "rr_type rr \<noteq> DNSR_TYPE_A" "rr_type rr \<noteq> DNSR_TYPE_MX"
    | "is_mx rr" "rr_mx_preference rr = p" | "is_mx rr" "rr_mx_preference rr \<noteq> p"
    by (auto simp: is_mx_def)
  then show ?case
  proof cases
    case 1
    with "2.IH"(1) [of ?next "prior @ [rr]"] "2.prems" below types show ?thesis
      by (simp add: is_mx_def sin_of_def)
  next
    case 2
    then have d': "r = Some 0" "d' = sin_of (rr_a rr) d" using "2.prems"(1,2) by auto
    have "walked p (prior @ rr # rrs) d'"
      using below 2 types "2.prems"(8,9) by (intro walkedI) (auto simp: d' sin_of_def is_mx_def)
    then show ?thesis using 2 "2.prems"(8,10) at by (simp add: d' chosen_def offered_def sin_of_def)
  next
    case 3
    with "2.IH"(2) [of ?next "prior @ [rr]"] "2.prems" below show ?thesis
      by (simp add: is_mx_def)
  next
    case 4
    with "2.prems"(1-4) types have "\<exists>rc. dns_exhausted d = Inr (rc, d') \<and> r = Some rc"
      by (auto simp: is_mx_def)
    then show ?thesis using dns_exhausted_chosen by blast
  next
    case 5
    have nb: "mx_below p (prior @ [rr])" using below 5 by blast
    have t: "rr_type rr \<noteq> DNSR_TYPE_A" "rr_type rr = DNSR_TYPE_MX" using 5 types by (auto simp: is_mx_def)
    show ?thesis
    proof (cases "rr_ip rr")
      case (Some ip)
      then have d': "r = Some 0" "d' = sin_of ip d" using "2.prems"(1-4) 5 t by auto
      have "walked p (prior @ rr # rrs) d'"
        using nb "2.prems"(8,9) by (intro walkedI) (auto simp: d' sin_of_def)
      then show ?thesis using Some 5 "2.prems"(8,10) at by (simp add: d' chosen_def offered_def sin_of_def)
    next
      case None
      obtain g s1 where g: "get_a (rr_mx_exchange rr) s = (g, s1)" by fastforce
      show ?thesis
      proof (cases "g = None \<or> g = Some []")
        case True
        then have "mx_loop hq (?next\<lparr>d_dnsr_result_ip := None\<rparr>) rrs s1 = Inr (r, d', s')"
          using "2.prems"(1-4) 5 t None g by (elim disjE) auto
        moreover have "mx_loop hq (?next\<lparr>d_dnsr_result_ip := None\<rparr>) rrs s1 = Inr (r, d', s') \<Longrightarrow> ?thesis"
          using True
        proof
          assume "mx_loop hq (?next\<lparr>d_dnsr_result_ip := None\<rparr>) rrs s1 = Inr (r, d', s')" "g = None"
          from "2.IH"(3) [OF refl t(1) _ _ None g [symmetric] this(2) this(1), of "prior @ [rr]"]
          show ?thesis using "2.prems"(2-10) 5 t nb by simp
        next
          assume "mx_loop hq (?next\<lparr>d_dnsr_result_ip := None\<rparr>) rrs s1 = Inr (r, d', s')" "g = Some []"
          from "2.IH"(4) [OF refl t(1) _ _ None g [symmetric] this(2) refl this(1), of "prior @ [rr]"]
          show ?thesis using "2.prems"(2-10) 5 t nb by simp
        qed
        ultimately show ?thesis by blast
      next
        case False
        then obtain a as where "g = Some (a # as)" by (metis list.exhaust option.exhaust)
        then have d': "r = None" "d' = d\<lparr>d_dnsr_result_ip := Some (a # as), d_cur_dnsr_result_ip := - 1\<rparr>"
          using "2.prems"(1-4) 5 t None g by auto
        have "walked p (prior @ rr # rrs) d'"
          using nb 5 "2.prems"(8) by (intro walkedI) (auto simp: d')
        then show ?thesis using "2.prems"(10) by (simp add: d')
      qed
    qed
  qed
qed auto


lemma ip_loop_found:
  "ip_loop d rrs = (True, d') \<Longrightarrow> \<exists>a\<in>set rrs. rr_a a = d_sin d' \<and> \<not> loopback (d_sin d')"
  by (induction d rrs rule: ip_loop.induct) (auto simp: Let_def sin_of_def split: if_splits)

lemma walked_same: "walked p answers d \<Longrightarrow> same_walk d d' \<Longrightarrow> walked p answers d'"
  by (simp add: walked_def same_walk_def)

lemma ip_loop_retry: "ip_loop d rrs = (found, d') \<Longrightarrow> d_retry_cur d' = d_retry_cur d"
  by (induction d rrs rule: ip_loop.induct) (auto simp: Let_def sin_of_def split: if_splits)

lemma dns_addresses_chosen:
  assumes "dns_addresses d = Inr (0, d')" "walked p answers d \<or> d_dnsr_result_ip d = None" "d_retry_cur d = None"
  shows "chosen p answers d'"
proof (cases "d_dnsr_result_ip d")
  case None
  with assms(1) show ?thesis by (auto simp: dns_addresses_def intro: dns_exhausted_chosen)
next
  case (Some as)
  let ?d1 = "d\<lparr>d_cur_dnsr_result_ip := d_cur_dnsr_result_ip d + 1\<rparr>"
  obtain found d2 where l: "ip_loop ?d1 (drop (nat (d_cur_dnsr_result_ip ?d1)) as) = (found, d2)"
    by fastforce
  show ?thesis
  proof (cases found)
    case False
    with assms(1) Some l show ?thesis by (auto simp: dns_addresses_def intro: dns_exhausted_chosen)
  next
    case True
    then have d': "d' = d2" using assms(1) Some l by (simp add: dns_addresses_def)
    have s: "same_walk d d2" using ip_loop_result [OF l] by (simp add: same_walk_def)
    have w: "walked p answers d2" using assms(2) Some walked_same s by auto
    from l True have "ip_loop ?d1 (drop (nat (d_cur_dnsr_result_ip ?d1)) as) = (True, d2)" by simp
    from ip_loop_found [OF this] obtain a where "a \<in> set as" "rr_a a = d_sin d2" "\<not> loopback (d_sin d2)"
      by (blast dest: in_set_dropD)
    moreover have "d_dnsr_result_ip d2 = Some as" using s Some by (simp add: same_walk_def)
    ultimately have "offered answers d2"
      using w by (auto simp: offered_def walked_def Let_def)
    with w show ?thesis using ip_loop_retry [OF l] assms(3) by (simp add: d' chosen_def)
  qed
qed

lemma dns_retry_next_chosen:
  assumes "dns_retry_next d i = Inr (0, d')"
  shows "chosen p answers d'"
proof -
  have "\<exists>e. dns_retry e = Inr (0, d')"
  proof (cases "d_queue_movement d = 0")
    case True
    let ?d1 = "connection_data_free d i"
    have "dns_retry ?d1 = Inr (0, d') \<or> dns_retry (?d1\<lparr>d_retry_cur := Some 0\<rparr>) = Inr (0, d')"
      using assms True by (simp add: dns_retry_next_def Let_def split: if_splits)
    then show ?thesis by blast
  next
    case False
    then have "dns_retry_next d i = dns_retry (d\<lparr>d_retry_cur := (if Suc i < length (d_retry_list d) then Some (Suc i)
        else if d_retry_list d \<noteq> [] then Some 0 else None)\<rparr>)" by (simp add: dns_retry_next_def)
    with assms show ?thesis by metis
  qed
  then obtain e where "dns_retry e = Inr (0, d')" ..
  from dns_retry_result [OF this] dns_retry_cur [OF this] show ?thesis by (auto simp: chosen_def)
qed

lemma dns_answers_chosen:
  assumes "dns_answers hq d s = Inr (0, d', s')" "d_dnsr_result d = Some answers" "hq_status hq = HOST_DOWN"
    and "has_flag (hq_no_punt hq) NOPUNT_MX" "d_mx_preference_cutoff d = p" "mx_sorted answers"
    and "has_mx p answers" "walked p answers d" "d_retry_cur d = None"
  shows "chosen p answers d'"
proof (cases "d_dnsr_result_ip d")
  case (Some as)
  with assms(1) have "dns_addresses d = Inr (0, d')" by (auto simp: dns_answers_def)
  then show ?thesis using assms(8,9) by (intro dns_addresses_chosen) auto
next
  case None
  define n where "n = nat (d_cur_dnsr_result d + 1)"
  let ?d1 = "d\<lparr>d_cur_dnsr_result := d_cur_dnsr_result d + 1\<rparr>"
  have ge: "- 1 \<le> d_cur_dnsr_result d" using assms(8) by (simp add: walked_def)
  obtain r d2 s2 where l: "mx_loop hq ?d1 (drop n answers) s = Inr (r, d2, s2)"
    and rest: "(case r of Some rc \<Rightarrow> Inr (rc, d2, s2)
      | None \<Rightarrow> and_then (dns_addresses d2) (\<lambda>(rc, d3). Inr (rc, d3, s2))) = Inr (0, d', s')"
    using assms(1,2) None by (auto simp: dns_answers_def n_def)
  show ?thesis
  proof (cases "n \<le> length answers")
    case True
    have "(r = Some 0 \<longrightarrow> chosen p (take n answers @ drop n answers) d2) \<and>
        (r = None \<longrightarrow> d_dnsr_result_ip d2 \<noteq> None \<longrightarrow>
           walked p (take n answers @ drop n answers) d2 \<and> d_retry_cur d2 = None)"
      using assms ge True None
      by (intro mx_loop_chosen [OF l]) (simp_all add: walked_def n_def)
    then have c: "r = Some 0 \<longrightarrow> chosen p answers d2"
      "r = None \<longrightarrow> d_dnsr_result_ip d2 \<noteq> None \<longrightarrow> walked p answers d2 \<and> d_retry_cur d2 = None"
      by simp_all
    show ?thesis
    proof (cases r)
      case (Some rc)
      with rest c(1) show ?thesis by auto
    next
      case r: None
      then have a: "dns_addresses d2 = Inr (0, d')" using rest by auto
      show ?thesis
      proof (cases "d_dnsr_result_ip d2")
        case None
        with a show ?thesis by (auto simp: dns_addresses_def intro: dns_exhausted_chosen)
      next
        case (Some x)
        with a c(2) r show ?thesis by (intro dns_addresses_chosen) auto
      qed
    qed
  next
    case False
    with l rest have "dns_addresses ?d1 = Inr (0, d')" by auto
    with None show ?thesis by (auto simp: dns_addresses_def intro: dns_exhausted_chosen)
  qed
qed


text \<open>\<open>mx3\<close> is a list that names this host second: only the first exchange is tried.\<close>

definition mx_rr :: "nat \<Rightarrow> string \<Rightarrow> in_addr option \<Rightarrow> dnsr_rr" where
  "mx_rr pref exchange ip = \<lparr>rr_name = ''d.org'', rr_ip = ip, rr_type = DNSR_TYPE_MX, rr_a = (0, 0, 0, 0),
     rr_cname = [], rr_mx_preference = pref, rr_mx_exchange = exchange\<rparr>"

definition mx3 :: dnsr_result where
  "mx3 = [mx_rr 5 ''a.d.org'' (Some (192, 0, 2, 1)), mx_rr 10 ''mx.example.edu'' (Some (192, 0, 2, 2)),
     mx_rr 20 ''b.d.org'' (Some (192, 0, 2, 3))]"

definition mx_deliver :: deliver where
  "mx_deliver = (zero_deliver env_ex)\<lparr>d_dnsr_result := Some mx3, d_cur_dnsr_result := - 1,
     d_mx_preference_cutoff := 10\<rparr>"

definition mx_queue :: host_q where
  "mx_queue = (zero_hq ''d.org'')\<lparr>hq_status := HOST_DOWN, hq_no_punt := set_flag 0 NOPUNT_MX\<rparr>"

definition net_state_ex :: "bool list \<Rightarrow> net_state" where
  "net_state_ex os = q_state.extend ((q_state_ex (\<lambda>_. None) [])\<lparr>w_oracle := os\<rparr>)
     \<lparr>simta_dnsr = True, w_dns = [], w_peers = [], w_children = [], w_readahead = [], simta_leaky_queue = 0,
      simta_smtp_outbound_attempts = 0, simta_smtp_outbound_delivered = 0\<rparr>"



subsection \<open>The walk ends\<close>

lemma mx_left_walk: "same_walk d d' \<Longrightarrow> mx_left d' = mx_left d"
  by (cases "d_dnsr_result d") (simp_all add: same_walk_def mx_left_def)

definition further :: "deliver \<Rightarrow> deliver \<Rightarrow> bool" where
  "further d d' \<longleftrightarrow> mx_left d' < mx_left d \<or> (mx_left d' = mx_left d \<and> d_dnsr_result_ip d \<noteq> None)"

lemma dns_answers_further:
  assumes "dns_answers hq d s = Inr (rc, d', s')"
  shows "d_dnsr_result d' = d_dnsr_result d \<and> (d_dnsr_result_ip d' \<noteq> None \<longrightarrow> further d d')"
proof (cases "d_dnsr_result_ip d")
  case (Some as)
  with assms have "same_walk d d'" by (auto simp: dns_answers_def dest: dns_addresses_result)
  then show ?thesis using Some mx_left_walk by (auto simp: further_def same_walk_def)
next
  case None
  then obtain answers where an: "d_dnsr_result d = Some answers"
    using assms by (cases "d_dnsr_result d") (auto simp: dns_answers_def)
  let ?d1 = "d\<lparr>d_cur_dnsr_result := d_cur_dnsr_result d + 1\<rparr>"
  obtain r d2 s2 where l: "mx_loop hq ?d1 (drop (nat (d_cur_dnsr_result ?d1)) answers) s = Inr (r, d2, s2)"
    and rest: "(case r of Some rc \<Rightarrow> Inr (rc, d2, s2)
      | None \<Rightarrow> and_then (dns_addresses d2) (\<lambda>(rc, d3). Inr (rc, d3, s2))) = Inr (rc, d', s')"
    using assms an None by (auto simp: dns_answers_def)
  note m = mx_loop_result [OF l]
  show ?thesis
  proof (cases r)
    case (Some rc')
    with rest m None show ?thesis by auto
  next
    case r: None
    with rest have "same_walk d2 d'" by (auto dest: dns_addresses_result)
    moreover have "mx_left d2 < mx_left d" if "d_dnsr_result_ip d2 \<noteq> None"
    proof -
      have "drop (nat (d_cur_dnsr_result ?d1)) answers \<noteq> []" using m None that by simp
      then have "nat (d_cur_dnsr_result d + 1) < length answers" by simp
      then show ?thesis using m an by (auto simp: mx_left_def)
    qed
    moreover have "d_dnsr_result d2 = d_dnsr_result d" using m by simp
    ultimately show ?thesis using mx_left_walk [of d2 d'] by (simp add: same_walk_def further_def)
  qed
qed

lemma get_outboud_dns_ip:
  assumes "get_outboud_dns c d hq s = Inr (rc, d', hq', s')"
  shows "d_dnsr_result_ip d' = d_dnsr_result_ip d \<and> (rc = 0 \<longrightarrow> d_dnsr_result d' \<noteq> None)"
proof -
  obtain mx s1 where m: "get_mx c (hq_hostname hq) s = Inr (mx, s1)"
    using assms by (auto simp: get_outboud_dns_def)
  obtain a s2 where a: "get_a (hq_hostname hq) s1 = (a, s2)" by fastforce
  obtain ok hq1 s3 where h: "host_missing hq s2 = (ok, hq1, s3)" by (metis prod.exhaust)
  from assms m a h show ?thesis
    by (cases mx; cases a) (auto simp: get_outboud_dns_def Let_def split: if_splits option.splits list.splits)
qed

lemma dns_setup_result:
  assumes "dns_setup c d hq s = Inr (rc, d', hq', s')"
  shows "(if d_dnsr_result d \<noteq> None then rc = 0 \<and> d' = d \<and> hq' = hq \<and> s' = s
     else d_dnsr_result_ip d' = d_dnsr_result_ip d \<and> (rc = 0 \<longrightarrow> d_dnsr_result d' \<noteq> None))"
proof (cases "d_dnsr_result d = None \<and> hq_status hq = HOST_PUNT_DOWN")
  case True
  then obtain punt where p: "simta_punt_host c = Some punt"
    using assms by (cases "simta_punt_host c") (auto simp: dns_setup_def)
  obtain a s2 where "get_a punt s = (a, s2)" by fastforce
  with assms p True show ?thesis by (auto simp: dns_setup_def Let_def split: option.splits list.splits)
next
  case False
  with assms show ?thesis
    by (auto simp: dns_setup_def Let_def split: if_splits dest!: get_outboud_dns_ip)
qed

lemma next_dnsr_host_further:
  assumes "next_dnsr_host c d hq s = Inr (rc, d', hq', s')"
  shows "if d_dnsr_result d \<noteq> None
    then d_dnsr_result d' = d_dnsr_result d \<and> (rc \<noteq> 0 \<longrightarrow> d_dnsr_result_ip d' \<noteq> None \<longrightarrow> further d d')
    else d_dnsr_result d' \<noteq> None \<or> (rc \<noteq> 0 \<and> d_dnsr_result_ip d' = d_dnsr_result_ip d)"
proof -
  obtain rc1 d1 hq1 s1 where su: "dns_setup c d hq s = Inr (rc1, d1, hq1, s1)"
    using assms by (auto simp: next_dnsr_host_def)
  note st = dns_setup_result [OF su]
  show ?thesis
  proof (cases "rc1 = 0")
    case False
    with assms su have "d' = d1" "rc = 1" by (auto simp: next_dnsr_host_def)
    with st False show ?thesis by (auto split: if_splits)
  next
    case True
    have "d_dnsr_result d' = d_dnsr_result d1 \<and> (d_dnsr_result_ip d' \<noteq> None \<longrightarrow> further d1 d')"
    proof (cases "d_retry_cur d1")
      case (Some i)
      with assms su True have "dns_retry_next d1 i = Inr (rc, d')" by (auto simp: next_dnsr_host_def)
      from dns_retry_next_result [OF this] mx_left_walk [of d1 d'] show ?thesis
        by (auto simp: same_walk_def further_def)
    next
      case None
      obtain d2 s2 where 2: "(if simta_aggressive_delivery c \<noteq> 0 \<and> d_queue_movement d1 \<noteq> 0
          then (let (malloc_ok, s2) = outcome s1 in (connection_data_create d1 malloc_ok, s2))
          else (d1, s1)) = (d2, s2)" by (metis prod.exhaust)
      then have "same_walk d1 d2" by (auto split: if_splits prod.splits)
      then have w: "same_walk d1 (sin_of (0, 0, 0, 0) d2)" by (rule same_walk_trans) simp
      have "\<exists>s3. dns_answers hq1 (sin_of (0, 0, 0, 0) d2) s2 = Inr (rc, d', s3)"
        using assms su True None 2 by (auto simp: next_dnsr_host_def)
      then obtain s3 where "dns_answers hq1 (sin_of (0, 0, 0, 0) d2) s2 = Inr (rc, d', s3)" ..
      from dns_answers_further [OF this] w mx_left_walk [OF w] show ?thesis
        by (auto simp: same_walk_def further_def)
    qed
    with st True show ?thesis by (auto split: if_splits)
  qed
qed

text \<open>An exchange whose addresses are used up is left behind, until none is left.\<close>

function next_dnsr_host_lookup :: "conf \<Rightarrow> deliver \<Rightarrow> host_q \<Rightarrow> 'a net_state_scheme \<Rightarrow>
  (int \<times> deliver \<times> host_q \<times> 'a net_state_scheme) run" where
  "next_dnsr_host_lookup c d hq s =
     and_then (next_dnsr_host c d hq s) (\<lambda>(rc, d1, hq1, s1).
       if rc = 0 then Inr (0, d1\<lparr>d_queue_movement := 0\<rparr>, hq1, s1)
       else if d_dnsr_result_ip d1 \<noteq> None
         then next_dnsr_host_lookup c (d1\<lparr>d_dnsr_result_ip := None\<rparr>) hq1 s1
       else Inr (1, d1\<lparr>d_dnsr_result := None\<rparr>, hq1, s1))"
  by auto
termination
proof (relation "measures [\<lambda>(c, d, hq, s). flag_of (d_dnsr_result d = None), \<lambda>(c, d, hq, s). mx_left d,
    \<lambda>(c, d, hq, s). flag_of (d_dnsr_result_ip d \<noteq> None)]", goal_cases)
  case (2 c d hq s x rc y d1 z hq1 s1)
  then have n: "next_dnsr_host c d hq s = Inr (rc, d1, hq1, s1)" by simp
  have left: "mx_left (d1\<lparr>d_dnsr_result_ip := None\<rparr>) = mx_left d1"
    by (cases "d_dnsr_result d1") (simp_all add: mx_left_def)
  show ?case
  proof (cases "d_dnsr_result d = None \<and> d_dnsr_result d1 = None")
    case True
    then have "mx_left d1 = mx_left d" by (simp add: mx_left_def)
    with next_dnsr_host_further [OF n] 2 left True show ?thesis by (auto simp: flag_of_def)
  next
    case False
    with next_dnsr_host_further [OF n] 2 left show ?thesis
      by (auto simp: flag_of_def further_def split: if_splits)
  qed
qed simp

declare next_dnsr_host_lookup.simps [simp del]

end
