(* ===== verification/SmtpClient.thy ===== *)
theory SmtpClient
  imports Net
begin

section \<open>Talking to another mail server: smtp.c\<close>

text \<open>
  The client's side of SMTP over one connection: reading replies and keeping their text for
  a bounce, greeting with and without TLS, sending a message, RSET and QUIT.  The peer is
  what it will send; \<open>conn\_out\<close> grows with what is written.  Time-outs show as the end of
  what the peer sends.  No logger is set; the build has TLS.  A \<open>char *\<close> into a line that
  is read behind the terminating NUL is a crash.
\<close>

datatype smtp_command = SMTP_CONNECT | SMTP_HELO | SMTP_EHLO | SMTP_MAIL | SMTP_RCPT | SMTP_DATA
  | SMTP_DATA_EOF | SMTP_RSET | SMTP_QUIT | SMTP_STARTTLS

definition SMTP_OK :: int where "SMTP_OK = 0"
definition SMTP_ERROR :: int where "SMTP_ERROR = 1"
definition SMTP_BAD_CONNECTION :: int where "SMTP_BAD_CONNECTION = 2"

lemmas smtp_codes = SMTP_OK_def SMTP_ERROR_def SMTP_BAD_CONNECTION_def

definition CRLF :: string where "CRLF = [CR, NL]"

subsection \<open>Lines in and out\<close>

definition smtp_getline :: "deliver \<Rightarrow> (string option \<times> deliver) run" where
  "smtp_getline d =
     (case d_snet_smtp d of
        None \<Rightarrow> Inl NullDeref
      | Some cn \<Rightarrow> (case snet_getline (conn_in cn) of
          (r, sn) \<Rightarrow> Inr (r, d\<lparr>d_snet_smtp := Some (cn\<lparr>conn_in := sn\<rparr>)\<rparr>)))"

definition snet_writef :: "string \<Rightarrow> deliver \<Rightarrow> 'a sys_scheme \<Rightarrow> (bool \<times> deliver \<times> 'a sys_scheme) run" where
  "snet_writef text d s =
     (case d_snet_smtp d of
        None \<Rightarrow> Inl NullDeref
      | Some cn \<Rightarrow>
          (let (ok, s1) = outcome s
           in if ok then Inr (True, d\<lparr>d_snet_smtp := Some (cn\<lparr>conn_out := conn_out cn @ text\<rparr>)\<rparr>, s1)
              else Inr (False, d, s1)))"

text \<open>\<open>*(line + i)\<close>.\<close>

definition line_at :: "string \<Rightarrow> nat \<Rightarrow> char run" where
  "line_at line i = (if i < length line then Inr (line ! i) else if i = length line then Inr NUL else Inl OutOfBounds)"

text \<open>\<open>line_append( lf, line, COPY )\<close>: memory for the line, then for its text.\<close>

definition append_copy :: "line_file \<Rightarrow> string \<Rightarrow> 'a sys_scheme \<Rightarrow> bool \<times> line_file \<times> 'a sys_scheme" where
  "append_copy lf line s =
     (let (malloc_ok, s1) = outcome s;
          (strdup_ok, s2) = (if malloc_ok then outcome s1 else (False, s1));
          (ok, lf') = line_append lf (Some line) True malloc_ok strdup_ok
      in (ok, lf', s2))"

subsection \<open>The rest of a reply\<close>

text \<open>Three digits, then the end, a space or a dash.\<close>

definition banner_syntax :: "string \<Rightarrow> bool" where
  "banner_syntax line \<longleftrightarrow> 3 \<le> length line \<and> isdigit (line ! 0) \<and> isdigit (line ! 1) \<and> isdigit (line ! 2) \<and>
     (length line = 3 \<or> line ! 3 = CHR '' '' \<or> line ! 3 = CHR ''-'')"

definition continues :: "string \<Rightarrow> bool" where
  "continues line \<longleftrightarrow> 3 < length line \<and> line ! 3 = CHR ''-''"

text \<open>\<open>snet_getline_multi\<close>: lines until one that does not continue; None for its NULL.\<close>

function getline_multi :: "snet \<Rightarrow> string option \<times> snet" where
  "getline_multi sn =
     (case snet_getline sn of
        (None, sn1) \<Rightarrow> (None, sn1)
      | (Some line, sn1) \<Rightarrow>
          (if \<not> banner_syntax line then (None, sn1)
           else if continues line then getline_multi sn1
           else (Some line, sn1)))"
  by auto
termination
  by (relation "measure (\<lambda>sn. length (sn_rest sn))") (auto dest: snet_getline_shorter [OF sym])

declare getline_multi.simps [simp del]

text \<open>The jump to \<open>consume\<close>: the lines that still belong to the reply are dropped.\<close>

definition banner_consume :: "int \<Rightarrow> string \<Rightarrow> deliver \<Rightarrow> (int \<times> deliver) run" where
  "banner_consume rc line d =
     and_then (line_at line 3) (\<lambda>c.
       if c \<noteq> CHR ''-'' then Inr (rc, d)
       else (case d_snet_smtp d of
           None \<Rightarrow> Inl NullDeref
         | Some cn \<Rightarrow> (case getline_multi (conn_in cn) of
             (r, sn) \<Rightarrow> Inr (if r = None then SMTP_BAD_CONNECTION else rc,
               d\<lparr>d_snet_smtp := Some (cn\<lparr>conn_in := sn\<rparr>)\<rparr>))))"

definition S_STARTTLS :: string where "S_STARTTLS = ''STARTTLS''"

text \<open>A line of the EHLO reply that offers STARTTLS; its text starts behind the fourth character.\<close>

definition banner_tls :: "string \<Rightarrow> deliver \<Rightarrow> deliver run" where
  "banner_tls line d =
     (if d_tls_banner_check d = 0 \<or> d_tls_supported d \<noteq> 0 then Inr d
      else if length line < 4 then Inl OutOfBounds
      else (let c = drop 4 line
            in if lower (take 8 c) = lower S_STARTTLS \<and> list_all isspace (drop 8 c)
               then Inr (d\<lparr>d_tls_supported := 1\<rparr>) else Inr d))"

text \<open>The loop; \<open>err\<close> is None when no text is kept.\<close>

function banner_loop :: "line_file option \<Rightarrow> string \<Rightarrow> deliver \<Rightarrow> 'a sys_scheme \<Rightarrow>
  (int \<times> line_file option \<times> deliver \<times> 'a sys_scheme) run" where
  "banner_loop err line d s =
     and_then (line_at line 3) (\<lambda>c.
       if c \<noteq> CHR ''-'' then Inr (SMTP_OK, err, d, s)
       else (case d_snet_smtp d of
           None \<Rightarrow> Inl NullDeref
         | Some cn \<Rightarrow> (case snet_getline (conn_in cn) of
             (None, sn) \<Rightarrow> Inr (SMTP_BAD_CONNECTION, err, d\<lparr>d_snet_smtp := Some (cn\<lparr>conn_in := sn\<rparr>)\<rparr>, s)
           | (Some l, sn) \<Rightarrow>
               (let d1 = d\<lparr>d_snet_smtp := Some (cn\<lparr>conn_in := sn\<rparr>)\<rparr>
                in if \<not> banner_syntax l then Inr (SMTP_BAD_CONNECTION, err, d1, s)
                   else and_then (banner_tls l d1) (\<lambda>d2.
                      case err of
                           None \<Rightarrow> banner_loop None l d2 s
                         | Some lf \<Rightarrow>
                             (case append_copy lf l s of
                                (ok, lf', s1) \<Rightarrow>
                                  if ok then banner_loop (Some lf') l d2 s1
                                  else and_then (banner_consume SMTP_ERROR l d2)
                                    (\<lambda>(rc, d3). Inr (rc, Some lf', d3, s1))))))))"
  by auto
termination
proof (relation "measure (\<lambda>(err, line, d, s). case d_snet_smtp d of None \<Rightarrow> 0 | Some cn \<Rightarrow> length (sn_rest (conn_in cn)))",
    goal_cases)
  case 1
  show ?case by simp
next
  case (2 err line d s c cn x y l sn)
  then show ?case using snet_getline_shorter [of "conn_in cn" l]
    by (auto simp: banner_tls_def Let_def split: sum.splits if_splits)
next
  case (3 err line d s c cn x y l sn)
  then show ?case using snet_getline_shorter [of "conn_in cn" l]
    by (auto simp: banner_tls_def Let_def split: sum.splits if_splits)
qed

declare banner_loop.simps [simp del]


text \<open>
  The text that is kept starts with a blank line (when there is some already), what went
  wrong and the first line of the reply.  \<open>err_text\<close> is None for NULL, else the line file
  it points to; the flag of \<open>banner_head\<close> is False for the jump to \<open>consume\<close>.
\<close>

definition banner_head :: "line_file option \<Rightarrow> string \<Rightarrow> string \<Rightarrow> 'a sys_scheme \<Rightarrow>
  bool \<times> line_file option \<times> 'a sys_scheme" where
  "banner_head old line error s =
     (let (ok1, lf1, s1) = (case old of
            None \<Rightarrow> (let (ok, s1) = outcome s in (ok, if ok then Some [] else None, s1))
          | Some lf \<Rightarrow> (case append_copy lf [] s of (ok, lf', s1) \<Rightarrow> (ok, Some lf', s1)))
      in case lf1 of
           None \<Rightarrow> (False, None, s1)
         | Some lf \<Rightarrow>
             (if \<not> ok1 then (False, Some lf, s1)
              else (let (ok2, lf2, s2) = append_copy lf error s1
                    in if \<not> ok2 then (False, Some lf2, s2)
                       else (let (ok3, lf3, s3) = append_copy lf2 line s2 in (ok3, Some lf3, s3)))))"

definition smtp_consume_banner :: "line_file option option \<Rightarrow> deliver \<Rightarrow> string \<Rightarrow> string \<Rightarrow>
  'a sys_scheme \<Rightarrow> (int \<times> line_file option \<times> deliver \<times> 'a sys_scheme) run" where
  "smtp_consume_banner err_text d line error s =
     (case err_text of
        Some old \<Rightarrow>
          (case banner_head old line error s of
             (ok, lf, s1) \<Rightarrow>
               if ok then banner_loop lf line d s1
               else and_then (banner_consume SMTP_ERROR line d) (\<lambda>(rc, d1). Inr (rc, lf, d1, s1)))
      | None \<Rightarrow>
          (if d_tls_banner_check d \<noteq> 0 then banner_loop None line d s
           else and_then (banner_consume SMTP_OK line d) (\<lambda>(rc, d1). Inr (rc, None, d1, s))))"

subsection \<open>A reply: smtp\_reply\<close>

text \<open>Where the text of a reply is kept: nowhere, with the queue, the envelope, the recipient.\<close>

definition drop_text :: "string \<Rightarrow> host_q \<Rightarrow> deliver \<Rightarrow> 'a sys_scheme \<Rightarrow> (int \<times> host_q \<times> deliver \<times> 'a sys_scheme) run" where
  "drop_text line hq d s =
     and_then (smtp_consume_banner None d line [] s) (\<lambda>(rc, lf, d1, s1). Inr (rc, hq, d1, s1))"

definition keep_with_queue :: "string \<Rightarrow> string \<Rightarrow> host_q \<Rightarrow> deliver \<Rightarrow> 'a sys_scheme \<Rightarrow>
  (int \<times> host_q \<times> deliver \<times> 'a sys_scheme) run" where
  "keep_with_queue error line hq d s =
     and_then (smtp_consume_banner (Some (hq_err_text hq)) d line error s)
       (\<lambda>(rc, lf, d1, s1). Inr (if rc = SMTP_OK then SMTP_ERROR else rc, hq\<lparr>hq_err_text := lf\<rparr>, d1, s1))"

definition upd_env :: "(envelope \<Rightarrow> envelope) \<Rightarrow> deliver \<Rightarrow> deliver" where
  "upd_env f d = d\<lparr>d_env := f (d_env d)\<rparr>"

definition keep_with_env :: "32 word \<Rightarrow> string \<Rightarrow> string \<Rightarrow> host_q \<Rightarrow> deliver \<Rightarrow> 'a sys_scheme \<Rightarrow>
  (int \<times> host_q \<times> deliver \<times> 'a sys_scheme) run" where
  "keep_with_env flag error line hq d s =
     (let d1 = upd_env (\<lambda>e. e\<lparr>e_flags := set_flag (e_flags e) flag\<rparr>) d
      in and_then (smtp_consume_banner (Some (e_err_text (d_env d1))) d1 line error s)
           (\<lambda>(rc, lf, d2, s1). Inr (rc, hq, upd_env (\<lambda>e. e\<lparr>e_err_text := lf\<rparr>) d2, s1)))"

definition cur_rcpt :: "deliver \<Rightarrow> recipient option" where
  "cur_rcpt d = (case d_rcpt d of
       None \<Rightarrow> None
     | Some i \<Rightarrow> if i < length (e_rcpt (d_env d)) then Some (e_rcpt (d_env d) ! i) else None)"

definition upd_rcpt :: "(recipient \<Rightarrow> recipient) \<Rightarrow> deliver \<Rightarrow> deliver" where
  "upd_rcpt f d = (case d_rcpt d of
       None \<Rightarrow> d
     | Some i \<Rightarrow> upd_env (\<lambda>e. e\<lparr>e_rcpt := (e_rcpt e)[i := f (e_rcpt e ! i)]\<rparr>) d)"

text \<open>A recipient is given its status and counted.\<close>

definition set_status :: "int \<Rightarrow> deliver \<Rightarrow> deliver" where
  "set_status st d =
     (let d1 = upd_rcpt (\<lambda>r. r\<lparr>r_status := st\<rparr>) d
      in if st = R_ACCEPTED then d1\<lparr>d_n_rcpt_accepted := d_n_rcpt_accepted d + 1\<rparr>
         else if st = R_FAILED then d1\<lparr>d_n_rcpt_failed := d_n_rcpt_failed d + 1\<rparr>
         else d1\<lparr>d_n_rcpt_tempfailed := d_n_rcpt_tempfailed d + 1\<rparr>)"

definition keep_with_rcpt :: "int \<Rightarrow> string \<Rightarrow> string \<Rightarrow> host_q \<Rightarrow> deliver \<Rightarrow> 'a sys_scheme \<Rightarrow>
  (int \<times> host_q \<times> deliver \<times> 'a sys_scheme) run" where
  "keep_with_rcpt st error line hq d s =
     (case cur_rcpt d of
        None \<Rightarrow> Inl NullDeref
      | Some r \<Rightarrow>
          and_then (smtp_consume_banner (Some (r_err_text r)) (set_status st d) line error s)
            (\<lambda>(rc, lf, d1, s1). Inr (rc, hq, upd_rcpt (\<lambda>r. r\<lparr>r_err_text := lf\<rparr>) d1, s1)))"

text \<open>
  The name of the server, from the fifth character of its greeting: an address literal up to
  its bracket (None when that is missing), or one character and all up to the next space.
\<close>

definition banner_hostname :: "string \<Rightarrow> string option run" where
  "banner_hostname line =
     (if length line < 4 then Inl OutOfBounds
      else (case drop 4 line of
          [] \<Rightarrow> Inl OutOfBounds
        | ch # cs \<Rightarrow>
            (if ch = CHR ''['' then
               (if CHR '']'' \<in> set cs then Inr (Some (ch # takeWhile (\<lambda>x. x \<noteq> CHR '']'') cs @ '']''))
                else Inr None)
             else Inr (Some (ch # takeWhile (\<lambda>x. \<not> isspace x) cs)))))"

definition reply_greeting :: "conf \<Rightarrow> string \<Rightarrow> host_q \<Rightarrow> deliver \<Rightarrow> 'a sys_scheme \<Rightarrow>
  (int \<times> host_q \<times> deliver \<times> 'a sys_scheme) run" where
  "reply_greeting c line hq d s =
     and_then (banner_hostname line) (\<lambda>name. case name of
        None \<Rightarrow> keep_with_queue ''Illegal hostname in banner'' line hq d s
      | Some h \<Rightarrow>
          (let (strdup_ok, s1) = outcome s
           in if \<not> strdup_ok then Inr (SMTP_ERROR, hq\<lparr>hq_smtp_hostname := None\<rparr>, d, s1)
              else
                (let hq1 = hq\<lparr>hq_smtp_hostname := Some h\<rparr>
                 in if strcmp h (simta_hostname c) = 0
                    then keep_with_queue ''Mail loop detected'' line hq1 d s1
                    else drop_text line hq1 d s1)))"

definition reply_2xx :: "conf \<Rightarrow> smtp_command \<Rightarrow> string \<Rightarrow> host_q \<Rightarrow> deliver \<Rightarrow> 'a sys_scheme \<Rightarrow>
  (int \<times> host_q \<times> deliver \<times> 'a sys_scheme) run" where
  "reply_2xx c cmd line hq d s =
     (case cmd of
        SMTP_CONNECT \<Rightarrow> reply_greeting c line hq d s
      | SMTP_RCPT \<Rightarrow> if cur_rcpt d = None then Inl NullDeref else drop_text line hq (set_status R_ACCEPTED d) s
      | SMTP_DATA \<Rightarrow> keep_with_env ENV_FLAG_TEMPFAIL ''Bad SMTP DATA reply'' line hq d s
      | SMTP_DATA_EOF \<Rightarrow> drop_text line hq (d\<lparr>d_delivered := 1\<rparr>) s
      | _ \<Rightarrow> drop_text line hq d s)"

text \<open>What a command is called in the text that is kept.\<close>

definition reply_error :: "smtp_command \<Rightarrow> string" where
  "reply_error cmd = ''Bad SMTP '' @
     (case cmd of SMTP_CONNECT \<Rightarrow> ''CONNECT'' | SMTP_HELO \<Rightarrow> ''HELO'' | SMTP_EHLO \<Rightarrow> ''EHLO''
        | SMTP_MAIL \<Rightarrow> ''MAIL FROM'' | SMTP_RCPT \<Rightarrow> ''RCPT TO'' | SMTP_DATA \<Rightarrow> ''DATA''
        | SMTP_DATA_EOF \<Rightarrow> ''DATA_EOF'' | SMTP_RSET \<Rightarrow> ''RSET'' | SMTP_QUIT \<Rightarrow> ''QUIT''
        | SMTP_STARTTLS \<Rightarrow> ''STARTTLS'') @ '' reply''"

definition reply_4xx :: "smtp_command \<Rightarrow> string \<Rightarrow> host_q \<Rightarrow> deliver \<Rightarrow> 'a sys_scheme \<Rightarrow>
  (int \<times> host_q \<times> deliver \<times> 'a sys_scheme) run" where
  "reply_4xx cmd line hq d s =
     (if cmd \<in> {SMTP_MAIL, SMTP_DATA, SMTP_DATA_EOF}
      then keep_with_env ENV_FLAG_TEMPFAIL (reply_error cmd) line hq d s
      else if cmd = SMTP_RCPT then keep_with_rcpt R_TEMPFAIL (reply_error cmd) line hq d s
      else if cmd = SMTP_QUIT then drop_text line hq d s
      else keep_with_queue (reply_error cmd) line hq d s)"

definition reply_5xx :: "smtp_command \<Rightarrow> string \<Rightarrow> host_q \<Rightarrow> deliver \<Rightarrow> 'a sys_scheme \<Rightarrow>
  (int \<times> host_q \<times> deliver \<times> 'a sys_scheme) run" where
  "reply_5xx cmd line hq d s =
     (if cmd \<in> {SMTP_MAIL, SMTP_DATA, SMTP_DATA_EOF}
      then keep_with_env ENV_FLAG_BOUNCE (reply_error cmd) line hq d s
      else if cmd = SMTP_RCPT then keep_with_rcpt R_FAILED (reply_error cmd) line hq d s
      else if cmd = SMTP_QUIT then drop_text line hq d s
      else if cmd = SMTP_CONNECT \<and> hq_status hq = HOST_DOWN
      then keep_with_queue (reply_error cmd) line (hq\<lparr>hq_status := HOST_BOUNCE\<rparr>) d s
      else keep_with_queue (reply_error cmd) line hq d s)"

text \<open>An empty line has the NUL as its first character, which is none of the digits.\<close>

definition smtp_reply :: "conf \<Rightarrow> smtp_command \<Rightarrow> host_q \<Rightarrow> deliver \<Rightarrow> 'a sys_scheme \<Rightarrow>
  (int \<times> host_q \<times> deliver \<times> 'a sys_scheme) run" where
  "smtp_reply c cmd hq d s =
     and_then (smtp_getline d) (\<lambda>(r, d1). case r of
        None \<Rightarrow> Inr (SMTP_BAD_CONNECTION, hq, d1, s)
      | Some line \<Rightarrow>
          and_then (line_at line 0) (\<lambda>ch.
            if ch = CHR ''2'' then reply_2xx c cmd line hq d1 s
            else if ch = CHR ''3'' \<and> cmd = SMTP_DATA then drop_text line hq d1 s
            else if ch = CHR ''5'' then reply_5xx cmd line hq d1 s
            else reply_4xx cmd line hq d1 s))"


subsection \<open>Connecting: smtp\_connect\<close>

text \<open>A command, its reply: a failed write is a bad connection.\<close>

definition smtp_say :: "conf \<Rightarrow> smtp_command \<Rightarrow> string \<Rightarrow> host_q \<Rightarrow> deliver \<Rightarrow> 'a sys_scheme \<Rightarrow>
  (int \<times> host_q \<times> deliver \<times> 'a sys_scheme) run" where
  "smtp_say c cmd text hq d s =
     and_then (snet_writef (text @ CRLF) d s) (\<lambda>(ok, d1, s1).
       if ok then smtp_reply c cmd hq d1 s1 else Inr (SMTP_BAD_CONNECTION, hq, d1, s1))"

text \<open>
  STARTTLS and the second EHLO.  Setting up TLS and the handshake may fail; a peer without a
  certificate ends the process; a certificate that does not verify is an error.
\<close>

definition smtp_tls :: "conf \<Rightarrow> host_q \<Rightarrow> deliver \<Rightarrow> 'a sys_scheme \<Rightarrow>
  (int \<times> host_q \<times> deliver \<times> 'a sys_scheme) run" where
  "smtp_tls c hq d s =
     and_then (smtp_say c SMTP_STARTTLS S_STARTTLS hq d s) (\<lambda>(rc, hq1, d1, s1).
       if rc \<noteq> SMTP_OK then Inr (rc, hq1, d1, s1)
       else
         (let (setup_ok, s2) = outcome s1
          in if \<not> setup_ok then Inr (SMTP_BAD_CONNECTION, hq1, d1, s2)
             else
               (let (starttls_ok, s3) = outcome s2
                in if \<not> starttls_ok then Inr (SMTP_BAD_CONNECTION, hq1, d1, s3)
                   else
                     (let (has_cert, s4) = outcome s3
                      in if \<not> has_cert then Inl Aborted
                         else
                           (let (verified, s5) = outcome s4
                            in if \<not> verified then Inr (SMTP_ERROR, hq1, d1, s5)
                               else smtp_say c SMTP_EHLO (''EHLO '' @ simta_hostname c) hq1 d1 s5)))))"

definition smtp_connect :: "conf \<Rightarrow> host_q \<Rightarrow> deliver \<Rightarrow> 'a sys_scheme \<Rightarrow>
  (int \<times> host_q \<times> deliver \<times> 'a sys_scheme) run" where
  "smtp_connect c hq d s =
     and_then (smtp_reply c SMTP_CONNECT hq d s) (\<lambda>(rc, hq1, d1, s1).
       if rc \<noteq> SMTP_OK then Inr (rc, hq1, d1, s1)
       else
         and_then (snet_writef (''EHLO '' @ simta_hostname c @ CRLF) d1 s1) (\<lambda>(ok, d2, s2).
           if \<not> ok then Inr (SMTP_BAD_CONNECTION, hq1, d2, s2)
           else
             and_then (smtp_reply c SMTP_EHLO hq1 (d2\<lparr>d_tls_supported := 0, d_tls_banner_check := 1\<rparr>) s2)
               (\<lambda>(r, hq3, d3, s3).
                  let d4 = d3\<lparr>d_tls_banner_check := 0\<rparr>
                  in if r = SMTP_BAD_CONNECTION then Inr (r, hq3, d4, s3)
                     else if r = SMTP_OK then
                       (if d_tls_supported d4 = 0 then Inr (SMTP_OK, hq3, d4, s3) else smtp_tls c hq3 d4 s3)
                     else if r = SMTP_ERROR then smtp_say c SMTP_HELO (''HELO '' @ simta_hostname c) hq3 d4 s3
                     else Inl Panicked)))"

subsection \<open>Sending a message: smtp\_send\<close>

text \<open>\<open>snprintf\<close> into 512 bytes; a NULL name is printed as \<open>(null)\<close>.\<close>

definition make_seen_before_line :: "conf \<Rightarrow> host_q \<Rightarrow> deliver \<Rightarrow> string" where
  "make_seen_before_line c hq d =
     take 511 (''X-Simta-Seen-Before: '' @ simta_seen_before_domain c @ '' id '' @ e_id (d_env d) @
       '' origin '' @ simta_hostname c @ '' destination '' @ hq_hostname hq @ '' ('' @
       (case hq_smtp_hostname hq of Some h \<Rightarrow> h | None \<Rightarrow> ''(null)'') @ '')'')"

text \<open>
  The steps of \<open>smtp\_send\<close> return the result the function ends with, or None to go on.
\<close>

type_synonym 's sending = "(int option \<times> host_q \<times> deliver \<times> 's) run"

definition and_send :: "'s sending \<Rightarrow> (host_q \<Rightarrow> deliver \<Rightarrow> 's \<Rightarrow> 's sending) \<Rightarrow> 's sending" where
  "and_send m f =
     and_then m (\<lambda>(r, hq, d, s). case r of None \<Rightarrow> f hq d s | Some rc \<Rightarrow> Inr (Some rc, hq, d, s))"

definition say_next :: "conf \<Rightarrow> smtp_command \<Rightarrow> string \<Rightarrow> host_q \<Rightarrow> deliver \<Rightarrow> 'a sys_scheme \<Rightarrow> 'a sys_scheme sending" where
  "say_next c cmd text hq d s =
     and_then (smtp_say c cmd text hq d s)
       (\<lambda>(rc, hq1, d1, s1). Inr (if rc = SMTP_OK then None else Some rc, hq1, d1, s1))"

text \<open>Whether the message as a whole was refused.\<close>

definition env_refused :: "deliver \<Rightarrow> bool" where
  "env_refused d \<longleftrightarrow> has_flag (e_flags (d_env d)) ENV_FLAG_BOUNCE \<or> has_flag (e_flags (d_env d)) ENV_FLAG_TEMPFAIL"

definition send_from :: "conf \<Rightarrow> host_q \<Rightarrow> deliver \<Rightarrow> 'a sys_scheme \<Rightarrow> 'a sys_scheme sending" where
  "send_from c hq d s =
     (case e_mail (d_env d) of
        None \<Rightarrow> Inl NullDeref
      | Some m \<Rightarrow>
          and_send (say_next c SMTP_MAIL (''MAIL FROM:<'' @ m @ ''>'') hq d s)
            (\<lambda>hq d s. Inr (if env_refused d then Some SMTP_OK else None, hq, d, s)))"

definition rcpt_text :: "string \<Rightarrow> string" where
  "rcpt_text addr = ''RCPT TO:<'' @ (if addr = [] then ''postmaster'' else addr) @ ''>''"

text \<open>The recipients from the \<open>i\<close>-th on; a punt host must take every one.\<close>

fun send_rcpts :: "conf \<Rightarrow> nat \<Rightarrow> nat \<Rightarrow> host_q \<Rightarrow> deliver \<Rightarrow> 'a sys_scheme \<Rightarrow> 'a sys_scheme sending" where
  "send_rcpts c i 0 hq d s = Inr (None, hq, d\<lparr>d_rcpt := None\<rparr>, s)"
| "send_rcpts c i (Suc n) hq d s =
     (let d1 = d\<lparr>d_rcpt := Some i\<rparr>
      in case cur_rcpt d1 of
           None \<Rightarrow> Inl NullDeref
         | Some r \<Rightarrow>
             and_send (say_next c SMTP_RCPT (rcpt_text (r_rcpt r)) hq d1 s) (\<lambda>hq2 d2 s2.
               if hq_status hq2 = HOST_PUNT_DOWN \<and> map_option r_status (cur_rcpt d2) \<noteq> Some R_ACCEPTED
               then Inr (Some SMTP_OK, hq2, d2, s2)
               else send_rcpts c (Suc i) n hq2 d2 s2))"

definition send_data_command :: "conf \<Rightarrow> host_q \<Rightarrow> deliver \<Rightarrow> 'a sys_scheme \<Rightarrow> 'a sys_scheme sending" where
  "send_data_command c hq d s =
     (if d_n_rcpt_accepted d = 0 then Inr (Some SMTP_OK, hq, d\<lparr>d_delivered := 1\<rparr>, s)
      else and_send (say_next c SMTP_DATA ''DATA'' hq d s)
             (\<lambda>hq d s. Inr (if env_refused d then Some SMTP_OK else None, hq, d, s)))"

definition ENV_ATTR_ARCHIVE_ONLY :: int where "ENV_ATTR_ARCHIVE_ONLY = 1"

definition send_seen_before :: "conf \<Rightarrow> host_q \<Rightarrow> deliver \<Rightarrow> 'a sys_scheme \<Rightarrow> 'a sys_scheme sending" where
  "send_seen_before c hq d s =
     (if e_attributes (d_env d) mod 2 \<noteq> ENV_ATTR_ARCHIVE_ONLY then Inr (None, hq, d, s)
      else
        (let (strdup_ok, s1) = outcome s
         in if \<not> strdup_ok then Inr (Some SMTP_BAD_CONNECTION, hq, d, s1)
            else and_then (snet_writef (make_seen_before_line c hq d @ CRLF) d s1)
                   (\<lambda>(ok, d1, s2). Inr (if ok then None else Some SMTP_BAD_CONNECTION, hq, d1, s2))))"

text \<open>
  The session timer: None when time could not be read (an error), Some False when the
  session has taken too long, with the end of the session as set by the first reading.
\<close>

definition data_timer :: "conf \<Rightarrow> int \<Rightarrow> 'a sys_scheme \<Rightarrow> bool option \<times> int \<times> 'a sys_scheme" where
  "data_timer c tv_session s =
     (if 0 < simta_outbound_data_session_timer c then
        (case simta_gettimeofday s of
           (None, s1) \<Rightarrow> (None, tv_session, s1)
         | (Some now, s1) \<Rightarrow>
             (let tv = (if tv_session = 0 then fst now + simta_outbound_data_session_timer c else tv_session)
              in (Some (fst now < tv), tv, s1)))
      else (Some True, tv_session, s))"

definition dot_stuff :: "string \<Rightarrow> string" where
  "dot_stuff line = (if line \<noteq> [] \<and> hd line = CHR ''.'' then CHR ''.'' # line else line)"

function send_lines :: "conf \<Rightarrow> int \<Rightarrow> host_q \<Rightarrow> deliver \<Rightarrow> 'a sys_scheme \<Rightarrow> 'a sys_scheme sending" where
  "send_lines c tv hq d s =
     (case data_timer c tv s of
        (None, tv1, s1) \<Rightarrow> Inr (Some SMTP_ERROR, hq, d, s1)
      | (Some False, tv1, s1) \<Rightarrow> Inr (Some SMTP_BAD_CONNECTION, hq, d, s1)
      | (Some True, tv1, s1) \<Rightarrow>
          (case d_snet_dfile d of
             None \<Rightarrow> Inl NullDeref
           | Some sn \<Rightarrow>
               (case snet_getline sn of
                  (None, sn1) \<Rightarrow> Inr (None, hq, d\<lparr>d_snet_dfile := Some sn1\<rparr>, s1)
                | (Some line, sn1) \<Rightarrow>
                    and_then (snet_writef (dot_stuff line @ CRLF) (d\<lparr>d_snet_dfile := Some sn1\<rparr>) s1)
                      (\<lambda>(ok, d2, s2).
                         if ok then send_lines c tv1 hq (d2\<lparr>d_sent := d_sent d2 + int (length line) + 1\<rparr>) s2
                         else Inr (Some SMTP_BAD_CONNECTION, hq, d2, s2)))))"
  by auto
termination
proof (relation "measure (\<lambda>(c, tv, hq, d, s). case d_snet_dfile d of None \<Rightarrow> 0 | Some sn \<Rightarrow> length (sn_rest sn))",
    goal_cases)
  case (2 c tv hq d s)
  then show ?case
    by (auto simp: snet_writef_def Let_def dest!: snet_getline_shorter [OF sym]
        split: option.splits prod.splits if_splits)
qed simp

declare send_lines.simps [simp del]

definition smtp_send :: "conf \<Rightarrow> host_q \<Rightarrow> deliver \<Rightarrow> 'a sys_scheme \<Rightarrow>
  (int \<times> host_q \<times> deliver \<times> 'a sys_scheme) run" where
  "smtp_send c hq d s =
     and_then
       (and_send (send_from c hq d s) (\<lambda>hq d s.
          if e_rcpt (d_env d) = [] then Inl AssertFail
          else and_send (send_rcpts c 0 (length (e_rcpt (d_env d))) hq d s) (\<lambda>hq d s.
            and_send (send_data_command c hq d s) (\<lambda>hq d s.
            and_send (send_seen_before c hq d s) (\<lambda>hq d s.
            and_send (send_lines c 0 hq d s) (\<lambda>hq d s.
              say_next c SMTP_DATA_EOF ''.'' hq d s))))))
       (\<lambda>(r, hq, d, s). Inr (case r of None \<Rightarrow> SMTP_OK | Some rc \<Rightarrow> rc, hq, d, s))"

subsection \<open>RSET and QUIT\<close>

definition smtp_rset :: "conf \<Rightarrow> host_q \<Rightarrow> deliver \<Rightarrow> 'a sys_scheme \<Rightarrow>
  (int \<times> host_q \<times> deliver \<times> 'a sys_scheme) run" where
  "smtp_rset c hq d s = smtp_say c SMTP_RSET ''RSET'' hq d s"

definition smtp_quit :: "conf \<Rightarrow> host_q \<Rightarrow> deliver \<Rightarrow> 'a sys_scheme \<Rightarrow>
  (host_q \<times> deliver \<times> 'a sys_scheme) run" where
  "smtp_quit c hq d s =
     and_then (smtp_say c SMTP_QUIT ''QUIT'' hq d s) (\<lambda>(rc, hq1, d1, s1). Inr (hq1, d1, s1))"

end
