(* ===== verification/SmtpFacts.thy ===== *)
theory SmtpFacts
  imports SmtpClient
begin

section \<open>What a conversation changes, and what it never does\<close>

text \<open>
  \<open>core\<close> forgets the fields of a delivery that talking to a server may change; that it stays
  the same says all the others are kept.  The counts of recipients agree with their
  statuses, and the lines of a message reach the other side as they are.
\<close>

subsection \<open>Calls that only fail or take time\<close>

definition quiet :: "'a sys_scheme \<Rightarrow> 'a sys_scheme \<Rightarrow> bool" where
  "quiet s s' \<longleftrightarrow> same_files s s' \<and> sys.more s' = sys.more s"

named_theorems quiets \<open>which operations touch no file and no extension of the state\<close>

lemma quiet_refl [simp]: "quiet s s"
  by (simp add: quiet_def)

lemma quiet_trans: "quiet s t \<Longrightarrow> quiet t u \<Longrightarrow> quiet s u"
  by (auto simp: quiet_def intro: same_files_trans)

lemma outcome_quiet [quiets]: "outcome s = (b, s') \<Longrightarrow> quiet s s'"
  by (simp add: quiet_def outcome_frame outcome_more)

lemma gettimeofday_quiet [quiets]: "simta_gettimeofday s = (r, s') \<Longrightarrow> quiet s s'"
  by (simp add: quiet_def simta_gettimeofday_frame gettimeofday_more)

subsection \<open>What is kept\<close>

definition core_env :: "envelope \<Rightarrow> envelope" where
  "core_env e = e\<lparr>e_flags := 0, e_error := 0, e_err_text := None,
     e_rcpt := map (\<lambda>r. new_recipient (r_rcpt r)) (e_rcpt e)\<rparr>"

definition core :: "deliver \<Rightarrow> deliver" where
  "core d = d\<lparr>d_env := core_env (d_env d), d_rcpt := None, d_sent := 0, d_n_rcpt_accepted := 0,
     d_n_rcpt_failed := 0, d_n_rcpt_tempfailed := 0, d_delivered := 0, d_snet_smtp := None,
     d_snet_dfile := None, d_tls_supported := 0, d_tls_banner_check := 0\<rparr>"

definition core_hq :: "host_q \<Rightarrow> host_q" where
  "core_hq hq = hq\<lparr>hq_err_text := None, hq_smtp_hostname := None, hq_status := HOST_NULL, hq_no_punt := 0\<rparr>"

lemma core_hq_upd [simp]:
  "core_hq (hq\<lparr>hq_err_text := x\<rparr>) = core_hq hq" "core_hq (hq\<lparr>hq_smtp_hostname := y\<rparr>) = core_hq hq"
  "core_hq (hq\<lparr>hq_status := z\<rparr>) = core_hq hq" "core_hq (hq\<lparr>hq_no_punt := n\<rparr>) = core_hq hq"
  by (simp_all add: core_hq_def)

lemma core_env_upd [simp]:
  "core_env (e\<lparr>e_flags := f\<rparr>) = core_env e" "core_env (e\<lparr>e_err_text := x\<rparr>) = core_env e"
  "core_env (e\<lparr>e_error := n\<rparr>) = core_env e"
  by (simp_all add: core_env_def)

lemma core_upd [simp]:
  "core (d\<lparr>d_snet_smtp := c\<rparr>) = core d" "core (d\<lparr>d_snet_dfile := sn\<rparr>) = core d"
  "core (d\<lparr>d_tls_supported := i\<rparr>) = core d" "core (d\<lparr>d_tls_banner_check := i\<rparr>) = core d"
  "core (d\<lparr>d_delivered := i\<rparr>) = core d" "core (d\<lparr>d_sent := i\<rparr>) = core d"
  "core (d\<lparr>d_rcpt := r\<rparr>) = core d" "core (d\<lparr>d_n_rcpt_accepted := i\<rparr>) = core d"
  "core (d\<lparr>d_n_rcpt_failed := i\<rparr>) = core d" "core (d\<lparr>d_n_rcpt_tempfailed := i\<rparr>) = core d"
  by (simp_all add: core_def)

lemma map_upd_same: "(\<And>x. h (f x) = h x) \<Longrightarrow> map h (xs[i := f (xs ! i)]) = map h xs"
  using list_update_id [of "map h xs" i]
  by (cases "i < length xs") (simp_all add: map_update list_update_beyond)

lemma core_upd_env: "(\<And>e. core_env (f e) = core_env e) \<Longrightarrow> core (upd_env f d) = core d"
  by (simp add: core_def upd_env_def)

lemma core_upd_rcpt: "(\<And>r. r_rcpt (f r) = r_rcpt r) \<Longrightarrow> core (upd_rcpt f d) = core d"
  unfolding upd_rcpt_def
  by (auto simp: core_env_def map_upd_same split: option.split intro!: core_upd_env)

lemma core_set_status [simp]: "core (set_status st d) = core d"
  by (simp add: set_status_def Let_def core_upd_rcpt)

subsection \<open>The statuses and their counts\<close>

definition statuses :: "deliver \<Rightarrow> int list" where
  "statuses d = map r_status (e_rcpt (d_env d))"

text \<open>All of a delivery that decides what becomes of the recipients.\<close>

definition tally :: "deliver \<Rightarrow> int list \<times> int \<times> int \<times> int \<times> nat option" where
  "tally d = (statuses d, d_n_rcpt_accepted d, d_n_rcpt_failed d, d_n_rcpt_tempfailed d, d_rcpt d)"

lemma tally_upd [simp]:
  "tally (d\<lparr>d_snet_smtp := c\<rparr>) = tally d" "tally (d\<lparr>d_snet_dfile := sn\<rparr>) = tally d"
  "tally (d\<lparr>d_tls_supported := i\<rparr>) = tally d" "tally (d\<lparr>d_tls_banner_check := i\<rparr>) = tally d"
  "tally (d\<lparr>d_delivered := i\<rparr>) = tally d" "tally (d\<lparr>d_sent := i\<rparr>) = tally d"
  by (simp_all add: tally_def statuses_def)

lemma tally_upd_env: "(\<And>e. map r_status (e_rcpt (f e)) = map r_status (e_rcpt e)) \<Longrightarrow> tally (upd_env f d) = tally d"
  by (simp add: tally_def statuses_def upd_env_def)

lemma tally_upd_rcpt: "(\<And>r. r_status (f r) = r_status r) \<Longrightarrow> tally (upd_rcpt f d) = tally d"
  unfolding upd_rcpt_def by (auto simp: map_upd_same split: option.split intro!: tally_upd_env)

text \<open>Reading the rest of a reply touches the connection and what was learnt of TLS.\<close>

definition only_conn :: "deliver \<Rightarrow> deliver \<Rightarrow> bool" where
  "only_conn d d' \<longleftrightarrow> d' = d\<lparr>d_snet_smtp := d_snet_smtp d', d_tls_supported := d_tls_supported d'\<rparr>"

lemma only_conn_refl [simp]: "only_conn d d"
  by (simp add: only_conn_def)

lemma only_conn_trans: "only_conn d e \<Longrightarrow> only_conn e f \<Longrightarrow> only_conn d f"
  unfolding only_conn_def by (cases d; cases e; cases f) simp

lemma only_connI [simp]:
  "only_conn d (d\<lparr>d_snet_smtp := c\<rparr>)" "only_conn d (d\<lparr>d_tls_supported := i\<rparr>)"
  by (simp_all add: only_conn_def)

lemma only_conn_kept:
  assumes "only_conn d d'"
  shows "core d' = core d" "tally d' = tally d" "d_delivered d' = d_delivered d" "d_env d' = d_env d"
    "d_snet_dfile d' = d_snet_dfile d" "d_sent d' = d_sent d" "d_rcpt d' = d_rcpt d"
    "d_tls_banner_check d' = d_tls_banner_check d"
proof -
  obtain c t where d': "d' = d\<lparr>d_snet_smtp := c, d_tls_supported := t\<rparr>"
    using assms unfolding only_conn_def by blast
  show "core d' = core d" "tally d' = tally d" "d_delivered d' = d_delivered d" "d_env d' = d_env d"
    "d_snet_dfile d' = d_snet_dfile d" "d_sent d' = d_sent d" "d_rcpt d' = d_rcpt d"
    "d_tls_banner_check d' = d_tls_banner_check d"
    unfolding d' by simp_all
qed

lemma append_copy_quiet [quiets]: "append_copy lf l s = (ok, lf', s') \<Longrightarrow> quiet s s'"
  by (auto simp: append_copy_def Let_def split: prod.splits if_splits dest!: quiets intro: quiet_trans)

lemma banner_tls_conn: "banner_tls l d = Inr d' \<Longrightarrow> only_conn d d'"
  by (auto simp: banner_tls_def Let_def split: if_splits)

lemma banner_consume_conn: "banner_consume rc0 l d = Inr (rc, d') \<Longrightarrow> only_conn d d'"
  by (auto simp: banner_consume_def split: if_splits option.splits prod.splits)

lemma banner_loop_conn:
  "banner_loop err l d s = Inr (rc, lf, d', s') \<Longrightarrow> only_conn d d' \<and> quiet s s'"
proof (induction err l d s rule: banner_loop.induct)
  case (1 err line d s)
  show ?case
  proof (cases "continues line")
    case False
    then have "line_at line 3 = Inl OutOfBounds \<or> (\<exists>ch. line_at line 3 = Inr ch \<and> ch \<noteq> CHR ''-'')"
      by (auto simp: line_at_def continues_def)
    with "1.prems" show ?thesis by (auto simp: banner_loop.simps [of err line d s])
  next
    case True
    then have at: "line_at line 3 = Inr (CHR ''-'')" by (simp add: line_at_def continues_def)
    obtain cn where cn: "d_snet_smtp d = Some cn"
      using "1.prems" at by (cases "d_snet_smtp d") (auto simp: banner_loop.simps [of err line d s])
    obtain r sn where g: "snet_getline (conn_in cn) = (r, sn)" by fastforce
    define d1 where "d1 = d\<lparr>d_snet_smtp := Some (cn\<lparr>conn_in := sn\<rparr>)\<rparr>"
    have d1: "only_conn d d1" by (simp add: d1_def)
    show ?thesis
    proof (cases "\<exists>l. r = Some l \<and> banner_syntax l")
      case False
      with "1.prems" at cn g d1 show ?thesis
        by (cases r) (auto simp: banner_loop.simps [of err line d s] d1_def)
    next
      case True
      then obtain l where l: "r = Some l" "banner_syntax l" by blast
      obtain d2 where t: "banner_tls l d1 = Inr d2"
        using "1.prems" at cn g l
        by (cases "banner_tls l d1") (auto simp: banner_loop.simps [of err line d s] d1_def)
      note d2 = only_conn_trans [OF d1 banner_tls_conn [OF t]]
      show ?thesis
      proof (cases err)
        case None
        then have b: "banner_loop None l d2 s = Inr (rc, lf, d', s')"
          using "1.prems" at cn g l t by (simp add: banner_loop.simps [of None line d s] d1_def)
        have "only_conn d2 d' \<and> quiet s s'"
          using "1.IH"(1) [OF at _ cn g [unfolded l(1), symmetric] refl d1_def] l(2) t None b by auto
        then show ?thesis using d2 only_conn_trans by blast
      next
        case (Some lf0)
        obtain ok lf1 s1 where a: "append_copy lf0 l s = (ok, lf1, s1)" by (metis prod.exhaust)
        note q = append_copy_quiet [OF a]
        show ?thesis
        proof (cases ok)
          case True
          then have b: "banner_loop (Some lf1) l d2 s1 = Inr (rc, lf, d', s')"
            using "1.prems" at cn g l t a Some by (simp add: banner_loop.simps [of "Some lf0" line d s] d1_def)
          have "only_conn d2 d' \<and> quiet s1 s'"
            using "1.IH"(2) [OF at _ cn g [unfolded l(1), symmetric] refl d1_def] l(2) t Some a True b
            by auto
          then show ?thesis using d2 q only_conn_trans quiet_trans by blast
        next
          case False
          then have "\<exists>rc'. banner_consume SMTP_ERROR l d2 = Inr (rc', d')" "s' = s1"
            using "1.prems" at cn g l t a Some by (auto simp: banner_loop.simps [of "Some lf0" line d s] d1_def)
          then show ?thesis using d2 q only_conn_trans banner_consume_conn by blast
        qed
      qed
    qed
  qed
qed

lemma banner_head_quiet [quiets]: "banner_head old l err s = (ok, lf, s') \<Longrightarrow> quiet s s'"
  by (auto simp: banner_head_def Let_def split: prod.splits if_splits option.splits dest!: quiets
      intro: quiet_trans)

lemma smtp_consume_banner_conn:
  assumes "smtp_consume_banner err d l e s = Inr (rc, lf, d', s')"
  shows "only_conn d d' \<and> quiet s s'"
proof (cases err)
  case None
  with assms show ?thesis
    by (auto simp: smtp_consume_banner_def split: if_splits dest: banner_loop_conn banner_consume_conn)
next
  case (Some old)
  obtain ok lf1 s1 where h: "banner_head old l e s = (ok, lf1, s1)" by (metis prod.exhaust)
  with assms Some banner_head_quiet [OF h] show ?thesis
    by (cases ok) (auto simp: smtp_consume_banner_def dest: banner_loop_conn banner_consume_conn
        intro: quiet_trans)
qed


subsection \<open>What a reply does\<close>

text \<open>
  A reply gives the current recipient a status, or marks the message as delivered or
  refused, or the host as bouncing; it does nothing else outside the texts that are kept.
\<close>

definition replied :: "smtp_command \<Rightarrow> int \<Rightarrow> host_q \<Rightarrow> deliver \<Rightarrow> host_q \<Rightarrow> deliver \<Rightarrow> bool" where
  "replied cmd rc hq d hq' d' \<longleftrightarrow>
     core d' = core d \<and> core_hq hq' = core_hq hq \<and> d_snet_dfile d' = d_snet_dfile d \<and>
     d_sent d' = d_sent d \<and> d_tls_banner_check d' = d_tls_banner_check d \<and>
     (hq_status hq' = hq_status hq \<or>
        cmd = SMTP_CONNECT \<and> rc \<noteq> SMTP_OK \<and> hq_status hq = HOST_DOWN \<and> hq_status hq' = HOST_BOUNCE) \<and>
     (if cmd = SMTP_RCPT then rc \<noteq> SMTP_OK \<and> tally d' = tally d \<or>
         (\<exists>st\<in>{R_TEMPFAIL, R_ACCEPTED, R_FAILED}. cur_rcpt d \<noteq> None \<and> tally d' = tally (set_status st d))
      else tally d' = tally d) \<and>
     (d_delivered d' = d_delivered d \<or> cmd = SMTP_DATA_EOF \<and> d_delivered d' = 1) \<and>
     (cmd \<notin> {SMTP_MAIL, SMTP_DATA, SMTP_DATA_EOF} \<longrightarrow> e_flags (d_env d') = e_flags (d_env d))"

lemma upd_env_fields [simp]:
  "d_snet_dfile (upd_env f d) = d_snet_dfile d" "d_sent (upd_env f d) = d_sent d"
  "d_tls_banner_check (upd_env f d) = d_tls_banner_check d" "d_delivered (upd_env f d) = d_delivered d"
  "d_env (upd_env f d) = f (d_env d)" "d_snet_smtp (upd_env f d) = d_snet_smtp d"
  by (simp_all add: upd_env_def)

lemma upd_rcpt_fields [simp]:
  "d_snet_dfile (upd_rcpt f d) = d_snet_dfile d" "d_sent (upd_rcpt f d) = d_sent d"
  "d_tls_banner_check (upd_rcpt f d) = d_tls_banner_check d" "d_delivered (upd_rcpt f d) = d_delivered d"
  "e_flags (d_env (upd_rcpt f d)) = e_flags (d_env d)" "d_snet_smtp (upd_rcpt f d) = d_snet_smtp d"
  by (simp_all add: upd_rcpt_def split: option.split)

lemma set_status_fields [simp]:
  "d_snet_dfile (set_status st d) = d_snet_dfile d" "d_sent (set_status st d) = d_sent d"
  "d_tls_banner_check (set_status st d) = d_tls_banner_check d" "d_delivered (set_status st d) = d_delivered d"
  "e_flags (d_env (set_status st d)) = e_flags (d_env d)" "d_snet_smtp (set_status st d) = d_snet_smtp d"
  by (simp_all add: set_status_def Let_def)

lemma cur_rcpt_conn: "only_conn d d' \<Longrightarrow> cur_rcpt d' = cur_rcpt d"
  using only_conn_kept(4,7) [of d d'] by (auto simp: cur_rcpt_def split: option.split)

lemma drop_text_effect:
  assumes "drop_text l hq d s = Inr (rc, hq', d', s')"
  shows "hq' = hq \<and> only_conn d d' \<and> quiet s s'"
  using assms by (auto simp: drop_text_def dest: smtp_consume_banner_conn)

lemma keep_with_queue_effect:
  assumes "keep_with_queue e l hq d s = Inr (rc, hq', d', s')"
  shows "core_hq hq' = core_hq hq \<and> hq_status hq' = hq_status hq \<and> rc \<noteq> SMTP_OK \<and> only_conn d d' \<and> quiet s s'"
  using assms by (auto simp: keep_with_queue_def smtp_codes split: if_splits dest!: smtp_consume_banner_conn)

lemma replied_conn:
  assumes "only_conn d d'" "core_hq hq' = core_hq hq"
    and "hq_status hq' = hq_status hq \<or>
        cmd = SMTP_CONNECT \<and> rc \<noteq> SMTP_OK \<and> hq_status hq = HOST_DOWN \<and> hq_status hq' = HOST_BOUNCE"
    and "cmd = SMTP_RCPT \<Longrightarrow> rc \<noteq> SMTP_OK"
  shows "replied cmd rc hq d hq' d'"
  using assms by (auto simp: replied_def only_conn_kept)

lemma keep_with_env_effect:
  assumes "keep_with_env flag e l hq d s = Inr (rc, hq', d', s')" "cmd \<in> {SMTP_MAIL, SMTP_DATA, SMTP_DATA_EOF}"
  shows "replied cmd rc hq d hq' d' \<and> quiet s s'"
proof -
  let ?d1 = "upd_env (\<lambda>e. e\<lparr>e_flags := set_flag (e_flags e) flag\<rparr>) d"
  obtain lf d2 where c: "smtp_consume_banner (Some (e_err_text (d_env ?d1))) ?d1 l e s = Inr (rc, lf, d2, s')"
    and d': "d' = upd_env (\<lambda>e. e\<lparr>e_err_text := lf\<rparr>) d2" "hq' = hq"
    using assms(1) by (auto simp: keep_with_env_def)
  from smtp_consume_banner_conn [OF c] have o: "only_conn ?d1 d2" and q: "quiet s s'" by auto
  have "core d' = core d" "tally d' = tally d"
    using only_conn_kept [OF o] by (simp_all add: d' core_upd_env tally_upd_env)
  with assms(2) only_conn_kept [OF o] q show ?thesis by (auto simp: replied_def d')
qed

lemma keep_with_rcpt_effect:
  assumes "keep_with_rcpt st e l hq d s = Inr (rc, hq', d', s')" "st \<in> {R_TEMPFAIL, R_ACCEPTED, R_FAILED}"
  shows "replied SMTP_RCPT rc hq d hq' d' \<and> quiet s s'"
proof -
  let ?d1 = "set_status st d"
  obtain r where r: "cur_rcpt d = Some r"
    using assms(1) by (cases "cur_rcpt d") (auto simp: keep_with_rcpt_def)
  with assms(1) obtain lf d2 where
    c: "smtp_consume_banner (Some (r_err_text r)) ?d1 l e s = Inr (rc, lf, d2, s')"
    and d': "d' = upd_rcpt (\<lambda>r. r\<lparr>r_err_text := lf\<rparr>) d2" "hq' = hq"
    by (auto simp: keep_with_rcpt_def)
  from smtp_consume_banner_conn [OF c] have o: "only_conn ?d1 d2" and q: "quiet s s'" by auto
  have "core d' = core d" "tally d' = tally ?d1"
    using only_conn_kept [OF o] by (simp_all add: d' core_upd_rcpt tally_upd_rcpt)
  with assms(2) only_conn_kept [OF o] q r show ?thesis by (auto simp: replied_def d')
qed

lemma reply_2xx_effect:
  assumes "reply_2xx c cmd l hq d s = Inr (rc, hq', d', s')"
  shows "replied cmd rc hq d hq' d' \<and> quiet s s'"
proof -
  consider "cmd = SMTP_CONNECT" | "cmd = SMTP_RCPT" | "cmd = SMTP_DATA" | "cmd = SMTP_DATA_EOF"
    | "cmd \<notin> {SMTP_CONNECT, SMTP_RCPT, SMTP_DATA, SMTP_DATA_EOF}" by blast
  then show ?thesis
  proof cases
    case 1
    then obtain name where n: "banner_hostname l = Inr name"
      and g: "reply_greeting c l hq d s = Inr (rc, hq', d', s')"
      using assms by (auto simp: reply_2xx_def reply_greeting_def)
    obtain ok s1 where o: "outcome s = (ok, s1)" by fastforce
    note q = outcome_quiet [OF o]
    have "only_conn d d' \<and> core_hq hq' = core_hq hq \<and> hq_status hq' = hq_status hq \<and> quiet s s'"
    proof (cases name)
      case None
      with g n show ?thesis by (auto simp: reply_greeting_def dest!: keep_with_queue_effect)
    next
      case (Some h)
      with g n o q show ?thesis
        by (auto simp: reply_greeting_def Let_def split: if_splits
            dest!: keep_with_queue_effect drop_text_effect intro: quiet_trans)
    qed
    with 1 show ?thesis by (auto intro!: replied_conn)
  next
    case 2
    with assms have c: "cur_rcpt d \<noteq> None" "drop_text l hq (set_status R_ACCEPTED d) s = Inr (rc, hq', d', s')"
      by (auto simp: reply_2xx_def split: if_splits)
    from drop_text_effect [OF c(2)] c(1) 2 show ?thesis by (auto simp: replied_def only_conn_kept)
  next
    case 3
    with assms show ?thesis by (intro keep_with_env_effect) (auto simp: reply_2xx_def)
  next
    case 4
    with assms have "drop_text l hq (d\<lparr>d_delivered := 1\<rparr>) s = Inr (rc, hq', d', s')"
      by (simp add: reply_2xx_def)
    from drop_text_effect [OF this] 4 show ?thesis by (auto simp: replied_def only_conn_kept)
  next
    case 5
    then have "drop_text l hq d s = Inr (rc, hq', d', s')"
      using assms by (cases cmd) (auto simp: reply_2xx_def)
    from drop_text_effect [OF this] 5 show ?thesis by (auto intro!: replied_conn)
  qed
qed

lemma reply_4xx_effect:
  assumes "reply_4xx cmd l hq d s = Inr (rc, hq', d', s')"
  shows "replied cmd rc hq d hq' d' \<and> quiet s s'"
proof -
  consider "cmd \<in> {SMTP_MAIL, SMTP_DATA, SMTP_DATA_EOF}" | "cmd = SMTP_RCPT" | "cmd = SMTP_QUIT"
    | "cmd \<notin> {SMTP_MAIL, SMTP_DATA, SMTP_DATA_EOF, SMTP_RCPT, SMTP_QUIT}" by blast
  then show ?thesis
  proof cases
    case 1
    with assms show ?thesis by (intro keep_with_env_effect) (auto simp: reply_4xx_def)
  next
    case 2
    with assms have "keep_with_rcpt R_TEMPFAIL (reply_error cmd) l hq d s = Inr (rc, hq', d', s')"
      by (simp add: reply_4xx_def)
    with 2 show ?thesis by (auto dest: keep_with_rcpt_effect)
  next
    case 3
    with assms show ?thesis by (auto simp: reply_4xx_def dest!: drop_text_effect intro: replied_conn)
  next
    case 4
    with assms show ?thesis by (auto simp: reply_4xx_def dest!: keep_with_queue_effect intro: replied_conn)
  qed
qed

lemma reply_5xx_effect:
  assumes "reply_5xx cmd l hq d s = Inr (rc, hq', d', s')"
  shows "replied cmd rc hq d hq' d' \<and> quiet s s'"
proof -
  consider "cmd \<in> {SMTP_MAIL, SMTP_DATA, SMTP_DATA_EOF}" | "cmd = SMTP_RCPT" | "cmd = SMTP_QUIT"
    | "cmd \<notin> {SMTP_MAIL, SMTP_DATA, SMTP_DATA_EOF, SMTP_RCPT, SMTP_QUIT}" by blast
  then show ?thesis
  proof cases
    case 1
    with assms show ?thesis by (intro keep_with_env_effect) (auto simp: reply_5xx_def)
  next
    case 2
    with assms have "keep_with_rcpt R_FAILED (reply_error cmd) l hq d s = Inr (rc, hq', d', s')"
      by (simp add: reply_5xx_def)
    with 2 show ?thesis by (auto dest: keep_with_rcpt_effect)
  next
    case 3
    with assms show ?thesis by (auto simp: reply_5xx_def dest!: drop_text_effect intro: replied_conn)
  next
    case 4
    with assms show ?thesis
      by (auto simp: reply_5xx_def split: if_splits dest!: keep_with_queue_effect intro: replied_conn)
  qed
qed

lemma replied_before:
  assumes "replied cmd rc hq d1 hq' d'" "only_conn d d1"
  shows "replied cmd rc hq d hq' d'"
proof -
  obtain c t where d1: "d1 = d\<lparr>d_snet_smtp := c, d_tls_supported := t\<rparr>"
    using assms(2) unfolding only_conn_def by blast
  have t: "tally (set_status st d1) = tally (set_status st d)" for st
    by (simp add: d1 tally_def statuses_def set_status_def upd_rcpt_def upd_env_def Let_def split: option.split)
  show ?thesis using assms(1)
    unfolding replied_def t cur_rcpt_conn [OF assms(2)] only_conn_kept [OF assms(2)] .
qed

lemma smtp_reply_effect:
  assumes "smtp_reply c cmd hq d s = Inr (rc, hq', d', s')"
  shows "replied cmd rc hq d hq' d' \<and> quiet s s'"
proof -
  obtain r d1 where g: "smtp_getline d = Inr (r, d1)"
    using assms by (auto simp: smtp_reply_def)
  then have o: "only_conn d d1" by (auto simp: smtp_getline_def split: option.splits prod.splits)
  show ?thesis
  proof (cases r)
    case None
    with assms g o show ?thesis by (auto simp: smtp_reply_def smtp_codes intro: replied_conn)
  next
    case (Some l)
    have "\<exists>ch. line_at l 0 = Inr ch" by (simp add: line_at_def)
    then obtain ch where "line_at l 0 = Inr ch" ..
    with assms g Some have "replied cmd rc hq d1 hq' d' \<and> quiet s s'"
      by (auto simp: smtp_reply_def split: if_splits dest!: reply_2xx_effect reply_4xx_effect reply_5xx_effect
          drop_text_effect intro: replied_conn)
    with o show ?thesis using replied_before by blast
  qed
qed

lemma snet_writef_effect:
  assumes "snet_writef t d s = Inr (ok, d', s')"
  shows "only_conn d d' \<and> quiet s s'"
  using assms by (auto simp: snet_writef_def Let_def split: option.splits prod.splits if_splits dest: quiets)

lemma smtp_say_effect:
  assumes "smtp_say c cmd t hq d s = Inr (rc, hq', d', s')"
  shows "replied cmd rc hq d hq' d' \<and> quiet s s'"
proof -
  obtain ok d1 s1 where w: "snet_writef (t @ CRLF) d s = Inr (ok, d1, s1)"
    using assms by (auto simp: smtp_say_def)
  note e = snet_writef_effect [OF w]
  show ?thesis
  proof (cases ok)
    case True
    with assms w have "smtp_reply c cmd hq d1 s1 = Inr (rc, hq', d', s')" by (simp add: smtp_say_def)
    from smtp_reply_effect [OF this] e show ?thesis using replied_before quiet_trans by blast
  next
    case False
    with assms w e show ?thesis by (auto simp: smtp_say_def smtp_codes intro: replied_conn)
  qed
qed


subsection \<open>Counts and statuses agree\<close>

definition agree :: "deliver \<Rightarrow> bool" where
  "agree d \<longleftrightarrow> d_n_rcpt_accepted d = int (count_list (statuses d) R_ACCEPTED) \<and>
     d_n_rcpt_failed d = int (count_list (statuses d) R_FAILED)"

definition unset_from :: "nat \<Rightarrow> deliver \<Rightarrow> bool" where
  "unset_from i d \<longleftrightarrow> (\<forall>st\<in>set (drop i (statuses d)). st = R_TEMPFAIL)"

lemma agree_tally: "tally d' = tally d \<Longrightarrow> agree d' = agree d"
  by (simp add: tally_def agree_def)

lemma unset_tally: "tally d' = tally d \<Longrightarrow> unset_from i d' = unset_from i d"
  by (simp add: tally_def unset_from_def)

lemma count_list_set:
  "i < length xs \<Longrightarrow> xs ! i \<noteq> a \<Longrightarrow> count_list (xs[i := v]) a = count_list xs a + (if v = a then 1 else 0)"
  by (induction xs arbitrary: i) (auto split: nat.split)

lemma statuses_set_status:
  assumes "d_rcpt d = Some i" "cur_rcpt d \<noteq> None"
  shows "i < length (statuses d) \<and> statuses (set_status st d) = (statuses d)[i := st]"
  using assms by (auto simp: cur_rcpt_def statuses_def set_status_def upd_rcpt_def upd_env_def Let_def
      map_update split: if_splits)

lemma set_status_counts:
  "d_n_rcpt_accepted (set_status st d) = d_n_rcpt_accepted d + (if st = R_ACCEPTED then 1 else 0)"
  "d_n_rcpt_failed (set_status st d) = d_n_rcpt_failed d + (if st = R_FAILED then 1 else 0)"
  by (simp_all add: set_status_def upd_rcpt_def upd_env_def Let_def env_codes split: option.split)

lemma agree_set_status:
  assumes "agree d" "unset_from i d" "d_rcpt d = Some i" "cur_rcpt d \<noteq> None"
    "st \<in> {R_TEMPFAIL, R_ACCEPTED, R_FAILED}"
  shows "agree (set_status st d) \<and> unset_from (Suc i) (set_status st d)"
proof -
  note s = statuses_set_status [OF assms(3,4), of st]
  then have "statuses d ! i \<in> set (drop i (statuses d))"
    by (metis Cons_nth_drop_Suc list.set_intros(1))
  then have "statuses d ! i = R_TEMPFAIL" using assms(2) by (simp add: unset_from_def)
  with s assms show ?thesis
    by (auto simp: agree_def set_status_counts count_list_set env_codes unset_from_def)
      (metis Cons_nth_drop_Suc list.set_intros(2) drop_update_cancel lessI)+
qed

subsection \<open>What sending does\<close>

text \<open>The part of a reply that all the steps of \<open>smtp\_send\<close> share.\<close>

definition sent :: "host_q \<Rightarrow> deliver \<Rightarrow> 'a sys_scheme \<Rightarrow> host_q \<Rightarrow> deliver \<Rightarrow> 'a sys_scheme \<Rightarrow> bool" where
  "sent hq d s hq' d' s' \<longleftrightarrow> core d' = core d \<and> core_hq hq' = core_hq hq \<and> hq_status hq' = hq_status hq \<and>
     d_tls_banner_check d' = d_tls_banner_check d \<and>
     (d_delivered d' = d_delivered d \<or> d_delivered d' = 1) \<and> quiet s s'"

lemma sent_refl [simp]: "sent hq d s hq d s"
  by (simp add: sent_def)

lemma sent_trans: "sent hq d s hq1 d1 s1 \<Longrightarrow> sent hq1 d1 s1 hq2 d2 s2 \<Longrightarrow> sent hq d s hq2 d2 s2"
  by (auto simp: sent_def intro: quiet_trans)

lemma replied_sent:
  "replied cmd rc hq d hq' d' \<Longrightarrow> cmd \<noteq> SMTP_CONNECT \<Longrightarrow> quiet s s' \<Longrightarrow> sent hq d s hq' d' s'"
  by (auto simp: replied_def sent_def)

lemma say_next_effect:
  assumes "say_next c cmd t hq d s = Inr (r, hq', d', s')" "cmd \<noteq> SMTP_CONNECT"
  shows "sent hq d s hq' d' s' \<and> (\<exists>rc. replied cmd rc hq d hq' d' \<and> (r = None \<longleftrightarrow> rc = SMTP_OK))"
proof -
  obtain rc where "smtp_say c cmd t hq d s = Inr (rc, hq', d', s')" "r = (if rc = SMTP_OK then None else Some rc)"
    using assms(1) by (auto simp: say_next_def)
  with smtp_say_effect [OF this(1)] assms(2) show ?thesis by (auto intro: replied_sent)
qed

lemma and_send_cases:
  assumes "and_send m f = Inr (r, hq', d', s')"
  obtains (stop) rc where "m = Inr (Some rc, hq', d', s')" "r = Some rc"
  | (go) hq1 d1 s1 where "m = Inr (None, hq1, d1, s1)" "f hq1 d1 s1 = Inr (r, hq', d', s')"
  using assms by (auto simp: and_send_def split: option.splits)

lemma send_from_effect:
  assumes "send_from c hq d s = Inr (r, hq', d', s')"
  shows "sent hq d s hq' d' s' \<and> tally d' = tally d"
proof -
  obtain m where m: "e_mail (d_env d) = Some m"
    using assms by (cases "e_mail (d_env d)") (auto simp: send_from_def)
  from assms m have "and_send (say_next c SMTP_MAIL (''MAIL FROM:<'' @ m @ ''>'') hq d s)
      (\<lambda>hq d s. Inr (if env_refused d then Some SMTP_OK else None, hq, d, s)) = Inr (r, hq', d', s')"
    by (simp add: send_from_def)
  then show ?thesis
    by (cases rule: and_send_cases) (auto dest!: say_next_effect simp: replied_def)
qed

lemma send_rcpts_effect:
  "send_rcpts c i n hq d s = Inr (r, hq', d', s') \<Longrightarrow> agree d \<Longrightarrow> unset_from i d \<Longrightarrow>
     sent hq d s hq' d' s' \<and> agree d'"
proof (induction n arbitrary: i hq d s)
  case 0
  then show ?case by (auto simp: sent_def agree_def statuses_def)
next
  case (Suc n)
  let ?d1 = "d\<lparr>d_rcpt := Some i\<rparr>"
  have d1: "sent hq d s hq ?d1 s" "agree ?d1" "unset_from i ?d1"
    using Suc.prems by (auto simp: sent_def agree_def unset_from_def statuses_def)
  obtain rp where rp: "cur_rcpt ?d1 = Some rp"
    using Suc.prems(1) by (cases "cur_rcpt ?d1") auto
  have step: "sent hq d s hq2 d2 s2 \<and> agree d2 \<and> (q = None \<longrightarrow> unset_from (Suc i) d2)"
    if say: "say_next c SMTP_RCPT (rcpt_text (r_rcpt rp)) hq ?d1 s = Inr (q, hq2, d2, s2)" for q hq2 d2 s2
  proof -
    from say_next_effect [OF say] obtain rc where e: "sent hq ?d1 s hq2 d2 s2"
      "replied SMTP_RCPT rc hq ?d1 hq2 d2" "q = None \<longleftrightarrow> rc = SMTP_OK" by auto
    from e(2) have "rc \<noteq> SMTP_OK \<and> tally d2 = tally ?d1 \<or>
        (\<exists>st\<in>{R_TEMPFAIL, R_ACCEPTED, R_FAILED}. tally d2 = tally (set_status st ?d1))"
      by (auto simp: replied_def)
    then have "agree d2 \<and> (q = None \<longrightarrow> unset_from (Suc i) d2)"
    proof
      assume "rc \<noteq> SMTP_OK \<and> tally d2 = tally ?d1"
      with e(3) d1(2) agree_tally [of d2 ?d1] show ?thesis by auto
    next
      assume "\<exists>st\<in>{R_TEMPFAIL, R_ACCEPTED, R_FAILED}. tally d2 = tally (set_status st ?d1)"
      then obtain st where st: "st \<in> {R_TEMPFAIL, R_ACCEPTED, R_FAILED}" "tally d2 = tally (set_status st ?d1)" ..
      have "d_rcpt ?d1 = Some i" "cur_rcpt ?d1 \<noteq> None" using rp by simp_all
      from agree_set_status [OF d1(2,3) this st(1)] show ?thesis
        using agree_tally [OF st(2)] unset_tally [OF st(2)] by simp
    qed
    with e(1) d1(1) show ?thesis by (blast intro: sent_trans)
  qed
  from Suc.prems(1) rp have "and_send (say_next c SMTP_RCPT (rcpt_text (r_rcpt rp)) hq ?d1 s) (\<lambda>hq2 d2 s2.
      if hq_status hq2 = HOST_PUNT_DOWN \<and> map_option r_status (cur_rcpt d2) \<noteq> Some R_ACCEPTED
      then Inr (Some SMTP_OK, hq2, d2, s2)
      else send_rcpts c (Suc i) n hq2 d2 s2) = Inr (r, hq', d', s')"
    by simp
  then show ?case
  proof (cases rule: and_send_cases)
    case (stop rc)
    with step show ?thesis by blast
  next
    case (go hq1 d2 s1)
    note st = step [OF go(1)]
    show ?thesis
    proof (cases "hq_status hq1 = HOST_PUNT_DOWN \<and> map_option r_status (cur_rcpt d2) \<noteq> Some R_ACCEPTED")
      case True
      with go(2) st show ?thesis by auto
    next
      case False
      with go(2) have "send_rcpts c (Suc i) n hq1 d2 s1 = Inr (r, hq', d', s')" by auto
      from Suc.IH [OF this] st show ?thesis by (blast intro: sent_trans)
    qed
  qed
qed


lemma send_data_command_effect:
  assumes "send_data_command c hq d s = Inr (r, hq', d', s')"
  shows "sent hq d s hq' d' s' \<and> tally d' = tally d"
proof (cases "d_n_rcpt_accepted d = 0")
  case True
  with assms show ?thesis by (auto simp: send_data_command_def sent_def)
next
  case False
  then have "and_send (say_next c SMTP_DATA ''DATA'' hq d s)
      (\<lambda>hq d s. Inr (if env_refused d then Some SMTP_OK else None, hq, d, s)) = Inr (r, hq', d', s')"
    using assms by (simp add: send_data_command_def)
  then show ?thesis by (cases rule: and_send_cases) (auto dest!: say_next_effect simp: replied_def)
qed

lemma only_conn_sent: "only_conn d d' \<Longrightarrow> quiet s s' \<Longrightarrow> sent hq d s hq d' s'"
  by (auto simp: sent_def only_conn_kept)

lemma send_seen_before_effect:
  assumes "send_seen_before c hq d s = Inr (r, hq', d', s')"
  shows "sent hq d s hq' d' s' \<and> tally d' = tally d"
proof -
  obtain ok s1 where o: "outcome s = (ok, s1)" by fastforce
  from assms o outcome_quiet [OF o] show ?thesis
    by (auto simp: send_seen_before_def Let_def sent_def only_conn_kept split: if_splits
        dest!: snet_writef_effect intro: quiet_trans)
qed

lemma data_timer_quiet [quiets]: "data_timer c tv s = (r, tv', s') \<Longrightarrow> quiet s s'"
  by (auto simp: data_timer_def Let_def split: if_splits option.splits prod.splits dest: quiets)

lemma snet_writef_out:
  assumes "snet_writef t d s = Inr (True, d', s')"
  shows "\<exists>cn. d_snet_smtp d = Some cn \<and> d' = d\<lparr>d_snet_smtp := Some (cn\<lparr>conn_out := conn_out cn @ t\<rparr>)\<rparr>"
  using assms by (auto simp: snet_writef_def Let_def split: option.splits prod.splits if_splits)

text \<open>What the loop over the data file writes, and that it writes all of it before it goes on.\<close>

definition wrote :: "string \<Rightarrow> deliver \<Rightarrow> deliver \<Rightarrow> bool" where
  "wrote t d d' \<longleftrightarrow> (\<forall>cn. d_snet_smtp d = Some cn \<longrightarrow>
     d_snet_smtp d' = Some (cn\<lparr>conn_out := conn_out cn @ t\<rparr>))"

lemma send_lines_effect:
  "send_lines c tv hq d s = Inr (r, hq', d', s') \<Longrightarrow>
     sent hq d s hq' d' s' \<and> tally d' = tally d \<and>
     (r = None \<longrightarrow> (\<forall>sn. d_snet_dfile d = Some sn \<longrightarrow>
        wrote (with_ends CRLF (map dot_stuff (snet_lines sn))) d d'))"
proof (induction c tv hq d s rule: send_lines.induct)
  case (1 c tv hq d s)
  obtain t tv1 s1 where t: "data_timer c tv s = (t, tv1, s1)" by (metis prod.exhaust)
  note q = data_timer_quiet [OF t]
  show ?case
  proof (cases "t = Some True")
    case False
    then consider "t = None" | "t = Some False" by (metis option.exhaust)
    then show ?thesis
      using "1.prems" t q by cases (auto simp: send_lines.simps [of c tv hq d s] sent_def)
  next
    case True
    obtain sn where sn: "d_snet_dfile d = Some sn"
      using "1.prems" t True by (cases "d_snet_dfile d") (auto simp: send_lines.simps [of c tv hq d s])
    obtain l sn1 where g: "snet_getline sn = (l, sn1)" by fastforce
    let ?d1 = "d\<lparr>d_snet_dfile := Some sn1\<rparr>"
    show ?thesis
    proof (cases l)
      case None
      with "1.prems" t True sn g have "r = None" "hq' = hq" "d' = ?d1" "s' = s1"
        by (auto simp: send_lines.simps [of c tv hq d s])
      moreover have "snet_lines sn = []" using None g by (simp add: snet_lines.simps [of sn])
      ultimately show ?thesis using q sn by (auto simp: sent_def wrote_def with_ends_def)
    next
      case (Some line)
      obtain ok d2 s2 where w: "snet_writef (dot_stuff line @ CRLF) ?d1 s1 = Inr (ok, d2, s2)"
        using "1.prems" t True sn g Some
        by (cases "snet_writef (dot_stuff line @ CRLF) ?d1 s1") (auto simp: send_lines.simps [of c tv hq d s])
      note e = snet_writef_effect [OF w]
      have se: "sent hq d s hq d2 s2" "tally d2 = tally d"
        using only_conn_kept [of ?d1 d2] e q by (auto simp: sent_def intro: quiet_trans)
      show ?thesis
      proof (cases ok)
        case False
        with "1.prems" t True sn g Some w se show ?thesis
          by (auto simp: send_lines.simps [of c tv hq d s])
      next
        case ok: True
        let ?d3 = "d2\<lparr>d_sent := d_sent d2 + int (length line) + 1\<rparr>"
        have rec: "send_lines c tv1 hq ?d3 s2 = Inr (r, hq', d', s')"
          using "1.prems" t True sn g Some w ok by (simp add: send_lines.simps [of c tv hq d s])
        have IH: "sent hq ?d3 s2 hq' d' s' \<and> tally d' = tally ?d3 \<and>
            (r = None \<longrightarrow> (\<forall>sn. d_snet_dfile ?d3 = Some sn \<longrightarrow>
               wrote (with_ends CRLF (map dot_stuff (snet_lines sn))) ?d3 d'))"
          by (rule "1.IH" [OF t [symmetric] True refl refl sn g [symmetric] Some w refl refl ok rec])
        obtain cn where cn: "d_snet_smtp d = Some cn"
          "d2 = ?d1\<lparr>d_snet_smtp := Some (cn\<lparr>conn_out := conn_out cn @ dot_stuff line @ CRLF\<rparr>)\<rparr>"
          using snet_writef_out w ok by fastforce
        have "sent hq d s hq' d' s'" using se(1) IH by (auto simp: sent_def intro: quiet_trans)
        moreover have "snet_lines sn = line # snet_lines sn1"
          using g Some by (simp add: snet_lines.simps [of sn])
        ultimately show ?thesis using IH se(2) cn sn
          by (auto simp: wrote_def with_ends_Cons)
      qed
    qed
  qed
qed

lemma smtp_send_effect:
  assumes "smtp_send c hq d s = Inr (rc, hq', d', s')" "agree d" "unset_from 0 d"
  shows "sent hq d s hq' d' s' \<and> agree d'"
proof -
  let ?eof = "\<lambda>hq d s. say_next c SMTP_DATA_EOF ''.'' hq d s"
  have tl: "sent hq1 d1 s1 hq' d' s' \<and> agree d'"
    if "and_send (send_data_command c hq1 d1 s1) (\<lambda>hq d s.
          and_send (send_seen_before c hq d s) (\<lambda>hq d s.
          and_send (send_lines c 0 hq d s) ?eof)) = Inr (r, hq', d', s')" "agree d1" for r hq1 d1 s1
    using that(1)
  proof (cases rule: and_send_cases)
    case (stop rc)
    with that(2) show ?thesis using send_data_command_effect agree_tally by blast
  next
    case (go hq2 d2 s2)
    note 2 = send_data_command_effect [OF go(1)]
    from go(2) show ?thesis
    proof (cases rule: and_send_cases)
      case (stop rc)
      from send_seen_before_effect [OF stop(1)] 2 that(2) show ?thesis
        by (metis sent_trans agree_tally)
    next
      case (go hq3 d3 s3)
      note 3 = send_seen_before_effect [OF go(1)]
      from go(2) show ?thesis
      proof (cases rule: and_send_cases)
        case (stop rc)
        from send_lines_effect [OF stop(1)] 2 3 that(2) show ?thesis
          by (metis sent_trans agree_tally)
      next
        case (go hq4 d4 s4)
        have "sent hq4 d4 s4 hq' d' s'" "tally d' = tally d4"
          using say_next_effect [OF go(2)] by (auto simp: replied_def)
        with send_lines_effect [OF go(1)] 2 3 that(2) show ?thesis
          by (metis sent_trans agree_tally)
      qed
    qed
  qed
  obtain r where r: "and_send (send_from c hq d s) (\<lambda>hq d s.
          if e_rcpt (d_env d) = [] then Inl AssertFail
          else and_send (send_rcpts c 0 (length (e_rcpt (d_env d))) hq d s) (\<lambda>hq d s.
            and_send (send_data_command c hq d s) (\<lambda>hq d s.
            and_send (send_seen_before c hq d s) (\<lambda>hq d s.
            and_send (send_lines c 0 hq d s) ?eof)))) = Inr (r, hq', d', s')"
    using assms(1) by (auto simp: smtp_send_def)
  then show ?thesis
  proof (cases rule: and_send_cases)
    case (stop rc)
    with assms(2) show ?thesis using send_from_effect agree_tally by blast
  next
    case (go hq1 d1 s1)
    note 1 = send_from_effect [OF go(1)]
    then have a1: "agree d1" "unset_from 0 d1" using assms(2,3) agree_tally unset_tally by blast+
    from go(2) have "e_rcpt (d_env d1) \<noteq> []" by (auto split: if_splits)
    with go(2) have "and_send (send_rcpts c 0 (length (e_rcpt (d_env d1))) hq1 d1 s1) (\<lambda>hq d s.
            and_send (send_data_command c hq d s) (\<lambda>hq d s.
            and_send (send_seen_before c hq d s) (\<lambda>hq d s.
            and_send (send_lines c 0 hq d s) ?eof))) = Inr (r, hq', d', s')" by simp
    then show ?thesis
    proof (cases rule: and_send_cases)
      case (stop rc)
      from send_rcpts_effect [OF stop(1) a1] 1 show ?thesis by (blast intro: sent_trans)
    next
      case (go hq2 d2 s2)
      from send_rcpts_effect [OF go(1) a1] 1 tl [OF go(2)] show ?thesis by (blast intro: sent_trans)
    qed
  qed
qed


subsection \<open>The message arrives as it is\<close>

text \<open>What a server of this program does with the lines of the data: receive.c.\<close>

definition undot :: "string \<Rightarrow> string" where
  "undot line = (if line \<noteq> [] \<and> hd line = CHR ''.'' then tl line else line)"

fun received :: "string list \<Rightarrow> string list option" where
  "received [] = None"
| "received (line # ls) = (if line = ''.'' then Some [] else map_option ((#) (undot line)) (received ls))"

lemma undot_stuff [simp]: "undot (dot_stuff l) = l"
  by (auto simp: undot_def dot_stuff_def)

lemma dot_stuff_not_end [simp]: "dot_stuff l \<noteq> ''.''"
  by (auto simp: dot_stuff_def)

lemma received_stuffed: "received (map dot_stuff ls @ ''.'' # after) = Some ls"
  by (induction ls) simp_all

lemma snet_lines_one_line: "list_all one_line (snet_lines sn)"
proof (induction sn rule: snet_lines.induct)
  case (1 sn)
  obtain r sn1 where "snet_getline sn = (r, sn1)" by fastforce
  with 1 snet_getline_one_line [of sn] show ?case
    by (cases r) (auto simp: snet_lines.simps [of sn])
qed

lemma one_line_stuff: "one_line l \<Longrightarrow> one_line (dot_stuff l)"
  by (simp add: dot_stuff_def one_line_def line_char_def)

text \<open>
  C4: when the data of a message has been written, what was written, followed by the final
  dot, is read by a server that takes lines of that length as exactly the lines of the data
  file: no line of the message is taken for the end, and no dot is lost or added.
\<close>

theorem smtp_data_transparent:
  assumes "send_lines c tv hq d s = Inr (None, hq', d', s')" "d_snet_dfile d = Some sn"
    and "d_snet_smtp d = Some cn" "list_all (\<lambda>l. fits maxlen (dot_stuff l)) (snet_lines sn)"
    and "list_all one_line after" "list_all (fits maxlen) after"
  shows "\<exists>text. d_snet_smtp d' = Some (cn\<lparr>conn_out := conn_out cn @ text\<rparr>) \<and>
    received (snet_lines (snet_attach (text @ ''.'' @ CRLF @ with_ends CRLF after) maxlen)) = Some (snet_lines sn)"
proof -
  let ?ls = "map dot_stuff (snet_lines sn)"
  have "wrote (with_ends CRLF ?ls) d d'" using send_lines_effect [OF assms(1)] assms(2) by blast
  then have out: "d_snet_smtp d' = Some (cn\<lparr>conn_out := conn_out cn @ with_ends CRLF ?ls\<rparr>)"
    using assms(3) by (simp add: wrote_def)
  have "snet_lines (snet_attach (with_ends [CR, NL] (?ls @ ''.'' # after)) maxlen) = ?ls @ ''.'' # after"
  proof (rule snet_lines_CRLF_aux)
    show "list_all one_line (?ls @ ''.'' # after)"
      using snet_lines_one_line [of sn] assms(5)
      by (auto simp: list_all_iff one_line_stuff) (simp add: one_line_def line_char_def)
    have "fits maxlen ''.''" by (simp add: fits_def SNET_BUFLEN_def less_max_iff_disj)
    then show "list_all (fits maxlen) (?ls @ ''.'' # after)"
      using assms(4,6) by (auto simp: list_all_iff)
  qed (simp_all add: snet_attach_def)
  then have "received (snet_lines (snet_attach (with_ends CRLF ?ls @ ''.'' @ CRLF @ with_ends CRLF after) maxlen))
      = Some (snet_lines sn)"
    using received_stuffed [of "snet_lines sn" after] by (simp add: CRLF_def with_ends_append with_ends_Cons)
  with out show ?thesis by blast
qed

text \<open>A server that takes one recipient and refuses the other, and a message with a lone dot.\<close>

definition conn_ex :: "string list \<Rightarrow> smtp_conn" where
  "conn_ex ls = \<lparr>conn_in = snet_attach (with_ends CRLF ls) 0, conn_out = []\<rparr>"

definition send_ex :: deliver where
  "send_ex = (zero_deliver env_ex)\<lparr>d_snet_smtp := Some (conn_ex [''250 ok'', ''250-ok'', ''250 ok'', ''550 no'', ''354 go'', ''250 done'']),
     d_snet_dfile := Some (snet_attach (with_ends [NL] [''Subject: x'', [], ''.'', ''.end'']) 0)\<rparr>"

definition sys_empty :: sys where
  "sys_empty = \<lparr>w_names = (\<lambda>_. None), w_data = (\<lambda>_. []), w_mtime = (\<lambda>_. 0), w_locked = (\<lambda>_. False),
     w_next = 1, w_oracle = [], w_clock = [], w_pid = 42, simta_tv_now = (1000, 0), simta_fast_files = 0\<rparr>"

theorem smtp_data_transparent_witness:
  "\<exists>hq' d' s' cn text. send_lines conf_ex 0 (zero_hq ''y.z'') send_ex sys_empty = Inr (None, hq', d', s') \<and>
     d_snet_smtp d' = Some (cn\<lparr>conn_out := text\<rparr>) \<and>
     received (snet_lines (snet_attach (text @ ''.'' @ CRLF @ with_ends CRLF [''QUIT'']) 0)) =
       Some [''Subject: x'', [], ''.'', ''.end'']"
proof -
  let ?ls = "[''Subject: x'', [], ''.'', ''.end'']"
  let ?sn = "snet_attach (with_ends [NL] ?ls) 0"
  have ls: "snet_lines ?sn = ?ls" by code_simp
  have "case send_lines conf_ex 0 (zero_hq ''y.z'') send_ex sys_empty of
      Inl _ \<Rightarrow> False | Inr (r, hq, d, s) \<Rightarrow> r = None" by code_simp
  then obtain hq' d' s' where l: "send_lines conf_ex 0 (zero_hq ''y.z'') send_ex sys_empty = Inr (None, hq', d', s')"
    by (auto split: sum.splits)
  have "\<exists>cn. d_snet_smtp send_ex = Some cn \<and> conn_out cn = []" "d_snet_dfile send_ex = Some ?sn"
    by (simp_all add: send_ex_def conn_ex_def)
  then obtain cn where cn: "d_snet_smtp send_ex = Some cn" "conn_out cn = []" "d_snet_dfile send_ex = Some ?sn"
    by blast
  have "\<exists>text. d_snet_smtp d' = Some (cn\<lparr>conn_out := conn_out cn @ text\<rparr>) \<and>
      received (snet_lines (snet_attach (text @ ''.'' @ CRLF @ with_ends CRLF [''QUIT'']) 0)) = Some (snet_lines ?sn)"
    by (rule smtp_data_transparent [OF l cn(3,1)])
      (simp_all add: fits_def one_line_def line_char_def list_all_iff)
  with l ls cn(2) show ?thesis by auto
qed

text \<open>
  C12: however the conversation goes, a message whose recipients had no status before it is
  sent has afterwards as many accepted and failed recipients as are counted; nothing of the
  delivery and the queue has changed besides what talking to a server changes, no file has
  been touched, and the status of the host is what it was.
\<close>

theorem smtp_send_counts:
  assumes "smtp_send c hq d s = Inr (rc, hq', d', s')" "agree d" "unset_from 0 d"
  shows "agree d' \<and> core d' = core d \<and> core_hq hq' = core_hq hq \<and> hq_status hq' = hq_status hq \<and>
    quiet s s' \<and> (d_delivered d' = d_delivered d \<or> d_delivered d' = 1)"
  using smtp_send_effect [OF assms] by (simp add: sent_def)

theorem smtp_send_counts_witness:
  "\<exists>hq' d' s'. smtp_send conf_ex (zero_hq ''y.z'') send_ex sys_empty = Inr (SMTP_OK, hq', d', s') \<and>
     statuses d' = [R_ACCEPTED, R_FAILED] \<and> agree d' \<and> d_delivered d' = 1"
proof -
  have "case smtp_send conf_ex (zero_hq ''y.z'') send_ex sys_empty of
      Inl _ \<Rightarrow> False | Inr (rc, hq, d, s) \<Rightarrow> rc = SMTP_OK \<and> statuses d = [R_ACCEPTED, R_FAILED] \<and> d_delivered d = 1"
    by code_simp
  then obtain hq' d' s' where
    l: "smtp_send conf_ex (zero_hq ''y.z'') send_ex sys_empty = Inr (SMTP_OK, hq', d', s')"
    "statuses d' = [R_ACCEPTED, R_FAILED]" "d_delivered d' = 1"
    by (auto split: sum.splits)
  have "agree send_ex" "unset_from 0 send_ex"
    by (simp_all add: agree_def unset_from_def statuses_def send_ex_def zero_deliver_def env_ex_def
        new_recipient_def env_codes)
  from smtp_send_counts [OF l(1) this] l show ?thesis by blast
qed

subsection \<open>Replies that are too short\<close>

lemma short_consume:
  assumes "length line < 3"
  shows "\<exists>e. smtp_consume_banner err d line error s = Inl e"
proof -
  have at: "line_at line 3 = Inl OutOfBounds" using assms by (simp add: line_at_def)
  have "banner_loop lf line d s1 = Inl OutOfBounds" for lf and s1 :: "'a sys_scheme"
    by (simp add: banner_loop.simps [of lf line d s1] at)
  moreover have "banner_consume rc line d = Inl OutOfBounds" for rc
    by (simp add: banner_consume_def at)
  ultimately show ?thesis by (auto simp: smtp_consume_banner_def split: option.split prod.split)
qed

lemma short_keep:
  assumes "length line < 3"
  shows "\<exists>e. drop_text line hq d s = Inl e" "\<exists>e. keep_with_queue err line hq d s = Inl e"
    "\<exists>e. keep_with_env flag err line hq d s = Inl e" "\<exists>e. keep_with_rcpt st err line hq d s = Inl e"
proof -
  have c: "\<exists>e. smtp_consume_banner er d' line error s = Inl e" for er d' error
    by (rule short_consume [OF assms])
  show "\<exists>e. drop_text line hq d s = Inl e"
    using c [of None d "[]"] by (auto simp: drop_text_def)
  show "\<exists>e. keep_with_queue err line hq d s = Inl e"
    using c [of "Some (hq_err_text hq)" d err] by (auto simp: keep_with_queue_def)
  let ?d1 = "upd_env (\<lambda>e. e\<lparr>e_flags := set_flag (e_flags e) flag\<rparr>) d"
  show "\<exists>e. keep_with_env flag err line hq d s = Inl e"
    using c [of "Some (e_err_text (d_env ?d1))" ?d1 err] by (auto simp: keep_with_env_def Let_def)
  show "\<exists>e. keep_with_rcpt st err line hq d s = Inl e"
  proof (cases "cur_rcpt d")
    case (Some r)
    then show ?thesis
      using c [of "Some (r_err_text r)" "set_status st d" err] by (auto simp: keep_with_rcpt_def)
  qed (simp add: keep_with_rcpt_def)
qed



end
