(* ===== verification/Bounce.thy ===== *)
theory Bounce
  imports SmtpFacts
begin

section \<open>Bounces: bounce.c\<close>

text \<open>
  A message that cannot be delivered is answered by a new message from the empty sender,
  which tells what went wrong and quotes the original.  The time as \<open>strftime\<close> prints it is
  a parameter (\<open>daytime\<close>).  What is printed to a data file is not checked by the source:
  any of the prints may fail without a trace.
\<close>

subsection \<open>Collecting error text\<close>

definition text_opt :: "string option \<Rightarrow> string" where
  "text_opt t = (case t of None \<Rightarrow> [] | Some x \<Rightarrow> x)"

text \<open>One text is copied by the line list, joined texts are allocated before.\<close>

definition bounce_text :: "envelope \<Rightarrow> int \<Rightarrow> string \<Rightarrow> string option \<Rightarrow> string option \<Rightarrow>
  'a sys_scheme \<Rightarrow> (int \<times> envelope \<times> 'a sys_scheme) run" where
  "bounce_text env mode t1 t2 t3 s =
     (let env1 = (if mode \<noteq> 0 then env\<lparr>e_error := mode\<rparr> else env);
          (create_ok, s1) = (if e_err_text env = None then outcome s else (True, s))
      in if \<not> create_ok then Inr (- 1, env1, s1)
         else if t3 \<noteq> None \<and> t2 = None then Inl NullDeref
         else
           (let lf = (case e_err_text env of None \<Rightarrow> [] | Some l \<Rightarrow> l);
                copy = (t2 = None);
                (text_ok, s2) = (if copy then (True, s1) else outcome s1)
            in if \<not> text_ok then Inr (- 1, env1\<lparr>e_err_text := Some lf\<rparr>, s2)
               else
                 (let (malloc_ok, s3) = outcome s2;
                      (strdup_ok, s4) = (if copy \<and> malloc_ok then outcome s3 else (True, s3));
                      (ok, lf') = (if mode \<noteq> 0 then line_append else line_prepend) lf
                        (Some (t1 @ text_opt t2 @ text_opt t3)) copy malloc_ok strdup_ok
                  in Inr (if ok then 0 else - 1, env1\<lparr>e_err_text := Some lf'\<rparr>, s4))))"

subsection \<open>What a bounce says\<close>

definition simta_host_is_jailhost :: "conf \<Rightarrow> string \<Rightarrow> bool" where
  "simta_host_is_jailhost c host =
     (case simta_jail_host c of Some j \<Rightarrow> strcasecmp j host = 0 | None \<Rightarrow> False)"

definition host_or_jailhost :: "conf \<Rightarrow> host_q \<Rightarrow> string" where
  "host_or_jailhost c hq = (if simta_host_is_jailhost c (hq_hostname hq) then ''quarantine host'' else ''host'')"

definition old_or_jailed :: "envelope \<Rightarrow> string" where
  "old_or_jailed env = (if e_jail env = ENV_JAIL_PRISONER then ''quarantined'' else ''undeliverable'')"

definition end_line :: "string \<Rightarrow> string" where
  "end_line t = t @ [NL]"

text \<open>The header, one element for each call of \<open>fprintf\<close>.\<close>

definition bounce_to :: "conf \<Rightarrow> recipient \<Rightarrow> string" where
  "bounce_to c r = end_line (if r_rcpt r = [] then ''To: <postmaster@'' @ simta_hostname c @ ''>''
     else ''To: <'' @ r_rcpt r @ ''>'')"

definition bounce_head :: "conf \<Rightarrow> string \<Rightarrow> envelope \<Rightarrow> string list" where
  "bounce_head c daytime benv =
     end_line (''From: <mailer-daemon@'' @ simta_hostname c @ ''>'') # map (bounce_to c) (e_rcpt benv) @
     [end_line (''Date: '' @ daytime),
      end_line (''Message-ID: <'' @ e_id benv @ ''@'' @ simta_hostname c @ ''>''),
      end_line ''Subject: undeliverable mail'', end_line []]"

definition bounce_intro :: "envelope \<Rightarrow> string list" where
  "bounce_intro env =
     [''Message delivery failed for one or more recipients, '', end_line ''check specific errors below'',
      end_line []] @
     (if e_age env = ENV_AGE_OLD
      then [end_line (end_line (''This message is old and '' @ old_or_jailed env @ ''.''))] else [])"

text \<open>Why: nothing for a prisoner, the expansion, or the host with its error text.\<close>

definition bounce_host :: "conf \<Rightarrow> envelope \<Rightarrow> host_q option \<Rightarrow> string option \<Rightarrow> string list" where
  "bounce_host c env hq err =
     (if e_jail env = ENV_JAIL_PRISONER then []
      else (case hq of
          None \<Rightarrow>
            [end_line (end_line (case err of
               None \<Rightarrow> ''An error occurred during the expansion of the message recipients.'' | Some t \<Rightarrow> t))]
        | Some q \<Rightarrow>
            (case hq_err_text q of
               Some ls \<Rightarrow>
                 end_line (''The following error occurred during delivery to '' @ host_or_jailhost c q @
                   '' '' @ hq_hostname q @ '':'') # map end_line ls @ [end_line []]
             | None \<Rightarrow>
                 [end_line (end_line (''An error occurred during delivery to '' @ host_or_jailhost c q @
                   '' '' @ hq_hostname q @ ''.''))])))"

definition bounce_env_text :: "envelope \<Rightarrow> string option \<Rightarrow> string list" where
  "bounce_env_text env err =
     (case e_err_text env of
        None \<Rightarrow> []
      | Some ls \<Rightarrow>
          end_line (end_line (''The following error occurred during delivery of message '' @ e_id env @ '':'')) #
          (case err of None \<Rightarrow> [] | Some t \<Rightarrow> [end_line (end_line t)]) @ map end_line ls @ [end_line []])"

definition is_bounced :: "envelope \<Rightarrow> recipient \<Rightarrow> bool" where
  "is_bounced env r \<longleftrightarrow> has_flag (e_flags env) ENV_FLAG_BOUNCE \<or> r_status r = R_FAILED"

definition bounce_address :: "recipient \<Rightarrow> string list" where
  "bounce_address r = end_line (''address '' @ r_rcpt r) #
     (case r_err_text r of None \<Rightarrow> [] | Some ls \<Rightarrow> map end_line ls) @ [end_line []]"

definition bounce_rcpts :: "envelope \<Rightarrow> string list" where
  "bounce_rcpts env = concat (map bounce_address (filter (is_bounced env) (e_rcpt env)))"

definition bounce_quote :: "snet option \<Rightarrow> string list" where
  "bounce_quote sn = (case sn of
       None \<Rightarrow> []
     | Some m \<Rightarrow> [end_line ''Bounced message:'', end_line []] @ map end_line (snet_lines m))"

definition bounce_message :: "conf \<Rightarrow> string \<Rightarrow> envelope \<Rightarrow> envelope \<Rightarrow> snet option \<Rightarrow> host_q option \<Rightarrow>
  string option \<Rightarrow> string list" where
  "bounce_message c daytime benv env sn hq err =
     bounce_head c daytime benv @ bounce_intro env @ bounce_host c env hq err @ bounce_env_text env err @
     bounce_rcpts env @ bounce_quote sn"

subsection \<open>Making a bounce\<close>

fun fprintf_each :: "nat \<Rightarrow> string list \<Rightarrow> 'a sys_scheme \<Rightarrow> 'a sys_scheme" where
  "fprintf_each ino [] s = s"
| "fprintf_each ino (t # ts) s = fprintf_each ino ts (snd (append_data ino t s))"

text \<open>Calls in a row, up to the first that fails.\<close>

fun all_ok :: "nat \<Rightarrow> 'a sys_scheme \<Rightarrow> bool \<times> 'a sys_scheme" where
  "all_ok 0 s = (True, s)"
| "all_ok (Suc n) s = (let (ok, s1) = outcome s in if ok then all_ok n s1 else (False, s1))"

definition bounce_drop :: "envelope \<Rightarrow> 'a env_state_scheme \<Rightarrow> envelope option \<times> 'a env_state_scheme" where
  "bounce_drop benv s = (None, env_free (Some benv) s)"

definition bounce_unlink :: "envelope \<Rightarrow> 'a env_state_scheme \<Rightarrow> envelope option \<times> 'a env_state_scheme" where
  "bounce_unlink benv s = bounce_drop benv (snd (unlink (dfile benv) s))"

text \<open>
  A bounce may leave the jail, unless bounces are jailed too; it is dead if the postmaster
  is among those that failed; the sender of a prisoner may be replaced.
\<close>

definition bounce_marks :: "conf \<Rightarrow> envelope \<Rightarrow> envelope \<Rightarrow> envelope" where
  "bounce_marks c env benv =
     (let b1 = (if simta_mail_jail c \<noteq> 0 \<and> simta_bounce_jail c = 0
                then env_jail_set benv ENV_JAIL_NO_CHANGE else benv)
      in if list_ex (\<lambda>r. is_bounced env r \<and> r_rcpt r = []) (e_rcpt env)
         then b1\<lparr>e_dir := DIR_DEAD\<rparr> else b1)"

definition return_address :: "conf \<Rightarrow> envelope \<Rightarrow> string option" where
  "return_address c env =
     (if e_jail env = ENV_JAIL_PRISONER \<and> simta_jail_bounce_address c \<noteq> None
      then simta_jail_bounce_address c else e_mail env)"

text \<open>From the open data file on: \<open>fdopen\<close>, \<open>time\<close>, \<open>localtime\<close>, \<open>strftime\<close>, the text.\<close>

definition bounce_write :: "conf \<Rightarrow> envelope \<Rightarrow> nat \<Rightarrow> string list \<Rightarrow> 'a env_state_scheme \<Rightarrow>
  (envelope option \<times> 'a env_state_scheme) run" where
  "bounce_write c benv ino text s =
     (let (time_ok, s1) = all_ok 4 s
      in if \<not> time_ok then Inr (bounce_unlink benv s1)
         else
           (let (fstat_ok, s2) = outcome (fprintf_each ino text s1)
            in if \<not> fstat_ok then Inr (bounce_unlink benv s2)
               else
                 (let b = benv\<lparr>e_dinode := ino\<rparr>; (fclose_ok, s3) = outcome s2
                  in if \<not> fclose_ok then Inr (bounce_unlink b s3)
                     else and_then (env_outfile c b s3) (\<lambda>(rc, b1, s4).
                       if rc \<noteq> 0 then Inr (bounce_unlink b1 s4) else Inr (Some b1, s4)))))"

definition bounce_snet :: "conf \<Rightarrow> string \<Rightarrow> envelope \<Rightarrow> snet option \<Rightarrow> host_q option \<Rightarrow> string option \<Rightarrow>
  'a env_state_scheme \<Rightarrow> (envelope option \<times> 'a env_state_scheme) run" where
  "bounce_snet c daytime env sn hq err s =
     (case env_create c DIR_FAST None (Some []) (Some env) s of
        (None, s1) \<Rightarrow> Inr (None, s1)
      | (Some benv, s1) \<Rightarrow>
          (case env_recipient (bounce_marks c env benv) (return_address c env) s1 of
             (rc, b, s2) \<Rightarrow>
               if rc \<noteq> 0 then Inr (bounce_drop b s2)
               else (case open_excl (dfile b) s2 of
                   (None, s3) \<Rightarrow> Inr (bounce_drop b s3)
                 | (Some ino, s3) \<Rightarrow>
                     bounce_write c b ino (bounce_message c daytime b env sn hq err) s3)))"

text \<open>\<open>bounce\<close>: the whole message, quoted when \<open>body\<close> is 1.\<close>

definition bounce :: "conf \<Rightarrow> string \<Rightarrow> envelope \<Rightarrow> int \<Rightarrow> string option \<Rightarrow> 'a env_state_scheme \<Rightarrow>
  (envelope option \<times> envelope \<times> 'a env_state_scheme) run" where
  "bounce c daytime env body err s =
     (let (opened, sn, s1) =
        (if body = 1 then
           (case open_file (dfile env) s of
              (None, s1) \<Rightarrow> (False, None, s1)
            | (Some ino, s1) \<Rightarrow>
                (let (attach_ok, s2) = outcome s1
                 in (attach_ok, Some (snet_attach (w_data s2 ino) (1024 * 1024)), s2)))
         else (True, None, s))
      in if \<not> opened then Inr (None, env, s1)
         else
           (let env1 = env\<lparr>e_flags := set_flag (e_flags env) ENV_FLAG_BOUNCE\<rparr>
            in and_then (bounce_snet c daytime env1 sn None err s1) (\<lambda>(b, s2). Inr (b, env1, s2))))"

text \<open>
  The data file of an expansion error.  When the file cannot be opened, the cleanup closes a
  stream that was never set.
\<close>

definition dfile_text :: "conf \<Rightarrow> string \<Rightarrow> envelope \<Rightarrow> string list \<Rightarrow> snet option \<Rightarrow> string list" where
  "dfile_text c daytime benv ls message =
     bounce_head c daytime benv @ map end_line ls @ [end_line []] @
     (case message of None \<Rightarrow> []
      | Some m \<Rightarrow> [end_line [], end_line ''Bounced message:'', end_line []] @ map end_line (snet_lines m))"

definition dfile_close :: "envelope \<Rightarrow> nat option \<Rightarrow> 'a sys_scheme \<Rightarrow> nat \<times> envelope \<times> 'a sys_scheme" where
  "dfile_close benv result s =
     (let (fclose_ok, s1) = outcome s
      in case result of
           Some ino \<Rightarrow> if fclose_ok then (ino, benv, s1) else (case env_dfile_unlink benv s1 of (rc, b, s2) \<Rightarrow> (0, b, s2))
         | None \<Rightarrow> (case env_dfile_unlink benv s1 of (rc, b, s2) \<Rightarrow> (0, b, s2)))"

definition bounce_dfile_out :: "conf \<Rightarrow> string \<Rightarrow> envelope \<Rightarrow> snet option \<Rightarrow> 'a sys_scheme \<Rightarrow>
  (nat \<times> envelope \<times> 'a sys_scheme) run" where
  "bounce_dfile_out c daytime benv message s =
     (case env_dfile_open benv s of
        (None, b, s1) \<Rightarrow> Inl Uninit
      | (Some ino, b, s1) \<Rightarrow>
          (let (fdopen_ok, s2) = outcome s1
           in if \<not> fdopen_ok then Inr (0, b, s2)
              else
                (let (time_ok, s3) = all_ok 3 s2
                 in if \<not> time_ok then Inr (dfile_close b None s3)
                    else (case e_err_text b of
                        None \<Rightarrow> Inl NullDeref
                      | Some ls \<Rightarrow>
                          (let (fstat_ok, s4) = outcome (fprintf_each ino (dfile_text c daytime b ls message) s3)
                           in Inr (dfile_close b (if fstat_ok then Some ino else None) s4))))))"

end
