(* ===== verification/BounceFacts.thy ===== *)
theory BounceFacts
  imports Bounce
begin

section \<open>What a bounce leaves on disk, and where bounces end\<close>

text \<open>
  \<open>fs_grow\<close> says that an operation names only inodes that have been made; \<open>only_mail\<close> that
  it changes the files of one message only; \<open>same_mail\<close> that writing a command file changes
  nothing of the envelope that matters.  A bounce is complete on disk when it is returned,
  and chains of bounces end.
\<close>

subsection \<open>Names of made inodes\<close>

definition fs_ok :: "'a sys_scheme \<Rightarrow> bool" where
  "fs_ok s \<longleftrightarrow> (\<forall>p i. w_names s p = Some i \<longrightarrow> i < w_next s)"

definition fs_grow :: "'a sys_scheme \<Rightarrow> 'b sys_scheme \<Rightarrow> bool" where
  "fs_grow s s' \<longleftrightarrow> w_next s \<le> w_next s' \<and> (fs_ok s \<longrightarrow> fs_ok s')"

named_theorems grows \<open>which operations name no inode that was not made\<close>

lemma fs_grow_refl [simp]: "fs_grow s s"
  by (simp add: fs_grow_def)

lemma fs_grow_trans: "fs_grow s t \<Longrightarrow> fs_grow t u \<Longrightarrow> fs_grow s u"
  by (auto simp: fs_grow_def)

lemma fs_grow_same: "same_files s s' \<Longrightarrow> fs_grow s s'"
  by (simp add: fs_grow_def fs_ok_def same_files_def)

lemma fs_grow_fast [simp]: "fs_grow s (t\<lparr>simta_fast_files := i\<rparr>) = fs_grow s t"
  by (simp add: fs_grow_def fs_ok_def)

lemma outcome_grow [grows]: "outcome s = (b, s') \<Longrightarrow> fs_grow s s'"
  by (blast intro: fs_grow_same outcome_frame)

lemma unlink_grow [grows]: "unlink p s = (ok, s') \<Longrightarrow> fs_grow s s'"
  by (drule unlink_result) (auto simp: fs_grow_def fs_ok_def same_files_def split: if_splits)

lemma rename_grow [grows]: "rename p q s = (ok, s') \<Longrightarrow> fs_grow s s'"
  by (drule rename_result) (auto simp: fs_grow_def fs_ok_def same_files_def split: if_splits)

lemma open_excl_grow [grows]: "open_excl p s = (r, s') \<Longrightarrow> fs_grow s s'"
  by (drule open_excl_result)
    (fastforce simp: fs_grow_def fs_ok_def same_files_def less_Suc_eq split: option.splits if_splits)

lemma append_data_grow [grows]: "append_data i t s = (ok, s') \<Longrightarrow> fs_grow s s'"
  by (drule append_data_result) (auto simp: fs_grow_def fs_ok_def same_files_def)

lemma fprintf_lines_grow [grows]: "fprintf_lines tff ls s = (ok, s') \<Longrightarrow> fs_grow s s'"
  by (induction ls arbitrary: s) (auto split: prod.splits if_splits dest!: grows intro: fs_grow_trans)

lemma tfile_cleanup_grow: "tfile_cleanup e s = Inr (rc, e', s') \<Longrightarrow> fs_grow s s'"
  by (cases "unlink (tfile e) s") (auto simp: tfile_cleanup_def dest!: grows)

lemma env_tfile_grow [grows]: "env_tfile e s = Inr (rc, e', s') \<Longrightarrow> fs_grow s s'"
  by (auto simp: env_tfile_def Let_def split: if_splits prod.splits option.splits
     dest!: grows tfile_cleanup_grow) (metis fs_grow_trans fs_grow_refl)+

text \<open>What writing the command file does to the envelope.\<close>

definition same_mail :: "envelope \<Rightarrow> envelope \<Rightarrow> bool" where
  "same_mail e e' \<longleftrightarrow> e' = e\<lparr>e_flags := e_flags e', e_etime := e_etime e',
     e_env_list_entry := e_env_list_entry e', e_sender_entry := e_sender_entry e'\<rparr> \<and>
     has_flag (e_flags e') ENV_FLAG_PUNT = has_flag (e_flags e) ENV_FLAG_PUNT"

lemma bit_set_flag [simp]: "bit (set_flag w f) n \<longleftrightarrow> bit w n \<or> bit f n"
  by (simp add: set_flag_def bit_or_iff)

lemma bit_clear_flag [simp]: "bit (clear_flag w f) n \<longleftrightarrow> bit w n \<and> \<not> bit f n"
  by (auto simp: clear_flag_def bit_simps dest: bit_imp_le_length)

lemma same_mail_refl [simp]: "same_mail e e"
  by (simp add: same_mail_def)

lemma same_mail_trans: "same_mail e f \<Longrightarrow> same_mail f g \<Longrightarrow> same_mail e g"
  unfolding same_mail_def by (cases e; cases f; cases g) simp

lemma same_mail_upd [simp]:
  "same_mail e (f\<lparr>e_etime := t\<rparr>) = same_mail e f"
  "same_mail e (f\<lparr>e_env_list_entry := m\<rparr>) = same_mail e f"
  "same_mail e (f\<lparr>e_sender_entry := l\<rparr>) = same_mail e f"
  by (cases e; cases f; simp add: same_mail_def)+

lemma same_mail_paths: "same_mail e e' \<Longrightarrow> efile e' = efile e \<and> dfile e' = dfile e"
  unfolding same_mail_def env_paths by (cases e; cases e') simp

lemma env_list_add_mail: "env_list_add e s = (rc, e', s') \<Longrightarrow> same_mail e e'"
  by (auto simp: env_list_add_def Let_def split: option.splits bool.splits prod.splits if_splits)

lemma sender_list_add_mail: "sender_list_add e s = Inr (rc, e', s') \<Longrightarrow> same_mail e e'"
  by (auto simp: sender_list_add_def Let_def split: option.splits prod.splits if_splits)

lemma env_lists_add_mail:
  assumes "env_lists_add c e s = Inr (rc, e', s')"
  shows "same_mail e e'"
proof -
  obtain r1 e1 s1 where 1: "(if simta_mid_list_enable c \<noteq> 0 then env_list_add e s else (0, e, s)) = (r1, e1, s1)"
    by (metis prod.exhaust)
  then have "same_mail e e1" by (auto split: if_splits dest: env_list_add_mail)
  with assms 1 show ?thesis
    by (auto simp: env_lists_add_def split: if_splits dest!: sender_list_add_mail intro: same_mail_trans)
qed

lemma env_efile_mail:
  assumes "env_efile c e s = Inr (rc, e', s')"
  shows "same_mail e e' \<and> fs_grow s s'"
proof -
  obtain ok s1 where rn: "rename (tfile e) (efile e) s = (ok, s1)" by fastforce
  note g1 = rename_grow [OF rn]
  show ?thesis
  proof (cases ok)
    case False
    obtain u s2 where "unlink (tfile e) s1 = (u, s2)" by fastforce
    with assms rn False g1 show ?thesis
      by (auto simp: env_efile_def dest!: unlink_grow intro: fs_grow_trans)
  next
    case True
    define s2 where "s2 = (if e_dir e = DIR_FAST then s1\<lparr>simta_fast_files := simta_fast_files s1 + 1\<rparr> else s1)"
    define e2 where "e2 = e\<lparr>e_flags := set_flag (clear_flag (e_flags e) ENV_FLAG_TFILE) ENV_FLAG_EFILE\<rparr>"
    obtain tv s3 where g: "simta_gettimeofday s2 = (tv, s3)" by fastforce
    have m: "same_mail e e2" by (simp add: e2_def same_mail_def env_flags bit_flag)
    have g3: "fs_grow s s3"
      using g1 simta_gettimeofday_frame [OF g, THEN fs_grow_same] fs_grow_trans
      by (auto simp: s2_def fs_grow_def fs_ok_def split: if_splits)
    have "case tv of None \<Rightarrow> e' = e2 \<and> s' = s3
        | Some now \<Rightarrow> env_lists_add c (e2\<lparr>e_etime := fst now\<rparr>) s3 = Inr (rc, e', s')"
      using assms rn True g
      by (auto simp: env_efile_def Let_def s2_def [symmetric] e2_def [symmetric] split: option.splits)
    moreover have "same_mail e e' \<and> fs_grow s s'"
      if "env_lists_add c (e2\<lparr>e_etime := t\<rparr>) s3 = Inr (rc, e', s')" for t
    proof -
      have "same_mail e (e2\<lparr>e_etime := t\<rparr>)" using m by simp
      with that g3 show ?thesis
        using env_lists_add_mail [OF that] env_lists_add_frame [OF that, THEN fs_grow_same]
        by (blast intro: same_mail_trans fs_grow_trans)
    qed
    ultimately show ?thesis using m g3 by (auto split: option.splits)
  qed
qed

lemma env_outfile_mail:
  assumes "env_outfile c e s = Inr (rc, e', s')" "\<not> has_flag (e_flags e) ENV_FLAG_TFILE"
  shows "same_mail e e' \<and> fs_grow s s'"
proof -
  obtain rc1 e1 s1 where t: "env_tfile e s = Inr (rc1, e1, s1)"
    using assms by (auto simp: env_outfile_def)
  have "same_mail e e1" using env_tfile_result [OF t] by (auto simp: same_mail_def env_flags bit_flag split: if_splits)
  then show ?thesis
    using assms t env_tfile_grow [OF t]
    by (auto simp: env_outfile_def split: if_splits dest!: env_efile_mail
        intro: same_mail_trans fs_grow_trans)
qed

text \<open>Every name but those of one message keeps its inode, and every old inode its data.\<close>

definition only_mail :: "envelope \<Rightarrow> 'a sys_scheme \<Rightarrow> 'a sys_scheme \<Rightarrow> bool" where
  "only_mail b s s' \<longleftrightarrow> fs_grow s s' \<and> w_locked s' = w_locked s \<and>
     (\<forall>p. p \<notin> {tfile b, efile b, dfile b} \<longrightarrow> w_names s' p = w_names s p) \<and>
     (\<forall>i. i < w_next s \<longrightarrow> w_data s' i = w_data s i)"

lemma only_mail_same: "same_files s s' \<Longrightarrow> only_mail b s s'"
  by (auto simp: only_mail_def fs_grow_same) (auto simp: same_files_def)

lemma only_mail_trans: "only_mail b s t \<Longrightarrow> only_mail b t u \<Longrightarrow> only_mail b s u"
  by (auto simp: only_mail_def fs_grow_def)

lemma only_mail_paths: "efile b' = efile b \<Longrightarrow> only_mail b' s s' = only_mail b s s'"
  by (simp add: only_mail_def env_paths)

lemma fprintf_each_frame:
  "only_mail b s t \<Longrightarrow> w_next s \<le> ino \<Longrightarrow> t' = fprintf_each ino ts t \<Longrightarrow>
     only_mail b s t' \<and> w_names t' = w_names t \<and> w_next t' = w_next t \<and>
     simta_fast_files t' = simta_fast_files t \<and> sys.more t' = sys.more t"
proof (induction ts arbitrary: t)
  case (Cons x ts)
  obtain ok u where a: "append_data ino x t = (ok, u)" by fastforce
  have "only_mail b s u"
    using append_data_result [OF a] append_data_grow [OF a] Cons.prems(1,2)
    by (auto simp: only_mail_def same_files_def intro: fs_grow_trans)
  with Cons.IH [of u] Cons.prems a append_data_result [OF a] append_data_more [OF a] show ?case
    by (auto simp: same_files_def)
qed simp

lemma all_ok_quiet [quiets]: "all_ok n s = (b, s') \<Longrightarrow> quiet s s'"
  by (induction n arbitrary: s) (auto simp: Let_def split: prod.splits if_splits dest!: outcome_quiet intro: quiet_trans)

lemma quiet_only_mail: "quiet s s' \<Longrightarrow> only_mail b s s'"
  by (simp add: quiet_def only_mail_same)

text \<open>What a bounce is: from nobody, to one address, in no queue yet.\<close>

definition bounce_of :: "conf \<Rightarrow> envelope \<Rightarrow> envelope \<Rightarrow> bool" where
  "bounce_of c env b \<longleftrightarrow> e_mail b = Some [] \<and> e_rcpt b = [new_recipient (text_opt (return_address c env))] \<and>
     e_n_rcpt b = 1 \<and> e_hq b = None \<and> e_hostname b = None \<and>
     \<not> has_flag (e_flags b) ENV_FLAG_PUNT \<and>
     e_dir b = (if list_ex (\<lambda>r. is_bounced env r \<and> r_rcpt r = []) (e_rcpt env) then DIR_DEAD else DIR_FAST)"

lemma bounce_of_mail: "bounce_of c env b \<Longrightarrow> same_mail b b' \<Longrightarrow> bounce_of c env b'"
  unfolding same_mail_def bounce_of_def by (cases b; cases b') simp

lemma env_create_frame [frames]:
  assumes "env_create c dir idn mail parent s = (r, s')"
  shows "quiet s s'"
  using assms
  by (auto simp: env_create_def env_create_id_def env_sender_def Let_def
      split: prod.splits option.splits if_splits dest!: quiets intro: quiet_trans)

lemma env_recipient_quiet: "env_recipient e a s = (rc, e', s') \<Longrightarrow> quiet s s'"
  by (simp add: quiet_def env_recipient_frame env_recipient_more)

lemma bounce_drop_result: "bounce_drop b s = (r, s') \<Longrightarrow>
    r = None \<and> same_files s s' \<and> env_state.more s' = env_state.more s"
  by (auto simp: bounce_drop_def env_free_frame env_free_more)

lemma bounce_unlink_result:
  assumes "bounce_unlink b s = (r, s')"
  shows "r = None \<and> only_mail b s s' \<and> env_state.more s' = env_state.more s"
proof -
  obtain ok s1 where u: "unlink (dfile b) s = (ok, s1)" by fastforce
  have "only_mail b s s1"
    using unlink_result [OF u] unlink_grow [OF u] by (auto simp: only_mail_def same_files_def)
  moreover have "bounce_drop b s1 = (r, s')" using assms u by (simp add: bounce_unlink_def)
  ultimately show ?thesis
    using bounce_drop_result unlink_more [OF u, THEN env_state_more]
    by (metis only_mail_trans only_mail_same)
qed

lemma bounce_write_result:
  assumes "bounce_write c b ino text s = Inr (r, s')" "only_mail b s0 s" "fs_ok s0"
    and "w_next s0 \<le> ino" "w_names s (dfile b) = Some ino" "\<not> has_flag (e_flags b) ENV_FLAG_TFILE"
  shows "only_mail b s0 s' \<and> env_state.more s' = env_state.more s \<and>
    (case r of None \<Rightarrow> True
     | Some b' \<Rightarrow> same_mail (b\<lparr>e_dinode := ino\<rparr>) b' \<and> w_names s' (dfile b) = Some ino \<and>
         (\<exists>i. w_names s' (efile b) = Some i \<and> w_data s' i = efile_text (b\<lparr>e_dinode := ino\<rparr>)))"
proof -
  obtain t s1 where t: "all_ok 4 s = (t, s1)" by fastforce
  define s1' where "s1' = fprintf_each ino text s1"
  obtain f s2 where f: "outcome s1' = (f, s2)" by fastforce
  obtain g s3 where g: "outcome s2 = (g, s3)" by fastforce
  let ?b = "b\<lparr>e_dinode := ino\<rparr>"
  note q1 = all_ok_quiet [OF t] and q2 = outcome_quiet [OF f] and q3 = outcome_quiet [OF g]
  have o1: "only_mail b s0 s1" using assms(2) q1 quiet_only_mail only_mail_trans by blast
  note e = fprintf_each_frame [OF o1 assms(4) s1'_def]
  have o2: "only_mail b s0 s2" using e q2 quiet_only_mail only_mail_trans by blast
  have o3: "only_mail b s0 s3" using o2 q3 quiet_only_mail only_mail_trans by blast
  have n3: "w_names s3 = w_names s"
    using q1 q2 q3 e by (simp add: quiet_def same_files_def)
  have m: "env_state.more s1 = env_state.more s \<and> env_state.more s2 = env_state.more s \<and>
      env_state.more s3 = env_state.more s"
    using q1 q2 q3 e env_state_more by (metis quiet_def)
  have unl: ?thesis if "bounce_unlink b' u = (r, s')" "only_mail b s0 u" "efile b' = efile b"
      "env_state.more u = env_state.more s" for b' u
  proof -
    have "r = None \<and> only_mail b' u s' \<and> env_state.more s' = env_state.more u"
      by (rule bounce_unlink_result) (rule that(1))
    moreover from this have "only_mail b u s'" using only_mail_paths [OF that(3)] by blast
    ultimately show ?thesis using that(2,4) by (auto intro: only_mail_trans)
  qed
  show ?thesis
  proof (cases "t \<and> f \<and> g")
    case False
    then consider "\<not> t" | "t" "\<not> f" | "t" "f" "\<not> g" by blast
    then show ?thesis
    proof cases
      case 1
      then have "bounce_unlink b s1 = (r, s')" using assms(1) t by (simp add: bounce_write_def)
      with unl o1 m show ?thesis by blast
    next
      case 2
      then have "bounce_unlink b s2 = (r, s')"
        using assms(1) t f by (simp add: bounce_write_def s1'_def)
      with unl o2 m show ?thesis by blast
    next
      case 3
      then have "bounce_unlink ?b s3 = (r, s')"
        using assms(1) t f g by (simp add: bounce_write_def s1'_def)
      moreover have "efile ?b = efile b" by (simp add: efile_def)
      ultimately show ?thesis using unl o3 m by blast
    qed
  next
    case True
    obtain rc b1 s4 where w: "env_outfile c ?b s3 = Inr (rc, b1, s4)"
      using assms(1) t f g True by (auto simp: bounce_write_def s1'_def)
    have fl: "\<not> has_flag (e_flags ?b) ENV_FLAG_TFILE" using assms(6) by simp
    have ok3: "fs_ok s3" "w_next s0 \<le> w_next s3" using o3 assms(3) by (auto simp: only_mail_def fs_grow_def)
    have paths: "efile ?b = efile b" "tfile ?b = tfile b" "dfile ?b = dfile b" by (simp_all add: env_paths)
    have d: "dfile b \<noteq> tfile b" "dfile b \<noteq> efile b" by (simp_all add: env_paths)
    have "\<forall>i. w_names s3 (efile ?b) = Some i \<longrightarrow> i < w_next s3" using ok3 by (simp add: fs_ok_def)
    note r = env_outfile_result [OF w fl this] and mm = env_outfile_mail [OF w fl]
    have o4: "only_mail b s0 s4"
      using o3 r mm ok3 paths by (auto simp: only_mail_def intro: fs_grow_trans)
    have m4: "env_state.more s4 = env_state.more s" using env_outfile_more [OF w] m by simp
    have i1: "efile b1 = efile b" using mm same_mail_paths [of ?b b1] paths by simp
    show ?thesis
    proof (cases "rc = 0")
      case False
      then have "bounce_unlink b1 s4 = (r, s')"
        using assms(1) t f g True w by (simp add: bounce_write_def s1'_def)
      with unl o4 i1 m4 show ?thesis by blast
    next
      case rc: True
      then have "r = Some b1" "s' = s4"
        using assms(1) t f g True w by (auto simp: bounce_write_def s1'_def)
      with o4 m4 mm r rc n3 assms(5) paths d show ?thesis by auto
    qed
  qed
qed

lemma bounce_marks_fields:
  "e_dir (bounce_marks c env b) = (if list_ex (\<lambda>r. is_bounced env r \<and> r_rcpt r = []) (e_rcpt env) then DIR_DEAD else e_dir b)"
  "e_mail (bounce_marks c env b) = e_mail b" "e_rcpt (bounce_marks c env b) = e_rcpt b"
  "e_n_rcpt (bounce_marks c env b) = e_n_rcpt b" "e_hq (bounce_marks c env b) = e_hq b"
  "e_hostname (bounce_marks c env b) = e_hostname b" "e_flags (bounce_marks c env b) = e_flags b"
  by (simp_all add: bounce_marks_def env_jail_set_def Let_def)

lemma env_create_bounce:
  assumes "env_create c DIR_FAST None (Some []) (Some env) s = (Some b, s')"
  shows "e_mail b = Some [] \<and> e_rcpt b = [] \<and> e_n_rcpt b = 0 \<and> e_hq b = None \<and> e_hostname b = None \<and>
    e_flags b = 0 \<and> e_dir b = DIR_FAST"
  using assms
  by (auto simp: env_create_def env_sender_def env_inherit_def env_jail_set_def zero_env_def Let_def
      split: prod.splits option.splits if_splits)

text \<open>Whatever fails, only files of one new message change; a bounce that is returned is complete.\<close>

lemma bounce_snet_result:
  assumes "bounce_snet c daytime env sn hq err s = Inr (r, s')" "fs_ok s"
  shows "(\<exists>b. only_mail b s s' \<and> (w_names s' = w_names s \<or> w_names s (dfile b) = None)) \<and> env_state.more s' = env_state.more s \<and>
    (case r of None \<Rightarrow> True
     | Some b \<Rightarrow> bounce_of c env b \<and> w_names s (dfile b) = None \<and> only_mail b s s' \<and>
         w_names s' (dfile b) = Some (e_dinode b) \<and> w_names s' (efile b) \<noteq> None)"
proof -
  have free: "\<exists>b. only_mail b s u \<and> (w_names u = w_names s \<or> w_names s (dfile b) = None)"
    if "same_files s u" for u :: "'a env_state_scheme"
    using that only_mail_same by (auto simp: same_files_def)
  have dropped: "same_files s u \<Longrightarrow> env_state.more u = env_state.more s \<Longrightarrow> ?thesis"
    if "bounce_drop b u = (r, s')" for b u
  proof -
    assume a: "same_files s u" "env_state.more u = env_state.more s"
    from bounce_drop_result [OF that] have d: "r = None" "same_files u s'" "env_state.more s' = env_state.more u" by simp_all
    from same_files_trans [OF a(1) d(2)] free have "\<exists>b. only_mail b s s' \<and> (w_names s' = w_names s \<or> w_names s (dfile b) = None)"
      by blast
    with d a show ?thesis by simp
  qed
  obtain ob s1 where c: "env_create c DIR_FAST None (Some []) (Some env) s = (ob, s1)" by fastforce
  note q1 = env_create_frame [OF c]
  show ?thesis
  proof (cases ob)
    case None
    with assms c q1 free show ?thesis by (auto simp: bounce_snet_def quiet_def dest: env_state_more)
  next
    case (Some benv)
    obtain rc b s2 where rp: "env_recipient (bounce_marks c env benv) (return_address c env) s1 = (rc, b, s2)"
      by (metis prod.exhaust)
    note q2 = env_recipient_quiet [OF rp]
    have s2: "quiet s s2" using q1 q2 by (rule quiet_trans)
    show ?thesis
    proof (cases "rc = 0")
      case False
      then have "bounce_drop b s2 = (r, s')" using assms c Some rp by (simp add: bounce_snet_def)
      moreover have "env_state.more s2 = env_state.more s" using s2 env_state_more by (metis quiet_def)
      ultimately show ?thesis using dropped s2 by (simp add: quiet_def)
    next
      case True
      have b: "b = (bounce_marks c env benv)\<lparr>e_rcpt := [new_recipient (text_opt (return_address c env))], e_n_rcpt := 1\<rparr>"
        using rp True env_create_bounce [OF c [unfolded Some]]
        by (auto simp: env_recipient_def Let_def bounce_marks_fields text_opt_def split: prod.splits if_splits)
      have of: "bounce_of c env b" using env_create_bounce [OF c [unfolded Some]]
        by (simp add: b bounce_of_def bounce_marks_fields env_flags)
      obtain oino s3 where op: "open_excl (dfile b) s2 = (oino, s3)" by fastforce
      note o = open_excl_result [OF op]
      show ?thesis
      proof (cases oino)
        case None
        then have d: "bounce_drop b s3 = (r, s')" using assms c Some rp True op by (simp add: bounce_snet_def)
        from o None have "same_files s s3" using s2 by (auto simp: quiet_def intro: same_files_trans)
        moreover have "env_state.more s3 = env_state.more s"
          using s2 open_excl_more [OF op] env_state_more by (metis quiet_def)
        ultimately show ?thesis using dropped [OF d] by simp
      next
        case (Some ino)
        have w: "bounce_write c b ino (bounce_message c daytime b env sn hq err) s3 = Inr (r, s')"
          using assms c \<open>ob = Some benv\<close> rp True op Some by (simp add: bounce_snet_def)
        have n: "w_names s (dfile b) = None" "w_next s \<le> ino"
          using o Some s2 by (auto simp: quiet_def same_files_def)
        have o3: "only_mail b s s3"
          using o Some s2 open_excl_grow [OF op] fs_grow_same [of s s2]
          by (auto simp: only_mail_def quiet_def same_files_def intro: fs_grow_trans)
        have nm: "w_names s3 (dfile b) = Some ino" using o Some by (auto simp: same_files_def)
        have fl: "\<not> has_flag (e_flags b) ENV_FLAG_TFILE"
          using env_create_bounce [OF c [unfolded \<open>ob = Some benv\<close>]] by (simp add: b bounce_marks_fields env_flags)
        have m3: "env_state.more s3 = env_state.more s"
          using s2 open_excl_more [OF op] env_state_more by (metis quiet_def)
        note r = bounce_write_result [OF w o3 assms(2) n(2) nm fl]
        show ?thesis
        proof (cases r)
          case None
          with r m3 n show ?thesis by auto
        next
          case (Some b')
          then have sm: "same_mail (b\<lparr>e_dinode := ino\<rparr>) b'" using r by simp
          have "bounce_of c env (b\<lparr>e_dinode := ino\<rparr>)" using of by (simp add: bounce_of_def)
          then have "bounce_of c env b'" using sm bounce_of_mail by blast
          moreover have "efile b' = efile b" "dfile b' = dfile b"
            using same_mail_paths [OF sm] by (simp_all add: env_paths)
          moreover have "e_dinode b' = ino" using sm unfolding same_mail_def by (cases b') simp
          ultimately show ?thesis using r m3 n Some only_mail_paths by auto
        qed
      qed
    qed
  qed
qed

subsection \<open>What a bounce tells\<close>

lemma fprintf_each_sure:
  "w_oracle s = [] \<Longrightarrow> fprintf_each ino ts s = s\<lparr>w_data := (w_data s)(ino := w_data s ino @ concat ts)\<rparr>"
proof (induction ts arbitrary: s)
  case (Cons t ts)
  define f where "f = w_data s"
  have "fprintf_each ino (t # ts) s = fprintf_each ino ts (s\<lparr>w_data := f(ino := f ino @ t)\<rparr>)"
    using Cons.prems by (simp add: append_data_def f_def)
  also have "\<dots> = s\<lparr>w_data := f(ino := f ino @ t @ concat ts)\<rparr>"
    using Cons.prems by (subst Cons.IH) simp_all
  finally show ?case by (simp add: f_def fun_upd_def cong: if_cong)
qed simp

lemma all_ok_sure: "w_oracle s = [] \<Longrightarrow> all_ok n s = (True, s)"
  by (induction n) simp_all

text \<open>No file has the name of a message that is made from now on.\<close>

definition names_fresh :: "'a sys_scheme \<Rightarrow> bool" where
  "names_fresh s \<longleftrightarrow> (\<forall>dir k tv. tv_less (simta_tv_now s) tv \<longrightarrow> w_names s (dir, k # queue_id tv (w_pid s)) = None)"

lemma bounce_snet_sure:
  assumes "w_oracle s = []" "names_fresh s" "fs_ok s" "w_next s \<noteq> 0" "0 \<le> w_pid s"
    and "simta_mid_list_enable c = 0" "simta_sender_list_enable c = 0"
  shows "\<exists>b s'. bounce_snet c daytime env sn hq err s = Inr (Some b, s') \<and>
    w_names s' (dfile b) = Some (e_dinode b) \<and> w_names s' (efile b) \<noteq> None \<and>
    w_data s' (e_dinode b) = concat (bounce_message c daytime b env sn hq err)"
proof -
  obtain tv s1 where g: "simta_gettimeofday s = (Some tv, s1)" "same_files s s1" "w_oracle s1 = []"
    using simta_gettimeofday_sure [OF assms(1)] by auto
  have pid: "w_pid s1 = w_pid s" "w_names s1 = w_names s" "w_next s1 = w_next s" using g(2) by (simp_all add: same_files_def)
  define i where "i = queue_id tv (w_pid s)"
  define b0 where "b0 = env_inherit c (Some env) ((zero_env DIR_FAST i)\<lparr>e_mail := Some []\<rparr>)"
  have "env_create c DIR_FAST None (Some []) (Some env) s = (Some b0, s1)"
    using assms(1,5) g pid by (simp add: env_create_def env_create_id_def env_sender_def b0_def i_def zero_env_def)
  moreover define b where "b = (bounce_marks c env b0)\<lparr>e_rcpt := [new_recipient (text_opt (return_address c env))], e_n_rcpt := 1\<rparr>"
  moreover have b0: "e_rcpt b0 = []" "e_n_rcpt b0 = 0" "e_id b0 = i" "e_flags b0 = 0"
    by (simp_all add: b0_def env_inherit_def env_jail_set_def zero_env_def)
  then have "env_recipient (bounce_marks c env b0) (return_address c env) s1 = (0, b, s1)"
    using g(3) by (simp add: env_recipient_def b_def bounce_marks_fields text_opt_def)
  moreover have bi: "e_id b = i" "e_flags b = 0" "e_rcpt b \<noteq> []" using b0
    by (simp_all add: b_def bounce_marks_def env_jail_set_def Let_def)
  have fresh: "w_names s1 (dir, k # i) = None" for dir k
    using assms(2) simta_gettimeofday_later [OF g(1)] by (simp add: names_fresh_def pid i_def)
  define ino where "ino = w_next s1"
  define s2 where "s2 = s1\<lparr>w_names := (w_names s1)(dfile b \<mapsto> ino), w_data := (w_data s1)(ino := []), w_next := Suc ino\<rparr>"
  have "open_excl (dfile b) s1 = (Some ino, s2)"
    using fresh g(3) bi by (simp add: open_excl_def s2_def ino_def dfile_def)
  ultimately have bs: "bounce_snet c daytime env sn hq err s = bounce_write c b ino (bounce_message c daytime b env sn hq err) s2"
    by (simp add: bounce_snet_def)
  define msg where "msg = bounce_message c daytime b env sn hq err"
  define s3 where "s3 = s2\<lparr>w_data := (w_data s2)(ino := w_data s2 ino @ concat msg)\<rparr>"
  have o2: "w_oracle s2 = []" using g(3) by (simp add: s2_def)
  have o3: "w_oracle s3 = []" using o2 by (simp add: s3_def)
  let ?b = "b\<lparr>e_dinode := ino\<rparr>"
  have pf: "dfile b = (e_dir b, CHR ''D'' # i)" "tfile (b\<lparr>e_dinode := n\<rparr>) = (e_dir b, CHR ''t'' # i)"
    "efile (b\<lparr>e_dinode := n\<rparr>) = (e_dir b, CHR ''E'' # i)" for n using bi by (simp_all add: env_paths)
  have n3: "w_names s3 = (w_names s1)(dfile b \<mapsto> ino)" "w_next s3 = Suc ino" "w_data s3 ino = concat msg"
    by (simp_all add: s3_def s2_def)
  have "writable ?b s3"
    using o3 fresh bi assms(4) by (simp add: writable_def n3 pf ino_def pid has_flag_def)
  from env_outfile_sure [OF this assms(6,7)] obtain t f s4 where
    w: "env_outfile c ?b s3 = Inr (0, ?b\<lparr>e_etime := t, e_flags := f\<rparr>, s4)" by auto
  have fl: "\<not> has_flag (e_flags ?b) ENV_FLAG_TFILE" using bi by (simp add: has_flag_def)
  have "\<forall>j. w_names s3 (efile ?b) = Some j \<longrightarrow> j < w_next s3" using fresh by (simp add: n3 pf)
  note r = env_outfile_result [OF w fl this]
  have "bounce_write c b ino msg s2 = Inr (Some (?b\<lparr>e_etime := t, e_flags := f\<rparr>), s4)"
    using w by (simp add: bounce_write_def all_ok_sure o2 fprintf_each_sure [OF o2] s3_def [symmetric] o3)
  moreover have "bounce_message c daytime (?b\<lparr>e_etime := t, e_flags := f\<rparr>) env sn hq err = msg"
    by (simp add: msg_def bounce_message_def bounce_head_def)
  moreover have "w_names s4 (dfile b) = Some ino" "w_data s4 ino = concat msg" "w_names s4 (efile ?b) \<noteq> None"
    using r n3 by (auto simp: pf)
  ultimately show ?thesis using bs by (auto simp: msg_def env_paths)
qed

subsection \<open>Chains of bounces\<close>

text \<open>
  C9: bounces do not go on for ever.  The bounce of a bounce goes to the empty address, and
  the bounce of that is put in the dead directory, from which nothing is delivered: it is in
  no queue and queueing it changes nothing.  \<open>e1\<close> and \<open>e2\<close> are the bounces as delivery has
  left them, with every recipient bounced; they are no prisoners whose bounces go to an
  address of the jail.
\<close>

theorem bounce_chain_ends:
  assumes "bounce_snet c t0 e0 sn0 hq0 err0 s0 = Inr (Some b1, s0')" "fs_ok s0"
    and "bounce_snet c t1 e1 sn1 hq1 err1 s1 = Inr (Some b2, s1')" "fs_ok s1"
    and "bounce_snet c t2 e2 sn2 hq2 err2 s2 = Inr (Some b3, s2')" "fs_ok s2"
    and "e_mail e1 = e_mail b1" "map r_rcpt (e_rcpt e2) = map r_rcpt (e_rcpt b2)"
    and "list_ex (is_bounced e2) (e_rcpt e2)"
    and "simta_jail_bounce_address c = None \<or> e_jail e1 \<noteq> ENV_JAIL_PRISONER"
  shows "map r_rcpt (e_rcpt b2) = [''''] \<and> e_dir b3 = DIR_DEAD \<and> e_hq b3 = None \<and>
    queue_envelope c b3 (q :: q_state) = Inr (0, b3, q)"
proof -
  have b: "bounce_of c e0 b1" "bounce_of c e1 b2" "bounce_of c e2 b3"
    using bounce_snet_result [OF assms(1,2)] bounce_snet_result [OF assms(3,4)]
      bounce_snet_result [OF assms(5,6)] by simp_all
  then have "return_address c e1 = Some []"
    using assms(7,10) by (auto simp: return_address_def bounce_of_def)
  with b(2) have rcpt: "map r_rcpt (e_rcpt b2) = ['''']"
    by (simp add: bounce_of_def new_recipient_def text_opt_def)
  then have "list_ex (\<lambda>r. is_bounced e2 r \<and> r_rcpt r = []) (e_rcpt e2)"
    using assms(8,9) by (auto simp: list_ex_iff map_eq_Cons_conv)
  with b(3) have "e_dir b3 = DIR_DEAD" "e_hq b3 = None" by (simp_all add: bounce_of_def)
  with rcpt show ?thesis by (simp add: queue_envelope_def)
qed


definition bounced_ex :: "envelope \<Rightarrow> envelope" where
  "bounced_ex e = e\<lparr>e_flags := set_flag (e_flags e) ENV_FLAG_BOUNCE\<rparr>"

lemma bounce_env_ex:
  "fs_ok (env_state_ex [])"
  "\<exists>b s'. bounce_snet conf_ex t (bounced_ex e) None None None (env_state_ex []) = Inr (Some b, s')"
proof -
  show "fs_ok (env_state_ex [])" by (simp add: fs_ok_def env_state_ex_def)
  then show "\<exists>b s'. bounce_snet conf_ex t (bounced_ex e) None None None (env_state_ex []) = Inr (Some b, s')"
    using bounce_snet_sure [of "env_state_ex []" conf_ex t "bounced_ex e" None None None]
    by (auto simp: names_fresh_def env_state_ex_def conf_ex_def)
qed


theorem bounce_chain_ends_witness:
  "\<exists>b1 b2 b3 s1 s2 s3.
     bounce_snet conf_ex ''Mon'' (bounced_ex env_ex) None None None (env_state_ex []) = Inr (Some b1, s1) \<and>
     bounce_snet conf_ex ''Tue'' (bounced_ex b1) None None None (env_state_ex []) = Inr (Some b2, s2) \<and>
     bounce_snet conf_ex ''Wed'' (bounced_ex b2) None None None (env_state_ex []) = Inr (Some b3, s3) \<and>
     map r_rcpt (e_rcpt b2) = [''''] \<and> e_dir b3 = DIR_DEAD"
proof -
  note fs = bounce_env_ex(1)
  obtain b1 s1 where 1: "bounce_snet conf_ex ''Mon'' (bounced_ex env_ex) None None None (env_state_ex []) = Inr (Some b1, s1)"
    using bounce_env_ex(2) by blast
  obtain b2 s2 where 2: "bounce_snet conf_ex ''Tue'' (bounced_ex b1) None None None (env_state_ex []) = Inr (Some b2, s2)"
    using bounce_env_ex(2) by blast
  obtain b3 s3 where 3: "bounce_snet conf_ex ''Wed'' (bounced_ex b2) None None None (env_state_ex []) = Inr (Some b3, s3)"
    using bounce_env_ex(2) by blast
  have "bounce_of conf_ex (bounced_ex b1) b2" using bounce_snet_result [OF 2 fs] by simp
  then have ne: "e_rcpt (bounced_ex b2) \<noteq> []" by (simp add: bounce_of_def bounced_ex_def)
  have "map r_rcpt (e_rcpt b2) = [''''] \<and> e_dir b3 = DIR_DEAD \<and> e_hq b3 = None \<and>
      queue_envelope conf_ex b3 (q_state_ex Map.empty []) = Inr (0, b3, q_state_ex Map.empty [])"
    by (rule bounce_chain_ends [OF 1 fs 2 fs 3 fs])
      (use ne in \<open>auto simp: bounced_ex_def is_bounced_def env_flags bit_flag list_ex_iff neq_Nil_conv conf_ex_def\<close>)
  with 1 2 3 show ?thesis by metis
qed

end
