(* ===== verification/Deliver.thy ===== *)
theory Deliver
  imports BounceFacts DnsHost
begin

section \<open>Delivering a message: ml.c and queue.c, deliver\_local and deliver\_remote\<close>

text \<open>
  One message, to a program of this host or to a server.  A program that is started is its
  output and the way it ends, the next of \<open>w_children\<close>; a connection is the next of
  \<open>w_peers\<close>.
\<close>

subsection \<open>The local program\<close>

definition EX_TEMPFAIL :: int where "EX_TEMPFAIL = 75"
definition EX_DATAERR :: int where "EX_DATAERR = 65"
definition EX_NOUSER :: int where "EX_NOUSER = 67"

lemmas ex_codes = EX_TEMPFAIL_def EX_DATAERR_def EX_NOUSER_def

text \<open>
  The arguments the child runs the program with; NULL among them ends them.  A recipient
  without \<open>@\<close> leaves the domain pointing nowhere, so that \<open>execv\<close> fails when it is used
  (None).
\<close>

definition deliver_var :: "deliver \<Rightarrow> recipient \<Rightarrow> string \<Rightarrow> string option option" where
  "deliver_var d r arg =
     (let addr = r_rcpt r; at = CHR ''@'' \<in> set addr
      in if arg = ''$S'' then Some (e_mail (d_env d))
         else if arg = ''$R'' then Some (Some (if at then takeWhile (\<lambda>x. x \<noteq> CHR ''@'') addr else ''postmaster''))
         else if arg = ''$D'' then (if at then Some (Some (tl (dropWhile (\<lambda>x. x \<noteq> CHR ''@'') addr))) else None)
         else Some (Some arg))"

definition after_slash :: "string \<Rightarrow> string" where
  "after_slash binary =
     (if CHR ''/'' \<in> set binary
      then CHR ''/'' # rev (takeWhile (\<lambda>x. x \<noteq> CHR ''/'') (rev binary)) else binary)"

definition deliver_exec :: "deliver \<Rightarrow> recipient \<Rightarrow> string list \<Rightarrow> (string \<times> string list) option" where
  "deliver_exec d r argv =
     (case argv of
        [] \<Rightarrow> None
      | binary # args \<Rightarrow>
          (let vars = map (deliver_var d r) args
           in if None \<in> set vars then None
              else Some (binary, after_slash binary # map the (takeWhile (\<lambda>a. a \<noteq> None) (map the vars)))))"

text \<open>What the program prints is kept with the recipient.\<close>

fun keep_output :: "string list \<Rightarrow> deliver \<Rightarrow> 'a sys_scheme \<Rightarrow> (bool \<times> deliver \<times> 'a sys_scheme) run" where
  "keep_output [] d s = Inr (True, d, s)"
| "keep_output (l # ls) d s =
     (case cur_rcpt d of
        None \<Rightarrow> Inl NullDeref
      | Some r \<Rightarrow>
          (let (create_ok, s1) = (if r_err_text r = None then outcome s else (True, s))
           in if \<not> create_ok then Inr (False, d, s1)
              else (case append_copy (case r_err_text r of None \<Rightarrow> [] | Some lf \<Rightarrow> lf) l s1 of
                  (ok, lf', s2) \<Rightarrow>
                    (let d1 = upd_rcpt (\<lambda>r. r\<lparr>r_err_text := Some lf'\<rparr>) d
                     in if ok then keep_output ls d1 s2 else Inr (False, d1, s2)))))"

definition next_child :: "'a net_state_scheme \<Rightarrow> string \<times> wait_status \<times> 'a net_state_scheme" where
  "next_child s = (case w_children s of
       [] \<Rightarrow> ([], Killed, s)
     | (out, st) # cs \<Rightarrow> (out, st, s\<lparr>w_children := cs\<rparr>))"

text \<open>
  A failed \<open>waitpid\<close> whose error is \<open>ECHILD\<close> (the second outcome is false) leaves the status
  unset and goes on to look at it.
\<close>

definition deliver_wait :: "wait_status \<Rightarrow> 'a sys_scheme \<Rightarrow> (int \<times> 'a sys_scheme) run" where
  "deliver_wait st s =
     (let (wait_ok, s1) = outcome s
      in if wait_ok then Inr (case st of Exited n \<Rightarrow> n | Killed \<Rightarrow> EX_TEMPFAIL, s1)
         else (let (other_error, s2) = outcome s1
               in if other_error then Inr (EX_TEMPFAIL, s2) else Inl Uninit))"

definition deliver_binary :: "deliver \<Rightarrow> 'a net_state_scheme \<Rightarrow> (int \<times> deliver \<times> 'a net_state_scheme) run" where
  "deliver_binary d s =
     (let (pipe_ok, s1) = outcome s
      in if \<not> pipe_ok then Inr (EX_TEMPFAIL, d, s1)
         else
           (let (tv, s2) = simta_gettimeofday s1; (fork_ok, s3) = outcome s2
            in if \<not> fork_ok then Inr (EX_TEMPFAIL, d, s3)
               else (case next_child s3 of
                   (out, st, s4) \<Rightarrow>
                     (let (setup_ok, s5) = all_ok 2 s4
                      in if \<not> setup_ok then Inr (EX_TEMPFAIL, d, s5)
                         else and_then (keep_output (snet_lines (snet_attach out (1024 * 1024))) d s5)
                           (\<lambda>(kept, d1, s6).
                              if \<not> kept then Inr (EX_TEMPFAIL, d1, s6)
                              else (let (close_ok, s7) = outcome s6
                                    in if \<not> close_ok then Inr (EX_TEMPFAIL, d1, s7)
                                       else and_then (deliver_wait st s7) (\<lambda>(rc, s8). Inr (rc, d1, s8))))))))"

definition deliver_args :: "conf \<Rightarrow> deliver \<Rightarrow> deliver" where
  "deliver_args c d =
     (if d_deliver_argc d = 0
      then d\<lparr>d_deliver_argc := int (length (simta_deliver_default_argv c)),
             d_deliver_argv := Some (simta_deliver_default_argv c)\<rparr>
      else d)"

definition ml_status :: "int \<Rightarrow> int" where
  "ml_status ml_error = (if ml_error = 0 then R_ACCEPTED
     else if ml_error = EX_DATAERR \<or> ml_error = EX_NOUSER then R_FAILED else R_TEMPFAIL)"

text \<open>The recipients from the \<open>i\<close>-th on.\<close>

fun local_rcpts :: "conf \<Rightarrow> nat \<Rightarrow> nat \<Rightarrow> deliver \<Rightarrow> 'a net_state_scheme \<Rightarrow> (deliver \<times> 'a net_state_scheme) run" where
  "local_rcpts c i 0 d s = Inr (d\<lparr>d_rcpt := None\<rparr>, s)"
| "local_rcpts c i (Suc n) d s =
     (let d1 = d\<lparr>d_rcpt := Some i\<rparr>; (lseek_ok, s1) = outcome s
      in and_then (if lseek_ok then deliver_binary (deliver_args c d1) s1 else Inr (EX_TEMPFAIL, d1, s1))
           (\<lambda>(ml_error, d2, s2). local_rcpts c (Suc i) n (set_status (ml_status ml_error) d2) s2))"

definition deliver_local :: "conf \<Rightarrow> deliver \<Rightarrow> 'a net_state_scheme \<Rightarrow> (deliver \<times> 'a net_state_scheme) run" where
  "deliver_local c d s =
     and_then (local_rcpts c 0 (length (e_rcpt (d_env d))) d s)
       (\<lambda>(d1, s1). Inr (d1\<lparr>d_delivered := 1\<rparr>, s1))"

subsection \<open>The remote server\<close>

text \<open>\<open>socket\<close>, \<open>connect\<close>, \<open>snet_attach\<close>.\<close>

definition open_conn :: "deliver \<Rightarrow> 'a net_state_scheme \<Rightarrow> bool \<times> deliver \<times> 'a net_state_scheme" where
  "open_conn d s =
     (let (socket_ok, s1) = outcome s
      in if \<not> socket_ok then (False, d, s1)
         else
           (let (connect_ok, s2) = outcome s1
            in if \<not> connect_ok then (False, d, s2)
               else (case w_peers s2 of
                   [] \<Rightarrow> (False, d, s2)
                 | peer # peers \<Rightarrow>
                     (let (attach_ok, s3) = outcome (s2\<lparr>w_peers := peers\<rparr>)
                      in if \<not> attach_ok then (False, d, s3)
                         else (True, d\<lparr>d_snet_smtp := Some \<lparr>conn_in = peer, conn_out = []\<rparr>\<rparr>,
                               s3\<lparr>simta_smtp_outbound_attempts := simta_smtp_outbound_attempts s3 + 1\<rparr>)))))"

text \<open>How the loop goes on: it returns, starts again, or has a connection with a first result.\<close>

datatype remote_go = Return | Again | Talk int

definition remote_setup :: "conf \<Rightarrow> host_q \<Rightarrow> deliver \<Rightarrow> 'a net_state_scheme \<Rightarrow>
  (remote_go \<times> host_q \<times> deliver \<times> 'a net_state_scheme) run" where
  "remote_setup c hq d s =
     (if d_snet_smtp d = None then
        and_then (next_dnsr_host_lookup c d hq s) (\<lambda>(rc, d1, hq1, s1).
          if rc \<noteq> 0 then Inr (Return, hq1, d1, s1)
          else (case open_conn d1 s1 of
              (ok, d2, s2) \<Rightarrow>
                if \<not> ok then Inr (Again, hq1, d2, s2)
                else and_then (smtp_connect c (hq_clear_errors hq1) d2 s2)
                       (\<lambda>(r, hq3, d3, s3). Inr (Talk r, hq3, d3, s3))))
      else and_then (smtp_rset c hq d s) (\<lambda>(r, hq1, d1, s1). Inr (Talk r, hq1, d1, s1)))"

text \<open>The data file from its start: around the reader's buffer.\<close>

definition rewind_dfile :: "deliver \<Rightarrow> 'a net_state_scheme \<Rightarrow> (deliver \<times> 'a net_state_scheme) run" where
  "rewind_dfile d s =
     (case d_snet_dfile d of
        None \<Rightarrow> Inr (d, s)
      | Some sn \<Rightarrow>
          (let (k, s1) = readahead s
           in and_then (snet_rewind k (w_data s1 (d_dfile_fd d)) sn)
                (\<lambda>sn'. Inr (d\<lparr>d_snet_dfile := Some sn'\<rparr>, s1))))"

definition fresh_counts :: "deliver \<Rightarrow> deliver" where
  "fresh_counts d = (upd_env env_clear_errors d)\<lparr>d_n_rcpt_accepted := 0, d_n_rcpt_failed := 0,
     d_n_rcpt_tempfailed := 0, d_sent := 0\<rparr>"

text \<open>From the jump to \<open>smtp_cleanup\<close>: whether to go on, with the data file rewound.\<close>

definition remote_cleanup :: "conf \<Rightarrow> int \<Rightarrow> bool \<Rightarrow> host_q \<Rightarrow> deliver \<Rightarrow> 'a net_state_scheme \<Rightarrow>
  (bool \<times> bool \<times> host_q \<times> deliver \<times> 'a net_state_scheme) run" where
  "remote_cleanup c r_smtp mv hq d s =
     and_then (if r_smtp = SMTP_ERROR then smtp_quit c hq d s else Inr (hq, d, s)) (\<lambda>(hq1, d1, s1).
       let d2 = d1\<lparr>d_snet_smtp := None\<rparr>;
           again = (\<lambda>hq2. let (lseek_ok, s2) = outcome s1
              in if \<not> lseek_ok then Inr (False, mv, hq2, d2, s2)
                 else and_then (rewind_dfile d2 s2) (\<lambda>(d3, s3). Inr (True, mv, hq2, d3, s3)))
       in if hq_status hq1 = HOST_PUNT_DOWN then again (hq_clear_errors hq1)
          else if hq_status hq1 = HOST_BOUNCE then Inr (False, mv, hq1, d2, s1)
          else if hq_status hq1 = HOST_DOWN \<and> mv then Inr (False, mv, hq1\<lparr>hq_status := HOST_MX\<rparr>, d2, s1)
          else again hq1)"

definition remote_moved :: "deliver \<Rightarrow> bool" where
  "remote_moved d \<longleftrightarrow> d_n_rcpt_failed d \<noteq> 0 \<or> (d_delivered d \<noteq> 0 \<and> d_n_rcpt_accepted d \<noteq> 0)"

definition remote_done :: "host_q \<Rightarrow> deliver \<Rightarrow> (host_q \<times> deliver) run" where
  "remote_done hq d =
     (if hq_status hq = HOST_DOWN then Inr (hq\<lparr>hq_status := HOST_MX\<rparr>, d)
      else if hq_status hq = HOST_PUNT_DOWN
      then Inr (hq\<lparr>hq_status := HOST_PUNT\<rparr>, upd_env env_clear_errors d)
      else Inl Panicked)"

text \<open>The message over a connection that is ready.\<close>

definition remote_send :: "conf \<Rightarrow> bool \<Rightarrow> host_q \<Rightarrow> deliver \<Rightarrow> 'a net_state_scheme \<Rightarrow>
  (bool \<times> bool \<times> host_q \<times> deliver \<times> 'a net_state_scheme) run" where
  "remote_send c mv hq d s =
     (let (lseek_ok, s1) = outcome s
      in if \<not> lseek_ok then Inl Panicked
         else
           and_then (rewind_dfile (fresh_counts d) s1) (\<lambda>(d1, s2).
           and_then (smtp_send c hq d1 s2) (\<lambda>(r_smtp, hq1, d2, s3).
             let moved = remote_moved d2;
                 d3 = (if moved then d2\<lparr>d_queue_movement := 1\<rparr> else d2);
                 s4 = (if moved then snd (simta_gettimeofday
                         (s3\<lparr>simta_smtp_outbound_delivered := simta_smtp_outbound_delivered s3 + 1\<rparr>)) else s3)
             in if r_smtp = SMTP_OK
                then and_then (remote_done hq1 d3) (\<lambda>(hq2, d4). Inr (False, mv \<or> moved, hq2, d4, s4))
                else remote_cleanup c r_smtp (mv \<or> moved) hq1 d3 s4)))"

definition remote_step :: "conf \<Rightarrow> bool \<Rightarrow> host_q \<Rightarrow> deliver \<Rightarrow> 'a net_state_scheme \<Rightarrow>
  (bool \<times> bool \<times> host_q \<times> deliver \<times> 'a net_state_scheme) run" where
  "remote_step c mv hq d s =
     and_then (remote_setup c hq d s) (\<lambda>(go, hq1, d1, s1). case go of
         Return \<Rightarrow> Inr (False, mv, hq1, d1, s1)
       | Again \<Rightarrow> Inr (True, mv, hq1, d1, s1)
       | Talk r \<Rightarrow> if r = SMTP_OK then remote_send c mv hq1 d1 s1 else remote_cleanup c r mv hq1 d1 s1)"

end
