(* ===== verification/Remote.thy ===== *)
theory Remote
  imports Deliver
begin

section \<open>Remote delivery ends: the loop of queue.c, deliver\_remote\<close>

text \<open>
  Every turn of the loop uses up a connection, or closes the one it has, or gets on in the
  search for an address; so the loop ends, and its function is total.  \<open>base\<close> is what of a
  delivery no attempt touches, \<open>calm\<close> says that an operation leaves files and queues alone.
\<close>

subsection \<open>The search for an address gets on\<close>

definition ip_left :: "deliver \<Rightarrow> nat" where
  "ip_left d = (case d_dnsr_result_ip d of None \<Rightarrow> 0
     | Some answers \<Rightarrow> Suc (nat (int (length answers) - d_cur_dnsr_result_ip d)))"

text \<open>The current retry entry is not in the list.\<close>

definition stale :: "deliver \<Rightarrow> bool" where
  "stale d \<longleftrightarrow> (case d_retry_cur d of None \<Rightarrow> False | Some i \<Rightarrow> length (d_retry_list d) \<le> i)"

definition walk_less :: "deliver \<Rightarrow> deliver \<Rightarrow> bool" where
  "walk_less d' d \<longleftrightarrow> (d', d) \<in> measures [\<lambda>d. flag_of (d_dnsr_result d = None), mx_left, ip_left,
     \<lambda>d. length (d_retry_list d), \<lambda>d. flag_of (d_retry_cur d = None), \<lambda>d. flag_of (stale d)]"

lemma walk_less_trans: "walk_less d e \<Longrightarrow> walk_less e f \<Longrightarrow> walk_less d f"
proof -
  have "trans (measures [\<lambda>d. flag_of (d_dnsr_result d = None), mx_left, ip_left,
     \<lambda>d. length (d_retry_list d), \<lambda>d. flag_of (d_retry_cur d = None), \<lambda>d. flag_of (stale d)])"
    unfolding measures_def by (intro trans_inv_image lex_transI trans_less_than)
  then show "walk_less d e \<Longrightarrow> walk_less e f \<Longrightarrow> walk_less d f"
    unfolding walk_less_def by (rule transD)
qed

lemma ip_left_set [simp]: "ip_left (d\<lparr>d_dnsr_result_ip := None\<rparr>) = 0"
  by (simp add: ip_left_def)

lemma mx_left_set [simp]: "mx_left (d\<lparr>d_dnsr_result_ip := x\<rparr>) = mx_left d"
  "mx_left (d\<lparr>d_retry_cur := y\<rparr>) = mx_left d" "mx_left (d\<lparr>d_retry_list := l\<rparr>) = mx_left d"
  "mx_left (d\<lparr>d_queue_movement := q\<rparr>) = mx_left d" "mx_left (sin_of ip d) = mx_left d"
  by (cases "d_dnsr_result d"; simp add: mx_left_def sin_of_def)+

lemma ip_left_same [simp]: "ip_left (d\<lparr>d_retry_cur := y\<rparr>) = ip_left d" "ip_left (d\<lparr>d_retry_list := l\<rparr>) = ip_left d"
  "ip_left (d\<lparr>d_queue_movement := q\<rparr>) = ip_left d" "ip_left (sin_of ip d) = ip_left d"
  by (cases "d_dnsr_result_ip d"; simp add: ip_left_def sin_of_def)+

lemma sin_of_same [simp]: "d_dnsr_result (sin_of ip d) = d_dnsr_result d"
  "d_dnsr_result_ip (sin_of ip d) = d_dnsr_result_ip d" "d_retry_list (sin_of ip d) = d_retry_list d"
  "d_retry_cur (sin_of ip d) = d_retry_cur d" "stale (sin_of ip d) = stale d"
  "d_queue_movement (sin_of ip d) = d_queue_movement d"
  by (cases "d_retry_cur d"; simp add: sin_of_def stale_def)+

lemma walk_less_moved [simp]: "walk_less (d\<lparr>d_queue_movement := q\<rparr>) e = walk_less d e"
proof -
  have "stale (d\<lparr>d_queue_movement := q\<rparr>) = stale d" by (cases "d_retry_cur d") (simp_all add: stale_def)
  then show ?thesis by (simp add: walk_less_def)
qed

lemma ip_loop_ahead:
  "ip_loop d rrs = (found, d') \<Longrightarrow> d_cur_dnsr_result_ip d \<le> d_cur_dnsr_result_ip d' \<and> (found \<longrightarrow> rrs \<noteq> [])"
  by (induction d rrs rule: ip_loop.induct) (auto simp: Let_def sin_of_def split: if_splits)

lemma dns_exhausted_walk:
  assumes "dns_exhausted d = Inr (0, d')"
  shows "same_walk d d' \<and> d_retry_list d' = d_retry_list d \<and> d_retry_cur d' = Some 0 \<and> ip_left d' = ip_left d"
proof -
  have r: "dns_retry (d\<lparr>d_retry_cur := Some 0\<rparr>) = Inr (0, d')"
    using assms by (simp add: dns_exhausted_def split: if_splits)
  then have "ip_left d' = ip_left d"
    by (cases "d_dnsr_result_ip d") (auto simp: dns_retry_def split: option.splits if_splits)
  with r dns_exhausted_result [OF assms] dns_retry_cur [OF r] show ?thesis by simp
qed

lemma dns_retry_next_less:
  assumes "dns_retry_next d i = Inr (0, d')" "d_queue_movement d = 0" "d_retry_cur d = Some i"
  shows "walk_less d' d"
proof -
  let ?d1 = "connection_data_free d i"
  obtain j where r: "dns_retry (?d1\<lparr>d_retry_cur := Some j\<rparr>) = Inr (0, d')"
  proof (cases "d_retry_cur ?d1")
    case None
    with assms have "dns_retry (?d1\<lparr>d_retry_cur := Some 0\<rparr>) = Inr (0, d')"
      by (simp add: dns_retry_next_def Let_def split: if_splits)
    then show ?thesis by (rule that)
  next
    case (Some k)
    with assms have "dns_retry ?d1 = Inr (0, d')" by (simp add: dns_retry_next_def Let_def)
    moreover have "?d1\<lparr>d_retry_cur := Some k\<rparr> = ?d1" using Some by simp
    ultimately show ?thesis using that by metis
  qed
  define rest where "rest = take i (d_retry_list d) @ drop (Suc i) (d_retry_list d)"
  from r have d': "d' = sin_of (rest ! j) (d\<lparr>d_retry_list := rest, d_retry_cur := Some j\<rparr>)" "j < length rest"
    by (auto simp: dns_retry_def connection_data_free_def rest_def Let_def split: if_splits)
  then have "mx_left d' = mx_left d" "ip_left d' = ip_left d" "d_dnsr_result d' = d_dnsr_result d"
    "\<not> stale d'" "d_retry_cur d' \<noteq> None" "d_retry_list d' = rest"
    by (simp_all add: stale_def)
  moreover have "length rest < length (d_retry_list d) \<or> (length rest = length (d_retry_list d) \<and> stale d)"
    using assms(3) by (auto simp: rest_def stale_def)
  ultimately show ?thesis using assms(3) by (auto simp: walk_less_def)
qed

lemma dns_addresses_less:
  assumes "dns_addresses d = Inr (0, d')" "d_retry_cur d = None"
  shows "walk_less d' d"
proof (cases "d_dnsr_result_ip d")
  case None
  with assms have "dns_exhausted d = Inr (0, d')" by (simp add: dns_addresses_def)
  from dns_exhausted_walk [OF this] mx_left_walk [of d d'] assms(2) show ?thesis
    by (auto simp: walk_less_def same_walk_def)
next
  case (Some as)
  let ?d1 = "d\<lparr>d_cur_dnsr_result_ip := d_cur_dnsr_result_ip d + 1\<rparr>"
  obtain found d2 where l: "ip_loop ?d1 (drop (nat (d_cur_dnsr_result_ip ?d1)) as) = (found, d2)" by fastforce
  note a = ip_loop_ahead [OF l] and r = ip_loop_result [OF l]
  have w: "same_walk d d2" using r by (simp add: same_walk_def)
  then have ip: "d_dnsr_result_ip d2 = Some as" using Some by (simp add: same_walk_def)
  have rl: "d_retry_list d2 = d_retry_list d" using r by simp
  have le: "ip_left d2 \<le> ip_left d" using a Some ip by (auto simp: ip_left_def)
  show ?thesis
  proof (cases found)
    case True
    then have "nat (d_cur_dnsr_result_ip d + 1) < length as" using a by simp
    then have "ip_left d2 < ip_left d" using a Some ip by (auto simp: ip_left_def)
    moreover have "d' = d2" using assms(1) Some l True by (simp add: dns_addresses_def)
    ultimately show ?thesis using w mx_left_walk [OF w] by (auto simp: walk_less_def same_walk_def)
  next
    case False
    with assms(1) Some l have "dns_exhausted d2 = Inr (0, d')" by (simp add: dns_addresses_def)
    from dns_exhausted_walk [OF this] have x: "same_walk d2 d'" "d_retry_list d' = d_retry_list d2"
      "d_retry_cur d' = Some 0" "ip_left d' = ip_left d2" by simp_all
    from w x(1) have "same_walk d d'" by (rule same_walk_trans)
    from mx_left_walk [OF this] this show ?thesis
      using x le rl assms(2) by (auto simp: walk_less_def same_walk_def)
  qed
qed

lemma dns_answers_less:
  assumes "dns_answers hq d s = Inr (0, d', s')" "d_retry_cur d = None"
  shows "walk_less d' d"
proof (cases "d_dnsr_result_ip d")
  case (Some as)
  with assms have "dns_addresses d = Inr (0, d')" by (auto simp: dns_answers_def)
  then show ?thesis using assms(2) by (rule dns_addresses_less)
next
  case None
  then obtain answers where an: "d_dnsr_result d = Some answers"
    using assms by (cases "d_dnsr_result d") (auto simp: dns_answers_def)
  let ?d1 = "d\<lparr>d_cur_dnsr_result := d_cur_dnsr_result d + 1\<rparr>"
  define rrs where "rrs = drop (nat (d_cur_dnsr_result ?d1)) answers"
  obtain r d2 s2 where l: "mx_loop hq ?d1 rrs s = Inr (r, d2, s2)"
    and rest: "(case r of Some rc \<Rightarrow> Inr (rc, d2, s2)
      | None \<Rightarrow> and_then (dns_addresses d2) (\<lambda>(rc, d3). Inr (rc, d3, s2))) = Inr (0, d', s')"
    using assms an None by (auto simp: dns_answers_def rrs_def)
  note m = mx_loop_result [OF l]
  show ?thesis
  proof (cases "rrs = []")
    case True
    with l rest have "dns_addresses ?d1 = Inr (0, d')" by auto
    with None have "dns_exhausted ?d1 = Inr (0, d')" by (simp add: dns_addresses_def)
    from dns_exhausted_walk [OF this] mx_left_walk [of ?d1 d'] assms(2) None an show ?thesis
      by (auto simp: walk_less_def same_walk_def ip_left_def mx_left_def)
  next
    case False
    then have "nat (d_cur_dnsr_result d + 1) < length answers" by (simp add: rrs_def)
    then have "mx_left d2 < mx_left d" using m an by (auto simp: mx_left_def)
    moreover have "same_walk d2 d'" using rest by (auto split: option.splits dest: dns_addresses_result)
    ultimately show ?thesis using m an mx_left_walk [of d2 d'] by (auto simp: walk_less_def same_walk_def)
  qed
qed

lemma next_dnsr_host_less:
  assumes "next_dnsr_host c d hq s = Inr (0, d', hq', s')" "d_queue_movement d = 0"
  shows "walk_less d' d"
proof (cases "d_dnsr_result d")
  case None
  with next_dnsr_host_further [OF assms(1)] show ?thesis by (auto simp: walk_less_def flag_of_def)
next
  case (Some answers)
  show ?thesis
  proof (cases "d_retry_cur d")
    case (Some i)
    with assms \<open>d_dnsr_result d = Some answers\<close> have "dns_retry_next d i = Inr (0, d')"
      by (auto simp: next_dnsr_host_def dns_setup_def)
    then show ?thesis using assms(2) Some by (rule dns_retry_next_less)
  next
    case None
    then have "\<exists>s3. dns_answers hq (sin_of (0, 0, 0, 0) d) s = Inr (0, d', s3)"
      using assms Some by (auto simp: next_dnsr_host_def dns_setup_def)
    then obtain s3 where "dns_answers hq (sin_of (0, 0, 0, 0) d) s = Inr (0, d', s3)" ..
    then have "walk_less d' (sin_of (0, 0, 0, 0) d)" using None by (intro dns_answers_less) simp_all
    then show ?thesis by (simp add: walk_less_def)
  qed
qed


subsection \<open>What the search leaves alone\<close>

definition no_dns :: "deliver \<Rightarrow> deliver" where
  "no_dns d = d\<lparr>d_retry_list := [], d_retry_cur := None, d_dnsr_result := None, d_dnsr_result_ip := None,
     d_sin := (0, 0, 0, 0), d_mx_preference_cutoff := 0, d_cur_dnsr_result := 0,
     d_cur_dnsr_result_ip := 0, d_env := (d_env d)\<lparr>e_flags := 0\<rparr>\<rparr>"

lemma no_dns_upd [simp]:
  "no_dns (d\<lparr>d_retry_list := l\<rparr>) = no_dns d" "no_dns (d\<lparr>d_retry_cur := r\<rparr>) = no_dns d"
  "no_dns (d\<lparr>d_dnsr_result := x\<rparr>) = no_dns d" "no_dns (d\<lparr>d_dnsr_result_ip := y\<rparr>) = no_dns d"
  "no_dns (d\<lparr>d_sin := ip\<rparr>) = no_dns d" "no_dns (d\<lparr>d_mx_preference_cutoff := n\<rparr>) = no_dns d"
  "no_dns (d\<lparr>d_cur_dnsr_result := i\<rparr>) = no_dns d" "no_dns (d\<lparr>d_cur_dnsr_result_ip := j\<rparr>) = no_dns d"
  "no_dns (d\<lparr>d_env := (d_env d)\<lparr>e_flags := f\<rparr>\<rparr>) = no_dns d" "no_dns (sin_of a d) = no_dns d"
  by (simp_all add: no_dns_def sin_of_def)

lemma connection_data_no_dns [simp]:
  "no_dns (connection_data_create d ok) = no_dns d" "no_dns (connection_data_free d i) = no_dns d"
  by (simp_all add: connection_data_create_def connection_data_free_def Let_def)

lemma dns_retry_no_dns: "dns_retry d = Inr (rc, d') \<Longrightarrow> no_dns d' = no_dns d"
  by (auto simp: dns_retry_def split: option.splits if_splits)

lemma dns_exhausted_no_dns: "dns_exhausted d = Inr (rc, d') \<Longrightarrow> no_dns d' = no_dns d"
  by (auto simp: dns_exhausted_def dest!: dns_retry_no_dns split: if_splits)

lemma dns_retry_next_no_dns: "dns_retry_next d i = Inr (rc, d') \<Longrightarrow> no_dns d' = no_dns d"
  by (auto simp: dns_retry_next_def Let_def dest!: dns_retry_no_dns split: if_splits)

lemma ip_loop_no_dns: "ip_loop d rrs = (found, d') \<Longrightarrow> no_dns d' = no_dns d"
  by (induction d rrs rule: ip_loop.induct) (auto simp: Let_def split: if_splits)

lemma dns_addresses_no_dns: "dns_addresses d = Inr (rc, d') \<Longrightarrow> no_dns d' = no_dns d"
  by (auto simp: dns_addresses_def Let_def dest!: dns_exhausted_no_dns ip_loop_no_dns
      split: option.splits if_splits prod.splits)

text \<open>The fields of the state that the search for an address never touches.\<close>

definition net_kept :: "'a net_state_scheme \<Rightarrow> (string \<times> bool) list \<times> (string \<times> sender_list option) list \<times>
  host_q option \<times> host_q option \<times> host_q list \<times> hq_ref list \<times> string list" where
  "net_kept s = (simta_env_list s, simta_sender_list s, simta_unexpanded_q s, simta_punt_q s,
     simta_host_q s, simta_deliver_q s, simta_env_queue s)"

definition calm :: "'a net_state_scheme \<Rightarrow> 'a net_state_scheme \<Rightarrow> bool" where
  "calm s s' \<longleftrightarrow> same_files s s' \<and> net_kept s' = net_kept s \<and> length (w_peers s') \<le> length (w_peers s)"

named_theorems calms \<open>which operations leave files, queues and connections alone\<close>

lemma calm_refl [simp]: "calm s s"
  by (simp add: calm_def)

lemma calm_trans: "calm s t \<Longrightarrow> calm t u \<Longrightarrow> calm s u"
  by (auto simp: calm_def intro: same_files_trans)

lemma calm_upd [simp]:
  "calm s (t\<lparr>simta_dnsr := x\<rparr>) = calm s t" "calm s (t\<lparr>w_dns := y\<rparr>) = calm s t"
  "calm s (t\<lparr>simta_reds := r\<rparr>) = calm s t" "calm s (t\<lparr>w_readahead := k\<rparr>) = calm s t"
  "calm s (t\<lparr>simta_smtp_outbound_attempts := i\<rparr>) = calm s t"
  "calm s (t\<lparr>simta_smtp_outbound_delivered := i\<rparr>) = calm s t" "calm s (t\<lparr>w_children := cs\<rparr>) = calm s t"
  by (simp_all add: calm_def same_files_def net_kept_def)

lemma calm_upd_left [simp]:
  "calm (s\<lparr>simta_dnsr := x\<rparr>) t = calm s t" "calm (s\<lparr>w_dns := y\<rparr>) t = calm s t"
  "calm (s\<lparr>simta_reds := r\<rparr>) t = calm s t" "calm (s\<lparr>w_readahead := k\<rparr>) t = calm s t"
  "calm (s\<lparr>simta_smtp_outbound_attempts := i\<rparr>) t = calm s t"
  "calm (s\<lparr>simta_smtp_outbound_delivered := i\<rparr>) t = calm s t" "calm (s\<lparr>w_children := cs\<rparr>) t = calm s t"
  by (simp_all add: calm_def same_files_def net_kept_def)

lemma quiet_calm: "quiet s s' \<Longrightarrow> calm s s'"
  unfolding quiet_def calm_def by (cases s; cases s') (simp add: net_kept_def)

lemma outcome_calm [calms]: "outcome s = (b, s') \<Longrightarrow> calm s s'"
  by (rule quiet_calm) (rule outcome_quiet)

lemma dns_query_calm [calms]: "dns_query s = (r, s') \<Longrightarrow> calm s s'"
  by (auto simp: dns_query_def Let_def split: prod.splits if_splits list.splits dest!: calms intro: calm_trans)

lemma get_a_calm [calms]: "get_a h s = (r, s') \<Longrightarrow> calm s s'"
  by (simp add: get_a_def dns_query_calm)

lemma outcomes_calm [calms]: "outcomes n s = (bs, s') \<Longrightarrow> calm s s'"
  by (induction n arbitrary: s bs) (auto simp: Let_def split: prod.splits dest!: outcome_calm intro: calm_trans)

lemma dns_add_local_calm: "dns_add_local c key name s = Inr (go, s') \<Longrightarrow> calm s s'"
  by (auto simp: dns_add_local_def Let_def split: option.splits prod.splits dest!: calms intro: calm_trans)


lemma dns_config_loop_calm: "dns_config_loop c first rrs s = Inr (go, s') \<Longrightarrow> calm s s'"
proof (induction rrs arbitrary: s)
  case (Cons rr rrs)
  obtain ok s1 where 1: "(if rr_type rr = DNSR_TYPE_CNAME \<and> strcasecmp (simta_hostname c) (rr_cname rr) = 0
        then dns_add_local c (rr_cname rr) (rr_name rr) s
        else if rr_type rr = DNSR_TYPE_MX \<and> strcasecmp (simta_hostname c) (rr_mx_exchange rr) = 0 \<and>
          rr_mx_preference rr \<le> first
        then dns_add_local c (rr_name rr) (rr_name rr) s
        else Inr (True, s)) = Inr (ok, s1)"
    and 2: "(if ok then dns_config_loop c first rrs s1 else Inr (False, s1)) = Inr (go, s')"
    using Cons.prems by (fastforce simp del: if_split)
  have "calm s s1" using 1 dns_add_local_calm by (auto split: if_splits)
  moreover have "calm s1 s'" using 2 Cons.IH by (auto split: if_splits)
  ultimately show ?case by (rule calm_trans)
qed simp

lemma get_mx_calm: "get_mx c h s = Inr (r, s') \<Longrightarrow> calm s s'"
  by (auto simp: get_mx_def split: prod.splits option.splits if_splits dest!: calms dns_config_loop_calm
      intro: calm_trans)

lemma host_local_calm: "host_local c h s = Inr (r, s') \<Longrightarrow> calm s s'"
  by (auto simp: host_local_def split: option.splits list.splits if_splits dest!: get_mx_calm)

lemma mx_loop_kept:
  "mx_loop hq d rrs s = Inr (r, d', s') \<Longrightarrow> no_dns d' = no_dns d \<and> calm s s'"
proof (induction hq d rrs s rule: mx_loop.induct)
  case (2 hq d rr rrs s)
  show ?case
  proof (cases "rr_type rr = DNSR_TYPE_MX \<and> rr_type rr \<noteq> DNSR_TYPE_A \<and> hq_status hq = HOST_DOWN \<and>
      \<not> (has_flag (hq_no_punt hq) NOPUNT_MX \<and> d_mx_preference_cutoff d = rr_mx_preference rr) \<and> rr_ip rr = None")
    case False
    with "2.IH"(1,2) "2.prems" show ?thesis
      by (auto simp: Let_def split: if_splits option.splits dest!: dns_exhausted_no_dns)
  next
    case True
    obtain g s1 where g: "get_a (rr_mx_exchange rr) s = (g, s1)" by fastforce
    let ?next = "(d\<lparr>d_cur_dnsr_result := d_cur_dnsr_result d + 1\<rparr>)\<lparr>d_dnsr_result_ip := None\<rparr>"
    show ?thesis
    proof (cases "g = None \<or> g = Some []")
      case empty: True
      then have "mx_loop hq ?next rrs s1 = Inr (r, d', s')" using "2.prems" True g by (elim disjE) auto
      moreover have "mx_loop hq ?next rrs s1 = Inr (r, d', s') \<Longrightarrow> no_dns d' = no_dns ?next \<and> calm s1 s'"
        using "2.IH"(3,4) [OF refl _ _ _ _ g [symmetric]] True empty by auto
      ultimately show ?thesis using get_a_calm [OF g] by (auto intro: calm_trans)
    next
      case False
      then obtain a as where "g = Some (a # as)" by (metis list.exhaust option.exhaust)
      with "2.prems" True g get_a_calm [OF g] show ?thesis by auto
    qed
  qed
qed auto

lemma dns_answers_kept:
  assumes "dns_answers hq d s = Inr (rc, d', s')"
  shows "no_dns d' = no_dns d \<and> calm s s'"
  using assms
  by (auto simp: dns_answers_def Let_def split: if_splits option.splits
      dest!: dns_addresses_no_dns mx_loop_kept)

lemma host_missing_kept: "host_missing hq s = (ok, hq', s') \<Longrightarrow> quiet s s' \<and> core_hq hq' = core_hq hq \<and>
    hq_status hq' = hq_status hq"
  by (auto simp: host_missing_def Let_def split: prod.splits if_splits dest!: outcome_quiet intro: quiet_trans)

text \<open>A host of which nothing is known bounces its mail.\<close>

definition dns_kept :: "host_q \<Rightarrow> deliver \<Rightarrow> host_q \<Rightarrow> deliver \<Rightarrow> bool" where
  "dns_kept hq d hq' d' \<longleftrightarrow> no_dns d' = no_dns d \<and> core_hq hq' = core_hq hq \<and>
     (hq_status hq' = hq_status hq \<or> hq_status hq = HOST_DOWN \<and> hq_status hq' = HOST_BOUNCE)"

lemma get_outboud_dns_kept:
  assumes "get_outboud_dns c d hq s = Inr (rc, d', hq', s')"
  shows "no_dns d' = no_dns d \<and> core_hq hq' = core_hq hq \<and> calm s s' \<and>
    (hq_status hq' = hq_status hq \<or> rc \<noteq> 0 \<and> hq_status hq' = HOST_BOUNCE)"
proof -
  obtain mx s1 where m: "get_mx c (hq_hostname hq) s = Inr (mx, s1)"
    using assms by (auto simp: get_outboud_dns_def)
  note k = get_mx_calm [OF m]
  obtain a s2 where a: "get_a (hq_hostname hq) s1 = (a, s2)" by fastforce
  note ka = get_a_calm [OF a]
  obtain ok hq1 s3 where h: "host_missing hq s2 = (ok, hq1, s3)" by (metis prod.exhaust)
  have kh: "calm s2 s3" "core_hq hq1 = core_hq hq" "hq_status hq1 = hq_status hq"
    using host_missing_kept [OF h] quiet_calm by auto
  show ?thesis
  proof (cases mx)
    case None
    with assms m k show ?thesis by (auto simp: get_outboud_dns_def)
  next
    case (Some result)
    show ?thesis
    proof (cases "result \<noteq> [] \<and> (length result \<noteq> 1 \<or> rr_type (hd result) \<noteq> DNSR_TYPE_CNAME)")
      case True
      with assms m Some k show ?thesis
        by (auto simp: get_outboud_dns_def Let_def split: option.splits)
    next
      case False
      with assms m Some k ka kh a h show ?thesis
        by (auto simp: get_outboud_dns_def Let_def no_dns_def split: option.splits list.splits if_splits
            intro: calm_trans)
    qed
  qed
qed


lemma dns_setup_kept:
  assumes "dns_setup c d hq s = Inr (rc, d', hq', s')"
  shows "dns_kept hq d hq' d' \<and> calm s s'"
proof (cases "d_dnsr_result d = None \<and> hq_status hq = HOST_PUNT_DOWN")
  case True
  then obtain punt where p: "simta_punt_host c = Some punt"
    using assms by (cases "simta_punt_host c") (auto simp: dns_setup_def)
  obtain a s2 where "get_a punt s = (a, s2)" by fastforce
  with assms p True get_a_calm [OF this] show ?thesis
    by (auto simp: dns_setup_def Let_def dns_kept_def split: option.splits list.splits)
next
  case False
  with assms show ?thesis
    by (auto simp: dns_setup_def Let_def dns_kept_def split: if_splits dest!: get_outboud_dns_kept)
qed

lemma next_dnsr_host_kept:
  assumes "next_dnsr_host c d hq s = Inr (rc, d', hq', s')"
  shows "dns_kept hq d hq' d' \<and> calm s s'"
proof -
  obtain rc1 d1 hq1 s1 where su: "dns_setup c d hq s = Inr (rc1, d1, hq1, s1)"
    using assms by (auto simp: next_dnsr_host_def)
  note st = dns_setup_kept [OF su]
  show ?thesis
  proof (cases "rc1 = 0")
    case False
    with assms su st show ?thesis by (auto simp: next_dnsr_host_def)
  next
    case True
    have "no_dns d' = no_dns d1 \<and> hq' = hq1 \<and> calm s1 s'"
    proof (cases "d_retry_cur d1")
      case (Some i)
      with assms su True show ?thesis by (auto simp: next_dnsr_host_def dest!: dns_retry_next_no_dns)
    next
      case None
      obtain d2 s2 where 2: "(if simta_aggressive_delivery c \<noteq> 0 \<and> d_queue_movement d1 \<noteq> 0
          then (let (malloc_ok, s2) = outcome s1 in (connection_data_create d1 malloc_ok, s2))
          else (d1, s1)) = (d2, s2)" by (metis prod.exhaust)
      then have "no_dns d2 = no_dns d1" "calm s1 s2" by (auto split: if_splits prod.splits dest: outcome_calm)
      moreover have "dns_answers hq1 (sin_of (0, 0, 0, 0) d2) s2 = Inr (rc, d', s')" "hq' = hq1"
        using assms su True None 2 by (auto simp: next_dnsr_host_def)
      ultimately show ?thesis using dns_answers_kept [of hq1 "sin_of (0, 0, 0, 0) d2" s2 rc d' s'] calm_trans by auto
    qed
    with st show ?thesis by (auto simp: dns_kept_def intro: calm_trans)
  qed
qed

lemma no_dns_movement: "no_dns d' = no_dns d \<Longrightarrow> d_queue_movement d' = d_queue_movement d"
  by (drule arg_cong [of _ _ d_queue_movement]) (simp add: no_dns_def)

lemma no_dns_moved: "no_dns (d\<lparr>d_queue_movement := i\<rparr>) = (no_dns d)\<lparr>d_queue_movement := i\<rparr>"
  by (cases d) (simp add: no_dns_def)

lemma dns_kept_trans: "dns_kept hq d hq1 d1 \<Longrightarrow> dns_kept hq1 d1 hq2 d2 \<Longrightarrow> dns_kept hq d hq2 d2"
  by (auto simp: dns_kept_def)

lemma next_dnsr_host_lookup_result:
  "next_dnsr_host_lookup c d hq s = Inr (rc, d', hq', s') \<Longrightarrow>
     dns_kept hq (d\<lparr>d_queue_movement := 0\<rparr>) hq' (d'\<lparr>d_queue_movement := 0\<rparr>) \<and> calm s s' \<and>
     (rc = 0 \<longrightarrow> d_queue_movement d' = 0 \<and> (d_queue_movement d = 0 \<longrightarrow> walk_less d' d))"
proof (induction c d hq s rule: next_dnsr_host_lookup.induct)
  case (1 c d hq s)
  obtain rc1 d1 hq1 s1 where n: "next_dnsr_host c d hq s = Inr (rc1, d1, hq1, s1)"
    using "1.prems" by (auto simp: next_dnsr_host_lookup.simps [of c d hq s])
  have k: "dns_kept hq (d\<lparr>d_queue_movement := 0\<rparr>) hq1 (d1\<lparr>d_queue_movement := 0\<rparr>)" "calm s s1"
    using next_dnsr_host_kept [OF n] by (simp_all add: dns_kept_def no_dns_moved)
  have mv: "d_queue_movement d1 = d_queue_movement d"
    using next_dnsr_host_kept [OF n] by (intro no_dns_movement) (simp add: dns_kept_def)
  show ?case
  proof (cases "rc1 = 0")
    case True
    with "1.prems" n have "rc = 0" "d' = d1\<lparr>d_queue_movement := 0\<rparr>" "hq' = hq1" "s' = s1"
      by (auto simp: next_dnsr_host_lookup.simps [of c d hq s])
    moreover have "d_queue_movement d = 0 \<Longrightarrow> walk_less d1 d"
      using next_dnsr_host_less n True by blast
    then have "d_queue_movement d = 0 \<Longrightarrow> walk_less (d1\<lparr>d_queue_movement := 0\<rparr>) d" by simp
    ultimately show ?thesis using k by simp
  next
    case rc1: False
    show ?thesis
    proof (cases "d_dnsr_result_ip d1")
      case None
      then have "rc = 1" "d' = d1\<lparr>d_dnsr_result := None\<rparr>" "hq' = hq1" "s' = s1"
        using "1.prems" n rc1 by (auto simp: next_dnsr_host_lookup.simps [of c d hq s])
      with k show ?thesis by (simp add: dns_kept_def no_dns_moved)
    next
      case (Some as)
      let ?d2 = "d1\<lparr>d_dnsr_result_ip := None\<rparr>"
      have rec: "next_dnsr_host_lookup c ?d2 hq1 s1 = Inr (rc, d', hq', s')"
        using "1.prems" n rc1 Some by (simp add: next_dnsr_host_lookup.simps [of c d hq s])
      note IH = "1.IH" [OF n refl refl refl rc1 _ rec]
      have kk: "dns_kept hq1 (?d2\<lparr>d_queue_movement := 0\<rparr>) hq' (d'\<lparr>d_queue_movement := 0\<rparr>)" "calm s1 s'"
        "rc = 0 \<longrightarrow> d_queue_movement d' = 0 \<and> (d_queue_movement ?d2 = 0 \<longrightarrow> walk_less d' ?d2)"
        using IH Some by auto
      have kept: "dns_kept hq1 (d1\<lparr>d_queue_movement := 0\<rparr>) hq' (d'\<lparr>d_queue_movement := 0\<rparr>)"
        using kk(1) by (simp add: dns_kept_def no_dns_moved)
      have "walk_less ?d2 d"
      proof (cases "d_dnsr_result d = None \<and> d_dnsr_result d1 = None")
        case True
        then have "mx_left d1 = mx_left d" by (simp add: mx_left_def)
        moreover have "d_dnsr_result_ip d = Some as"
          using next_dnsr_host_further [OF n] rc1 Some True by simp
        then have "0 < ip_left d" by (simp add: ip_left_def)
        ultimately show ?thesis using True by (simp add: walk_less_def)
      next
        case False
        with next_dnsr_host_further [OF n] rc1 Some show ?thesis
          by (auto simp: walk_less_def flag_of_def further_def ip_left_def split: if_splits option.splits)
      qed
      moreover have "d_queue_movement ?d2 = d_queue_movement d" using mv by simp
      ultimately have "rc = 0 \<longrightarrow> d_queue_movement d' = 0 \<and> (d_queue_movement d = 0 \<longrightarrow> walk_less d' d)"
        using kk(3) walk_less_trans [of d' ?d2 d] by simp
      with dns_kept_trans [OF k(1) kept] calm_trans [OF k(2) kk(2)] show ?thesis by simp
    qed
  qed
qed


subsection \<open>What an attempt leaves alone\<close>

text \<open>The part of a delivery that neither the search for an address nor a conversation touches.\<close>

definition base :: "deliver \<Rightarrow> deliver" where
  "base d = (no_dns (core d))\<lparr>d_queue_movement := 0, d_deliver_argc := 0, d_deliver_argv := None\<rparr>"

lemma base_core: "core d' = core d \<Longrightarrow> base d' = base d"
  by (simp add: base_def)

lemma no_dns_core: "no_dns (core d) = core (no_dns d)"
  by (simp add: no_dns_def core_def core_env_def)

lemma core_moved: "core (d\<lparr>d_queue_movement := i\<rparr>) = (core d)\<lparr>d_queue_movement := i\<rparr>"
  by (cases d) (simp add: core_def)

lemma base_moved [simp]: "base (d\<lparr>d_queue_movement := i\<rparr>) = base d"
  by (cases d) (simp add: base_def core_def no_dns_def)

lemma base_no_dns: "no_dns d' = no_dns d \<Longrightarrow> base d' = base d"
  by (simp add: base_def no_dns_core)

lemma dns_kept_base: "dns_kept hq (d\<lparr>d_queue_movement := 0\<rparr>) hq' (d'\<lparr>d_queue_movement := 0\<rparr>) \<Longrightarrow> base d' = base d"
  using base_no_dns [of "d'\<lparr>d_queue_movement := 0\<rparr>" "d\<lparr>d_queue_movement := 0\<rparr>"] by (simp add: dns_kept_def)

lemma dns_kept_fields:
  assumes "dns_kept hq (d\<lparr>d_queue_movement := 0\<rparr>) hq' (d'\<lparr>d_queue_movement := 0\<rparr>)"
  shows "tally d' = tally d" "d_snet_smtp d' = d_snet_smtp d" "d_snet_dfile d' = d_snet_dfile d"
    "d_delivered d' = d_delivered d"
proof -
  have n: "no_dns (d'\<lparr>d_queue_movement := 0\<rparr>) = no_dns (d\<lparr>d_queue_movement := 0\<rparr>)"
    using assms by (simp add: dns_kept_def)
  from arg_cong [OF n, of tally] show "tally d' = tally d"
    by (simp add: tally_def statuses_def no_dns_def)
  from arg_cong [OF n, of d_snet_smtp] show "d_snet_smtp d' = d_snet_smtp d" by (simp add: no_dns_def)
  from arg_cong [OF n, of d_snet_dfile] show "d_snet_dfile d' = d_snet_dfile d" by (simp add: no_dns_def)
  from arg_cong [OF n, of d_delivered] show "d_delivered d' = d_delivered d" by (simp add: no_dns_def)
qed

lemma open_conn_result:
  assumes "open_conn d s = (ok, d', s')"
  shows "calm s s' \<and> (if ok then length (w_peers s') < length (w_peers s) \<and> (\<exists>cn. d' = d\<lparr>d_snet_smtp := Some cn\<rparr>) else d' = d)"
proof -
  obtain b1 s1 where 1: "outcome s = (b1, s1)" by fastforce
  obtain b2 s2 where 2: "outcome s1 = (b2, s2)" by fastforce
  have c: "calm s s1" "calm s s2" using outcome_calm [OF 1] outcome_calm [OF 2] calm_trans by blast+
  show ?thesis
  proof (cases "b1 \<and> b2 \<and> w_peers s2 \<noteq> []")
    case False
    then have "ok = False \<and> d' = d \<and> (s' = s1 \<or> s' = s2)"
      using assms 1 2 by (cases b1; cases b2) (simp_all add: open_conn_def)
    with c show ?thesis by auto
  next
    case True
    then obtain p ps where p: "w_peers s2 = p # ps" by (cases "w_peers s2") auto
    obtain b3 s3 where 3: "outcome (s2\<lparr>w_peers := ps\<rparr>) = (b3, s3)" by fastforce
    have "calm (s2\<lparr>w_peers := ps\<rparr>) s3" by (rule outcome_calm [OF 3])
    then have "calm s s3 \<and> length (w_peers s3) < length (w_peers s)"
      using c(2) p by (auto simp: calm_def same_files_def net_kept_def)
    with assms 1 2 3 True p show ?thesis by (auto simp: open_conn_def split: if_splits)
  qed
qed

lemma rewind_dfile_result:
  assumes "rewind_dfile d s = Inr (d', s')"
  shows "calm s s' \<and> (\<exists>sn. d' = d\<lparr>d_snet_dfile := sn\<rparr>)"
proof (cases "d_snet_dfile d")
  case None
  with assms show ?thesis by (auto simp: rewind_dfile_def intro: exI [of _ None])
next
  case (Some sn)
  with assms show ?thesis by (auto simp: rewind_dfile_def readahead_def split: list.splits)
qed

lemma fresh_counts_ok: "core (fresh_counts d) = core d \<and> agree (fresh_counts d) \<and> unset_from 0 (fresh_counts d)"
proof -
  have st: "statuses (fresh_counts d) = map (\<lambda>_. 0) (e_rcpt (d_env d))"
    by (simp add: statuses_def fresh_counts_def upd_env_def env_clear_errors_def clear_recipient_def)
  have "count_list (map (\<lambda>_. 0) xs) x = 0" if "x \<noteq> (0 :: int)" for x and xs :: "recipient list"
    using that by (induction xs) auto
  moreover have "core (fresh_counts d) = core d"
    by (simp add: fresh_counts_def upd_env_def core_def core_env_def env_clear_errors_def clear_recipient_def comp_def)
  ultimately show ?thesis
    using st by (auto simp: agree_def unset_from_def fresh_counts_def upd_env_def env_codes)
qed


text \<open>What connecting, resetting and quitting do: no recipient is touched.\<close>

definition talked :: "host_q \<Rightarrow> deliver \<Rightarrow> 'a sys_scheme \<Rightarrow> host_q \<Rightarrow> deliver \<Rightarrow> 'a sys_scheme \<Rightarrow> bool" where
  "talked hq d s hq' d' s' \<longleftrightarrow> core d' = core d \<and> core_hq hq' = core_hq hq \<and> tally d' = tally d \<and>
     d_delivered d' = d_delivered d \<and> e_flags (d_env d') = e_flags (d_env d) \<and> quiet s s' \<and>
     (hq_status hq' = hq_status hq \<or> hq_status hq = HOST_DOWN \<and> hq_status hq' = HOST_BOUNCE)"

lemma talked_trans: "talked hq d s hq1 d1 s1 \<Longrightarrow> talked hq1 d1 s1 hq2 d2 s2 \<Longrightarrow> talked hq d s hq2 d2 s2"
  by (auto simp: talked_def intro: quiet_trans)

lemma talked_upd [simp]:
  "talked hq d s hq d s" "talked hq d s hq (d\<lparr>d_tls_supported := i, d_tls_banner_check := j\<rparr>) s"
  "talked hq d s hq (d\<lparr>d_tls_banner_check := j\<rparr>) s"
  by (simp_all add: talked_def)

lemma only_conn_talked: "only_conn d d' \<Longrightarrow> quiet s s' \<Longrightarrow> talked hq d s hq d' s'"
  by (simp add: talked_def only_conn_kept)

lemma replied_talked:
  "replied cmd rc hq d hq' d' \<Longrightarrow> cmd \<notin> {SMTP_MAIL, SMTP_RCPT, SMTP_DATA, SMTP_DATA_EOF} \<Longrightarrow> quiet s s' \<Longrightarrow>
     talked hq d s hq' d' s'"
  by (auto simp: replied_def talked_def)

lemma smtp_reply_talked:
  "smtp_reply c cmd hq d s = Inr (rc, hq', d', s') \<Longrightarrow> cmd \<notin> {SMTP_MAIL, SMTP_RCPT, SMTP_DATA, SMTP_DATA_EOF} \<Longrightarrow>
     talked hq d s hq' d' s'"
  using smtp_reply_effect replied_talked by blast

lemma smtp_say_talked:
  "smtp_say c cmd t hq d s = Inr (rc, hq', d', s') \<Longrightarrow> cmd \<notin> {SMTP_MAIL, SMTP_RCPT, SMTP_DATA, SMTP_DATA_EOF} \<Longrightarrow>
     talked hq d s hq' d' s'"
  using smtp_say_effect replied_talked by blast

lemma outcome_talked: "outcome s = (b, s') \<Longrightarrow> talked hq d s hq d s'"
  by (simp add: talked_def outcome_quiet)

lemma smtp_tls_talked:
  assumes "smtp_tls c hq d s = Inr (rc, hq', d', s')"
  shows "talked hq d s hq' d' s'"
proof -
  obtain rc1 hq1 d1 s1 where 1: "smtp_say c SMTP_STARTTLS S_STARTTLS hq d s = Inr (rc1, hq1, d1, s1)"
    using assms by (auto simp: smtp_tls_def)
  have t1: "talked hq d s hq1 d1 s1" using smtp_say_talked [OF 1] by simp
  obtain b2 s2 where 2: "outcome s1 = (b2, s2)" by fastforce
  obtain b3 s3 where 3: "outcome s2 = (b3, s3)" by fastforce
  obtain b4 s4 where 4: "outcome s3 = (b4, s4)" by fastforce
  obtain b5 s5 where 5: "outcome s4 = (b5, s5)" by fastforce
  have "quiet s1 s2" "quiet s1 s3" "quiet s1 s5"
    using 2 3 4 5 outcome_quiet quiet_trans by metis+
  then have t: "talked hq d s hq1 d1 s2" "talked hq d s hq1 d1 s3" "talked hq d s hq1 d1 s5"
    using t1 by (auto simp: talked_def intro: quiet_trans)
  consider "rc1 \<noteq> SMTP_OK" | "rc1 = SMTP_OK" "\<not> b2" | "rc1 = SMTP_OK" "b2" "\<not> b3"
    | "rc1 = SMTP_OK" "b2" "b3" "b4" "\<not> b5" | "rc1 = SMTP_OK" "b2" "b3" "b4" "b5" | "rc1 = SMTP_OK" "b2" "b3" "\<not> b4"
    by blast
  then show ?thesis
  proof cases
    case 5
    then have "smtp_say c SMTP_EHLO (''EHLO '' @ simta_hostname c) hq1 d1 s5 = Inr (rc, hq', d', s')"
      using assms 1 2 3 4 \<open>outcome s4 = (b5, s5)\<close> by (simp add: smtp_tls_def)
    from smtp_say_talked [OF this] t show ?thesis by (auto intro: talked_trans)
  qed (use assms 1 2 3 4 \<open>outcome s4 = (b5, s5)\<close> t t1 in \<open>simp_all add: smtp_tls_def\<close>)
qed

lemma smtp_connect_talked:
  assumes "smtp_connect c hq d s = Inr (rc, hq', d', s')"
  shows "talked hq d s hq' d' s'"
proof -
  obtain rc1 hq1 d1 s1 where 1: "smtp_reply c SMTP_CONNECT hq d s = Inr (rc1, hq1, d1, s1)"
    using assms by (auto simp: smtp_connect_def)
  have t1: "talked hq d s hq1 d1 s1" using smtp_reply_talked [OF 1] by simp
  show ?thesis
  proof (cases "rc1 = SMTP_OK")
    case False
    with assms 1 t1 show ?thesis by (simp add: smtp_connect_def)
  next
    case True
    obtain ok d2 s2 where 2: "snet_writef (''EHLO '' @ simta_hostname c @ CRLF) d1 s1 = Inr (ok, d2, s2)"
      using assms 1 True by (auto simp: smtp_connect_def)
    have t2: "talked hq d s hq1 d2 s2"
      using t1 only_conn_talked snet_writef_effect [OF 2] talked_trans by blast
    show ?thesis
    proof (cases ok)
      case False
      with assms 1 2 True t2 show ?thesis by (simp add: smtp_connect_def)
    next
      case ok: True
      let ?d2 = "d2\<lparr>d_tls_supported := 0, d_tls_banner_check := 1\<rparr>"
      obtain r hq3 d3 s3 where 3: "smtp_reply c SMTP_EHLO hq1 ?d2 s2 = Inr (r, hq3, d3, s3)"
        using assms 1 2 True ok by (auto simp: smtp_connect_def)
      let ?d4 = "d3\<lparr>d_tls_banner_check := 0\<rparr>"
      have "talked hq1 ?d2 s2 hq3 d3 s3" using smtp_reply_talked [OF 3] by simp
      moreover have "talked hq d s hq1 ?d2 s2" using t2 talked_trans talked_upd(2) by blast
      ultimately have "talked hq d s hq3 d3 s3" by (rule talked_trans [rotated])
      from talked_trans [OF this talked_upd(3)] have t4: "talked hq d s hq3 ?d4 s3" .
      have "r = SMTP_BAD_CONNECTION \<and> hq' = hq3 \<and> d' = ?d4 \<and> s' = s3 \<or>
          r = SMTP_OK \<and> d_tls_supported ?d4 = 0 \<and> hq' = hq3 \<and> d' = ?d4 \<and> s' = s3 \<or>
          smtp_tls c hq3 ?d4 s3 = Inr (rc, hq', d', s') \<or>
          smtp_say c SMTP_HELO (''HELO '' @ simta_hostname c) hq3 ?d4 s3 = Inr (rc, hq', d', s')"
        using assms 1 2 True ok 3 by (auto simp: smtp_connect_def Let_def split: if_splits)
      moreover have "smtp_say c SMTP_HELO (''HELO '' @ simta_hostname c) hq3 ?d4 s3 = Inr (rc, hq', d', s') \<Longrightarrow>
          talked hq3 ?d4 s3 hq' d' s'" by (erule smtp_say_talked) simp
      ultimately show ?thesis using t4 smtp_tls_talked talked_trans by blast
    qed
  qed
qed

lemma smtp_quit_talked: "smtp_quit c hq d s = Inr (hq', d', s') \<Longrightarrow> talked hq d s hq' d' s'"
  by (auto simp: smtp_quit_def dest!: smtp_say_talked)


subsection \<open>One turn of the loop\<close>

text \<open>How far a delivery is from its end: connections, the open one, the search for an address.\<close>

definition remote_less :: "deliver \<times> 'a net_state_scheme \<Rightarrow> deliver \<times> 'a net_state_scheme \<Rightarrow> bool" where
  "remote_less x y \<longleftrightarrow> (case x of (d', s') \<Rightarrow> case y of (d, s) \<Rightarrow>
     length (w_peers s') < length (w_peers s) \<or>
     length (w_peers s') \<le> length (w_peers s) \<and>
       (d_snet_smtp d' = None \<and> d_snet_smtp d \<noteq> None \<or>
        d_snet_smtp d' = None \<and> d_snet_smtp d = None \<and>
          d_queue_movement d' = 0 \<and> (d_queue_movement d \<noteq> 0 \<or> walk_less d' d)))"

text \<open>How the status of the queue goes on: one that is down may come up, or bounce.\<close>

definition status_next :: "host_status \<Rightarrow> host_status \<Rightarrow> bool" where
  "status_next st st' \<longleftrightarrow> st' = st \<or> st = HOST_DOWN \<and> st' \<in> {HOST_MX, HOST_BOUNCE} \<or>
     st = HOST_PUNT_DOWN \<and> st' = HOST_PUNT"

definition open_status :: "host_status \<Rightarrow> bool" where
  "open_status st \<longleftrightarrow> st \<in> {HOST_DOWN, HOST_PUNT_DOWN, HOST_BOUNCE}"

lemma talked_calm: "talked hq d s hq' d' s' \<Longrightarrow> base d' = base d \<and> core_hq hq' = core_hq hq \<and> calm s s' \<and>
    agree d' = agree d \<and> status_next (hq_status hq) (hq_status hq')"
  using base_core [of d' d] agree_tally [of d' d] quiet_calm [of s s']
  by (auto simp: talked_def status_next_def)

lemma remote_cleanup_result:
  assumes "remote_cleanup c r mv hq d s = Inr (go, mv', hq', d', s')"
  shows "base d' = base d \<and> core_hq hq' = core_hq hq \<and> calm s s' \<and> d_snet_smtp d' = None \<and>
    agree d' = agree d \<and> status_next (hq_status hq) (hq_status hq') \<and>
    (go \<longrightarrow> hq_status hq' = hq_status hq \<or> open_status (hq_status hq'))"
proof -
  obtain hq1 d1 s1 where q: "(if r = SMTP_ERROR then smtp_quit c hq d s else Inr (hq, d, s)) = Inr (hq1, d1, s1)"
    using assms by (fastforce simp: remote_cleanup_def simp del: if_split)
  have t: "talked hq d s hq1 d1 s1" using q smtp_quit_talked by (auto split: if_splits)
  note k = talked_calm [OF t]
  let ?d2 = "d1\<lparr>d_snet_smtp := None\<rparr>"
  have k2: "base ?d2 = base d" "agree ?d2 = agree d" using k base_core [of ?d2 d1] agree_tally [of ?d2 d1] by simp_all
  obtain b s2 where o: "outcome s1 = (b, s2)" by fastforce
  have again: ?thesis
    if "(if \<not> b then Inr (False, mv, hq2, ?d2, s2)
         else and_then (rewind_dfile ?d2 s2) (\<lambda>(d3, s3). Inr (True, mv, hq2, d3, s3))) = Inr (go, mv', hq', d', s')"
      "core_hq hq2 = core_hq hq1" "hq_status hq2 = hq_status hq1" for hq2
  proof -
    have c2: "calm s s2" using k outcome_calm [OF o] calm_trans [of s s1 s2] by simp
    have h: "hq' = hq2" using that(1) by (auto split: if_splits)
    have st: "status_next (hq_status hq) (hq_status hq')" "core_hq hq' = core_hq hq"
      using k that(2,3) h by simp_all
    have op: "hq_status hq' = hq_status hq \<or> open_status (hq_status hq')"
      using t that(3) h by (auto simp: talked_def open_status_def)
    show ?thesis
    proof (cases b)
      case False
      with that(1) have "d' = ?d2" "s' = s2" by auto
      with k2 c2 st op show ?thesis by simp
    next
      case True
      with that(1) have w: "rewind_dfile ?d2 s2 = Inr (d', s')" by auto
      from rewind_dfile_result [OF w] obtain sn where sn: "calm s2 s'" "d' = ?d2\<lparr>d_snet_dfile := sn\<rparr>" by blast
      then have "base d' = base ?d2" "agree d' = agree ?d2" "d_snet_smtp d' = None"
        using base_core [of d' ?d2] agree_tally [of d' ?d2] by simp_all
      with k2 c2 st op sn(1) calm_trans [of s s2 s'] show ?thesis by simp
    qed
  qed
  consider "hq_status hq1 = HOST_PUNT_DOWN" | "hq_status hq1 = HOST_BOUNCE"
    | "hq_status hq1 = HOST_DOWN" "mv" | "hq_status hq1 \<notin> {HOST_PUNT_DOWN, HOST_BOUNCE}" "\<not> (hq_status hq1 = HOST_DOWN \<and> mv)"
    by auto
  then show ?thesis
  proof cases
    case 1
    with assms q o show ?thesis
      by (intro again [of "hq_clear_errors hq1"]) (simp_all add: remote_cleanup_def hq_clear_errors_def Let_def)
  next
    case 2
    with assms q have "go = False" "hq' = hq1" "d' = ?d2" "s' = s1" by (auto simp: remote_cleanup_def)
    with k k2 show ?thesis by simp
  next
    case 3
    with assms q have "go = False" "hq' = hq1\<lparr>hq_status := HOST_MX\<rparr>" "d' = ?d2" "s' = s1"
      by (auto simp: remote_cleanup_def)
    moreover have "hq_status hq = HOST_DOWN" using t 3 by (auto simp: talked_def)
    ultimately show ?thesis using k k2 by (simp add: status_next_def)
  next
    case 4
    with assms q o show ?thesis
      by (intro again [of hq1]) (cases "hq_status hq1 = HOST_DOWN"; simp add: remote_cleanup_def Let_def)+
  qed
qed


lemma sent_calm: "sent hq d s hq' d' s' \<Longrightarrow> base d' = base d \<and> core_hq hq' = core_hq hq \<and> calm s s' \<and>
    hq_status hq' = hq_status hq"
  using base_core [of d' d] quiet_calm [of s s'] by (auto simp: sent_def)

lemma gettimeofday_calm: "calm s (snd (simta_gettimeofday s))"
  by (cases "simta_gettimeofday s") (auto dest: gettimeofday_quiet quiet_calm)

lemma remote_send_result:
  assumes "remote_send c mv hq d s = Inr (go, mv', hq', d', s')"
  shows "base d' = base d \<and> core_hq hq' = core_hq hq \<and> calm s s' \<and>
    (go \<longrightarrow> d_snet_smtp d' = None) \<and> (hq_status hq \<noteq> HOST_PUNT_DOWN \<longrightarrow> agree d') \<and>
    status_next (hq_status hq) (hq_status hq') \<and>
    (go \<longrightarrow> hq_status hq' = hq_status hq \<or> open_status (hq_status hq'))"
proof -
  obtain b s1 where o: "outcome s = (b, s1)" by fastforce
  obtain d1 s2 where rw: "rewind_dfile (fresh_counts d) s1 = Inr (d1, s2)"
    using assms o by (auto simp: remote_send_def split: if_splits)
  obtain r hq1 d2 s3 where sm: "smtp_send c hq d1 s2 = Inr (r, hq1, d2, s3)"
    using assms o rw by (auto simp: remote_send_def split: if_splits)
  obtain sn where d1: "d1 = (fresh_counts d)\<lparr>d_snet_dfile := sn\<rparr>" and c2: "calm s1 s2"
    using rewind_dfile_result [OF rw] by blast
  have a1: "agree d1" "unset_from 0 d1" "core d1 = core d"
    using fresh_counts_ok [of d] agree_tally [of d1 "fresh_counts d"] unset_tally [of d1 "fresh_counts d"]
    by (simp_all add: d1)
  note e = smtp_send_effect [OF sm a1(1,2)]
  note sc = sent_calm [OF e [THEN conjunct1]]
  define moved where "moved = remote_moved d2"
  define d3 where "d3 = (if moved then d2\<lparr>d_queue_movement := 1\<rparr> else d2)"
  define s4 where "s4 = (if moved then snd (simta_gettimeofday
      (s3\<lparr>simta_smtp_outbound_delivered := simta_smtp_outbound_delivered s3 + 1\<rparr>)) else s3)"
  have c3: "calm s s3" using outcome_calm [OF o] c2 sc calm_trans by blast
  have "calm s3 s4"
    using gettimeofday_calm [of "s3\<lparr>simta_smtp_outbound_delivered := simta_smtp_outbound_delivered s3 + 1\<rparr>"]
    by (simp add: s4_def)
  with c3 have c4: "calm s s4" by (rule calm_trans)
  have b3: "base d3 = base d" using sc base_core [OF a1(3)] by (simp add: d3_def)
  have "tally d3 = tally d2" by (simp add: d3_def tally_def statuses_def)
  from agree_tally [OF this] have a3: "agree d3" using e by simp
  have st: "hq_status hq1 = hq_status hq" "core_hq hq1 = core_hq hq" using sc by simp_all
  have res: "(if r = SMTP_OK
        then and_then (remote_done hq1 d3) (\<lambda>(hq2, d4). Inr (False, mv \<or> moved, hq2, d4, s4))
        else remote_cleanup c r (mv \<or> moved) hq1 d3 s4) = Inr (go, mv', hq', d', s')"
    using assms o rw sm by (simp add: remote_send_def Let_def moved_def [symmetric] d3_def [symmetric]
        s4_def [symmetric] split: if_splits)
  show ?thesis
  proof (cases "r = SMTP_OK")
    case False
    with res have "remote_cleanup c r (mv \<or> moved) hq1 d3 s4 = Inr (go, mv', hq', d', s')" by simp
    from remote_cleanup_result [OF this] b3 a3 st calm_trans [OF c4] show ?thesis by simp
  next
    case True
    with res have dn: "remote_done hq1 d3 = Inr (hq', d')" "go = False" "s' = s4" by auto
    have "core (upd_env env_clear_errors d3) = core d3"
      by (simp add: upd_env_def core_def core_env_def env_clear_errors_def clear_recipient_def comp_def)
    note bc = base_core [OF this]
    show ?thesis
    proof (cases "hq_status hq1 = HOST_DOWN")
      case True
      with dn have "hq' = hq1\<lparr>hq_status := HOST_MX\<rparr>" "d' = d3" by (auto simp: remote_done_def)
      with dn c4 b3 a3 st True show ?thesis by (simp add: status_next_def)
    next
      case False
      with dn have "hq_status hq1 = HOST_PUNT_DOWN" "hq' = hq1\<lparr>hq_status := HOST_PUNT\<rparr>" "d' = upd_env env_clear_errors d3"
        by (auto simp: remote_done_def split: if_splits)
      with dn c4 b3 bc st show ?thesis by (simp add: status_next_def)
    qed
  qed
qed

lemma remote_step_result:
  assumes "remote_step c mv hq d s = Inr (go, mv', hq', d', s')"
  shows "base d' = base d \<and> core_hq hq' = core_hq hq \<and> calm s s' \<and>
    (go \<longrightarrow> remote_less (d', s') (d, s)) \<and> (hq_status hq \<noteq> HOST_PUNT_DOWN \<longrightarrow> agree d \<longrightarrow> agree d') \<and>
    (\<exists>st. status_next (hq_status hq) st \<and> status_next st (hq_status hq') \<and>
      (open_status (hq_status hq) \<longrightarrow> open_status st))"
proof -
  obtain g hq1 d1 s1 where su: "remote_setup c hq d s = Inr (g, hq1, d1, s1)"
    using assms by (auto simp: remote_step_def)
  have S: "base d1 = base d \<and> core_hq hq1 = core_hq hq \<and> calm s s1 \<and> agree d1 = agree d \<and>
      status_next (hq_status hq) (hq_status hq1) \<and> (open_status (hq_status hq) \<longrightarrow> open_status (hq_status hq1)) \<and>
      (g = Again \<longrightarrow> remote_less (d1, s1) (d, s)) \<and>
      (\<forall>r. g = Talk r \<longrightarrow> (length (w_peers s1) < length (w_peers s) \<or> d_snet_smtp d \<noteq> None))"
  proof (cases "d_snet_smtp d")
    case None
    obtain rc d2 hq2 s2 where lk: "next_dnsr_host_lookup c d hq s = Inr (rc, d2, hq2, s2)"
      using su None by (auto simp: remote_setup_def)
    note lr = next_dnsr_host_lookup_result [OF lk]
    note kb = dns_kept_base [OF lr [THEN conjunct1]] and kf = dns_kept_fields [OF lr [THEN conjunct1]]
    have ks: "core_hq hq2 = core_hq hq" "status_next (hq_status hq) (hq_status hq2)"
      "open_status (hq_status hq) \<longrightarrow> open_status (hq_status hq2)" "calm s s2"
      using lr by (auto simp: dns_kept_def status_next_def open_status_def)
    show ?thesis
    proof (cases "rc = 0")
      case False
      with su None lk have "g = Return" "hq1 = hq2" "d1 = d2" "s1 = s2" by (auto simp: remote_setup_def)
      with kb kf(2) ks agree_tally [OF kf(1)] show ?thesis by auto
    next
      case rc: True
      obtain ok d3 s3 where oc: "open_conn d2 s2 = (ok, d3, s3)" by (metis prod.exhaust)
      note r = open_conn_result [OF oc]
      have c3: "calm s s3" using ks(4) r calm_trans by blast
      show ?thesis
      proof (cases ok)
        case False
        with su None lk rc oc have e: "g = Again" "hq1 = hq2" "d1 = d3" "s1 = s3" by (auto simp: remote_setup_def)
        have "d3 = d2" using r False by simp
        moreover have "d_queue_movement d2 = 0 \<and> (d_queue_movement d = 0 \<longrightarrow> walk_less d2 d)" using lr rc by simp
        ultimately have "remote_less (d1, s1) (d, s)"
          using c3 e kf None by (auto simp: remote_less_def calm_def)
        with e \<open>d3 = d2\<close> kb ks c3 agree_tally [OF kf(1)] show ?thesis by auto
      next
        case True
        then obtain cn where d3: "d3 = d2\<lparr>d_snet_smtp := Some cn\<rparr>" and less: "length (w_peers s3) < length (w_peers s2)"
          using r by auto
        obtain t where sc: "smtp_connect c (hq_clear_errors hq2) d3 s3 = Inr (t, hq1, d1, s1)" "g = Talk t"
          using su None lk rc oc True by (auto simp: remote_setup_def)
        note tk = talked_calm [OF smtp_connect_talked [OF sc(1)]]
        have op: "open_status (hq_status hq2) \<longrightarrow> open_status (hq_status hq1)"
          using smtp_connect_talked [OF sc(1)] by (auto simp: talked_def open_status_def hq_clear_errors_def)
        have st: "status_next (hq_status hq) (hq_status hq1)"
          using lr smtp_connect_talked [OF sc(1)]
          by (auto simp: talked_def dns_kept_def status_next_def hq_clear_errors_def)
        have "base d3 = base d2" "agree d3 = agree d2"
          using base_core [of d3 d2] agree_tally [of d3 d2] by (simp_all add: d3)
        moreover have "agree d2 = agree d" using kf by (intro agree_tally)
        moreover have "length (w_peers s1) < length (w_peers s)"
          using tk less ks(4) by (simp add: calm_def)
        moreover have "core_hq (hq_clear_errors hq2) = core_hq hq2" by (simp add: hq_clear_errors_def)
        ultimately show ?thesis using sc(2) tk kb ks op st calm_trans [OF c3] by simp
      qed
    qed
  next
    case (Some cn)
    then obtain t where sc: "smtp_rset c hq d s = Inr (t, hq1, d1, s1)" "g = Talk t"
      using su by (auto simp: remote_setup_def)
    have tk: "talked hq d s hq1 d1 s1" using smtp_say_talked [OF sc(1) [unfolded smtp_rset_def]] by simp
    then have "open_status (hq_status hq) \<longrightarrow> open_status (hq_status hq1)"
      by (auto simp: talked_def open_status_def)
    with talked_calm [OF tk] sc(2) Some show ?thesis by simp
  qed
  have rest: "(case g of Return \<Rightarrow> Inr (False, mv, hq1, d1, s1) | Again \<Rightarrow> Inr (True, mv, hq1, d1, s1)
      | Talk r \<Rightarrow> if r = SMTP_OK then remote_send c mv hq1 d1 s1 else remote_cleanup c r mv hq1 d1 s1) =
      Inr (go, mv', hq', d', s')" using assms su by (simp add: remote_step_def)
  show ?thesis
  proof (cases g)
    case Return
    with rest S show ?thesis by (auto simp: status_next_def)
  next
    case Again
    with rest S show ?thesis by (auto simp: status_next_def)
  next
    case (Talk r)
    have "base d' = base d1 \<and> core_hq hq' = core_hq hq1 \<and> calm s1 s' \<and> (go \<longrightarrow> d_snet_smtp d' = None) \<and>
        (hq_status hq1 \<noteq> HOST_PUNT_DOWN \<longrightarrow> agree d1 \<longrightarrow> agree d') \<and> status_next (hq_status hq1) (hq_status hq')"
    proof (cases "r = SMTP_OK")
      case True
      with rest Talk have "remote_send c mv hq1 d1 s1 = Inr (go, mv', hq', d', s')" by simp
      from remote_send_result [OF this] show ?thesis by simp
    next
      case False
      with rest Talk have "remote_cleanup c r mv hq1 d1 s1 = Inr (go, mv', hq', d', s')" by simp
      from remote_cleanup_result [OF this] show ?thesis by simp
    qed
    note T = this
    have "remote_less (d', s') (d, s)" if go
      using S T Talk that by (auto simp: remote_less_def calm_def)
    moreover have "hq_status hq \<noteq> HOST_PUNT_DOWN \<Longrightarrow> hq_status hq1 \<noteq> HOST_PUNT_DOWN"
      using S by (auto simp: status_next_def)
    ultimately show ?thesis using S T calm_trans [of s s1 s'] by auto
  qed
qed


subsection \<open>The loop over the addresses\<close>

function deliver_remote_loop :: "conf \<Rightarrow> bool \<Rightarrow> host_q \<Rightarrow> deliver \<Rightarrow> 'a net_state_scheme \<Rightarrow>
  (host_q \<times> deliver \<times> 'a net_state_scheme) run" where
  "deliver_remote_loop c mv hq d s =
     and_then (remote_step c mv hq d s) (\<lambda>(go, mv1, hq1, d1, s1).
       if go then deliver_remote_loop c mv1 hq1 d1 s1 else Inr (hq1, d1, s1))"
  by auto
termination
proof (relation "measures [\<lambda>(c, mv, hq, d, s). length (w_peers s), \<lambda>(c, mv, hq, d, s). flag_of (d_snet_smtp d \<noteq> None),
    \<lambda>(c, mv, hq, d, s). flag_of (d_queue_movement d \<noteq> 0), \<lambda>(c, mv, hq, d, s). flag_of (d_dnsr_result d = None),
    \<lambda>(c, mv, hq, d, s). mx_left d, \<lambda>(c, mv, hq, d, s). ip_left d, \<lambda>(c, mv, hq, d, s). length (d_retry_list d),
    \<lambda>(c, mv, hq, d, s). flag_of (d_retry_cur d = None), \<lambda>(c, mv, hq, d, s). flag_of (stale d)]", goal_cases)
  case (2 c mv hq d s x go y mv1 z hq1 u d1 s1)
  then have "remote_step c mv hq d s = Inr (True, mv1, hq1, d1, s1)" by simp
  from remote_step_result [OF this] have l: "remote_less (d1, s1) (d, s)" by simp
  consider "length (w_peers s1) < length (w_peers s)"
    | "length (w_peers s1) = length (w_peers s)" "d_snet_smtp d1 = None" "d_snet_smtp d \<noteq> None"
    | "length (w_peers s1) = length (w_peers s)" "d_snet_smtp d1 = None" "d_snet_smtp d = None"
      "d_queue_movement d1 = 0" "d_queue_movement d \<noteq> 0"
    | "length (w_peers s1) = length (w_peers s)" "d_snet_smtp d1 = None" "d_snet_smtp d = None"
      "d_queue_movement d1 = 0" "d_queue_movement d = 0" "walk_less d1 d"
    using l unfolding remote_less_def by (simp only: split) linarith
  then show ?case
  proof cases
    case 4
    then show ?thesis by (simp add: walk_less_def)
  qed (simp_all add: flag_of_def)
qed simp

declare deliver_remote_loop.simps [simp del]

definition deliver_remote :: "conf \<Rightarrow> host_q \<Rightarrow> deliver \<Rightarrow> 'a net_state_scheme \<Rightarrow>
  (host_q \<times> deliver \<times> 'a net_state_scheme) run" where
  "deliver_remote c hq d s =
     (case simta_gettimeofday s of
        (None, s1) \<Rightarrow> Inr (hq, d, s1)
      | (Some tv_start, s1) \<Rightarrow>
          (if hq_status hq = HOST_MX then deliver_remote_loop c False (hq\<lparr>hq_status := HOST_DOWN\<rparr>) d s1
           else if hq_status hq = HOST_PUNT then deliver_remote_loop c False (hq\<lparr>hq_status := HOST_PUNT_DOWN\<rparr>) d s1
           else Inl Panicked))"

text \<open>The statuses a queue takes within the loop and after it.\<close>

definition status_range :: "host_status \<Rightarrow> host_status set" where
  "status_range st = (if st = HOST_PUNT_DOWN then {HOST_PUNT_DOWN, HOST_PUNT}
     else {HOST_DOWN, HOST_MX, HOST_BOUNCE})"

lemma deliver_remote_loop_result:
  "deliver_remote_loop c mv hq d s = Inr (hq', d', s') \<Longrightarrow>
     base d' = base d \<and> core_hq hq' = core_hq hq \<and> calm s s' \<and>
     (hq_status hq \<in> status_range st \<longrightarrow> hq_status hq' \<in> status_range st) \<and>
     (hq_status hq \<in> status_range HOST_MX \<longrightarrow> agree d \<longrightarrow> agree d')"
proof (induction c mv hq d s rule: deliver_remote_loop.induct)
  case (1 c mv hq d s)
  obtain go mv1 hq1 d1 s1 where st: "remote_step c mv hq d s = Inr (go, mv1, hq1, d1, s1)"
    using "1.prems" by (auto simp: deliver_remote_loop.simps [of c mv hq d s])
  note r = remote_step_result [OF st]
  have rng: "hq_status hq \<in> status_range t \<longrightarrow> hq_status hq1 \<in> status_range t" for t
    using r by (auto simp: status_next_def status_range_def split: if_splits)
  have pd: "hq_status hq \<in> status_range HOST_MX \<longrightarrow> hq_status hq \<noteq> HOST_PUNT_DOWN"
    by (auto simp: status_range_def)
  show ?case
  proof (cases go)
    case False
    with "1.prems" st have "hq' = hq1" "d' = d1" "s' = s1"
      by (auto simp: deliver_remote_loop.simps [of c mv hq d s])
    with r rng pd show ?thesis by simp
  next
    case True
    then have "deliver_remote_loop c mv1 hq1 d1 s1 = Inr (hq', d', s')"
      using "1.prems" st by (simp add: deliver_remote_loop.simps [of c mv hq d s])
    from "1.IH" [OF st refl refl refl refl True this] r rng pd calm_trans [of s s1 s'] show ?thesis by simp
  qed
qed

lemma deliver_remote_result:
  assumes "deliver_remote c hq d s = Inr (hq', d', s')"
  shows "base d' = base d \<and> core_hq hq' = core_hq hq \<and> calm s s' \<and>
    (hq_status hq = HOST_MX \<longrightarrow> hq_status hq' \<in> {HOST_DOWN, HOST_MX, HOST_BOUNCE} \<and> (agree d \<longrightarrow> agree d')) \<and>
    (hq_status hq = HOST_PUNT \<longrightarrow> hq_status hq' \<in> {HOST_PUNT_DOWN, HOST_PUNT})"
proof -
  obtain tv s1 where g: "simta_gettimeofday s = (tv, s1)" by fastforce
  have c: "calm s s1" using gettimeofday_calm [of s] g by simp
  show ?thesis
  proof (cases tv)
    case None
    with assms g c show ?thesis by (auto simp: deliver_remote_def)
  next
    case (Some t)
    consider "hq_status hq = HOST_MX" "deliver_remote_loop c False (hq\<lparr>hq_status := HOST_DOWN\<rparr>) d s1 = Inr (hq', d', s')"
      | "hq_status hq = HOST_PUNT" "deliver_remote_loop c False (hq\<lparr>hq_status := HOST_PUNT_DOWN\<rparr>) d s1 = Inr (hq', d', s')"
      using assms g Some by (auto simp: deliver_remote_def split: if_splits)
    then show ?thesis
    proof cases
      case 1
      from deliver_remote_loop_result [OF 1(2), of HOST_MX] 1(1) calm_trans [OF c] show ?thesis
        by (simp add: status_range_def)
    next
      case 2
      from deliver_remote_loop_result [OF 2(2), of HOST_PUNT_DOWN] 2(1) calm_trans [OF c] show ?thesis
        by (simp add: status_range_def)
    qed
  qed
qed

end
