(* ===== verification/LocalDelivery.thy ===== *)
theory LocalDelivery
  imports Remote
begin

section \<open>Local delivery: every recipient gets the status of its program\<close>

text \<open>
  What \<open>deliver_binary\<close> and \<open>deliver_local\<close> (Deliver.thy) do to a delivery: output is kept
  with the recipient, the exit code becomes its status, and the counts agree.
\<close>

subsection \<open>What a program leaves\<close>

lemma append_copy_sure: "w_oracle s = [] \<Longrightarrow> append_copy lf l s = (True, lf @ [l], s)"
  by (simp add: append_copy_def line_append_def line_data_of_def)

lemma cur_rcpt_upd: "cur_rcpt d = Some r \<Longrightarrow> cur_rcpt (upd_rcpt f d) = Some (f r)"
  by (auto simp: cur_rcpt_def upd_rcpt_def upd_env_def split: option.splits if_splits)

lemma keep_output_kept:
  "keep_output ls d s = Inr (ok, d', s') \<Longrightarrow> core d' = core d \<and> tally d' = tally d \<and> quiet s s'"
proof (induction ls arbitrary: d s)
  case (Cons l ls)
  obtain r where r: "cur_rcpt d = Some r" using Cons.prems by (cases "cur_rcpt d") auto
  obtain b s1 where b: "(if r_err_text r = None then outcome s else (True, s)) = (b, s1)" by fastforce
  have q1: "quiet s s1" using b by (auto split: if_splits dest: outcome_quiet)
  obtain ok1 lf s2 where a: "append_copy (case r_err_text r of None \<Rightarrow> [] | Some lf \<Rightarrow> lf) l s1 = (ok1, lf, s2)"
    by (metis prod.exhaust)
  let ?d1 = "upd_rcpt (\<lambda>r. r\<lparr>r_err_text := Some lf\<rparr>) d"
  have k: "core ?d1 = core d" "tally ?d1 = tally d" by (simp_all add: core_upd_rcpt tally_upd_rcpt)
  have q2: "quiet s s2" using q1 append_copy_quiet [OF a] quiet_trans by blast
  consider "\<not> b" | "b" "\<not> ok1" | "b" "ok1" by blast
  then show ?case
  proof cases
    case 1
    with Cons.prems r b q1 show ?thesis by auto
  next
    case 2
    then have "d' = ?d1" "s' = s2" using Cons.prems r b a by auto
    with k q2 show ?thesis by simp
  next
    case 3
    then have "keep_output ls ?d1 s2 = Inr (ok, d', s')" using Cons.prems r b a by simp
    from Cons.IH [OF this] k q2 quiet_trans show ?thesis by auto
  qed
qed simp

lemma keep_output_sure:
  "w_oracle s = [] \<Longrightarrow> cur_rcpt d \<noteq> None \<Longrightarrow> \<exists>d'. keep_output ls d s = Inr (True, d', s)"
proof (induction ls arbitrary: d)
  case (Cons l ls)
  then obtain r where r: "cur_rcpt d = Some r" by auto
  let ?d1 = "upd_rcpt (\<lambda>x. x\<lparr>r_err_text := Some ((case r_err_text r of None \<Rightarrow> [] | Some lf \<Rightarrow> lf) @ [l])\<rparr>) d"
  have "cur_rcpt ?d1 \<noteq> None" using cur_rcpt_upd [OF r] by simp
  with Cons obtain d' where "keep_output ls ?d1 s = Inr (True, d', s)" by blast
  with r Cons.prems show ?case by (cases "r_err_text r") (auto simp: append_copy_sure)
qed simp

definition exit_of :: "wait_status \<Rightarrow> int" where
  "exit_of st = (case st of Exited n \<Rightarrow> n | Killed \<Rightarrow> EX_TEMPFAIL)"

lemma deliver_binary_kept:
  assumes "deliver_binary d s = Inr (rc, d', s')"
  shows "core d' = core d \<and> tally d' = tally d \<and> calm s s'"
proof -
  obtain b1 s1 where 1: "outcome s = (b1, s1)" by fastforce
  obtain tv s2 where 2: "simta_gettimeofday s1 = (tv, s2)" by fastforce
  obtain b3 s3 where 3: "outcome s2 = (b3, s3)" by fastforce
  obtain out st s4 where 4: "next_child s3 = (out, st, s4)" by (metis prod.exhaust)
  obtain b5 s5 where 5: "all_ok 2 s4 = (b5, s5)" by fastforce
  have c1: "calm s s1" using outcome_calm [OF 1] .
  have c3: "calm s s3"
    using c1 gettimeofday_calm [of s1] outcome_calm [OF 3] 2 calm_trans by (metis snd_conv)
  have "calm s3 s4" using 4 by (auto simp: next_child_def split: list.splits)
  then have c5: "calm s s5" using c3 all_ok_quiet [OF 5] quiet_calm calm_trans by blast
  show ?thesis
  proof (cases "b1 \<and> b3 \<and> b5")
    case False
    then have "d' = d \<and> (s' = s1 \<or> s' = s3 \<or> s' = s5)"
      using assms 1 2 3 4 5 by (cases b1; cases b3; cases b5) (simp_all add: deliver_binary_def)
    with c1 c3 c5 show ?thesis by auto
  next
    case True
    obtain ok d6 s6 where 6: "keep_output (snet_lines (snet_attach out (1024 * 1024))) d s5 = Inr (ok, d6, s6)"
      using assms 1 2 3 4 5 True
      by (cases "keep_output (snet_lines (snet_attach out (1024 * 1024))) d s5")
        (auto simp: deliver_binary_def simp del: snet_lines.simps)
    note k = keep_output_kept [OF 6]
    then have c6: "calm s s6" using c5 quiet_calm calm_trans by blast
    obtain b7 s7 where 7: "outcome s6 = (b7, s7)" by fastforce
    have c7: "calm s s7" using c6 outcome_calm [OF 7] calm_trans by blast
    have "d' = d6 \<and> (s' = s6 \<or> s' = s7 \<or> (\<exists>r. deliver_wait st s7 = Inr (r, s')))"
      using assms 1 2 3 4 5 6 7 True
      by (cases ok; cases b7) (auto simp: deliver_binary_def simp del: snet_lines.simps)
    moreover have "calm s7 s'" if "deliver_wait st s7 = Inr (r, s')" for r
      using that by (auto simp: deliver_wait_def Let_def split: prod.splits if_splits
          dest!: outcome_calm intro: calm_trans)
    ultimately show ?thesis using k c6 c7 calm_trans by blast
  qed
qed

lemma deliver_binary_sure:
  assumes "w_oracle s = []" "cur_rcpt d \<noteq> None" "w_children s = (out, st) # cs"
  shows "\<exists>d' s'. deliver_binary d s = Inr (exit_of st, d', s') \<and> w_oracle s' = [] \<and> w_children s' = cs"
proof -
  obtain tv s2 where 2: "simta_gettimeofday s = (tv, s2)" "same_files s s2" "w_oracle s2 = []"
    using simta_gettimeofday_sure [OF assms(1)] by auto
  have "sys.more s2 = sys.more s" using gettimeofday_more [OF 2(1)] .
  then have ch: "w_children s2 = (out, st) # cs" using assms(3) by (cases s; cases s2) simp
  let ?s4 = "s2\<lparr>w_children := cs\<rparr>"
  obtain d' where "keep_output (snet_lines (snet_attach out (1024 * 1024))) d ?s4 = Inr (True, d', ?s4)"
    using keep_output_sure [of ?s4 d] assms(2) 2(3) by auto
  then have "deliver_binary d s = Inr (exit_of st, d', ?s4)"
    using assms(1) 2 ch by (simp add: deliver_binary_def next_child_def all_ok_sure deliver_wait_def exit_of_def
        del: snet_lines.simps split: wait_status.split)
  then show ?thesis using 2(3) by simp
qed


subsection \<open>The statuses of a local delivery\<close>

lemma deliver_args_kept:
  "base (deliver_args c d) = base d" "tally (deliver_args c d) = tally d" "cur_rcpt (deliver_args c d) = cur_rcpt d"
  "length (e_rcpt (d_env (deliver_args c d))) = length (e_rcpt (d_env d))"
  by (cases "d_rcpt d"; simp add: deliver_args_def base_def core_def no_dns_def tally_def statuses_def cur_rcpt_def)+

text \<open>The statuses before the \<open>i\<close>-th recipient are counted, the others unset.\<close>

definition local_inv :: "nat \<Rightarrow> deliver \<Rightarrow> bool" where
  "local_inv i d \<longleftrightarrow> agree d \<and> unset_from i d \<and>
     d_n_rcpt_tempfailed d = int (count_list (take i (statuses d)) R_TEMPFAIL)"

lemma tempfailed_set_status:
  "d_n_rcpt_tempfailed (set_status st d) = d_n_rcpt_tempfailed d + (if st = R_ACCEPTED \<or> st = R_FAILED then 0 else 1)"
  by (simp add: set_status_def upd_rcpt_def upd_env_def Let_def split: option.split)

lemma local_inv_set_status:
  assumes "local_inv i d" "d_rcpt d = Some i" "cur_rcpt d \<noteq> None" "st \<in> {R_TEMPFAIL, R_ACCEPTED, R_FAILED}"
  shows "local_inv (Suc i) (set_status st d)"
proof -
  note s = statuses_set_status [OF assms(2,3), of st]
  then have "take (Suc i) (statuses (set_status st d)) = take i (statuses d) @ [st]"
    by (simp add: take_Suc_conv_app_nth)
  then show ?thesis
    using assms agree_set_status [OF _ _ assms(2,3,4)]
    by (auto simp: local_inv_def tempfailed_set_status env_codes)
qed

lemma ml_status_range: "ml_status e \<in> {R_TEMPFAIL, R_ACCEPTED, R_FAILED}"
  by (simp add: ml_status_def)

lemma core_length: "core d' = core d \<Longrightarrow> length (e_rcpt (d_env d')) = length (e_rcpt (d_env d))"
  by (drule arg_cong [of _ _ "\<lambda>d. length (e_rcpt (d_env d))"]) (simp add: core_def core_env_def)

lemma local_inv_tally: "tally d' = tally d \<Longrightarrow> local_inv i d' = local_inv i d"
  using agree_tally [of d' d] unset_tally [of d' d i] by (simp add: local_inv_def tally_def)

lemma cur_rcpt_some: "d_rcpt d = Some i \<Longrightarrow> i < length (e_rcpt (d_env d)) \<Longrightarrow> cur_rcpt d \<noteq> None"
  by (simp add: cur_rcpt_def)

lemma statuses_length [simp]: "length (statuses d) = length (e_rcpt (d_env d))"
  by (simp add: statuses_def)

lemma base_upd [simp]: "base (d\<lparr>d_rcpt := r\<rparr>) = base d" "base (d\<lparr>d_delivered := i\<rparr>) = base d"
  by (rule base_core; simp)+

lemma statuses_upd [simp]: "statuses (d\<lparr>d_rcpt := r\<rparr>) = statuses d" "statuses (d\<lparr>d_delivered := i\<rparr>) = statuses d"
  by (simp_all add: statuses_def)

text \<open>One recipient, up to its status.\<close>

lemma local_one:
  fixes s :: "'a net_state_scheme"
  assumes "(if b then deliver_binary (deliver_args c (d\<lparr>d_rcpt := Some i\<rparr>)) s
      else Inr (EX_TEMPFAIL, d\<lparr>d_rcpt := Some i\<rparr>, s)) = Inr (e, d2, s2)"
    and "local_inv i d" "i < length (e_rcpt (d_env d))"
  shows "local_inv (Suc i) (set_status (ml_status e) d2) \<and> base (set_status (ml_status e) d2) = base d \<and>
    statuses (set_status (ml_status e) d2) = (statuses d)[i := ml_status e] \<and> calm s s2"
proof -
  let ?d1 = "d\<lparr>d_rcpt := Some i\<rparr>"
  have k: "tally d2 = tally ?d1 \<and> base d2 = base ?d1 \<and> calm s s2"
  proof (cases b)
    case True
    with assms(1) have "deliver_binary (deliver_args c ?d1) s = Inr (e, d2, s2)" by simp
    note b = deliver_binary_kept [OF this]
    then have "base d2 = base (deliver_args c ?d1)" by (blast intro: base_core)
    with b show ?thesis by (simp only: deliver_args_kept)
  next
    case False
    with assms(1) show ?thesis by simp
  qed
  have d1: "statuses ?d1 = statuses d" "base ?d1 = base d" by simp_all
  have st: "statuses d2 = statuses d" "d_rcpt d2 = Some i" using k d1 by (simp_all add: tally_def)
  have "local_inv i ?d1" using assms(2) by (simp add: local_inv_def agree_def unset_from_def)
  then have i2: "local_inv i d2" using k local_inv_tally [of d2 ?d1] by simp
  have "i < length (e_rcpt (d_env d2))" using assms(3) st(1) by (metis statuses_length)
  with st(2) have cur: "cur_rcpt d2 \<noteq> None" by (rule cur_rcpt_some)
  have "base (set_status (ml_status e) d2) = base d2" by (rule base_core) simp
  with local_inv_set_status [OF i2 st(2) cur ml_status_range] statuses_set_status [OF st(2) cur] k d1 st
  show ?thesis by simp
qed

lemma local_rcpts_result:
  "local_rcpts c i n d s = Inr (d', s') \<Longrightarrow> local_inv i d \<Longrightarrow> i + n = length (e_rcpt (d_env d)) \<Longrightarrow>
     local_inv (i + n) d' \<and> length (statuses d') = i + n \<and> base d' = base d \<and> calm s s'"
proof (induction n arbitrary: i d s)
  case 0
  then show ?case by (auto simp: local_inv_def agree_def unset_from_def)
next
  case (Suc n)
  obtain b s1 where b: "outcome s = (b, s1)" by fastforce
  obtain e d2 s2 where 1: "(if b then deliver_binary (deliver_args c (d\<lparr>d_rcpt := Some i\<rparr>)) s1
      else Inr (EX_TEMPFAIL, d\<lparr>d_rcpt := Some i\<rparr>, s1)) = Inr (e, d2, s2)"
    and 2: "local_rcpts c (Suc i) n (set_status (ml_status e) d2) s2 = Inr (d', s')"
    using Suc.prems(1) b by (cases b) auto
  note o = local_one [OF 1 Suc.prems(2)]
  have "length (statuses (set_status (ml_status e) d2)) = length (statuses d)"
    using o Suc.prems(3) length_list_update [of "statuses d" i "ml_status e"] by simp
  then have "Suc i + n = length (e_rcpt (d_env (set_status (ml_status e) d2)))"
    using Suc.prems(3) by simp
  from Suc.IH [OF 2 _ this] o Suc.prems(3) outcome_calm [OF b] show ?case
    by (auto intro: calm_trans)
qed

lemma deliver_local_result:
  assumes "deliver_local c d s = Inr (d', s')" "local_inv 0 d"
  shows "agree d' \<and> d_n_rcpt_tempfailed d' = int (count_list (statuses d') R_TEMPFAIL) \<and>
    base d' = base d \<and> calm s s' \<and> d_delivered d' = 1"
proof -
  obtain d1 where 1: "local_rcpts c 0 (length (e_rcpt (d_env d))) d s = Inr (d1, s')"
    and d': "d' = d1\<lparr>d_delivered := 1\<rparr>"
    using assms(1) by (auto simp: deliver_local_def)
  have "statuses d' = statuses d1" "agree d' = agree d1" "base d' = base d1"
    by (simp_all add: d' agree_def)
  with local_rcpts_result [OF 1 assms(2)] show ?thesis by (auto simp: local_inv_def d')
qed


text \<open>When the calls succeed, the exit codes are the statuses, in order.\<close>

lemma local_rcpts_sure:
  "w_oracle s = [] \<Longrightarrow> local_inv i d \<Longrightarrow> i + n = length (e_rcpt (d_env d)) \<Longrightarrow> n \<le> length (w_children s) \<Longrightarrow>
     \<exists>d' s'. local_rcpts c i n d s = Inr (d', s') \<and>
       statuses d' = take i (statuses d) @ map (\<lambda>x. ml_status (exit_of (snd x))) (take n (w_children s))"
proof (induction n arbitrary: i d s)
  case 0
  then have "take i (statuses d) = statuses d" by simp
  then show ?case by simp
next
  case (Suc n)
  obtain out st cs where ch: "w_children s = (out, st) # cs"
    using Suc.prems(4) by (cases "w_children s") auto
  let ?d1 = "deliver_args c (d\<lparr>d_rcpt := Some i\<rparr>)"
  have "cur_rcpt (d\<lparr>d_rcpt := Some i\<rparr>) \<noteq> None" using Suc.prems(3) by (intro cur_rcpt_some [of _ i]) simp_all
  then have "cur_rcpt ?d1 \<noteq> None" unfolding deliver_args_kept .
  from deliver_binary_sure [OF Suc.prems(1) this ch] obtain d2 s2 where
    b: "deliver_binary ?d1 s = Inr (exit_of st, d2, s2)" "w_oracle s2 = []" "w_children s2 = cs" by blast
  let ?d3 = "set_status (ml_status (exit_of st)) d2"
  have o: "local_inv (Suc i) ?d3 \<and> base ?d3 = base d \<and> statuses ?d3 = (statuses d)[i := ml_status (exit_of st)] \<and> calm s s2"
    by (rule local_one [where s = s and b = True and c = c]) (use b Suc.prems in simp_all)
  then have "length (statuses ?d3) = length (statuses d)"
    using length_list_update [of "statuses d" i "ml_status (exit_of st)"] by simp
  then have len: "Suc i + n = length (e_rcpt (d_env ?d3))" using Suc.prems(3) by simp
  have "n \<le> length (w_children s2)" using Suc.prems(4) ch b(3) by simp
  from Suc.IH [OF b(2) _ len this] o obtain d' s' where
    r: "local_rcpts c (Suc i) n ?d3 s2 = Inr (d', s')"
    "statuses d' = take (Suc i) (statuses ?d3) @ map (\<lambda>x. ml_status (exit_of (snd x))) (take n cs)"
    using b(3) by auto
  have "take (Suc i) (statuses ?d3) = take i (statuses d) @ [ml_status (exit_of st)]"
    using o Suc.prems(3) by (simp add: take_Suc_conv_app_nth)
  with r b(1) ch Suc.prems(1) show ?case by simp
qed

text \<open>
  C40: local delivery gives every recipient the status its program's exit code stands for,
  in the order of the recipients: accepted for 0, failed for \<open>EX_DATAERR\<close> and
  \<open>EX_NOUSER\<close>, temporary failure for every other code and for a program that was killed; and
  the three counts are the numbers of recipients with these statuses.
\<close>

theorem deliver_local_statuses:
  assumes "w_oracle s = []" "local_inv 0 d" "length (e_rcpt (d_env d)) \<le> length (w_children s)"
  shows "\<exists>d' s'. deliver_local c d s = Inr (d', s') \<and> d_delivered d' = 1 \<and>
    statuses d' = map (\<lambda>x. ml_status (exit_of (snd x))) (take (length (e_rcpt (d_env d))) (w_children s)) \<and>
    d_n_rcpt_accepted d' = int (count_list (statuses d') R_ACCEPTED) \<and>
    d_n_rcpt_failed d' = int (count_list (statuses d') R_FAILED) \<and>
    d_n_rcpt_tempfailed d' = int (count_list (statuses d') R_TEMPFAIL)"
proof -
  obtain d1 s' where l: "local_rcpts c 0 (length (e_rcpt (d_env d))) d s = Inr (d1, s')"
    "statuses d1 = map (\<lambda>x. ml_status (exit_of (snd x))) (take (length (e_rcpt (d_env d))) (w_children s))"
    using local_rcpts_sure [OF assms(1,2) _ assms(3), of c] by auto
  then have "deliver_local c d s = Inr (d1\<lparr>d_delivered := 1\<rparr>, s')" by (simp add: deliver_local_def)
  with deliver_local_result [OF this assms(2)] l(2) show ?thesis by (simp add: agree_def)
qed

definition local_ex :: net_state where
  "local_ex = (net_state_ex [])\<lparr>w_children := [(''ok'' @ [NL], Exited 0), ([], Exited 67)]\<rparr>"

theorem deliver_local_statuses_witness:
  "\<exists>d' s'. deliver_local conf_ex (zero_deliver env_ex) local_ex = Inr (d', s') \<and>
     statuses d' = [R_ACCEPTED, R_FAILED] \<and> d_n_rcpt_accepted d' = 1"
proof -
  have "local_inv 0 (zero_deliver env_ex)" "w_oracle local_ex = []"
    "length (e_rcpt (d_env (zero_deliver env_ex))) = 2" "w_children local_ex = [(''ok'' @ [NL], Exited 0), ([], Exited 67)]"
    by (simp_all add: local_inv_def agree_def unset_from_def statuses_def zero_deliver_def env_ex_def
        new_recipient_def env_codes local_ex_def net_state_ex_def q_state_ex_def q_state.defs)
  with deliver_local_statuses [of local_ex "zero_deliver env_ex" conf_ex] show ?thesis
    by (auto simp: exit_of_def ml_status_def ex_codes env_codes)
qed

end
