(* ===== verification/QDeliver.thy ===== *)
theory QDeliver
  imports LocalDelivery
begin

section \<open>Delivering a queue: queue.c, \_q\_deliver\<close>

text \<open>
  The messages of one host queue, one after the other: try it, then bounce, delete, rewrite
  or put it back.  \<open>daytime\<close> is the time as it is printed in bounces.  The part of the loop
  up to \<open>message_cleanup\<close> and the part behind it are functions of their own; a result
  says whether the loop goes on, jumps to the cleanup, or the function returns.
\<close>

subsection \<open>Trying a message\<close>

definition deliver_status :: "simta_red option \<Rightarrow> host_status" where
  "deliver_status red = (case red of
       None \<Rightarrow> HOST_MX
     | Some r \<Rightarrow> if red_deliver_type r = RED_DELIVER_SMTP_DEFAULT \<or> red_deliver_type r = RED_DELIVER_SMTP then HOST_MX
                 else if red_deliver_type r = RED_DELIVER_BINARY then HOST_LOCAL else HOST_DOWN)"

text \<open>What kind of host it is, and another chance for a punt host.\<close>

definition q_status :: "conf \<Rightarrow> hq_ref \<Rightarrow> 'a net_state_scheme \<Rightarrow> 'a net_state_scheme run" where
  "q_status c r s =
     (case get_hq r s of
        None \<Rightarrow> Inl NullDeref
      | Some hq \<Rightarrow>
          and_then (if hq_status hq = HOST_UNKNOWN then
                 and_then (host_local c (hq_hostname hq) s) (\<lambda>(red, s1).
                   Inr (upd_hq r (\<lambda>q. q\<lparr>hq_status := deliver_status red\<rparr>) s1))
               else Inr s)
            (\<lambda>s1. Inr (upd_hq r (\<lambda>q. if hq_status q = HOST_PUNT_DOWN then q\<lparr>hq_status := HOST_PUNT\<rparr> else q) s1)))"

definition q_reset :: "envelope \<Rightarrow> deliver \<Rightarrow> deliver" where
  "q_reset env d = d\<lparr>d_env := env, d_dfile_fd := 0, d_n_rcpt_accepted := 0, d_n_rcpt_failed := 0,
     d_n_rcpt_tempfailed := 0, d_delivered := 0, d_unlinked := 0, d_size := 0, d_sent := 0\<rparr>"

definition is_jailed :: "conf \<Rightarrow> envelope \<Rightarrow> bool" where
  "is_jailed c env \<longleftrightarrow> simta_mail_jail c \<noteq> 0 \<and> e_jail env = ENV_JAIL_PRISONER"

datatype q_next = Settle | Cleanup | Leave

text \<open>
  \<open>deliver_remote\<close> on the queue behind the pointer.  A punt host that could not be reached
  ends the delivery: the message goes back to the punt queue.
\<close>

definition q_remote :: "conf \<Rightarrow> hq_ref \<Rightarrow> host_q \<Rightarrow> deliver \<Rightarrow> 'a net_state_scheme \<Rightarrow>
  (q_next \<times> deliver \<times> 'a net_state_scheme) run" where
  "q_remote c r hq d s =
     (let (attach_ok, s1) = outcome s
      in if \<not> attach_ok then Inr (Cleanup, d, s1)
         else
           and_then (deliver_remote c hq
               (d\<lparr>d_snet_dfile := Some (snet_attach (w_data s1 (d_dfile_fd d)) (1024 * 1024))\<rparr>) s1)
             (\<lambda>(hq1, d1, s2).
                let s3 = upd_hq r (\<lambda>_. hq1) s2
                in if hq_status hq1 = HOST_PUNT_DOWN then
                     (let env = env_clear_errors (d_env d1);
                          env1 = env\<lparr>e_flags := set_flag (e_flags env) ENV_FLAG_PUNT\<rparr>
                      in and_then (queue_envelope c env1 s3)
                           (\<lambda>(rc, env2, s4). Inr (Leave, d1\<lparr>d_env := env2\<rparr>, s4)))
                   else Inr (Settle, d1, s3)))"

text \<open>The switch over the status of the host.\<close>

definition q_try :: "conf \<Rightarrow> hq_ref \<Rightarrow> deliver \<Rightarrow> 'a net_state_scheme \<Rightarrow>
  (q_next \<times> deliver \<times> 'a net_state_scheme) run" where
  "q_try c r d s =
     (case get_hq r s of
        None \<Rightarrow> Inl NullDeref
      | Some hq \<Rightarrow>
          (case hq_status hq of
             HOST_LOCAL \<Rightarrow>
               (if is_jailed c (d_env d) then Inr (Settle, d, s)
                else
                  (let d1 = (case hq_red hq of
                         None \<Rightarrow> d
                       | Some red \<Rightarrow> (case red_deliver_argv red of
                             None \<Rightarrow> d
                           | Some argv \<Rightarrow> d\<lparr>d_deliver_argc := red_deliver_argc red, d_deliver_argv := Some argv\<rparr>))
                   in and_then (deliver_local c d1 s) (\<lambda>(d2, s1). Inr (Settle, d2, s1))))
           | HOST_MX \<Rightarrow> if is_jailed c (d_env d) then Inr (Settle, d, s) else q_remote c r hq d s
           | HOST_PUNT \<Rightarrow> if is_jailed c (d_env d) then Inr (Settle, d, s) else q_remote c r hq d s
           | HOST_SUPRESSED \<Rightarrow> Inr (Settle, d, s)
           | HOST_DOWN \<Rightarrow> Inr (Settle, d, s)
           | HOST_BOUNCE \<Rightarrow>
               Inr (Settle, upd_env (\<lambda>e. e\<lparr>e_flags := set_flag (e_flags e) ENV_FLAG_BOUNCE\<rparr>) d, s)
           | HOST_BITBUCKET \<Rightarrow> Inr (Settle, d\<lparr>d_delivered := 1, d_n_rcpt_accepted := e_n_rcpt (d_env d)\<rparr>, s)
           | _ \<Rightarrow> Inl Panicked))"

text \<open>Up to the switch: reading the envelope, opening the data file.\<close>

definition q_open :: "envelope \<Rightarrow> deliver \<Rightarrow> 'a net_state_scheme \<Rightarrow> bool \<times> deliver \<times> 'a net_state_scheme" where
  "q_open env d s =
     (case open_file (dfile env) s of
        (None, s1) \<Rightarrow> (False, d, s1)
      | (Some fd, s1) \<Rightarrow>
          (let d1 = d\<lparr>d_dfile_fd := fd\<rparr>; (fstat_ok, s2) = outcome s1
           in if fstat_ok then (True, d1\<lparr>d_size := int (length (w_data s2 fd))\<rparr>, s2) else (False, d1, s2)))"

subsection \<open>What becomes of the recipients\<close>

text \<open>The totals, and how many recipients are settled.\<close>

definition q_tally :: "deliver \<Rightarrow> int \<times> deliver" where
  "q_tally d =
     (if d_delivered d \<noteq> 0 then
        (d_n_rcpt_failed d + d_n_rcpt_accepted d,
         d\<lparr>d_n_message_accepted_total := d_n_message_accepted_total d + 1,
           d_n_rcpt_accepted_total := d_n_rcpt_accepted_total d + d_n_rcpt_accepted d,
           d_n_rcpt_failed_total := d_n_rcpt_failed_total d + d_n_rcpt_failed d,
           d_n_rcpt_tempfailed_total := d_n_rcpt_tempfailed_total d + d_n_rcpt_tempfailed d\<rparr>)
      else if has_flag (e_flags (d_env d)) ENV_FLAG_BOUNCE then
        (e_n_rcpt (d_env d),
         d\<lparr>d_n_message_failed_total := d_n_message_failed_total d + 1,
           d_n_rcpt_failed_total := d_n_rcpt_failed_total d + e_n_rcpt (d_env d)\<rparr>)
      else
        (d_n_rcpt_failed d,
         d\<lparr>d_n_message_tempfailed_total := d_n_message_tempfailed_total d + 1,
           d_n_rcpt_failed_total := d_n_rcpt_failed_total d + d_n_rcpt_failed d,
           d_n_rcpt_tempfailed_total := d_n_rcpt_tempfailed_total d + d_n_rcpt_tempfailed d + d_n_rcpt_accepted d\<rparr>))"

definition q_age :: "conf \<Rightarrow> int \<Rightarrow> deliver \<Rightarrow> 'a net_state_scheme \<Rightarrow> deliver \<times> 'a net_state_scheme" where
  "q_age c n_remove d s =
     (if n_remove = e_n_rcpt (d_env d) then (d, s)
      else (case env_is_old c (d_env d) (d_dfile_fd d) s of
          (rc, env, s1) \<Rightarrow>
            (d\<lparr>d_env := (if rc \<noteq> 0 then env\<lparr>e_flags := set_flag (e_flags env) ENV_FLAG_BOUNCE\<rparr> else env)\<rparr>, s1)))"

text \<open>
  The reader of the data file for a bounce: the one of the remote delivery, rewound around
  its buffer, or a new one; without it the bounce quotes nothing.
\<close>

definition q_bounce_file :: "bool \<Rightarrow> deliver \<Rightarrow> 'a net_state_scheme \<Rightarrow> (snet option \<times> 'a net_state_scheme) run" where
  "q_bounce_file attached d s =
     (let (lseek_ok, s1) = outcome s
      in if \<not> lseek_ok then Inl Panicked
         else if \<not> attached then
           (let (attach_ok, s2) = outcome s1
            in Inr (if attach_ok then Some (snet_attach (w_data s2 (d_dfile_fd d)) (1024 * 1024)) else None, s2))
         else
           (let (lseek2_ok, s2) = outcome s1
            in if \<not> lseek2_ok then Inl Panicked
               else and_then (rewind_dfile d s2) (\<lambda>(d1, s3). Inr (d_snet_dfile d1, s3))))"

definition needs_bounce :: "deliver \<Rightarrow> bool" where
  "needs_bounce d \<longleftrightarrow> has_flag (e_flags (d_env d)) ENV_FLAG_BOUNCE \<or> d_n_rcpt_failed d \<noteq> 0"

text \<open>None is a bounce that could not be made, Some None that none is needed.\<close>

definition q_bounce :: "conf \<Rightarrow> string \<Rightarrow> hq_ref \<Rightarrow> bool \<Rightarrow> deliver \<Rightarrow> 'a net_state_scheme \<Rightarrow>
  (envelope option option \<times> 'a net_state_scheme) run" where
  "q_bounce c daytime r attached d s =
     (if \<not> needs_bounce d then Inr (Some None, s)
      else
        and_then (q_bounce_file attached d s) (\<lambda>(sn, s1).
        and_then (bounce_snet c daytime (d_env d) sn (get_hq r s1) None s1) (\<lambda>(b, s2).
          Inr (case b of None \<Rightarrow> None | Some x \<Rightarrow> Some (Some x), s2))))"

definition settled :: "deliver \<Rightarrow> recipient \<Rightarrow> bool" where
  "settled d r \<longleftrightarrow> (d_delivered d \<noteq> 0 \<and> r_status r = R_ACCEPTED) \<or> r_status r = R_FAILED"

definition drop_settled :: "deliver \<Rightarrow> envelope" where
  "drop_settled d = (d_env d)\<lparr>e_rcpt := filter (\<lambda>r. \<not> settled d r) (e_rcpt (d_env d)),
     e_n_rcpt := e_n_rcpt (d_env d) - int (length (filter (settled d) (e_rcpt (d_env d))))\<rparr>"

text \<open>A command file that is written over is not a new file of the fast directory.\<close>

definition q_rewrite :: "conf \<Rightarrow> deliver \<Rightarrow> 'a net_state_scheme \<Rightarrow> (bool \<times> deliver \<times> 'a net_state_scheme) run" where
  "q_rewrite c d s =
     (let env = drop_settled d
      in if e_n_rcpt env \<le> 0 then Inl AssertFail
         else
           and_then (env_outfile c env s) (\<lambda>(rc, env1, s1).
             if rc \<noteq> 0 then Inr (False, d\<lparr>d_env := env1\<rparr>, s1)
             else
               (let s2 = (if e_dir env1 = DIR_FAST then s1\<lparr>simta_fast_files := simta_fast_files s1 - 1\<rparr> else s1)
                in if simta_fast_files s2 < 0 then Inl AssertFail else Inr (True, d\<lparr>d_env := env1\<rparr>, s2))))"

text \<open>Deleting, rewriting or keeping the message: whether that worked, and whether to touch it.\<close>

definition q_dispose :: "conf \<Rightarrow> int \<Rightarrow> nat option \<Rightarrow> deliver \<Rightarrow> 'a net_state_scheme \<Rightarrow>
  (bool \<times> bool \<times> deliver \<times> 'a net_state_scheme) run" where
  "q_dispose c n_remove lock d s =
     (if has_flag (e_flags (d_env d)) ENV_FLAG_BOUNCE \<or> n_remove = e_n_rcpt (d_env d) then
        (case env_truncate_and_unlink (d_env d) lock s of
           (rc, env, s1) \<Rightarrow>
             if rc \<noteq> 0 then Inr (False, False, d\<lparr>d_env := env\<rparr>, s1)
             else Inr (True, False, d\<lparr>d_env := env, d_unlinked := 1\<rparr>, s1))
      else if n_remove \<noteq> 0 then
        and_then (q_rewrite c d s) (\<lambda>(ok, d1, s1). Inr (ok, False, d1, s1))
      else Inr (True, d_n_rcpt_accepted d \<noteq> 0, d, s))"

text \<open>From the switch to \<open>message_cleanup\<close>: the touch count, a bounce that is still held.\<close>

definition q_settle :: "conf \<Rightarrow> string \<Rightarrow> hq_ref \<Rightarrow> bool \<Rightarrow> nat option \<Rightarrow> deliver \<Rightarrow> 'a net_state_scheme \<Rightarrow>
  (bool \<times> envelope option \<times> deliver \<times> 'a net_state_scheme) run" where
  "q_settle c daytime r attached lock d s =
     (case get_hq r s of
        None \<Rightarrow> Inl NullDeref
      | Some hq \<Rightarrow>
          (let s1 = (if hq_primary hq \<noteq> 0 \<and> d_queue_movement d \<noteq> 0 then s\<lparr>simta_leaky_queue := 1\<rparr> else s);
               (n_remove, d1) = q_tally d;
               (d2, s2) = q_age c n_remove d1 s1
           in and_then (q_bounce c daytime r attached d2 s2) (\<lambda>(b, s3).
                case b of
                  None \<Rightarrow> Inr (False, None, d2, s3)
                | Some env_bounce \<Rightarrow>
                    and_then (q_dispose c n_remove lock d2 s3) (\<lambda>(ok, touch, d3, s4).
                      if \<not> ok then Inr (touch, env_bounce, d3, s4)
                      else (case env_bounce of
                          None \<Rightarrow> Inr (touch, None, d3, s4)
                        | Some be \<Rightarrow>
                            and_then (queue_envelope c be s4) (\<lambda>(rc, be1, s5). Inr (touch, None, d3, s5)))))))"

subsection \<open>The cleanup, and the loop\<close>

definition q_touch :: "bool \<Rightarrow> deliver \<Rightarrow> 'a net_state_scheme \<Rightarrow> bool \<times> deliver \<times> 'a net_state_scheme" where
  "q_touch wanted d s =
     (if wanted \<and> e_dir (d_env d) = DIR_SLOW \<and> d_unlinked d = 0 then
        (case env_touch (d_env d) s of (rc, env, s1) \<Rightarrow> (True, d\<lparr>d_env := env\<rparr>, s1))
      else (False, d, s))"

definition q_unwind :: "envelope option \<Rightarrow> 'a net_state_scheme \<Rightarrow> 'a net_state_scheme" where
  "q_unwind env_bounce s =
     (case env_bounce of
        None \<Rightarrow> s
      | Some b \<Rightarrow> (case env_unlink b s of (rc, b1, s1) \<Rightarrow> env_free (Some b1) s1))"

text \<open>A message that is left goes to the punt queue, or to the slow directory.\<close>

definition q_put_back :: "conf \<Rightarrow> hq_ref \<Rightarrow> deliver \<Rightarrow> 'a net_state_scheme \<Rightarrow> 'a net_state_scheme run" where
  "q_put_back c r d s =
     (if d_unlinked d \<noteq> 0 then Inr (env_free (Some (d_env d)) s)
      else (case get_hq r s of
          None \<Rightarrow> Inl NullDeref
        | Some hq \<Rightarrow>
            (if simta_punt_q s \<noteq> None \<and> r \<noteq> PuntQ \<and> hq_no_punt hq = 0 then
               (let env = env_clear_errors (d_env d);
                    env1 = env\<lparr>e_flags := set_flag (e_flags env) ENV_FLAG_PUNT\<rparr>
                in and_then (queue_envelope c env1 s) (\<lambda>(rc, env2, s1). Inr s1))
             else
               and_then (env_move (d_env d) DIR_SLOW s)
                 (\<lambda>(rc, env, s1). Inr (env_free (Some env) s1)))))"

text \<open>The loop carries the touch count and whether a message was processed before.\<close>

definition q_message :: "conf \<Rightarrow> string \<Rightarrow> hq_ref \<Rightarrow> bool \<Rightarrow> nat option \<Rightarrow> envelope \<Rightarrow> deliver \<Rightarrow> bool \<Rightarrow>
  'a net_state_scheme \<Rightarrow> (bool \<times> bool \<times> deliver \<times> 'a net_state_scheme) run" where
  "q_message c daytime r touch lock env d first s =
     (let (open_ok, d1, s1) = q_open env (q_reset env d) s
      in and_then (if open_ok then q_try c r d1 s1 else Inr (Cleanup, d1, s1)) (\<lambda>(go, d2, s2).
         if go = Leave then Inr (False, touch, d2, s2)
         else
           and_then
             (if go = Cleanup then Inr (touch, None, d2, s2)
              else and_then (q_settle c daytime r
                     (case get_hq r s1 of None \<Rightarrow> False
                        | Some hq \<Rightarrow> hq_status hq \<in> {HOST_MX, HOST_PUNT} \<and> \<not> is_jailed c (d_env d1))
                     lock d2 s2)
                   (\<lambda>(t, b, d3, s3). Inr (touch \<or> t, b, d3, s3)))
             (\<lambda>(touch1, b, d3, s3).
                case q_touch (touch1 \<or> first) d3 s3 of
                  (touched, d4, s4) \<Rightarrow>
                    and_then (q_put_back c r d4 (q_unwind b s4))
                      (\<lambda>s5. Inr (True, touch1 \<and> \<not> touched, d4, s5)))))"

text \<open>A message that came without its recipients is locked and read first.\<close>

definition q_read :: "conf \<Rightarrow> envelope \<Rightarrow> 'a env_state_scheme \<Rightarrow>
  (bool \<times> nat option \<times> envelope \<times> 'a env_state_scheme) run" where
  "q_read c env s =
     (if e_rcpt env = [] then
        and_then (env_read c READ_DELIVER_INFO env True s)
          (\<lambda>(rc, lock, env1, s1). Inr (rc = 0, lock, env1, s1))
      else Inr (True, None, env, s))"

text \<open>
  The loop ends with an empty queue, or returns because the punt host is down.  A pass takes
  one message out of the queue; \<open>Running\<close> is the end of the passes that were granted, and
  one pass more than there are messages is enough (\<open>q_loop_ends\<close>).
\<close>

datatype q_end = Drained | Punted | Running

fun q_loop :: "conf \<Rightarrow> string \<Rightarrow> hq_ref \<Rightarrow> nat \<Rightarrow> bool \<Rightarrow> bool \<Rightarrow> deliver \<Rightarrow> 'a net_state_scheme \<Rightarrow>
  (q_end \<times> deliver \<times> 'a net_state_scheme) run" where
  "q_loop c daytime r 0 touch first d s = Inr (Running, d, s)"
| "q_loop c daytime r (Suc n) touch first d s =
     (case get_hq r s of
        None \<Rightarrow> Inl NullDeref
      | Some hq \<Rightarrow>
          (case hq_env_head hq of
             [] \<Rightarrow> Inr (Drained, d, s)
           | env # envs \<Rightarrow>
               and_then (queue_remove_envelope env s) (\<lambda>(env1, s1).
               and_then (q_read c env1 s1) (\<lambda>(valid, lock, env2, s2).
                 if \<not> valid then q_loop c daytime r n touch first d (env_free (Some env2) s2)
                 else
                   and_then (q_message c daytime r touch lock env2 d first s2) (\<lambda>(go, touch1, d1, s3).
                     if go then q_loop c daytime r n touch1 False d1 s3 else Inr (Punted, d1, s3))))))"

text \<open>A connection that is left is closed.  At first all is zero and there is no envelope (an empty one here).\<close>

definition q_quit :: "conf \<Rightarrow> hq_ref \<Rightarrow> deliver \<Rightarrow> 'a net_state_scheme \<Rightarrow> (deliver \<times> 'a net_state_scheme) run" where
  "q_quit c r d s =
     (if d_snet_smtp d = None then Inr (d, s)
      else (case get_hq r s of
          None \<Rightarrow> Inl NullDeref
        | Some hq \<Rightarrow>
            and_then (smtp_quit c hq d s) (\<lambda>(hq1, d1, s1). Inr (d1, upd_hq r (\<lambda>_. hq1) s1))))"

definition q_deliver_run :: "conf \<Rightarrow> string \<Rightarrow> hq_ref \<Rightarrow> nat \<Rightarrow> 'a net_state_scheme \<Rightarrow>
  (q_end \<times> deliver \<times> 'a net_state_scheme) run" where
  "q_deliver_run c daytime r n s =
     and_then (q_status c r s) (\<lambda>s1.
     and_then (q_loop c daytime r n False True (zero_deliver (zero_env DIR_FAST [])) s1) (\<lambda>(how, d1, s2).
       if how = Drained then and_then (q_quit c r d1 s2) (\<lambda>(d2, s3). Inr (how, d2, s3))
       else Inr (how, d1, s2)))"

text \<open>\<open>q_deliver\<close>: nothing is delivered when the clock cannot be read.\<close>

definition q_deliver :: "conf \<Rightarrow> string \<Rightarrow> hq_ref \<Rightarrow> nat \<Rightarrow> 'a net_state_scheme \<Rightarrow>
  (q_end \<times> deliver \<times> 'a net_state_scheme) run" where
  "q_deliver c daytime r n s =
     (case simta_gettimeofday s of
        (None, s1) \<Rightarrow> Inr (Drained, zero_deliver (zero_env DIR_FAST []), s1)
      | (Some tv, s1) \<Rightarrow>
          and_then (q_deliver_run c daytime r n s1)
            (\<lambda>(how, d1, s2). Inr (how, d1, snd (simta_gettimeofday s2))))"

end
