(* ===== verification/QDeliverFacts.thy ===== *)
theory QDeliverFacts
  imports QDeliver
begin

section \<open>What the delivery of a queue keeps\<close>

text \<open>
  The queues: \<open>keeps_queue r\<close> says that an operation leaves the messages of one queue where
  they are, and all queues in order.  The pass over a queue takes one message out of it and
  puts none in, so that the loop ends.
\<close>

subsection \<open>Taking a result apart\<close>

lemma and_then2E:
  assumes "and_then m (\<lambda>(a, b). f a b) = Inr y"
  obtains a b where "m = Inr (a, b)" "f a b = Inr y"
  using assms by auto

lemma and_then3E:
  assumes "and_then m (\<lambda>(a, b, c). f a b c) = Inr y"
  obtains a b c where "m = Inr (a, b, c)" "f a b c = Inr y"
  using assms by auto

lemma and_then4E:
  assumes "and_then m (\<lambda>(a, b, c, d). f a b c d) = Inr y"
  obtains a b c d where "m = Inr (a, b, c, d)" "f a b c d = Inr y"
  using assms by auto

subsection \<open>The queue that is delivered\<close>

definition sound :: "'a q_state_scheme \<Rightarrow> bool" where
  "sound s \<longleftrightarrow> queues_ok s \<and> null_ok s"

definition keeps_queue :: "hq_ref \<Rightarrow> 'a q_state_scheme \<Rightarrow> 'a q_state_scheme \<Rightarrow> bool" where
  "keeps_queue r s s' \<longleftrightarrow> (sound s \<longrightarrow> sound s' \<and>
     (\<forall>hq. get_hq r s = Some hq \<longrightarrow> (\<exists>hq'. get_hq r s' = Some hq' \<and> hq_env_head hq' = hq_env_head hq)))"

lemma keeps_queue_refl [simp]: "keeps_queue r s s"
  by (simp add: keeps_queue_def)

lemma keeps_queue_trans: "keeps_queue r s t \<Longrightarrow> keeps_queue r t u \<Longrightarrow> keeps_queue r s u"
  unfolding keeps_queue_def by (metis (no_types, lifting))

lemma keeps_queue_same:
  assumes "get_hq r s' = get_hq r s" "queues_ok s' = queues_ok s" "null_ok s' = null_ok s"
  shows "keeps_queue r s s'"
  using assms by (simp add: keeps_queue_def sound_def)

lemma more_keeps_queue: "env_state.more s' = env_state.more s \<Longrightarrow> keeps_queue r s s'"
  by (intro keeps_queue_same more_queues)

lemma sys_keeps_queue: "sys.more s' = sys.more s \<Longrightarrow> keeps_queue r s s'"
  by (intro more_keeps_queue env_state_more)

lemma calm_get: "calm s s' \<Longrightarrow> get_hq r s' = get_hq r s"
  by (simp add: calm_def net_kept_def get_hq_def host_q_lookup_def split: hq_ref.split)

lemma calm_keeps_queue:
  assumes "calm s s'"
  shows "keeps_queue r s s'"
proof (rule keeps_queue_same)
  show "get_hq r s' = get_hq r s" using assms by (rule calm_get)
  have "simta_host_q s' = simta_host_q s" using assms by (simp add: calm_def net_kept_def)
  then show "queues_ok s' = queues_ok s" using calm_get [OF assms] by (simp add: queues_ok_def)
  show "null_ok s' = null_ok s" using assms by (simp add: calm_def net_kept_def null_ok_def)
qed

lemma upd_hq_cong: "get_hq r s = Some hq \<Longrightarrow> f hq = g hq \<Longrightarrow> upd_hq r f s = upd_hq r g s"
proof -
  have "hosts_lookup h hqs = Some hq \<Longrightarrow> f hq = g hq \<Longrightarrow> hosts_update h f hqs = hosts_update h g hqs" for h hqs
    by (induction hqs) (auto split: if_splits)
  then show "get_hq r s = Some hq \<Longrightarrow> f hq = g hq \<Longrightarrow> ?thesis"
    by (cases r) (simp_all add: get_hq_def upd_hq_def host_q_lookup_def)
qed

lemma null_ok_upd [simp]: "null_ok (upd_hq r f s) = null_ok s"
  by (cases r; cases "simta_unexpanded_q s"; cases "simta_punt_q s") (simp_all add: upd_hq_def null_ok_def)

lemma upd_core_keeps_queue:
  assumes "\<And>hq. core_hq (f hq) = core_hq hq"
  shows "keeps_queue q s (upd_hq r f s)"
proof -
  have fields: "hq_hostname (f hq) = hq_hostname hq \<and> hq_env_head (f hq) = hq_env_head hq \<and>
      hq_entries (f hq) = hq_entries hq \<and> hq_jail_envs (f hq) = hq_jail_envs hq" for hq
    using assms [of hq] by (cases hq; cases "f hq") (simp add: core_hq_def)
  then have ok: "hq_ok r hq \<Longrightarrow> hq_ok r (f hq)" for hq
    by (simp add: hq_ok_def ref_of_def split: hq_ref.splits)
  show ?thesis
    using get_upd_hq [of f q r s] fields queues_ok_upd [of s f r] ok same_ref_get [of r q s]
    by (auto simp: keeps_queue_def sound_def)
qed

lemma set_hq_keeps_queue:
  assumes "get_hq r s = Some hq" "core_hq hq1 = core_hq hq"
  shows "keeps_queue q s (upd_hq r (\<lambda>_. hq1) s)"
proof -
  let ?f = "\<lambda>x. x\<lparr>hq_err_text := hq_err_text hq1, hq_smtp_hostname := hq_smtp_hostname hq1,
    hq_status := hq_status hq1, hq_no_punt := hq_no_punt hq1\<rparr>"
  have "?f hq = hq1" using assms(2) by (cases hq; cases hq1) (simp add: core_hq_def)
  then have "upd_hq r (\<lambda>_. hq1) s = upd_hq r ?f s"
    by (intro upd_hq_cong [OF assms(1)]) (rule sym)
  moreover have "keeps_queue q s (upd_hq r ?f s)" by (rule upd_core_keeps_queue) simp
  ultimately show ?thesis by simp
qed

text \<open>Queueing a message elsewhere: one to punt, or one without a host.\<close>

lemma queue_elsewhere:
  assumes "queue_envelope c env s = Inr (rc, env', s')"
    and "if has_flag (e_flags env) ENV_FLAG_PUNT then r \<noteq> PuntQ else e_hostname env = None \<and> r \<noteq> UnexpandedQ"
  shows "keeps_queue r s s'"
proof (cases "sound s")
  case False
  then show ?thesis by (simp add: keeps_queue_def)
next
  case True
  then have s: "queues_ok s" "null_ok s" by (simp_all add: sound_def)
  consider "s' = s" | q s1 where "s' = s1 \<or> (\<exists>f. s' = upd_hq q f s1 \<and> (\<forall>hq. hq_hostname (f hq) = hq_hostname hq))"
      "keeps_queues s s1" "null_ok s1" "\<not> same_ref q r"
  proof -
    assume a: "s' = s \<Longrightarrow> thesis"
    assume b: "\<And>s1 q. s' = s1 \<or> (\<exists>f. s' = upd_hq q f s1 \<and> (\<forall>hq. hq_hostname (f hq) = hq_hostname hq)) \<Longrightarrow>
      keeps_queues s s1 \<Longrightarrow> null_ok s1 \<Longrightarrow> \<not> same_ref q r \<Longrightarrow> thesis"
    show thesis
    proof (cases "e_dir env = DIR_DEAD \<or> e_hq env \<noteq> None")
      case True
      with assms(1) a show ?thesis by (auto simp: queue_envelope_def split: if_splits)
    next
      case False
      show ?thesis
      proof (cases "has_flag (e_flags env) ENV_FLAG_PUNT")
        case True
        then have "s' = upd_hq PuntQ (hq_insert (env\<lparr>e_hq := Some PuntQ\<rparr>)) s"
          using assms False by (auto simp: queue_envelope_def Let_def split: if_splits)
        with True assms(2) s(2) show ?thesis
          by (intro b [of s PuntQ] disjI2 exI [of _ "hq_insert (env\<lparr>e_hq := Some PuntQ\<rparr>)"]) simp_all
      next
        case nopunt: False
        then have n: "e_hostname env = None" "r \<noteq> UnexpandedQ" using assms(2) by auto
        obtain ok s1 where m: "make_null_queues c s = (ok, s1)" by fastforce
        have k: "keeps_queues s s1"
          using make_null_queues_keeps [OF m] s(2) by (auto simp: null_ok_def)
        have "null_ok s1"
          using m s(2) by (cases "simta_unexpanded_q s")
            (auto simp: make_null_queues_def null_ok_def outcome_def Let_def split: option.splits if_splits list.splits)
        moreover have "s' = s1 \<or> s' = upd_hq UnexpandedQ (hq_insert (env\<lparr>e_hq := Some UnexpandedQ\<rparr>)) s1"
          using assms False nopunt n m
          by (auto simp: queue_envelope_def host_q_create_or_lookup_def Let_def split: if_splits)
        then have "s' = s1 \<or> (\<exists>f. s' = upd_hq UnexpandedQ f s1 \<and> (\<forall>hq. hq_hostname (f hq) = hq_hostname hq))"
          by (auto intro: exI [of _ "hq_insert (env\<lparr>e_hq := Some UnexpandedQ\<rparr>)"])
        moreover have "\<not> same_ref UnexpandedQ r" using n(2) by (cases r) simp_all
        ultimately show ?thesis using k by (intro b)
      qed
    qed
  qed
  then show ?thesis
  proof cases
    case 2
    then have "get_hq r s' = get_hq r s1" "null_ok s'" using get_upd_hq [of _ r q s1] by auto
    moreover have "queues_ok s'" using queue_envelope_result [OF assms(1) s] by simp
    ultimately show ?thesis using 2(2) by (auto simp: keeps_queue_def sound_def keeps_queues_def)
  qed simp
qed


subsection \<open>Bounces\<close>

lemma fprintf_each_more: "sys.more (fprintf_each ino ts s) = sys.more s"
proof (induction ts arbitrary: s)
  case (Cons t ts)
  obtain ok u where a: "append_data ino t s = (ok, u)" by fastforce
  with Cons append_data_more [OF a] show ?case by simp
qed simp

lemma bounce_unlink_more: "bounce_unlink b s = (r, s') \<Longrightarrow> r = None \<and> env_state.more s' = env_state.more s"
  using bounce_unlink_result by blast

text \<open>A bounce has no host and no mark to punt it, whether or not the directories are in order.\<close>

lemma bounce_write_light:
  assumes "bounce_write c b ino text s = Inr (r, s')" "\<not> has_flag (e_flags b) ENV_FLAG_TFILE"
  shows "env_state.more s' = env_state.more s \<and> (\<forall>b'. r = Some b' \<longrightarrow> same_mail (b\<lparr>e_dinode := ino\<rparr>) b')"
proof -
  obtain t s1 where t: "all_ok 4 s = (t, s1)" by fastforce
  obtain f s2 where f: "outcome (fprintf_each ino text s1) = (f, s2)" by fastforce
  obtain g s3 where g: "outcome s2 = (g, s3)" by fastforce
  have m: "env_state.more s1 = env_state.more s" "env_state.more s2 = env_state.more s" "env_state.more s3 = env_state.more s"
    using all_ok_quiet [OF t] outcome_more [OF f] outcome_more [OF g] fprintf_each_more [of ino "text" s1]
    by (auto simp: quiet_def intro!: env_state_more)
  let ?b = "b\<lparr>e_dinode := ino\<rparr>"
  show ?thesis
  proof (cases "t \<and> f \<and> g")
    case False
    with assms(1) t f g obtain b' u where u: "bounce_unlink b' u = (r, s')" "env_state.more u = env_state.more s"
      using m by (auto simp: bounce_write_def Let_def split: if_splits)
    from bounce_unlink_more [OF u(1)] u(2) show ?thesis by simp
  next
    case True
    then obtain rc b1 s4 where o: "env_outfile c ?b s3 = Inr (rc, b1, s4)"
      and r: "(if rc \<noteq> 0 then bounce_unlink b1 s4 else (Some b1, s4)) = (r, s')"
      using assms(1) t f g by (auto simp: bounce_write_def Let_def split: if_splits)
    from env_outfile_mail [OF o] assms(2) env_outfile_more [OF o] m(3) r show ?thesis
      by (cases "rc = 0") (auto dest: bounce_unlink_more)
  qed
qed

lemma bounce_snet_light:
  assumes "bounce_snet c daytime env sn hq err s = Inr (r, s')"
  shows "env_state.more s' = env_state.more s \<and> (\<forall>b. r = Some b \<longrightarrow> bounce_of c env b)"
proof -
  obtain ob s1 where c: "env_create c DIR_FAST None (Some []) (Some env) s = (ob, s1)" by fastforce
  note q1 = env_create_frame [OF c]
  have m1: "env_state.more s1 = env_state.more s" using q1 by (auto simp: quiet_def intro: env_state_more)
  show ?thesis
  proof (cases ob)
    case None
    with assms c m1 show ?thesis by (auto simp: bounce_snet_def)
  next
    case (Some benv)
    obtain rc b s2 where rp: "env_recipient (bounce_marks c env benv) (return_address c env) s1 = (rc, b, s2)"
      by (metis prod.exhaust)
    have m2: "env_state.more s2 = env_state.more s" using env_recipient_quiet [OF rp] m1
      by (auto simp: quiet_def dest: env_state_more)
    obtain oino s3 where op: "open_excl (dfile b) s2 = (oino, s3)" by fastforce
    have m3: "env_state.more s3 = env_state.more s" using open_excl_more [OF op] m2 by (auto dest: env_state_more)
    note ec = env_create_bounce [OF c [unfolded Some]]
    consider "bounce_drop b s2 = (r, s')" | "bounce_drop b s3 = (r, s')"
      | ino where "rc = 0" "bounce_write c b ino (bounce_message c daytime b env sn hq err) s3 = Inr (r, s')"
      using assms c Some rp op by (auto simp: bounce_snet_def split: if_splits option.splits)
    then show ?thesis
    proof cases
      case 1
      with m2 show ?thesis using bounce_drop_result by fastforce
    next
      case 2
      with m3 show ?thesis using bounce_drop_result by fastforce
    next
      case 3
      have b: "b = (bounce_marks c env benv)\<lparr>e_rcpt := [new_recipient (text_opt (return_address c env))], e_n_rcpt := 1\<rparr>"
        using rp 3(1) ec
        by (auto simp: env_recipient_def Let_def bounce_marks_fields text_opt_def split: prod.splits if_splits)
      have "bounce_of c env (b\<lparr>e_dinode := ino\<rparr>)" "\<not> has_flag (e_flags b) ENV_FLAG_TFILE" for ino
        using ec by (simp_all add: b bounce_of_def bounce_marks_fields env_flags)
      with bounce_write_light [OF 3(2)] m3 show ?thesis by (auto dest: bounce_of_mail)
    qed
  qed
qed


subsection \<open>The steps of a pass\<close>

lemma base_fields:
  assumes "base d' = base d"
  shows "d_unlinked d' = d_unlinked d"
proof -
  have "e_hq (d_env (base x)) = e_hq (d_env x)" "d_unlinked (base x) = d_unlinked x" for x
    by (simp_all add: base_def no_dns_def core_def core_env_def)
  then show "d_unlinked d' = d_unlinked d"
    using assms by metis+
qed

lemma q_open_result:
  assumes "q_open env d s = (ok, d', s')"
  shows "calm s s' \<and> d' = d\<lparr>d_dfile_fd := d_dfile_fd d', d_size := d_size d'\<rparr>"
proof -
  have c: "open_file p u = (x, u') \<Longrightarrow> calm u u'" for p x and u u' :: "'a net_state_scheme"
    by (auto simp: open_file_def Let_def split: if_splits prod.splits dest!: outcome_calm)
  from assms show ?thesis
    by (auto simp: q_open_def Let_def split: prod.splits option.splits if_splits dest!: c outcome_calm intro: calm_trans)
qed

text \<open>Trying: the queue stays unless the delivery ends.\<close>

lemma q_remote_keeps:
  assumes "q_remote c r hq d s = Inr (go, d', s')" "get_hq r s = Some hq" "go \<noteq> Leave"
  shows "keeps_queue r s s' \<and> base d' = base d"
proof -
  obtain ok s1 where o: "outcome s = (ok, s1)" by fastforce
  note c1 = outcome_calm [OF o]
  show ?thesis
  proof (cases ok)
    case False
    with assms(1) o calm_keeps_queue [OF c1] show ?thesis by (auto simp: q_remote_def)
  next
    case True
    let ?d = "d\<lparr>d_snet_dfile := Some (snet_attach (w_data s1 (d_dfile_fd d)) (1024 * 1024))\<rparr>"
    obtain hq1 d1 s2 where r: "deliver_remote c hq ?d s1 = Inr (hq1, d1, s2)"
      using assms(1) o True by (auto simp: q_remote_def)
    note rr = deliver_remote_result [OF r]
    have "get_hq r s2 = Some hq" using calm_get [OF c1] calm_get [of s1 s2] rr assms(2) by simp
    from set_hq_keeps_queue [OF this] rr have "keeps_queue r s (upd_hq r (\<lambda>_. hq1) s2)"
      using calm_keeps_queue [OF calm_trans [OF c1]] by (blast intro: keeps_queue_trans)
    moreover have "d' = d1" "s' = upd_hq r (\<lambda>_. hq1) s2"
      using assms(1,3) o True r by (auto simp: q_remote_def Let_def split: if_splits)
    moreover have "base ?d = base d" by (simp add: base_def no_dns_def core_def)
    ultimately show ?thesis using rr by simp
  qed
qed

lemma local_rcpts_keeps:
  "local_rcpts c i n d s = Inr (d', s') \<Longrightarrow> base d' = base d \<and> calm s s'"
proof (induction n arbitrary: i d s)
  case (Suc n)
  obtain b s1 where b: "outcome s = (b, s1)" by fastforce
  let ?d1 = "d\<lparr>d_rcpt := Some i\<rparr>"
  obtain e d2 s2 where 1: "(if b then deliver_binary (deliver_args c ?d1) s1 else Inr (EX_TEMPFAIL, ?d1, s1)) = Inr (e, d2, s2)"
    and 2: "local_rcpts c (Suc i) n (set_status (ml_status e) d2) s2 = Inr (d', s')"
    using Suc.prems b by (cases b) auto
  have "base d2 = base ?d1 \<and> calm s1 s2"
  proof (cases b)
    case True
    with 1 have "deliver_binary (deliver_args c ?d1) s1 = Inr (e, d2, s2)" by simp
    note k = deliver_binary_kept [OF this]
    then have "base d2 = base (deliver_args c ?d1)" by (blast intro: base_core)
    with k show ?thesis by (simp only: deliver_args_kept)
  qed (use 1 in auto)
  moreover have "base (set_status (ml_status e) d2) = base d2" by (rule base_core) simp
  ultimately show ?case using Suc.IH [OF 2] outcome_calm [OF b] by (auto intro: calm_trans)
qed auto

lemma local_keeps:
  assumes "deliver_local c d s = Inr (d', s')"
  shows "base d' = base d \<and> calm s s'"
  using assms by (auto simp: deliver_local_def dest!: local_rcpts_keeps)

lemma q_try_keeps:
  assumes "q_try c r d s = Inr (go, d', s')" "go \<noteq> Leave"
  shows "keeps_queue r s s' \<and> d_unlinked d' = d_unlinked d"
proof -
  obtain hq where hq: "get_hq r s = Some hq" using assms(1) by (auto simp: q_try_def split: option.splits)
  consider "go = Settle" "s' = s" "d_unlinked d' = d_unlinked d"
    | d1 where "deliver_local c d1 s = Inr (d', s')" "d_unlinked d1 = d_unlinked d"
    | "q_remote c r hq d s = Inr (go, d', s')"
  proof -
    assume t: "go = Settle \<Longrightarrow> s' = s \<Longrightarrow> d_unlinked d' = d_unlinked d \<Longrightarrow> thesis"
      "\<And>d1. deliver_local c d1 s = Inr (d', s') \<Longrightarrow> d_unlinked d1 = d_unlinked d \<Longrightarrow> thesis"
      "q_remote c r hq d s = Inr (go, d', s') \<Longrightarrow> thesis"
    show thesis
    proof (cases "hq_status hq = HOST_LOCAL \<and> \<not> is_jailed c (d_env d)")
      case True
      define d1 where "d1 = (case hq_red hq of
                         None \<Rightarrow> d
                       | Some red \<Rightarrow> (case red_deliver_argv red of
                             None \<Rightarrow> d
                           | Some argv \<Rightarrow> d\<lparr>d_deliver_argc := red_deliver_argc red, d_deliver_argv := Some argv\<rparr>))"
      have "deliver_local c d1 s = Inr (d', s')"
        using assms(1) hq True by (auto simp: q_try_def d1_def [symmetric])
      moreover have "d_unlinked d1 = d_unlinked d"
        by (simp add: d1_def split: option.split)
      ultimately show ?thesis by (rule t(2))
    next
      case False
      with assms(1) hq t(1,3) show ?thesis
        by (auto simp: q_try_def upd_env_def split: host_status.splits if_splits)
    qed
  qed
  then show ?thesis
  proof cases
    case 2
    with local_keeps [OF 2(1)] base_fields [of d' d1] calm_keeps_queue [of s s' r] show ?thesis by simp
  next
    case 3
    from q_remote_keeps [OF 3 hq assms(2)] base_fields [of d' d] show ?thesis by simp
  qed simp
qed


text \<open>Settling: the bounce goes where messages without a host go.\<close>

lemma q_tally_fields:
  assumes "q_tally d = (n, d')"
  shows "d_env d' = d_env d \<and> d_unlinked d' = d_unlinked d \<and> d_delivered d' = d_delivered d \<and>
    d_n_rcpt_failed d' = d_n_rcpt_failed d \<and> d_n_rcpt_accepted d' = d_n_rcpt_accepted d"
  using assms by (auto simp: q_tally_def split: if_splits)

lemma q_age_keeps:
  assumes "q_age c n d s = (d', s')"
  shows "sys.more s' = sys.more s \<and> d_unlinked d' = d_unlinked d"
proof (cases "n = e_n_rcpt (d_env d)")
  case False
  obtain rc e s1 where "env_is_old c (d_env d) (d_dfile_fd d) s = (rc, e, s1)" by (metis prod.exhaust)
  with assms False env_is_old_more [OF this] show ?thesis by (auto simp: q_age_def)
qed (use assms in \<open>simp add: q_age_def\<close>)

lemma rewind_dfile_calm: "rewind_dfile d s = Inr (d', s') \<Longrightarrow> calm s s'"
  using rewind_dfile_result [of d s d' s'] by simp

lemma q_bounce_file_calm:
  assumes "q_bounce_file at d s = Inr (sn, s')"
  shows "calm s s'"
proof -
  obtain b s1 where 1: "outcome s = (b, s1)" by fastforce
  obtain b2 s2 where 2: "outcome s1 = (b2, s2)" by fastforce
  have "calm s1 s'"
    using assms 1 2 outcome_calm [OF 2]
    by (cases b; cases at; cases b2)
      (auto simp: q_bounce_file_def dest!: rewind_dfile_calm intro: calm_trans)
  with outcome_calm [OF 1] show ?thesis by (rule calm_trans)
qed

lemma q_bounce_keeps:
  assumes "q_bounce c daytime r at d s = Inr (b, s')"
  shows "keeps_queue r s s' \<and> (\<forall>be. b = Some (Some be) \<longrightarrow> bounce_of c (d_env d) be)"
proof (cases "needs_bounce d")
  case False
  with assms show ?thesis by (auto simp: q_bounce_def)
next
  case True
  then obtain sn s1 x where f: "q_bounce_file at d s = Inr (sn, s1)"
    and b: "bounce_snet c daytime (d_env d) sn (get_hq r s1) None s1 = Inr (x, s')" "b = map_option Some x"
    using assms by (auto simp: q_bounce_def split: option.splits)
  from bounce_snet_light [OF b(1)] b(2) keeps_queue_trans [OF calm_keeps_queue [OF q_bounce_file_calm [OF f]]]
    more_keeps_queue [of s' s1] show ?thesis by auto
qed

lemma q_rewrite_keeps:
  assumes "q_rewrite c d s = Inr (ok, d', s')"
  shows "keeps_queue r s s'"
proof -
  obtain rc env1 s1 where o: "env_outfile c (drop_settled d) s = Inr (rc, env1, s1)"
    using assms by (auto simp: q_rewrite_def Let_def split: if_splits)
  have "keeps_queue r s s1" by (rule more_keeps_queue) (rule env_outfile_more [OF o])
  moreover have "keeps_queue r s1 (s1\<lparr>simta_fast_files := i\<rparr>)" for i by (rule sys_keeps_queue) simp
  ultimately show ?thesis
    using assms o by (auto simp: q_rewrite_def Let_def split: if_splits intro: keeps_queue_trans)
qed

lemma q_dispose_keeps:
  assumes "q_dispose c n lock d s = Inr (ok, touch, d', s')"
  shows "keeps_queue r s s'"
  using assms
  by (auto simp: q_dispose_def split: if_splits prod.splits
      dest: q_rewrite_keeps intro: sys_keeps_queue env_truncate_more)

lemma q_settleE:
  assumes "q_settle c daytime r at lock d s = Inr (touch, b, d', s')"
  obtains s1 n d1 d2 s2 x s3 where "s1 = s \<or> s1 = s\<lparr>simta_leaky_queue := 1\<rparr>"
    "q_tally d = (n, d1)" "q_age c n d1 s1 = (d2, s2)" "q_bounce c daytime r at d2 s2 = Inr (x, s3)"
    "(case x of
                  None \<Rightarrow> Inr (False, None, d2, s3)
                | Some env_bounce \<Rightarrow>
                    and_then (q_dispose c n lock d2 s3) (\<lambda>(ok, touch, d3, s4).
                      if \<not> ok then Inr (touch, env_bounce, d3, s4)
                      else (case env_bounce of
                          None \<Rightarrow> Inr (touch, None, d3, s4)
                        | Some be \<Rightarrow>
                            and_then (queue_envelope c be s4) (\<lambda>(rc, be1, s5). Inr (touch, None, d3, s5))))) = Inr (touch, b, d', s')"
proof -
  obtain hq where hq: "get_hq r s = Some hq" using assms by (auto simp: q_settle_def split: option.splits)
  define s1 where "s1 = (if hq_primary hq \<noteq> 0 \<and> d_queue_movement d \<noteq> 0 then s\<lparr>simta_leaky_queue := 1\<rparr> else s)"
  obtain n d1 where t: "q_tally d = (n, d1)" by fastforce
  obtain d2 s2 where a: "q_age c n d1 s1 = (d2, s2)" by fastforce
  have eq: "q_settle c daytime r at lock d s = and_then (q_bounce c daytime r at d2 s2) (\<lambda>(x, s3).
      case x of
        None \<Rightarrow> Inr (False, None, d2, s3)
      | Some env_bounce \<Rightarrow>
          and_then (q_dispose c n lock d2 s3) (\<lambda>(ok, touch, d3, s4).
            if \<not> ok then Inr (touch, env_bounce, d3, s4)
            else (case env_bounce of
                None \<Rightarrow> Inr (touch, None, d3, s4)
              | Some be \<Rightarrow>
                  and_then (queue_envelope c be s4) (\<lambda>(rc, be1, s5). Inr (touch, None, d3, s5)))))"
    by (simp add: q_settle_def hq t a [unfolded s1_def] Let_def)
  have "s1 = s \<or> s1 = s\<lparr>simta_leaky_queue := 1\<rparr>" by (simp add: s1_def)
  from assms [unfolded eq] show ?thesis by (rule and_then2E) (rule that [OF \<open>s1 = s \<or> _\<close> t a])
qed

lemma q_settle_keeps:
  assumes "q_settle c daytime r at lock d s = Inr (touch, b, d', s')" "r \<noteq> UnexpandedQ"
  shows "keeps_queue r s s'"
  using assms(1)
proof (rule q_settleE)
  fix s1 n d1 d2 s2 x s3
  assume s1: "s1 = s \<or> s1 = s\<lparr>simta_leaky_queue := 1\<rparr>" and t: "q_tally d = (n, d1)"
    and a: "q_age c n d1 s1 = (d2, s2)" and b: "q_bounce c daytime r at d2 s2 = Inr (x, s3)"
    and rest: "(case x of
                  None \<Rightarrow> Inr (False, None, d2, s3)
                | Some env_bounce \<Rightarrow>
                    and_then (q_dispose c n lock d2 s3) (\<lambda>(ok, touch, d3, s4).
                      if \<not> ok then Inr (touch, env_bounce, d3, s4)
                      else (case env_bounce of
                          None \<Rightarrow> Inr (touch, None, d3, s4)
                        | Some be \<Rightarrow>
                            and_then (queue_envelope c be s4) (\<lambda>(rc, be1, s5). Inr (touch, None, d3, s5))))) = Inr (touch, b, d', s')"
  have "keeps_queue r s s1" using s1
    by (intro keeps_queue_same)
      (auto simp: get_hq_def host_q_lookup_def queues_ok_def null_ok_def split: hq_ref.splits)
  then have k2: "keeps_queue r s s2"
    by (rule keeps_queue_trans) (use q_age_keeps [OF a] in \<open>blast intro: sys_keeps_queue\<close>)
  note bk = q_bounce_keeps [OF b]
  have k3: "keeps_queue r s s3" using k2 bk keeps_queue_trans by blast
  show ?thesis
  proof (cases x)
    case None
    with rest k3 show ?thesis by auto
  next
    case (Some env_bounce)
    then obtain ok touch' d3 s4 where q: "q_dispose c n lock d2 s3 = Inr (ok, touch', d3, s4)"
      using rest by (cases "q_dispose c n lock d2 s3") auto
    have k4: "keeps_queue r s s4"
      using q_dispose_keeps [OF q, of r] k3 by (auto intro: keeps_queue_trans)
    consider "s' = s4" "d' = d3"
      | be rc be1 where "env_bounce = Some be" "queue_envelope c be s4 = Inr (rc, be1, s')" "d' = d3"
      using rest Some q by (cases ok; cases env_bounce) auto
    then show ?thesis
    proof cases
      case 2
      then have "bounce_of c (d_env d2) be" using bk Some by simp
      then have "keeps_queue r s4 s'" using assms(2) by (intro queue_elsewhere [OF 2(2)]) (simp_all add: bounce_of_def)
      with k4 2(3) show ?thesis by (blast intro: keeps_queue_trans)
    qed (use k4 in simp)
  qed
qed

text \<open>The cleanup.\<close>

lemma q_touch_keeps: "q_touch w d s = (t, d', s') \<Longrightarrow> keeps_queue r s s'"
  by (auto simp: q_touch_def split: if_splits prod.splits
      intro: sys_keeps_queue env_touch_more)

lemma q_unwind_keeps: "keeps_queue r s (q_unwind b s)"
proof (cases b)
  case (Some be)
  obtain rc b1 s1 where u: "env_unlink be s = (rc, b1, s1)" by (metis prod.exhaust)
  have "env_state.more (q_unwind b s) = env_state.more s"
    using Some u env_unlink_more [OF u, THEN env_state_more] by (simp add: q_unwind_def env_free_more)
  then show ?thesis by (rule more_keeps_queue)
qed (simp add: q_unwind_def)

lemma q_put_back_keeps:
  assumes "q_put_back c r d s = Inr s'"
  shows "keeps_queue r s s'"
proof -
  let ?env = "(env_clear_errors (d_env d))\<lparr>e_flags := set_flag (e_flags (env_clear_errors (d_env d))) ENV_FLAG_PUNT\<rparr>"
  consider e where "s' = env_free (Some e) s"
    | rc env2 where "queue_envelope c ?env s = Inr (rc, env2, s')" "r \<noteq> PuntQ"
    | rc env s1 where "env_move (d_env d) DIR_SLOW s = Inr (rc, env, s1)" "s' = env_free (Some env) s1"
    using assms(1) by (auto simp: q_put_back_def Let_def split: if_splits option.splits)
  then show ?thesis
  proof cases
    case 1
    then show ?thesis by (auto intro: more_keeps_queue env_free_more)
  next
    case 2
    have "has_flag (e_flags ?env) ENV_FLAG_PUNT" by (simp add: env_flags bit_flag)
    with 2 show ?thesis by (intro queue_elsewhere [OF 2(1)]) simp_all
  next
    case 3
    have "env_state.more s' = env_state.more s"
      using 3(2) env_move_more [OF 3(1), THEN env_state_more] by (simp add: env_free_more)
    then show ?thesis by (rule more_keeps_queue)
  qed
qed

lemma q_message_keeps:
  assumes "q_message c daytime r touch lock env d first s = Inr (True, touch', d', s')"
    and "r \<noteq> UnexpandedQ"
  shows "keeps_queue r s s'"
proof -
  let ?d0 = "q_reset env d"
  obtain ok d1 s1 where o: "q_open env ?d0 s = (ok, d1, s1)" by (metis prod.exhaust)
  note q = q_open_result [OF o]
  let ?tried = "if ok then q_try c r d1 s1 else Inr (Cleanup, d1, s1)"
  let ?at = "case get_hq r s1 of None \<Rightarrow> False | Some hq \<Rightarrow> hq_status hq \<in> {HOST_MX, HOST_PUNT} \<and> \<not> is_jailed c (d_env d1)"
  let ?settle = "\<lambda>go d2 s2. if go = Cleanup then Inr (touch, None, d2, s2)
              else and_then (q_settle c daytime r ?at lock d2 s2) (\<lambda>(t, b, d3, s3). Inr (touch \<or> t, b, d3, s3))"
  let ?final = "\<lambda>t b d3 s3. case q_touch (t \<or> first) d3 s3 of
                  (touched, d4, s4) \<Rightarrow>
                    and_then (q_put_back c r d4 (q_unwind b s4))
                      (\<lambda>s5. Inr (True, t \<and> \<not> touched, d4, s5))"
  have eq: "q_message c daytime r touch lock env d first s =
      and_then ?tried (\<lambda>(go, d2, s2). if go = Leave then Inr (False, touch, d2, s2)
         else and_then (?settle go d2 s2) (\<lambda>(t, b, d3, s3). ?final t b d3 s3))"
    by (simp add: q_message_def o)
  obtain go d2 s2 where t: "?tried = Inr (go, d2, s2)"
    and rest1: "(if go = Leave then Inr (False, touch, d2, s2)
         else and_then (?settle go d2 s2) (\<lambda>(t, b, d3, s3). ?final t b d3 s3)) = Inr (True, touch', d', s')"
    using assms(1) unfolding eq by (rule and_then3E)
  have go: "go \<noteq> Leave"
  proof
    assume g: "go = Leave"
    from rest1 [unfolded if_P [OF g]] show False by simp
  qed
  have 2: "keeps_queue r s1 s2"
  proof (cases ok)
    case True
    then have "q_try c r d1 s1 = Inr (go, d2, s2)" using t by simp
    from q_try_keeps [OF this go] show ?thesis by simp
  qed (use t in simp)
  obtain t3 b d3 s3 where 3: "?settle go d2 s2 = Inr (t3, b, d3, s3)" and rest: "?final t3 b d3 s3 = Inr (True, touch', d', s')"
    using rest1 unfolding if_not_P [OF go] by (rule and_then4E)
  have k3: "keeps_queue r s2 s3"
  proof (cases "go = Cleanup")
    case False
    from 3 [unfolded if_not_P [OF False]] obtain t b' where
      "q_settle c daytime r ?at lock d2 s2 = Inr (t, b', d3, s3)" by (rule and_then4E) simp
    from q_settle_keeps [OF this assms(2)] show ?thesis by simp
  qed (use 3 in simp)
  obtain t4 d4 s4 where 4: "q_touch (t3 \<or> first) d3 s3 = (t4, d4, s4)" by (metis prod.exhaust)
  have p: "q_put_back c r d4 (q_unwind b s4) = Inr s'" using rest [unfolded 4 prod.case] by auto
  have "keeps_queue r s s1" using q calm_keeps_queue by blast
  then have "keeps_queue r s s2" using 2 by (blast intro: keeps_queue_trans)
  then have "keeps_queue r s s3" using k3 by (blast intro: keeps_queue_trans)
  then have "keeps_queue r s s4" using q_touch_keeps [OF 4, of r] by (blast intro: keeps_queue_trans)
  then have "keeps_queue r s (q_unwind b s4)" using q_unwind_keeps by (rule keeps_queue_trans)
  then show ?thesis
    by (rule keeps_queue_trans) (rule q_put_back_keeps [OF p])
qed


subsection \<open>The loop ends\<close>

lemma q_read_keeps:
  assumes "q_read c env s = Inr (valid, lock, env', s')"
  shows "keeps_queue r s s'"
  using assms
  by (auto simp: q_read_def split: if_splits dest!: env_read_more intro: more_keeps_queue)

lemma q_loop_runs:
  "q_loop c daytime r n touch first d s = Inr (how, d', s') \<Longrightarrow> sound s \<Longrightarrow> r \<noteq> UnexpandedQ \<Longrightarrow>
     get_hq r s = Some hq \<Longrightarrow> distinct (map e_id (hq_env_head hq)) \<Longrightarrow> length (hq_env_head hq) < n \<Longrightarrow>
     how \<noteq> Running \<and> (how = Drained \<longrightarrow> sound s' \<and> (\<exists>hq'. get_hq r s' = Some hq' \<and> hq_env_head hq' = []))"
proof (induction n arbitrary: touch first d s hq)
  case (Suc n)
  show ?case
  proof (cases "hq_env_head hq")
    case Nil
    with Suc.prems show ?thesis by auto
  next
    case (Cons env envs)
    have env: "e_hq env = Some (ref_of r hq)" "env \<in> set (hq_env_head hq)"
      using Suc.prems(2,4) Cons by (auto simp: sound_def queues_ok_def hq_ok_def)
    have sr: "same_ref (ref_of r hq) r"
      using Suc.prems(4) by (cases r) (auto simp: ref_of_def get_hq_def host_q_lookup_def same_case_def cstr dest!: hosts_lookup_Some)
    have g: "get_hq (ref_of r hq) s = Some hq" using same_ref_get [OF sr, of s] Suc.prems(4) by simp
    obtain s1 where rm: "queue_remove_envelope env s = Inr (env\<lparr>e_hq := None\<rparr>, s1)" "queues_ok s1"
        "get_hq (ref_of r hq) s1 = Some (hq\<lparr>hq_env_head := remove1 env (hq_env_head hq), hq_entries := hq_entries hq - 1,
           hq_jail_envs := hq_jail_envs hq - (if is_prisoner env then 1 else 0)\<rparr>)"
      using queue_remove_result [OF _ env(1) g env(2) Suc.prems(5)] Suc.prems(2) by (auto simp: sound_def)
    have "null_ok s1" using rm(1) Suc.prems(2) by (auto simp: queue_remove_envelope_def sound_def split: option.splits)
    then have s1: "sound s1" using rm(2) by (simp add: sound_def)
    obtain hq1 where hq1: "get_hq r s1 = Some hq1" "hq_env_head hq1 = envs"
      using rm(3) same_ref_get [OF sr, of s1] Cons by auto
    have next_pass: "how \<noteq> Running \<and> (how = Drained \<longrightarrow> sound s' \<and> (\<exists>hq'. get_hq r s' = Some hq' \<and> hq_env_head hq' = []))"
      if lp: "q_loop c daytime r n t f dd u = Inr (how, d', s')" and k: "keeps_queue r s1 u" for t f dd u
    proof -
      obtain hq2 where "get_hq r u = Some hq2" "hq_env_head hq2 = envs" "sound u"
        using k s1 hq1 by (auto simp: keeps_queue_def)
      with Suc.IH [OF lp _ Suc.prems(3)] Suc.prems(5,6) Cons show ?thesis by simp
    qed
    obtain valid lock env2 s2 where rd: "q_read c (env\<lparr>e_hq := None\<rparr>) s1 = Inr (valid, lock, env2, s2)"
      and rest: "(if \<not> valid then q_loop c daytime r n touch first d (env_free (Some env2) s2)
                 else
                   and_then (q_message c daytime r touch lock env2 d first s2) (\<lambda>(go, touch1, d1, s3).
                     if go then q_loop c daytime r n touch1 False d1 s3 else Inr (Punted, d1, s3))) = Inr (how, d', s')"
      using Suc.prems(1,4) Cons rm(1) by (auto elim: and_then4E)
    note k2 = q_read_keeps [OF rd, of r]
    show ?thesis
    proof (cases valid)
      case False
      moreover have "keeps_queue r s1 (env_free (Some env2) s2)"
        using k2 by (rule keeps_queue_trans) (intro more_keeps_queue env_free_more)
      ultimately show ?thesis using rest by (intro next_pass) simp_all
    next
      case True
      then obtain go touch1 d1 s3 where m: "q_message c daytime r touch lock env2 d first s2 = Inr (go, touch1, d1, s3)"
        and rest2: "(if go then q_loop c daytime r n touch1 False d1 s3 else Inr (Punted, d1, s3)) = Inr (how, d', s')"
        using rest by (auto elim: and_then4E)
      show ?thesis
      proof (cases go)
        case True
        with m have "keeps_queue r s2 s3" using Suc.prems(3) by (intro q_message_keeps) simp_all
        with k2 have "keeps_queue r s1 s3" by (rule keeps_queue_trans)
        then show ?thesis using rest2 True by (intro next_pass) simp_all
      qed (use rest2 in auto)
    qed
  qed
qed simp


lemma q_status_keeps:
  assumes "q_status c r s = Inr s'"
  shows "keeps_queue r s s'"
proof -
  let ?punt = "upd_hq r (\<lambda>q. if hq_status q = HOST_PUNT_DOWN then q\<lparr>hq_status := HOST_PUNT\<rparr> else q)"
  have p: "keeps_queue r u (?punt u)" for u by (rule upd_core_keeps_queue) simp
  consider "s' = ?punt s"
    | h red s1 where "host_local c h s = Inr (red, s1)"
        "s' = ?punt (upd_hq r (\<lambda>q. q\<lparr>hq_status := deliver_status red\<rparr>) s1)"
  proof -
    obtain hq where hq: "get_hq r s = Some hq" using assms by (auto simp: q_status_def split: option.splits)
    show ?thesis
    proof (cases "hq_status hq = HOST_UNKNOWN")
      case True
      with assms hq obtain x s1 where "host_local c (hq_hostname hq) s = Inr (x, s1)"
        "s' = ?punt (upd_hq r (\<lambda>q. q\<lparr>hq_status := deliver_status x\<rparr>) s1)"
        by (auto simp: q_status_def)
      then show ?thesis by (rule that(2))
    qed (use assms hq that(1) in \<open>simp add: q_status_def\<close>)
  qed
  then show ?thesis
  proof cases
    case 2
    have "keeps_queue r s s1" by (rule calm_keeps_queue) (rule host_local_calm [OF 2(1)])
    also have k: "keeps_queue r s1 (upd_hq r (\<lambda>q. q\<lparr>hq_status := deliver_status red\<rparr>) s1)"
      by (rule upd_core_keeps_queue) simp
    finally (keeps_queue_trans) show ?thesis using p unfolding 2(2) by (rule keeps_queue_trans)
  qed (simp add: p)
qed

lemma q_quit_keeps:
  assumes "q_quit c r d s = Inr (d', s')"
  shows "keeps_queue r s s'"
proof (cases "d_snet_smtp d = None")
  case False
  then obtain hq hq1 s1 where q: "get_hq r s = Some hq" "smtp_quit c hq d s = Inr (hq1, d', s1)"
      "s' = upd_hq r (\<lambda>_. hq1) s1"
    using assms by (auto simp: q_quit_def split: option.splits)
  note t = talked_calm [OF smtp_quit_talked [OF q(2)]]
  then have "get_hq r s1 = Some hq" using calm_get [of s s1] q(1) by simp
  with t have "keeps_queue r s1 s'" unfolding q(3) by (intro set_hq_keeps_queue) simp_all
  with t show ?thesis using calm_keeps_queue keeps_queue_trans by blast
qed (use assms in \<open>simp add: q_quit_def\<close>)

text \<open>
  C6: delivering a queue ends.  The passes of the loop are one more than the messages that are
  queued at most, whatever happens to each of them (a crash apart), and when the function
  does not give up on its punt host no message is left in the queue.
\<close>

theorem q_deliver_drains:
  assumes "q_deliver_run c daytime r n s = Inr (how, d', s')" "queues_ok s" "null_ok s"
    and "r \<noteq> UnexpandedQ" "get_hq r s = Some hq" "distinct (map e_id (hq_env_head hq))"
    and "length (hq_env_head hq) < n"
  shows "how \<noteq> Running \<and> (how = Drained \<longrightarrow> (\<exists>hq'. get_hq r s' = Some hq' \<and> hq_env_head hq' = []))"
proof -
  have s: "sound s" using assms(2,3) by (simp add: sound_def)
  obtain s1 d1 s2 where st: "q_status c r s = Inr s1"
    and lp: "q_loop c daytime r n False True (zero_deliver (zero_env DIR_FAST [])) s1 = Inr (how, d1, s2)"
    and rest: "(if how = Drained then and_then (q_quit c r d1 s2) (\<lambda>(d2, s3). Inr (how, d2, s3))
       else Inr (how, d1, s2)) = Inr (how, d', s')"
    using assms(1) by (auto simp: q_deliver_run_def split: if_splits)
  obtain hq1 where "sound s1" "get_hq r s1 = Some hq1" "hq_env_head hq1 = hq_env_head hq"
    using q_status_keeps [OF st] s assms(5) by (auto simp: keeps_queue_def)
  with q_loop_runs [OF lp _ assms(4)] assms(6,7)
  have r: "how \<noteq> Running \<and> (how = Drained \<longrightarrow> sound s2 \<and> (\<exists>hq'. get_hq r s2 = Some hq' \<and> hq_env_head hq' = []))"
    by simp
  show ?thesis
  proof (cases "how = Drained")
    case True
    with rest have "q_quit c r d1 s2 = Inr (d', s')" by auto
    from q_quit_keeps [OF this] r True show ?thesis by (auto simp: keeps_queue_def)
  qed (use r in simp)
qed

definition drain_ex :: net_state where
  "drain_ex = (net_state_ex [])\<lparr>simta_host_q := [(zero_hq ''y.z'')\<lparr>hq_status := HOST_DOWN, hq_entries := 1,
     hq_jail_envs := 1, hq_env_head := [env_ex\<lparr>e_dir := DIR_SLOW, e_hq := Some (HostQ ''y.z'')\<rparr>]\<rparr>]\<rparr>"

lemma drain_ex_state:
  "queues_ok drain_ex" "null_ok drain_ex" "w_oracle drain_ex = []" "w_names drain_ex = (\<lambda>_. None)"
  "get_hq (HostQ ''y.z'') drain_ex = Some ((zero_hq ''y.z'')\<lparr>hq_status := HOST_DOWN, hq_entries := 1,
     hq_jail_envs := 1, hq_env_head := [env_ex\<lparr>e_dir := DIR_SLOW, e_hq := Some (HostQ ''y.z'')\<rparr>]\<rparr>)"
proof -
  have "hq_ok (HostQ h) ((zero_hq ''y.z'')\<lparr>hq_status := HOST_DOWN, hq_entries := 1,
     hq_jail_envs := 1, hq_env_head := [env_ex\<lparr>e_dir := DIR_SLOW, e_hq := Some (HostQ ''y.z'')\<rparr>]\<rparr>)" for h
    by (simp add: hq_ok_def is_prisoner_def env_ex_def zero_env_def env_codes ref_of_def)
  then show "queues_ok drain_ex"
    by (auto simp: queues_ok_def drain_ex_def net_state_ex_def q_state_ex_def get_hq_def host_q_lookup_def
        hosts_distinct_def q_state.defs split: hq_ref.splits if_splits)
qed (simp_all add: drain_ex_def net_state_ex_def q_state_ex_def null_ok_def get_hq_def host_q_lookup_def
    q_state.defs cstr)

theorem q_deliver_drains_witness:
  "\<exists>d' s' hq'. q_deliver_run conf_ex ''Mon'' (HostQ ''y.z'') 2 drain_ex = Inr (Drained, d', s') \<and>
     get_hq (HostQ ''y.z'') s' = Some hq' \<and> hq_env_head hq' = []"
proof -
  have "\<exists>d' s'. q_deliver_run conf_ex ''Mon'' (HostQ ''y.z'') 2 drain_ex = Inr (Drained, d', s')"
    by (simp add: q_deliver_run_def q_status_def drain_ex_def net_state_ex_def q_state_ex_def q_state.defs
        get_hq_def host_q_lookup_def upd_hq_def cstr numeral_2_eq_2 queue_remove_envelope_def
        q_read_def q_message_def q_reset_def q_open_def open_file_def q_touch_def q_put_back_def q_unwind_def
        q_quit_def env_touch_def zero_hq_def zero_deliver_def env_ex_def zero_env_def env_move_def
        env_free_def is_prisoner_def env_codes
        del: and_then_Inr_iff)
  then obtain d' s' where r: "q_deliver_run conf_ex ''Mon'' (HostQ ''y.z'') 2 drain_ex = Inr (Drained, d', s')" by blast
  from q_deliver_drains [OF r drain_ex_state(1,2) _ drain_ex_state(5)] r show ?thesis by auto
qed

subsection \<open>No message is lost\<close>

lemma count_all:
  "a \<noteq> b \<Longrightarrow> count_list xs a + count_list xs b = length xs \<Longrightarrow> x \<in> set xs \<Longrightarrow> x = a \<or> x = b"
proof (induction xs)
  case (Cons y ys)
  have "count_list ys a + count_list ys b \<le> length ys"
    using Cons.prems(1) by (induction ys) auto
  with Cons show ?case by (auto split: if_splits)
qed simp

lemma queue_envelope_files: "queue_envelope c env s = Inr (rc, env', s') \<Longrightarrow> w_names s' = w_names s"
proof -
  have n: "make_null_queues c u = (ok, u') \<Longrightarrow> w_names u' = w_names u" for u u' :: "'a q_state_scheme" and ok
    by (auto simp: make_null_queues_def Let_def split: if_splits prod.splits option.splits dest!: outcome_frame simp: same_files_def)
  have h: "host_q_create_or_lookup c h u = Inr (q, u') \<Longrightarrow> w_names u' = w_names u" for u u' :: "'a q_state_scheme" and h q
    by (auto simp: host_q_create_or_lookup_def Let_def same_files_def
        split: if_splits prod.splits option.splits dest!: n outcome_frame)
  have "w_names (upd_hq r f u) = w_names u" for r f and u :: "'a q_state_scheme"
    by (cases r) (simp_all add: upd_hq_def)
  with h show "queue_envelope c env s = Inr (rc, env', s') \<Longrightarrow> ?thesis"
    by (auto simp: queue_envelope_def Let_def split: if_splits option.splits)
qed


lemma env_truncate_names:
  assumes "env_truncate_and_unlink e lock s = (rc, e', s')"
  shows "e' = e\<lparr>e_flags := e_flags e'\<rparr> \<and> (\<forall>p. p \<noteq> efile e \<longrightarrow> p \<noteq> dfile e \<longrightarrow> w_names s' p = w_names s p)"
proof -
  obtain ok u rc1 where u: "env_unlink e u = (rc1, e', s')" "w_names u = w_names s"
  proof (cases lock)
    case None
    then show ?thesis using assms that [of s rc] by (simp add: env_truncate_and_unlink_def)
  next
    case (Some fd)
    obtain ok s1 where o: "outcome s = (ok, s1)" by fastforce
    have n: "w_names s1 = w_names s" using outcome_frame [OF o] by (simp add: same_files_def)
    show ?thesis
    proof (cases ok)
      case True
      obtain rc1 e1 s2 where "env_unlink e (s1\<lparr>w_data := (w_data s1)(fd := [])\<rparr>) = (rc1, e1, s2)" by (metis prod.exhaust)
      with assms Some o True n that [of "s1\<lparr>w_data := (w_data s1)(fd := [])\<rparr>" rc1] show ?thesis
        by (simp add: env_truncate_and_unlink_def)
    next
      case False
      with assms Some o n that [of s1 rc] show ?thesis by (simp add: env_truncate_and_unlink_def)
    qed
  qed
  from env_unlink_result [OF u(1)] u(2) show ?thesis by (auto simp: same_files_def split: if_splits)
qed

lemma all_settled:
  assumes "agree d" "e_n_rcpt (d_env d) = int (length (e_rcpt (d_env d)))" "q_tally d = (n, d')"
    and "n = e_n_rcpt (d_env d)" "\<not> needs_bounce d" "x \<in> set (e_rcpt (d_env d))"
  shows "d_delivered d \<noteq> 0 \<and> r_status x = R_ACCEPTED"
proof -
  let ?st = "statuses d"
  have failed: "count_list ?st R_FAILED = 0" using assms(1,5) by (simp add: needs_bounce_def agree_def)
  have st: "r_status x \<in> set ?st" "length ?st = length (e_rcpt (d_env d))" using assms(6) by (auto simp: statuses_def)
  then have "?st \<noteq> []" by auto
  have flag: "\<not> has_flag (e_flags (d_env d)) ENV_FLAG_BOUNCE" using assms(5) by (simp add: needs_bounce_def)
  show ?thesis
  proof (cases "d_delivered d = 0")
    case True
    with assms(3) flag have "n = d_n_rcpt_failed d" by (simp add: q_tally_def)
    with assms(1,2,4) failed st \<open>?st \<noteq> []\<close> have False by (auto simp: agree_def statuses_def)
    then show ?thesis ..
  next
    case False
    with assms(3) have "n = d_n_rcpt_failed d + d_n_rcpt_accepted d" by (auto simp: q_tally_def)
    with assms(1,2,4) st(2) have "count_list ?st R_ACCEPTED + count_list ?st R_FAILED = length ?st"
      by (simp add: agree_def)
    with count_all [of R_ACCEPTED R_FAILED ?st "r_status x"] st(1)
    have "r_status x = R_ACCEPTED \<or> r_status x = R_FAILED" by (simp add: env_codes)
    moreover have "r_status x \<noteq> R_FAILED" using failed st(1) by (metis count_list_0_iff)
    ultimately show ?thesis using False by simp
  qed
qed

lemma q_age_files:
  assumes "q_age c n d s = (d', s')"
  shows "same_files s s' \<and> (\<exists>f a. d_env d' = (d_env d)\<lparr>e_flags := f, e_age := a\<rparr> \<and>
    (has_flag (e_flags (d_env d)) ENV_FLAG_BOUNCE \<longrightarrow> has_flag f ENV_FLAG_BOUNCE)) \<and>
    d_n_rcpt_failed d' = d_n_rcpt_failed d"
proof -
  have o: "env_is_old c e fd s = (rc, e', u) \<Longrightarrow> same_files s u \<and> e' = e\<lparr>e_age := e_age e'\<rparr>" for e fd rc e' u
    by (auto simp: env_is_old_def Let_def split: prod.splits option.splits if_splits
        dest!: outcome_frame simta_gettimeofday_frame intro: same_files_trans)
  show ?thesis
  proof (cases "n = e_n_rcpt (d_env d)")
    case True
    with assms show ?thesis by (auto simp: q_age_def intro!: exI [of _ "e_flags (d_env d)"] exI [of _ "e_age (d_env d)"])
  next
    case False
    obtain rc e u where i: "env_is_old c (d_env d) (d_dfile_fd d) s = (rc, e, u)" by (metis prod.exhaust)
    from o [OF i] obtain a where "e = (d_env d)\<lparr>e_age := a\<rparr>" by blast
    with assms False i o [OF i] show ?thesis
      by (auto simp: q_age_def env_flags bit_flag
          intro!: exI [of _ "if rc \<noteq> 0 then set_flag (e_flags (d_env d)) ENV_FLAG_BOUNCE else e_flags (d_env d)"] exI [of _ a])
  qed
qed

lemma q_rewrite_unlinked: "q_rewrite c d s = Inr (ok, d', s') \<Longrightarrow> d_unlinked d' = d_unlinked d"
  by (auto simp: q_rewrite_def Let_def elim!: and_then3E split: if_splits)

lemma q_dispose_unlinked:
  assumes "q_dispose c n lock d s = Inr (ok, tc, d', s')" "d_unlinked d = 0" "d_unlinked d' \<noteq> 0"
  shows "(has_flag (e_flags (d_env d)) ENV_FLAG_BOUNCE \<or> n = e_n_rcpt (d_env d)) \<and>
    (\<exists>rc e. env_truncate_and_unlink (d_env d) lock s = (rc, e, s'))"
proof (cases "has_flag (e_flags (d_env d)) ENV_FLAG_BOUNCE \<or> n = e_n_rcpt (d_env d)")
  case True
  with assms(1) show ?thesis by (auto simp: q_dispose_def split: if_splits prod.splits)
next
  case False
  with assms q_rewrite_unlinked [of c d s] show ?thesis
    by (auto simp: q_dispose_def elim!: and_then3E split: if_splits)
qed



definition accepted_ex :: deliver where
  "accepted_ex = (zero_deliver (env_ex\<lparr>e_rcpt := [(new_recipient ''x@y.z'')\<lparr>r_status := R_ACCEPTED\<rparr>,
     (new_recipient ''u@v.w'')\<lparr>r_status := R_ACCEPTED\<rparr>]\<rparr>))\<lparr>d_delivered := 1, d_n_rcpt_accepted := 2\<rparr>"

definition settle_ex :: net_state where
  "settle_ex = drain_ex\<lparr>w_names := [(DIR_FAST, ''D1A'') \<mapsto> 3, (DIR_FAST, ''E1A'') \<mapsto> 4]\<rparr>"


end
