(* ===== verification/Tokens.thy ===== *)
theory Tokens
  imports Prelude "HOL-Library.Signed_Division"
begin

section \<open>Tokens of a header: header.c\<close>

text \<open>
  The scanners of header.c on one line.  A pointer into the line is what is left of the line
  from there on; a scanner that returns a pointer to the last character of a token returns
  how far it is from the start.
\<close>

subsection \<open>Characters\<close>

definition isalpha :: "char \<Rightarrow> bool" where
  "isalpha c \<longleftrightarrow> (65 \<le> code c \<and> code c \<le> 90) \<or> (97 \<le> code c \<and> code c \<le> 122)"

definition is_dot_atom_text :: "char \<Rightarrow> bool" where
  "is_dot_atom_text c \<longleftrightarrow> isalpha c \<or> isdigit c \<or> c \<in> set ''!#$%&*+-/=?^_`{|}~.'' \<or> c = CHR 0x27"

definition is_unquoted_atom_text :: "char \<Rightarrow> bool" where
  "is_unquoted_atom_text c \<longleftrightarrow> c \<notin> {NUL, CHR ''('', CHR '' '', TAB, CHR 0x22}"

definition is_domain_text :: "char \<Rightarrow> bool" where
  "is_domain_text c \<longleftrightarrow> isalpha c \<or> isdigit c \<or> c = CHR ''.'' \<or> c = CHR ''-''"

definition is_ws :: "char \<Rightarrow> bool" where
  "is_ws c \<longleftrightarrow> c = CHR '' '' \<or> c = TAB"

definition starts :: "char \<Rightarrow> string \<Rightarrow> bool" where
  "starts c s \<longleftrightarrow> s \<noteq> [] \<and> hd s = c"

subsection \<open>Scanners\<close>

text \<open>How far the last character is that a test accepts, the first having been tested.\<close>

fun run_end :: "(char \<Rightarrow> bool) \<Rightarrow> string \<Rightarrow> nat" where
  "run_end P (c # d # s) = (if P d then Suc (run_end P (d # s)) else 0)"
| "run_end P s = 0"

definition token_dot_atom :: "string \<Rightarrow> nat option" where
  "token_dot_atom s = (if s = [] \<or> \<not> is_dot_atom_text (hd s) then None else Some (run_end is_dot_atom_text s))"

definition token_unquoted_atom :: "string \<Rightarrow> nat option" where
  "token_unquoted_atom s =
     (if s = [] \<or> \<not> is_unquoted_atom_text (hd s) then None else Some (run_end is_unquoted_atom_text s))"

definition token_domain :: "string \<Rightarrow> nat option" where
  "token_domain s =
     (if s = [] \<or> (\<not> isalpha (hd s) \<and> \<not> isdigit (hd s)) then None else Some (run_end is_domain_text s))"

text \<open>Where the closing character is; a backslash takes the next character with it.\<close>

fun closing :: "char \<Rightarrow> string \<Rightarrow> nat option" where
  "closing q [] = None"
| "closing q (c # s) =
     (if c = q then Some 0
      else if c = CHR 0x5C then
        (case s of [] \<Rightarrow> None | d # t \<Rightarrow> map_option (\<lambda>i. i + 2) (closing q t))
      else map_option Suc (closing q s))"

definition token_quoted_string :: "string \<Rightarrow> nat option" where
  "token_quoted_string s = (if starts (CHR 0x22) s then map_option Suc (closing (CHR 0x22) (tl s)) else None)"

definition token_domain_literal :: "string \<Rightarrow> nat option" where
  "token_domain_literal s = (if starts (CHR ''['') s then map_option Suc (closing (CHR '']'') (tl s)) else None)"

text \<open>
  White space and comments are skipped; None is the end of the line.  One closing parenthesis
  closes any number of open ones.
\<close>

fun skip_cws_from :: "int \<Rightarrow> string \<Rightarrow> string option" where
  "skip_cws_from m [] = None"
| "skip_cws_from m (c # s) =
     (if is_ws c then skip_cws_from m s
      else if c = CHR ''('' then skip_cws_from (m + 1) s
      else if c = CHR '')'' then (if m \<noteq> 0 then skip_cws_from 0 s else Some (c # s))
      else if m = 0 then Some (c # s) else skip_cws_from m s)"

definition skip_cws :: "string \<Rightarrow> string option" where
  "skip_cws s = skip_cws_from 0 s"

definition skip_ws :: "string \<Rightarrow> string" where
  "skip_ws s = dropWhile is_ws s"

subsection \<open>Addresses\<close>

definition EMAIL_ADDRESS_NORMAL :: int where "EMAIL_ADDRESS_NORMAL = 0"
definition RFC_2821_MAIL_FROM :: int where "RFC_2821_MAIL_FROM = 1"
definition RFC_2821_RCPT_TO :: int where "RFC_2821_RCPT_TO = 16"

lemmas addr_modes = EMAIL_ADDRESS_NORMAL_def RFC_2821_MAIL_FROM_def RFC_2821_RCPT_TO_def

definition SIMTA_MAX_HOST_NAME_LEN :: nat where "SIMTA_MAX_HOST_NAME_LEN = 256"
definition STRING_POSTMASTER :: string where "STRING_POSTMASTER = ''postmaster''"

definition local_end :: "string \<Rightarrow> nat option" where
  "local_end s = (if starts (CHR 0x22) s then token_quoted_string s else token_dot_atom s)"

definition domain_end :: "string \<Rightarrow> nat option" where
  "domain_end s = (if starts (CHR ''['') s then token_domain_literal s else token_dot_atom s)"

definition route_end :: "string \<Rightarrow> nat option" where
  "route_end s = (if starts (CHR ''['') s then token_domain_literal s else token_domain s)"

text \<open>
  The source route of a path from behind its first \<open>@\<close>: \<open>@a,@b:\<close>.  The result is what
  follows the colon.
\<close>

function route :: "string \<Rightarrow> string option" where
  "route u =
     (case route_end u of
        None \<Rightarrow> None
      | Some e \<Rightarrow>
          (let r = drop (Suc e) u
           in if starts (CHR '','') r then (if starts (CHR ''@'') (tl r) then route (tl (tl r)) else None)
              else if starts (CHR '':'') r then Some (tl r) else None))"
  by auto
termination
  by (relation "measure length") (auto simp: starts_def Let_def)

declare route.simps [simp del]

text \<open>
  \<open>parse_emailaddr\<close>: None is the result 1.  On success the user part, which goes up to the
  NUL that is written over the closing bracket and so holds the whole address, and the
  domain; both are None for \<open>EMAIL_ADDRESS_NORMAL\<close>, which has no place to put them.
\<close>

definition parse_domain :: "int \<Rightarrow> string \<Rightarrow> string \<Rightarrow> (string option \<times> string option) option" where
  "parse_domain mode u d =
     (if SIMTA_MAX_HOST_NAME_LEN < length d then None
      else (case domain_end d of
          None \<Rightarrow> None
        | Some e \<Rightarrow>
            (let eol = drop (Suc e) d
             in if mode \<noteq> EMAIL_ADDRESS_NORMAL then
                  (if eol = ''>'' then Some (Some (take (length u - length eol) u), Some (take (Suc e) d)) else None)
                else if eol = [] then Some (None, None) else None)))"

definition parse_user :: "int \<Rightarrow> string \<Rightarrow> (string option \<times> string option) option" where
  "parse_user mode u =
     (if starts (CHR ''>'') u then
        (if mode = RFC_2821_MAIL_FROM \<and> tl u = [] then Some (Some [], None) else None)
      else (case local_end u of
          None \<Rightarrow> None
        | Some e \<Rightarrow>
            (let at = drop (Suc e) u
             in if (at = [] \<and> mode = EMAIL_ADDRESS_NORMAL) \<or> (starts (CHR ''>'') at \<and> mode = RFC_2821_RCPT_TO) then
                  (if strcasecmp (take (Suc e) u) STRING_POSTMASTER \<noteq> 0 then None
                   else Some (if mode = RFC_2821_RCPT_TO then Some (take (Suc e) u) else None, None))
                else if \<not> starts (CHR ''@'') at then None
                else parse_domain mode u (tl at))))"

definition parse_emailaddr :: "int \<Rightarrow> string option \<Rightarrow> (string option \<times> string option) option" where
  "parse_emailaddr mode addr =
     (if mode \<notin> {RFC_2821_MAIL_FROM, RFC_2821_RCPT_TO, EMAIL_ADDRESS_NORMAL} then None
      else (case addr of
          None \<Rightarrow> None
        | Some a \<Rightarrow>
            (if mode \<noteq> EMAIL_ADDRESS_NORMAL \<and> \<not> starts (CHR ''<'') a then None
             else
               (let u = (if mode \<noteq> EMAIL_ADDRESS_NORMAL then tl a else a)
                in if u = [] then (if mode = EMAIL_ADDRESS_NORMAL then Some (None, None) else None)
                   else if starts (CHR ''@'') u then
                     (if mode = EMAIL_ADDRESS_NORMAL then None
                      else (case route (tl u) of None \<Rightarrow> None | Some v \<Rightarrow> parse_user mode v))
                   else parse_user mode u))))"

definition is_emailaddr :: "string \<Rightarrow> bool" where
  "is_emailaddr addr \<longleftrightarrow> parse_emailaddr EMAIL_ADDRESS_NORMAL (Some addr) \<noteq> None"

text \<open>
  \<open>correct_emailaddr\<close>: the local domain is put behind a lone local part.  The result is -1
  when the memory cannot be had, 0 for a bad address and 1 for a good one.
\<close>

definition correct_emailaddr :: "string \<Rightarrow> bool \<Rightarrow> string \<Rightarrow> int \<times> string" where
  "correct_emailaddr simta_domain malloc_ok addr =
     (case local_end addr of
        None \<Rightarrow> (0, addr)
      | Some e \<Rightarrow>
          (let at = drop (Suc e) addr
           in if starts (CHR ''@'') at then
                (case domain_end (tl at) of
                   None \<Rightarrow> (0, addr)
                 | Some e2 \<Rightarrow> (if drop (Suc e2) (tl at) \<noteq> [] then 0 else 1, addr))
              else if at = [] then
                (if malloc_ok then (1, take (Suc e) addr @ CHR ''@'' # simta_domain) else (- 1, addr))
              else (0, addr)))"

subsection \<open>Lists of addresses in a string\<close>

text \<open>
  \<open>string_address_parse\<close> hands out one address after the other.  It writes NUL behind each of
  them; the one behind a plain address is undone by the next call, the one written over a
  closing angle bracket is not.  The buffer keeps these NULs, and \<open>sa_start\<close> is an offset
  into it.
\<close>

record string_address =
  sa_string :: string
  sa_start :: "nat option"
  sa_swap :: int
  sa_swap_char :: char

definition cstring_at :: "string \<Rightarrow> nat \<Rightarrow> string" where
  "cstring_at buf off = takeWhile (\<lambda>c. c \<noteq> NUL) (drop off buf)"

definition string_address_init :: "bool \<Rightarrow> bool \<Rightarrow> string \<Rightarrow> string_address option" where
  "string_address_init malloc_ok strdup_ok t =
     (if malloc_ok \<and> strdup_ok then Some \<lparr>sa_string = t, sa_start = None, sa_swap = 0, sa_swap_char = NUL\<rparr> else None)"

text \<open>The offset that \<open>skip_cws\<close> reaches from an offset.\<close>

definition skip_from :: "string \<Rightarrow> nat \<Rightarrow> nat option" where
  "skip_from buf off = (case skip_cws (cstring_at buf off) of
       None \<Rightarrow> None
     | Some s \<Rightarrow> Some (off + (length (cstring_at buf off) - length s)))"

lemma skip_cws_shorter: "skip_cws_from m s = Some t \<Longrightarrow> length t \<le> length s"
  by (induction m s rule: skip_cws_from.induct) (auto split: if_splits)

lemma skip_cws_length: "skip_cws s = Some t \<Longrightarrow> length t \<le> length s"
  by (simp add: skip_cws_def skip_cws_shorter)

lemma skip_from_ahead: "skip_from buf off = Some off2 \<Longrightarrow> off \<le> off2"
  by (auto simp: skip_from_def split: option.splits)

text \<open>The words of a display name, up to the angle bracket: whether it is there, and where \<open>sa_start\<close> is.\<close>

function name_words :: "string \<Rightarrow> nat \<Rightarrow> bool \<times> nat option" where
  "name_words buf off =
     (let s = cstring_at buf off
      in if starts (CHR ''<'') s then (True, Some off)
         else (case (if starts (CHR 0x22) s then token_quoted_string s else token_dot_atom s) of
             None \<Rightarrow> (False, Some off)
           | Some e \<Rightarrow> (case skip_from buf (off + Suc e) of None \<Rightarrow> (False, None) | Some off2 \<Rightarrow> name_words buf off2)))"
  by auto
termination
proof (relation "measure (\<lambda>(buf, off). length buf - off)")
  fix buf off s e off2
  assume "s = cstring_at buf off"
    and t: "(if starts (CHR 0x22) s then token_quoted_string s else token_dot_atom s) = Some e"
    and n: "skip_from buf (off + Suc e) = Some off2"
  have "s \<noteq> []" using t by (auto simp: starts_def token_dot_atom_def split: if_splits)
  then have "off < length buf" using \<open>s = _\<close> by (auto simp: cstring_at_def intro: ccontr)
  with skip_from_ahead [OF n] show "((buf, off2), buf, off) \<in> measure (\<lambda>(buf, off). length buf - off)" by simp
qed simp

declare name_words.simps [simp del]

text \<open>An address in angle brackets; the NUL over the closing one stays.\<close>

definition angle_address :: "string_address \<Rightarrow> nat \<Rightarrow> string option \<times> string_address" where
  "angle_address sa off =
     (case name_words (sa_string sa) off of
        (False, st) \<Rightarrow> (None, sa\<lparr>sa_start := st\<rparr>)
      | (True, st) \<Rightarrow>
          (let email = the st + 1;
               body = takeWhile (\<lambda>c. c \<noteq> CHR ''>'') (cstring_at (sa_string sa) email);
               close = email + length body
           in if body = cstring_at (sa_string sa) email then (None, sa\<lparr>sa_start := st\<rparr>)
              else (if is_emailaddr body then Some body else None,
                    sa\<lparr>sa_string := (sa_string sa)[close := NUL], sa_start := Some (close + 1)\<rparr>)))"

text \<open>A plain address; its end is marked for the next call.\<close>

definition plain_address :: "string_address \<Rightarrow> nat \<Rightarrow> nat \<Rightarrow> string option \<times> string_address" where
  "plain_address sa off e =
     (let d = off + e + 2
      in case route_end (cstring_at (sa_string sa) d) of
           None \<Rightarrow> (None, sa\<lparr>sa_start := Some d\<rparr>)
         | Some e2 \<Rightarrow>
             (let close = d + e2 + 1;
                  sa1 = sa\<lparr>sa_start := Some close, sa_swap := 1,
                    sa_swap_char := (if close < length (sa_string sa) then sa_string sa ! close else NUL),
                    sa_string := (sa_string sa)[close := NUL]\<rparr>;
                  email = cstring_at (sa_string sa1) off
              in (if is_emailaddr email then Some email else None, sa1)))"

definition next_address :: "string_address \<Rightarrow> nat \<Rightarrow> string option \<times> string_address" where
  "next_address sa from =
     (case skip_from (sa_string sa) from of
        None \<Rightarrow> (None, sa\<lparr>sa_start := None\<rparr>)
      | Some off \<Rightarrow>
          (let s = cstring_at (sa_string sa) off
           in if starts (CHR 0x22) s \<or> starts (CHR ''<'') s then angle_address sa off
              else (case token_dot_atom s of
                  None \<Rightarrow> (None, sa\<lparr>sa_start := Some off\<rparr>)
                | Some e \<Rightarrow>
                    (if starts (CHR ''@'') (drop (Suc e) s) then plain_address sa off e
                     else (case skip_from (sa_string sa) (off + Suc e) of
                         None \<Rightarrow> (None, sa\<lparr>sa_start := None\<rparr>)
                       | Some off2 \<Rightarrow> angle_address sa off2)))))"

definition string_address_parse :: "string_address \<Rightarrow> string option \<times> string_address" where
  "string_address_parse sa =
     (case sa_start sa of
        None \<Rightarrow> next_address (sa\<lparr>sa_start := Some 0\<rparr>) 0
      | Some off \<Rightarrow>
          (let sa1 = (if sa_swap sa \<noteq> 0
                      then sa\<lparr>sa_string := (sa_string sa)[off := sa_swap_char sa], sa_swap := 0\<rparr> else sa)
           in case skip_from (sa_string sa1) off of
                None \<Rightarrow> (None, sa1)
              | Some comma \<Rightarrow>
                  (if starts (CHR '','') (cstring_at (sa_string sa1) comma) then next_address sa1 (comma + 1)
                   else (None, sa1))))"

subsection \<open>The offset of the local time\<close>

text \<open>
  \<open>tz\<close> prints the offset from UTC, in seconds, into six characters with the final NUL.
  Division and remainder are those of C, so both numbers of a negative offset have a sign.
\<close>

definition print_2d :: "int \<Rightarrow> string" where
  "print_2d i = (let n = nat \<bar>i\<bar> in (if i < 0 then ''-'' else []) @ (if n < 10 then ''0'' else []) @ show_nat n)"

definition tz :: "int \<Rightarrow> string run" where
  "tz gmtoff =
     (let zone = (if gmtoff < 0 then [] else ''+'') @ print_2d ((gmtoff sdiv 60) sdiv 60) @
        print_2d ((gmtoff sdiv 60) smod 60)
      in if 5 < length zone then Inl OutOfBounds else Inr zone)"

lemma tz_half_hour: "tz (- 12600) = Inl OutOfBounds" and tz_east: "tz 19800 = Inr ''+0530''"
  by code_simp+

text \<open>What \<open>header_timestamp\<close> prints in front of a message; glibc prints a NULL sender as \<open>(null)\<close>.\<close>

definition timestamp_text :: "string option \<Rightarrow> string \<Rightarrow> string \<Rightarrow> string \<Rightarrow> string \<Rightarrow> string" where
  "timestamp_text mail hostname idn daytime zone =
     ''Received: FROM '' @ (case mail of None \<Rightarrow> ''(null)'' | Some m \<Rightarrow> m) @ [NL, TAB] @ ''BY '' @ hostname @
     '' ID '' @ idn @ '' ;'' @ [NL, TAB] @ daytime @ '' '' @ zone @ [NL]"

subsection \<open>The grammar of addresses\<close>

text \<open>What may stand between the characters that open and close: characters and escaped ones.\<close>

inductive_set bodies :: "char \<Rightarrow> string set" for q where
  body_end: "[] \<in> bodies q"
| body_char: "s \<in> bodies q \<Longrightarrow> c \<noteq> q \<Longrightarrow> c \<noteq> CHR 0x5C \<Longrightarrow> c # s \<in> bodies q"
| body_pair: "s \<in> bodies q \<Longrightarrow> q \<noteq> CHR 0x5C \<Longrightarrow> CHR 0x5C # c # s \<in> bodies q"

inductive_cases bodies_ConsE: "c # s \<in> bodies q"

definition dot_atom :: "string \<Rightarrow> bool" where
  "dot_atom s \<longleftrightarrow> s \<noteq> [] \<and> list_all is_dot_atom_text s"

definition quoted_string :: "string \<Rightarrow> bool" where
  "quoted_string s \<longleftrightarrow> (\<exists>b\<in>bodies (CHR 0x22). s = CHR 0x22 # b @ [CHR 0x22])"

definition domain_literal :: "string \<Rightarrow> bool" where
  "domain_literal s \<longleftrightarrow> (\<exists>b\<in>bodies (CHR '']''). s = CHR ''['' # b @ [CHR '']''])"

definition local_part :: "string \<Rightarrow> bool" where
  "local_part s \<longleftrightarrow> dot_atom s \<or> quoted_string s"

definition domain_part :: "string \<Rightarrow> bool" where
  "domain_part s \<longleftrightarrow> dot_atom s \<or> domain_literal s"

definition address :: "string \<Rightarrow> bool" where
  "address a \<longleftrightarrow> (\<exists>l d. a = l @ CHR ''@'' # d \<and> local_part l \<and> domain_part d \<and> length d \<le> SIMTA_MAX_HOST_NAME_LEN)"

lemma closing_body: "b \<in> bodies q \<Longrightarrow> q \<noteq> CHR 0x5C \<Longrightarrow> closing q (b @ q # s) = Some (length b)"
  by (induction rule: bodies.induct) auto

lemma closing_Some:
  "closing q s = Some i \<Longrightarrow> q \<noteq> CHR 0x5C \<Longrightarrow> i < length s \<and> take i s \<in> bodies q \<and> s ! i = q"
proof (induction q s arbitrary: i rule: closing.induct)
  case (2 q c s)
  consider "c = q" | "c \<noteq> q" "c = CHR 0x5C" | "c \<noteq> q" "c \<noteq> CHR 0x5C" by blast
  then show ?case
  proof cases
    case 1
    with 2 show ?thesis by (auto intro: body_end)
  next
    case 2
    with "2.prems" obtain d t j where t: "s = d # t" "closing q t = Some j" "i = j + 2"
      by (auto split: list.splits)
    with "2.IH"(1) [OF 2 t(1,2)] 2 show ?thesis by (auto intro: body_pair)
  next
    case 3
    with "2.prems" obtain j where j: "closing q s = Some j" "i = Suc j" by auto
    with "2.IH"(2) [OF 3 j(1)] 3 "2.prems"(2) show ?thesis by (auto intro: body_char)
  qed
qed simp

lemma run_end_all:
  "list_all P (c # s) \<Longrightarrow> t = [] \<or> \<not> P (hd t) \<Longrightarrow> run_end P (c # s @ t) = length s"
proof (induction s arbitrary: c)
  case Nil
  then show ?case by (cases t) auto
qed auto

lemma run_end_take: "s \<noteq> [] \<Longrightarrow> P (hd s) \<Longrightarrow> run_end P s < length s \<and> list_all P (take (Suc (run_end P s)) s)"
  by (induction P s rule: run_end.induct) auto

lemma token_dot_atom_iff:
  "token_dot_atom s = Some e \<Longrightarrow> e < length s \<and> dot_atom (take (Suc e) s)"
  by (auto simp: token_dot_atom_def dot_atom_def run_end_take split: if_splits dest: run_end_take)

lemma token_dot_atom_exact:
  assumes "dot_atom a" "t = [] \<or> \<not> is_dot_atom_text (hd t)"
  shows "token_dot_atom (a @ t) = Some (length a - 1)"
  using assms by (cases a) (auto simp: token_dot_atom_def dot_atom_def run_end_all)

lemma token_quoted_iff:
  assumes "token_quoted_string s = Some e"
  shows "e < length s \<and> quoted_string (take (Suc e) s)"
proof -
  obtain t i where t: "s = CHR 0x22 # t" "closing (CHR 0x22) t = Some i" "e = Suc i"
    using assms by (cases s) (auto simp: token_quoted_string_def starts_def split: if_splits)
  from closing_Some [OF t(2)] have c: "i < length t" "take i t \<in> bodies (CHR 0x22)" "t ! i = CHR 0x22" by simp_all
  then have "take (Suc e) s = CHR 0x22 # take i t @ [CHR 0x22]"
    by (simp add: t take_Suc_conv_app_nth)
  with c t show ?thesis by (auto simp: quoted_string_def)
qed

lemma token_literal_iff:
  assumes "token_domain_literal s = Some e"
  shows "e < length s \<and> domain_literal (take (Suc e) s)"
proof -
  obtain t i where t: "s = CHR ''['' # t" "closing (CHR '']'') t = Some i" "e = Suc i"
    using assms by (cases s) (auto simp: token_domain_literal_def starts_def split: if_splits)
  from closing_Some [OF t(2)] have c: "i < length t" "take i t \<in> bodies (CHR '']'')" "t ! i = CHR '']''" by simp_all
  then have "take (Suc e) s = CHR ''['' # take i t @ [CHR '']'']"
    by (simp add: t take_Suc_conv_app_nth)
  with c t show ?thesis by (auto simp: domain_literal_def)
qed

lemma token_quoted_exact: "quoted_string a \<Longrightarrow> token_quoted_string (a @ t) = Some (length a - 1)"
  by (auto simp: quoted_string_def token_quoted_string_def starts_def closing_body)

lemma token_literal_exact: "domain_literal a \<Longrightarrow> token_domain_literal (a @ t) = Some (length a - 1)"
  by (auto simp: domain_literal_def token_domain_literal_def starts_def closing_body)

lemma text_specials [simp]:
  "\<not> is_dot_atom_text (CHR ''@'')" "\<not> is_dot_atom_text (CHR ''>'')" "\<not> is_dot_atom_text (CHR 0x22)"
  "\<not> is_dot_atom_text (CHR ''['')" "\<not> is_dot_atom_text (CHR ''<'')"
  by (simp_all add: is_dot_atom_text_def isalpha_def isdigit_def)

lemma dot_atom_hd: "dot_atom a \<Longrightarrow> a \<noteq> [] \<and> is_dot_atom_text (hd a)"
  by (cases a) (auto simp: dot_atom_def)

lemma local_end_exact:
  assumes "local_part l" "t = [] \<or> \<not> is_dot_atom_text (hd t)"
  shows "local_end (l @ t) = Some (length l - 1) \<and> l \<noteq> [] \<and> hd l \<notin> {CHR ''@'', CHR ''>''}"
proof (cases "dot_atom l")
  case True
  then have "\<not> starts (CHR 0x22) (l @ t)" using dot_atom_hd [OF True] by (auto simp: starts_def)
  with True assms(2) dot_atom_hd [OF True] show ?thesis by (auto simp: local_end_def token_dot_atom_exact)
next
  case False
  then have q: "quoted_string l" using assms(1) by (simp add: local_part_def)
  then have "starts (CHR 0x22) (l @ t)" "l \<noteq> []" "hd l = CHR 0x22" by (auto simp: starts_def quoted_string_def)
  with q show ?thesis by (simp add: local_end_def token_quoted_exact)
qed

lemma domain_end_exact:
  assumes "domain_part d" "t = [] \<or> \<not> is_dot_atom_text (hd t)"
  shows "domain_end (d @ t) = Some (length d - 1) \<and> d \<noteq> []"
proof (cases "dot_atom d")
  case True
  then have "\<not> starts (CHR ''['') (d @ t)" using dot_atom_hd [OF True] by (auto simp: starts_def)
  with True assms(2) dot_atom_hd [OF True] show ?thesis by (auto simp: domain_end_def token_dot_atom_exact)
next
  case False
  then have q: "domain_literal d" using assms(1) by (simp add: domain_part_def)
  then have "starts (CHR ''['') (d @ t)" "d \<noteq> []" by (auto simp: starts_def domain_literal_def)
  with q show ?thesis by (simp add: domain_end_def token_literal_exact)
qed

lemma local_end_part: "local_end s = Some e \<Longrightarrow> e < length s \<and> local_part (take (Suc e) s)"
  by (auto simp: local_end_def local_part_def dest: token_quoted_iff token_dot_atom_iff split: if_splits)

lemma domain_end_part: "domain_end s = Some e \<Longrightarrow> e < length s \<and> domain_part (take (Suc e) s)"
  by (auto simp: domain_end_def domain_part_def dest: token_literal_iff token_dot_atom_iff split: if_splits)

lemma starts_iff: "starts c s \<longleftrightarrow> (\<exists>t. s = c # t)"
  by (cases s) (auto simp: starts_def)

lemma address_parsed:
  assumes "is_emailaddr a"
  shows "a = [] \<or> strcasecmp a STRING_POSTMASTER = 0 \<or> address a"
proof (cases "a = []")
  case False
  then have p: "parse_user EMAIL_ADDRESS_NORMAL a \<noteq> None"
    using assms by (auto simp: is_emailaddr_def parse_emailaddr_def split: if_splits)
  then obtain e where e: "local_end a = Some e"
    by (auto simp: parse_user_def addr_modes split: if_splits option.splits)
  note l = local_end_part [OF e]
  consider "drop (Suc e) a = []" "strcasecmp (take (Suc e) a) STRING_POSTMASTER = 0"
    | d where "drop (Suc e) a = CHR ''@'' # d" "parse_domain EMAIL_ADDRESS_NORMAL a d \<noteq> None"
    using p e by (auto simp: parse_user_def addr_modes Let_def starts_iff split: if_splits option.splits)
  then show ?thesis
  proof cases
    case 2
    then obtain e2 where e2: "domain_end d = Some e2" "drop (Suc e2) d = []" "length d \<le> SIMTA_MAX_HOST_NAME_LEN"
      by (auto simp: parse_domain_def Let_def split: if_splits option.splits)
    with domain_end_part [OF e2(1)] have "domain_part d" by simp
    moreover have "a = take (Suc e) a @ CHR ''@'' # d" using 2(1) by (metis append_take_drop_id)
    ultimately show ?thesis using l e2(3) by (auto simp: address_def)
  qed (use l in simp)
qed simp

lemma parse_address:
  assumes "local_part l" "domain_part d" "length d < SIMTA_MAX_HOST_NAME_LEN + (if t = [] then 1 else 0)"
    and "t = (if mode = EMAIL_ADDRESS_NORMAL then [] else ''>'')"
  shows "parse_user mode (l @ CHR ''@'' # d @ t) =
    Some (if mode = EMAIL_ADDRESS_NORMAL then (None, None) else (Some (l @ CHR ''@'' # d), Some d))"
proof -
  have t: "t = [] \<or> \<not> is_dot_atom_text (hd t)" using assms(4) by simp
  note l = local_end_exact [OF assms(1), of "CHR ''@'' # d @ t"] and d = domain_end_exact [OF assms(2) t]
  then have "parse_user mode (l @ CHR ''@'' # d @ t) = parse_domain mode (l @ CHR ''@'' # d @ t) (d @ t)"
    by (cases l) (auto simp: parse_user_def starts_def)
  also have "\<dots> = Some (if mode = EMAIL_ADDRESS_NORMAL then (None, None) else (Some (l @ CHR ''@'' # d), Some d))"
    using assms(3,4) d by (cases d) (auto simp: parse_domain_def)
  finally show ?thesis .
qed

lemma postmaster_atom:
  assumes "strcasecmp a STRING_POSTMASTER = 0"
  shows "dot_atom a"
proof -
  have l: "lower a = ''postmaster''" using assms by (simp add: cstr STRING_POSTMASTER_def lower_def tolower_def isupper_def)
  have "is_dot_atom_text c" if "c \<in> set a" for c
  proof -
    have "tolower c \<in> set (lower a)" using that by (simp add: lower_def)
    then have "97 \<le> code (tolower c) \<and> code (tolower c) \<le> 122" unfolding l by auto
    then show ?thesis
      by (auto simp: code_tolower isupper_def is_dot_atom_text_def isalpha_def split: if_splits)
  qed
  moreover have "a \<noteq> []" using l by auto
  ultimately show ?thesis by (simp add: dot_atom_def list_all_iff)
qed

lemma address_accepted:
  assumes "a = [] \<or> strcasecmp a STRING_POSTMASTER = 0 \<or> address a"
  shows "is_emailaddr a"
  using assms
proof (elim disjE)
  assume "a = []"
  then show ?thesis by (simp add: is_emailaddr_def parse_emailaddr_def addr_modes)
next
  assume p: "strcasecmp a STRING_POSTMASTER = 0"
  then have d: "local_part a" using postmaster_atom by (simp add: local_part_def)
  from local_end_exact [OF this, of "[]"] have l: "local_end a = Some (length a - 1)" "a \<noteq> []" "hd a \<notin> {CHR ''@'', CHR ''>''}" by auto
  then show ?thesis using p
    by (simp add: is_emailaddr_def parse_emailaddr_def parse_user_def starts_def addr_modes Let_def)
next
  assume "address a"
  then obtain l d where a: "a = l @ CHR ''@'' # d" "local_part l" "domain_part d" "length d \<le> SIMTA_MAX_HOST_NAME_LEN"
    by (auto simp: address_def)
  from parse_address [OF a(2,3), of "[]" EMAIL_ADDRESS_NORMAL] a(4)
  have "parse_user EMAIL_ADDRESS_NORMAL a = Some (None, None)" by (simp add: a(1))
  moreover have "\<not> starts (CHR ''@'') a" "a \<noteq> []"
    using local_end_exact [OF a(2), of "CHR ''@'' # d"] by (auto simp: a(1) starts_def)
  ultimately show ?thesis by (simp add: is_emailaddr_def parse_emailaddr_def addr_modes)
qed



end
