(* ===== verification/HeaderText.thy ===== *)
theory HeaderText
  imports Tokens Sys
begin

section \<open>The headers of a message as it comes in: header.c, header\_text\<close>

text \<open>
  Each line of a message is looked at until the headers end.  The message id and the marks of
  the hosts that have seen the message before are kept in \<open>receive_headers\<close>.  The texts of
  \<open>r_all_seen_before\<close> are a list, \<open>r_seen_before\<close> points to one of them (its place in the
  list).  A result holds the return value and the text that \<open>msg\<close> is set to, if any.
\<close>

definition R_HEADER_READ :: int where "R_HEADER_READ = 0"
definition R_HEADER_END :: int where "R_HEADER_END = 1"
definition R_HEADER_MID :: int where "R_HEADER_MID = 2"
definition R_HEADER_SEEN :: int where "R_HEADER_SEEN = 3"

lemmas header_states = R_HEADER_READ_def R_HEADER_END_def R_HEADER_MID_def R_HEADER_SEEN_def

record receive_headers =
  r_state :: int
  r_mid :: "string option"
  r_mid_set :: int
  r_received_count :: int
  r_all_seen_before :: "string list option"
  r_seen_before :: "nat option"

definition zero_headers :: receive_headers where
  "zero_headers = \<lparr>r_state = R_HEADER_READ, r_mid = None, r_mid_set = 0, r_received_count = 0,
     r_all_seen_before = None, r_seen_before = None\<rparr>"

definition STRING_MID :: string where "STRING_MID = ''Message-ID''"
definition STRING_RECEIVED :: string where "STRING_RECEIVED = ''Received''"
definition STRING_SEEN_BEFORE :: string where "STRING_SEEN_BEFORE = ''X-Simta-Seen-Before''"

subsection \<open>The message id\<close>

text \<open>A message id in angle brackets, or what is wrong with it.\<close>

definition bad_mid :: "string \<Rightarrow> string" where
  "bad_mid t = ''Illegal Message-ID Header: '' @ t"

definition mid_scan :: "string \<Rightarrow> string + (string \<times> string)" where
  "mid_scan start =
     (if \<not> starts (CHR ''<'') start then Inl (bad_mid (''expected '' @ [CHR 0x27] @ ''<'' @ [CHR 0x27] @ '' character''))
      else
        (let u = tl start
         in case local_end u of
              None \<Rightarrow> Inl (bad_mid (if starts (CHR 0x22) u then ''bad LHS quoted string'' else ''bad LHS dot atom text''))
            | Some e \<Rightarrow>
                (let at = drop (Suc e) u
                 in if \<not> starts (CHR ''@'') at then Inl (bad_mid (''expected '' @ [CHR 0x27] @ ''@'' @ [CHR 0x27]))
                    else (case domain_end (tl at) of
                        None \<Rightarrow> Inl (bad_mid (if starts (CHR ''['') (tl at) then ''bad RHS domain literal''
                                             else ''bad RHS dot atom text''))
                      | Some e2 \<Rightarrow>
                          (let gt = drop (Suc e2) (tl at)
                           in if \<not> starts (CHR ''>'') gt then Inl (bad_mid (''expected '' @ [CHR 0x27] @ ''>'' @ [CHR 0x27]))
                              else Inr (take (length u - length gt) u, tl gt))))))"

definition mid_text :: "receive_headers \<Rightarrow> string \<Rightarrow> 'a sys_scheme \<Rightarrow>
  int \<times> string option \<times> receive_headers \<times> 'a sys_scheme" where
  "mid_text r line s =
     (case skip_cws line of
        None \<Rightarrow> (0, None, r, s)
      | Some start \<Rightarrow>
          (if r_mid r \<noteq> None then
             (0, Some (bad_mid ''illegal extra content''), r\<lparr>r_mid := None, r_state := R_HEADER_READ\<rparr>, s)
           else (case mid_scan start of
               Inl m \<Rightarrow> (0, Some m, r\<lparr>r_state := R_HEADER_READ\<rparr>, s)
             | Inr (mid, rest) \<Rightarrow>
                 (let (strdup_ok, s1) = outcome s
                  in if \<not> strdup_ok then (- 1, None, r, s1)
                     else if skip_cws rest \<noteq> None then
                       (0, Some (bad_mid ''illegal extra content''), r\<lparr>r_mid := None, r_state := R_HEADER_READ\<rparr>, s1)
                     else (0, None, r\<lparr>r_mid := Some mid\<rparr>, s1)))))"

subsection \<open>Who has seen the message\<close>

text \<open>A new, empty text at the end; when \<open>strdup\<close> fails the list ends where it did.\<close>

definition make_more_seen :: "receive_headers \<Rightarrow> 'a sys_scheme \<Rightarrow> receive_headers \<times> 'a sys_scheme" where
  "make_more_seen r s =
     (let old = (case r_all_seen_before r of None \<Rightarrow> [] | Some ts \<Rightarrow> ts); (malloc_ok, s1) = outcome s
      in if \<not> malloc_ok then (r, s1)
         else (let (strdup_ok, s2) = outcome s1
               in (r\<lparr>r_all_seen_before := Some (if strdup_ok then old @ [[]] else old)\<rparr>, s2)))"

text \<open>A word is put behind the last text; the text of our own domain is remembered.\<close>

definition append_seen :: "string \<Rightarrow> receive_headers \<Rightarrow> string \<Rightarrow> 'a sys_scheme \<Rightarrow> bool \<times> receive_headers \<times> 'a sys_scheme" where
  "append_seen domain r word s =
     (case r_all_seen_before r of
        None \<Rightarrow> (False, r, s)
      | Some ts \<Rightarrow>
          (if ts = [] then (False, r, s)
           else
             (let i = length ts - 1; cp = ts ! i; (malloc_ok, s1) = outcome s
              in if \<not> malloc_ok then (False, r, s1)
                 else
                   (let new = (if cp \<noteq> [] then cp @ '' '' @ word else word);
                        seen = (if cp = [] \<and> word = domain then Some i else r_seen_before r)
                    in (True, r\<lparr>r_all_seen_before := Some (ts[i := new]), r_seen_before := seen\<rparr>, s1)))))"

function seen_text :: "string \<Rightarrow> receive_headers \<Rightarrow> string \<Rightarrow> 'a sys_scheme \<Rightarrow>
  int \<times> string option \<times> receive_headers \<times> 'a sys_scheme" where
  "seen_text domain r line s =
     (case skip_cws line of
        None \<Rightarrow> (0, None, r, s)
      | Some start \<Rightarrow>
          (case (if starts (CHR 0x22) start then token_quoted_string start else token_unquoted_atom start) of
             None \<Rightarrow> (0, Some (''Illegal '' @ STRING_SEEN_BEFORE @ '' Header: '' @
                       (if starts (CHR 0x22) start then ''bad quoted string'' else ''bad unquoted atom text'')),
                     r\<lparr>r_state := R_HEADER_READ\<rparr>, s)
           | Some e \<Rightarrow>
               (case append_seen domain r (take (Suc e) start) s of
                  (ok, r1, s1) \<Rightarrow> if \<not> ok then (1, None, r1, s1) else seen_text domain r1 (drop (Suc e) start) s1)))"
  by auto
termination
proof (relation "measure (\<lambda>(domain, r, line, s). length line)")
  fix domain r line and s :: "'a sys_scheme" and start e
  assume "skip_cws line = Some start"
    and "(if starts (CHR 0x22) start then token_quoted_string start else token_unquoted_atom start) = Some e"
  then have "start \<noteq> [] \<and> length start \<le> length line"
    by (auto simp: starts_def token_unquoted_atom_def split: if_splits dest: skip_cws_length)
  then show "((domain, r1, drop (Suc e) start, s1), domain, r, line, s) \<in> measure (\<lambda>(domain, r, line, s). length line)"
    for r1 and s1 :: "'a sys_scheme"
    by (cases start) auto
qed simp

declare seen_text.simps [simp del]

subsection \<open>A line\<close>

definition field_char :: "char \<Rightarrow> bool" where
  "field_char c \<longleftrightarrow> 33 \<le> code c \<and> code c \<le> 126 \<and> c \<noteq> CHR '':''"

text \<open>The name in front of the first colon, if it is a field name.\<close>

definition field_name :: "string \<Rightarrow> string option" where
  "field_name line =
     (let n = takeWhile field_char line
      in if n \<noteq> [] \<and> starts (CHR '':'') (drop (length n) line) then Some n else None)"

text \<open>A field with a name: the message id, a trace of a host, or one of the marks.\<close>

definition header_field :: "string \<Rightarrow> receive_headers \<Rightarrow> string \<Rightarrow> string \<Rightarrow> 'a sys_scheme \<Rightarrow>
  int \<times> string option \<times> receive_headers \<times> 'a sys_scheme" where
  "header_field domain r name value s =
     (if strcasecmp name STRING_MID = 0 then
        (if r_mid_set r \<noteq> 0 then (0, Some ''Illegal Duplicate Message-ID Headers'', r\<lparr>r_mid := None\<rparr>, s)
         else mid_text (r\<lparr>r_mid_set := 1, r_state := R_HEADER_MID\<rparr>) value s)
      else if strcasecmp name STRING_RECEIVED = 0 then
        (0, None, r\<lparr>r_received_count := r_received_count r + 1\<rparr>, s)
      else if strcasecmp name STRING_SEEN_BEFORE = 0 then
        (case make_more_seen (r\<lparr>r_state := R_HEADER_SEEN\<rparr>) s of (r1, s1) \<Rightarrow> seen_text domain r1 value s1)
      else (0, None, r, s))"

text \<open>Without headers to keep (\<open>r\<close> is NULL) the line is only told apart.\<close>

definition header_text :: "string \<Rightarrow> int \<Rightarrow> string \<Rightarrow> receive_headers option \<Rightarrow> 'a sys_scheme \<Rightarrow>
  int \<times> string option \<times> receive_headers option \<times> 'a sys_scheme" where
  "header_text domain line_no line r s =
     (case r of
        None \<Rightarrow>
          (if line = [] then 1
           else if is_ws (hd line) then (if line_no = 1 then 1 else 0)
           else if field_name line \<noteq> None then 0 else 1, None, None, s)
      | Some h \<Rightarrow>
          (let over = (1, None, Some (h\<lparr>r_state := R_HEADER_END\<rparr>), s);
               kept = (\<lambda>(rc, m, h1, s1). (rc, m, Some h1, s1))
           in if line = [] \<or> r_state h = R_HEADER_END then over
              else if is_ws (hd line) then
                (if line_no = 1 then over
                 else if r_state h = R_HEADER_MID then kept (mid_text h line s)
                 else if r_state h = R_HEADER_SEEN then kept (seen_text domain h line s)
                 else (0, None, Some h, s))
              else (case field_name line of
                  None \<Rightarrow> over
                | Some n \<Rightarrow> kept (header_field domain (h\<lparr>r_state := R_HEADER_READ\<rparr>) n (drop (Suc (length n)) line) s))))"

subsection \<open>The trace in front of a message\<close>

text \<open>
  \<open>header_timestamp\<close>: the local time as \<open>strftime\<close> prints it and the offset from UTC are
  arguments.  The text is what goes to the file; it is printed only when no call fails.
\<close>

definition header_timestamp :: "string \<Rightarrow> string \<Rightarrow> int \<Rightarrow> string option \<Rightarrow> string \<Rightarrow> 'a sys_scheme \<Rightarrow>
  (int \<times> string \<times> 'a sys_scheme) run" where
  "header_timestamp hostname daytime gmtoff mail idn s =
     (let (time_ok, s1) = outcome s; (local_ok, s2) = outcome s1; (print_ok, s3) = outcome s2
      in if \<not> time_ok then Inr (- 1, [], s1)
         else if \<not> local_ok then Inr (- 1, [], s2)
         else if \<not> print_ok \<or> 29 < length daytime then Inr (- 1, [], s3)
         else and_then (tz gmtoff) (\<lambda>zone.
           let (fprintf_ok, s4) = outcome s3
           in Inr (if fprintf_ok then (0, timestamp_text mail hostname idn daytime zone, s4) else (- 1, [], s4))))"

end
