(* ===== verification/AddressList.thy ===== *)
theory AddressList
  imports Tokens Envelope
begin

section \<open>All addresses of a string: header.c, envelope.c\<close>

text \<open>
  The loops \<open>while (( addr = string_address_parse( sa )) != NULL )\<close> go over a list of
  addresses, which no loop body changes.  That it is finite is shown by the place the buffer
  has been read to, which only goes up.
\<close>

lemma name_words_ahead: "name_words buf off = (True, Some k) \<Longrightarrow> off \<le> k \<and> starts (CHR ''<'') (cstring_at buf k)"
proof (induction buf off rule: name_words.induct)
  case (1 buf off)
  let ?s = "cstring_at buf off"
  let ?t = "if starts (CHR 0x22) ?s then token_quoted_string ?s else token_dot_atom ?s"
  note eq = name_words.simps [of buf off]
  show ?case
  proof (cases "starts (CHR ''<'') ?s")
    case True
    with 1(2) show ?thesis by (simp add: eq Let_def)
  next
    case False
    with 1(2) obtain e off2 where t: "?t = Some e" "skip_from buf (off + Suc e) = Some off2" "name_words buf off2 = (True, Some k)"
      by (auto simp: eq Let_def split: option.splits)
    from 1(1) [OF refl False t] skip_from_ahead [OF t(2)] show ?thesis by simp
  qed
qed

lemma name_words_place: "name_words buf off = (True, st) \<Longrightarrow> st \<noteq> None"
proof (induction buf off rule: name_words.induct)
  case (1 buf off)
  let ?s = "cstring_at buf off"
  let ?t = "if starts (CHR 0x22) ?s then token_quoted_string ?s else token_dot_atom ?s"
  note eq = name_words.simps [of buf off]
  show ?case
  proof (cases "starts (CHR ''<'') ?s")
    case True
    with 1(2) show ?thesis by (auto simp: eq Let_def)
  next
    case False
    with 1(2) obtain e off2 where t: "?t = Some e" "skip_from buf (off + Suc e) = Some off2" "name_words buf off2 = (True, st)"
      by (auto simp: eq Let_def split: option.splits)
    from 1(1) [OF refl False t] show ?thesis .
  qed
qed

lemma cstring_at_inside: "cstring_at buf off \<noteq> [] \<Longrightarrow> off < length buf"
  by (auto simp: cstring_at_def intro: ccontr)

lemma starts_inside: "starts ch (cstring_at buf off) \<Longrightarrow> off < length buf"
  by (rule cstring_at_inside) (auto simp: starts_def)

text \<open>One call gets on, and stays in the buffer.\<close>

definition goes_on :: "string_address \<Rightarrow> nat \<Rightarrow> string_address \<Rightarrow> bool" where
  "goes_on sa off sa' \<longleftrightarrow> length (sa_string sa') = length (sa_string sa) \<and> (\<exists>k. sa_start sa' = Some k \<and> off < k)"

lemma angle_address_on: "angle_address sa off = (Some a, sa') \<Longrightarrow> goes_on sa off sa'"
proof -
  assume a: "angle_address sa off = (Some a, sa')"
  obtain b st where w: "name_words (sa_string sa) off = (b, st)" by (metis prod.exhaust)
  from a w have "b" by (cases b) (auto simp: angle_address_def)
  with w name_words_place [of "sa_string sa" off st] obtain k where k: "st = Some k" "off \<le> k"
    using name_words_ahead by fastforce
  with a w \<open>b\<close> show ?thesis by (auto simp: angle_address_def goes_on_def Let_def split: if_splits)
qed

lemma next_address_on: "next_address sa from = (Some a, sa') \<Longrightarrow> goes_on sa from sa'"
proof -
  assume a: "next_address sa from = (Some a, sa')"
  then obtain off where o: "skip_from (sa_string sa) from = Some off" by (auto simp: next_address_def split: option.splits)
  let ?s = "cstring_at (sa_string sa) off"
  have le: "from \<le> off" by (rule skip_from_ahead [OF o])
  have up: "goes_on sa x sa' \<Longrightarrow> from \<le> x \<Longrightarrow> goes_on sa from sa'" for x by (auto simp: goes_on_def)
  show ?thesis
  proof (cases "starts (CHR 0x22) ?s \<or> starts (CHR ''<'') ?s")
    case True
    with a o have "angle_address sa off = (Some a, sa')" by (simp add: next_address_def Let_def)
    then show ?thesis using up le angle_address_on by blast
  next
    case False
    with a o obtain e where e: "token_dot_atom ?s = Some e" by (auto simp: next_address_def Let_def split: option.splits)
    show ?thesis
    proof (cases "starts (CHR ''@'') (drop (Suc e) ?s)")
      case True
      with a o False e have "plain_address sa off e = (Some a, sa')" by (simp add: next_address_def Let_def)
      then show ?thesis using le by (auto simp: plain_address_def goes_on_def Let_def split: option.splits if_splits)
    next
      case no: False
      with a o False e obtain off2 where "skip_from (sa_string sa) (off + Suc e) = Some off2" "angle_address sa off2 = (Some a, sa')"
        by (auto simp: next_address_def Let_def split: option.splits)
      with skip_from_ahead [of "sa_string sa" "off + Suc e" off2] le up angle_address_on show ?thesis by fastforce
    qed
  qed
qed

definition unread :: "string_address \<Rightarrow> nat" where
  "unread sa = (case sa_start sa of None \<Rightarrow> length (sa_string sa) + 2 | Some k \<Rightarrow> length (sa_string sa) + 1 - k)"

lemma string_address_parse_less: "string_address_parse sa = (Some a, sa') \<Longrightarrow> unread sa' < unread sa"
proof -
  assume a: "string_address_parse sa = (Some a, sa')"
  show ?thesis
  proof (cases "sa_start sa")
    case None
    with a have "next_address (sa\<lparr>sa_start := Some 0\<rparr>) 0 = (Some a, sa')" by (simp add: string_address_parse_def)
    from next_address_on [OF this] None show ?thesis by (auto simp: goes_on_def unread_def)
  next
    case (Some off)
    let ?sa1 = "if sa_swap sa \<noteq> 0 then sa\<lparr>sa_string := (sa_string sa)[off := sa_swap_char sa], sa_swap := 0\<rparr> else sa"
    have l: "length (sa_string ?sa1) = length (sa_string sa)" by simp
    from a Some obtain comma where c: "skip_from (sa_string ?sa1) off = Some comma"
        "starts (CHR '','') (cstring_at (sa_string ?sa1) comma)" "next_address ?sa1 (comma + 1) = (Some a, sa')"
      by (auto simp: string_address_parse_def Let_def split: option.splits if_splits)
    have "comma < length (sa_string sa)" using starts_inside [OF c(2)] l by simp
    moreover have "off \<le> comma" by (rule skip_from_ahead [OF c(1)])
    ultimately show ?thesis using next_address_on [OF c(3)] Some l by (auto simp: goes_on_def unread_def)
  qed
qed

function string_addresses :: "string_address \<Rightarrow> string list" where
  "string_addresses sa =
     (case string_address_parse sa of
        (None, _) \<Rightarrow> []
      | (Some a, sa') \<Rightarrow> a # string_addresses sa')"
  by auto
termination
  by (relation "measure unread") (auto intro!: string_address_parse_less [OF sym])

declare string_addresses.simps [simp del]

text \<open>\<open>env_string_recipients\<close>: each of them becomes a recipient.\<close>

fun env_recipients :: "envelope \<Rightarrow> string list \<Rightarrow> 'a sys_scheme \<Rightarrow> int \<times> envelope \<times> 'a sys_scheme" where
  "env_recipients env [] s = (0, env, s)"
| "env_recipients env (a # addrs) s =
     (case env_recipient env (Some a) s of
        (rc, env1, s1) \<Rightarrow> if rc \<noteq> 0 then (1, env1, s1) else env_recipients env1 addrs s1)"

definition env_string_recipients :: "envelope \<Rightarrow> string \<Rightarrow> 'a sys_scheme \<Rightarrow> int \<times> envelope \<times> 'a sys_scheme" where
  "env_string_recipients env line s =
     (let (malloc_ok, s1) = outcome s; (strdup_ok, s2) = (if malloc_ok then outcome s1 else (False, s1))
      in case string_address_init malloc_ok strdup_ok line of
           None \<Rightarrow> (1, env, s2)
         | Some sa \<Rightarrow> env_recipients env (string_addresses sa) s2)"

end
