(* ===== verification/ExpandGraph.thy ===== *)
theory ExpandGraph
  imports Envelope Red StabList
begin

section \<open>The graph of an expansion: expand.h, expand.c\<close>

text \<open>
  The addresses of an expansion are nodes; a group has its members as children, and an
  address that came with the message has NULL among its parents.  Nodes are named by the
  order of their creation, so a pointer to a node is a place in a list.  Each walk over the
  graph has a colour of its own (\<open>e_addr_anti_loop\<close>) so that it does not go in circles.
\<close>

subsection \<open>Data\<close>

definition ADDRESS_TYPE_EMAIL :: int where "ADDRESS_TYPE_EMAIL = 1"
definition ADDRESS_TYPE_DEAD :: int where "ADDRESS_TYPE_DEAD = 2"
definition ADDRESS_TYPE_LDAP :: int where "ADDRESS_TYPE_LDAP = 3"

lemmas address_types = ADDRESS_TYPE_EMAIL_def ADDRESS_TYPE_DEAD_def ADDRESS_TYPE_LDAP_def

definition STATUS_LDAP_MEMONLY :: "32 word" where "STATUS_LDAP_MEMONLY = flag_bit 0"
definition STATUS_LDAP_PRIVATE :: "32 word" where "STATUS_LDAP_PRIVATE = flag_bit 1"
definition STATUS_LDAP_SUPRESSOR :: "32 word" where "STATUS_LDAP_SUPRESSOR = flag_bit 2"
definition STATUS_LDAP_SUPRESSED :: "32 word" where "STATUS_LDAP_SUPRESSED = flag_bit 3"
definition STATUS_EMAIL_SENDER :: "32 word" where "STATUS_EMAIL_SENDER = flag_bit 4"
definition STATUS_NO_EMAIL_SENDER :: "32 word" where "STATUS_NO_EMAIL_SENDER = flag_bit 5"
definition STATUS_ROOT_PATH :: "32 word" where "STATUS_ROOT_PATH = flag_bit 6"
definition STATUS_NO_ROOT_PATH :: "32 word" where "STATUS_NO_ROOT_PATH = flag_bit 7"

lemmas status_flags = STATUS_LDAP_MEMONLY_def STATUS_LDAP_PRIVATE_def STATUS_LDAP_SUPRESSOR_def
  STATUS_LDAP_SUPRESSED_def STATUS_EMAIL_SENDER_def STATUS_NO_EMAIL_SENDER_def STATUS_ROOT_PATH_def
  STATUS_NO_ROOT_PATH_def

record exp_addr =
  e_addr_type :: int
  e_addr_terminal :: int
  e_addr_max_level :: int
  e_addr :: string
  e_addr_at :: "nat option"
  e_addr_from :: string
  e_addr_errors :: nat
  e_addr_parent_action :: "action option"
  e_addr_try_ldap :: int
  e_addr_ldap_flags :: "32 word"
  e_addr_anti_loop :: int
  e_addr_dn :: "string option"
  e_addr_owner :: "string option"
  e_addr_ok :: "string stab"
  e_addr_env_moderated :: "envelope option"
  e_addr_env_gmailfwd :: "envelope option"
  e_addr_parents :: "nat option list"
  e_addr_children :: "nat list"

definition zero_addr :: exp_addr where
  "zero_addr = \<lparr>e_addr_type = 0, e_addr_terminal = 0, e_addr_max_level = 0, e_addr = [], e_addr_at = None,
     e_addr_from = [], e_addr_errors = 0, e_addr_parent_action = None, e_addr_try_ldap = 0,
     e_addr_ldap_flags = 0, e_addr_anti_loop = 0, e_addr_dn = None, e_addr_owner = None, e_addr_ok = [],
     e_addr_env_moderated = None, e_addr_env_gmailfwd = None, e_addr_parents = [], e_addr_children = []\<rparr>"

type_synonym nodes = "exp_addr list"

definition upd_node :: "nat \<Rightarrow> (exp_addr \<Rightarrow> exp_addr) \<Rightarrow> nodes \<Rightarrow> nodes" where
  "upd_node i f h = (if i < length h then h[i := f (h ! i)] else h)"

definition mark :: "32 word \<Rightarrow> exp_addr \<Rightarrow> exp_addr" where
  "mark f e = e\<lparr>e_addr_ldap_flags := set_flag (e_addr_ldap_flags e) f\<rparr>"

definition paint :: "int \<Rightarrow> exp_addr \<Rightarrow> exp_addr" where
  "paint color e = e\<lparr>e_addr_anti_loop := color\<rparr>"

definition marked :: "32 word \<Rightarrow> nodes \<Rightarrow> nat \<Rightarrow> bool" where
  "marked f h i \<longleftrightarrow> i < length h \<and> has_flag (e_addr_ldap_flags (h ! i)) f"

definition painted :: "int \<Rightarrow> nodes \<Rightarrow> nat set" where
  "painted color h = {i. i < length h \<and> e_addr_anti_loop (h ! i) = color}"

definition unpainted :: "int \<Rightarrow> nodes \<Rightarrow> nat" where
  "unpainted color h = card {i. i < length h \<and> e_addr_anti_loop (h ! i) \<noteq> color}"

text \<open>Walks keep the shape of the graph and never take paint away.\<close>

definition same_shape :: "nodes \<Rightarrow> nodes \<Rightarrow> bool" where
  "same_shape h h' \<longleftrightarrow> map e_addr_children h' = map e_addr_children h \<and> map e_addr_parents h' = map e_addr_parents h"

lemma same_shape_length: "same_shape h h' \<Longrightarrow> length h' = length h"
  unfolding same_shape_def by (metis length_map)

lemma same_shape_refl [simp]: "same_shape h h"
  by (simp add: same_shape_def)

lemma same_shape_trans: "same_shape h h1 \<Longrightarrow> same_shape h1 h2 \<Longrightarrow> same_shape h h2"
  by (simp add: same_shape_def)

lemma same_shape_nth:
  assumes "same_shape h h'"
  shows "e_addr_children (h' ! i) = e_addr_children (h ! i) \<and> e_addr_parents (h' ! i) = e_addr_parents (h ! i)
    \<or> \<not> i < length h"
proof (cases "i < length h")
  case True
  have "map e_addr_children h' ! i = map e_addr_children h ! i" "map e_addr_parents h' ! i = map e_addr_parents h ! i"
    using assms by (simp_all add: same_shape_def)
  with True same_shape_length [OF assms] show ?thesis by simp
qed simp

lemma upd_node_shape:
  assumes "\<And>e. e_addr_children (f e) = e_addr_children e" "\<And>e. e_addr_parents (f e) = e_addr_parents e"
  shows "same_shape h (upd_node i f h)"
proof (cases "i < length h")
  case True
  then have "(map e_addr_children h)[i := e_addr_children (h ! i)] = map e_addr_children h"
    "(map e_addr_parents h)[i := e_addr_parents (h ! i)] = map e_addr_parents h"
    by (metis length_map list_update_id nth_map)+
  with True assms show ?thesis by (simp add: same_shape_def upd_node_def map_update)
qed (simp add: upd_node_def)

lemma upd_node_length [simp]: "length (upd_node i f h) = length h"
  by (simp add: upd_node_def)

lemma upd_node_nth: "upd_node i f h ! j = (if j = i \<and> i < length h then f (h ! i) else h ! j)"
  by (simp add: upd_node_def nth_list_update)

lemma mark_fields [simp]:
  "e_addr_children (mark f e) = e_addr_children e" "e_addr_parents (mark f e) = e_addr_parents e"
  "e_addr_anti_loop (mark f e) = e_addr_anti_loop e" "e_addr_children (paint k e) = e_addr_children e"
  "e_addr_parents (paint k e) = e_addr_parents e" "e_addr_anti_loop (paint k e) = k"
  "e_addr_ldap_flags (paint k e) = e_addr_ldap_flags e" "e_addr_ldap_flags (mark f e) = set_flag (e_addr_ldap_flags e) f"
  by (simp_all add: mark_def paint_def)

lemma painted_upd_mark [simp]: "painted color (upd_node i (mark f) h) = painted color h"
  by (auto simp: painted_def upd_node_nth)

lemma painted_upd_paint: "i < length h \<Longrightarrow> painted color (upd_node i (paint color) h) = insert i (painted color h)"
  by (auto simp: painted_def upd_node_nth)

lemma marked_upd_paint [simp]: "marked f (upd_node i (paint k) h) j = marked f h j"
  by (auto simp: marked_def upd_node_nth)

lemma unpainted_eq: "unpainted color h = length h - card (painted color h)"
proof -
  have "{i. i < length h \<and> e_addr_anti_loop (h ! i) \<noteq> color} = {..<length h} - painted color h"
    by (auto simp: painted_def)
  moreover have "painted color h \<subseteq> {..<length h}" by (auto simp: painted_def)
  ultimately show ?thesis by (simp add: unpainted_def card_Diff_subset finite_subset)
qed

lemma unpainted_le:
  assumes "length h' = length h" "painted color h \<subseteq> painted color h'"
  shows "unpainted color h' \<le> unpainted color h"
proof -
  have "finite (painted color h')" by (simp add: painted_def)
  from card_mono [OF this assms(2)] assms(1) show ?thesis by (simp add: unpainted_eq)
qed

lemma unpainted_less:
  assumes "length h' = length h" "i \<in> painted color h'" "i \<notin> painted color h" "painted color h \<subseteq> painted color h'"
  shows "unpainted color h' < unpainted color h"
proof -
  have f: "finite (painted color h')" "painted color h \<subset> painted color h'" using assms by (auto simp: painted_def)
  have "card (painted color h') \<le> card {..<length h}" using assms(1) by (intro card_mono) (auto simp: painted_def)
  with psubset_card_mono [OF f] assms(1) show ?thesis by (simp add: unpainted_eq)
qed

lemma unpainted_mark [simp]: "unpainted color (upd_node i (mark f) h) = unpainted color h"
  unfolding unpainted_def by (rule arg_cong [where f = card]) (auto simp: upd_node_nth)

lemma unpainted_paint:
  "i < length h \<Longrightarrow> e_addr_anti_loop (h ! i) \<noteq> color \<Longrightarrow> unpainted color (upd_node i (paint color) h) < unpainted color h"
  using unpainted_less [of "upd_node i (paint color) h" h i color] by (simp add: painted_upd_paint subset_insertI) (simp add: painted_def)

subsection \<open>Suppression\<close>

text \<open>Every node below the list is suppressed; that it is not the sender is asserted.\<close>

function supress_addrs :: "int \<Rightarrow> nat list \<Rightarrow> nodes \<Rightarrow> nodes run" where
  "supress_addrs color [] h = Inr h"
| "supress_addrs color (i # el) h =
     (if \<not> i < length h then Inl NullDeref
      else if has_flag (e_addr_ldap_flags (h ! i)) STATUS_EMAIL_SENDER then Inl AssertFail
      else if e_addr_anti_loop (h ! i) = color then supress_addrs color el h
      else
        (let h1 = upd_node i (paint color) h
         in if has_flag (e_addr_ldap_flags (h ! i)) STATUS_LDAP_SUPRESSED then supress_addrs color el h1
            else and_then (supress_addrs color (e_addr_children (h ! i)) (upd_node i (mark STATUS_LDAP_SUPRESSED) h1))
              (\<lambda>h2. supress_addrs color el h2)))"
  by pat_completeness auto

lemma supress_paint:
  assumes "supress_addrs_dom (color, el, h)" "supress_addrs color el h = Inr h'"
  shows "length h' = length h \<and> painted color h \<subseteq> painted color h'"
  using assms
proof (induction color el h arbitrary: h' rule: supress_addrs.pinduct)
  case (1 color h)
  then show ?case by (simp add: supress_addrs.psimps)
next
  case (2 color i el h)
  note eq = supress_addrs.psimps(2) [OF 2(1)]
  have i: "i < length h" using 2(6) by (auto simp: eq split: if_splits)
  have p: "painted color h \<subseteq> painted color (upd_node i (paint color) h)" using painted_upd_paint [OF i] by auto
  have n: "\<not> \<not> i < length h" "\<not> has_flag (e_addr_ldap_flags (h ! i)) STATUS_EMAIL_SENDER"
    using 2(6) by (auto simp: eq split: if_splits)
  consider (seen) "e_addr_anti_loop (h ! i) = color"
    | (old) "e_addr_anti_loop (h ! i) \<noteq> color" "has_flag (e_addr_ldap_flags (h ! i)) STATUS_LDAP_SUPRESSED"
    | (new) "e_addr_anti_loop (h ! i) \<noteq> color" "\<not> has_flag (e_addr_ldap_flags (h ! i)) STATUS_LDAP_SUPRESSED" by blast
  then show ?case
  proof cases
    case seen
    with 2(6) n i show ?thesis by (intro 2(2)) (simp_all add: eq)
  next
    case old
    with 2(6) n i have "supress_addrs color el (upd_node i (paint color) h) = Inr h'" by (simp add: eq)
    from 2(3) [OF n old(1) refl old(2) this] p show ?thesis by auto
  next
    case new
    with 2(6) n i obtain h2 where h2: "supress_addrs color (e_addr_children (h ! i))
          (upd_node i (mark STATUS_LDAP_SUPRESSED) (upd_node i (paint color) h)) = Inr h2"
        "supress_addrs color el h2 = Inr h'" by (auto simp: eq Let_def)
    from 2(4) [OF n new(1) refl new(2) h2(1)] 2(5) [OF n new(1) refl new(2) h2] p
    show ?thesis by auto
  qed
qed

termination supress_addrs
proof (relation "measures [\<lambda>(color, el, h). unpainted color h, \<lambda>(color, el, h). length el]", goal_cases)
  case (4 color i el h h1)
  then show ?case by (auto simp: unpainted_paint)
next
  case (5 color i el h h1 h2)
  from supress_paint [OF 5(7) 5(6)] have "unpainted color h2 \<le> unpainted color h1"
    using unpainted_le [of h2 "upd_node i (mark STATUS_LDAP_SUPRESSED) h1" color] by simp
  also have "\<dots> < unpainted color h" using 5 by (auto simp: unpainted_paint)
  finally show ?case by simp
qed (auto simp: unpainted_paint)

subsection \<open>Members-only groups: is the sender below?\<close>

text \<open>What a walk finds out about a node is kept in its flags, for later walks too.\<close>

function sender_is_child :: "int \<Rightarrow> nat list \<Rightarrow> nodes \<Rightarrow> (bool \<times> nodes) run" where
  "sender_is_child color [] h = Inr (False, h)"
| "sender_is_child color (i # el) h =
     (if \<not> i < length h then Inl NullDeref
      else if e_addr_anti_loop (h ! i) = color then sender_is_child color el h
      else
        (let h1 = upd_node i (paint color) h
         in if has_flag (e_addr_ldap_flags (h ! i)) STATUS_EMAIL_SENDER then Inr (True, h1)
            else if has_flag (e_addr_ldap_flags (h ! i)) STATUS_NO_EMAIL_SENDER then sender_is_child color el h1
            else and_then (sender_is_child color (e_addr_children (h ! i)) h1) (\<lambda>(b, h2).
              if b then Inr (True, upd_node i (mark STATUS_EMAIL_SENDER) h2)
              else sender_is_child color el (upd_node i (mark STATUS_NO_EMAIL_SENDER) h2))))"
  by pat_completeness auto

lemma sender_paint:
  assumes "sender_is_child_dom (color, el, h)" "sender_is_child color el h = Inr (b, h')"
  shows "length h' = length h \<and> painted color h \<subseteq> painted color h'"
  using assms
proof (induction color el h arbitrary: b h' rule: sender_is_child.pinduct)
  case (1 color h)
  then show ?case by (simp add: sender_is_child.psimps)
next
  case (2 color i el h)
  note eq = sender_is_child.psimps(2) [OF 2(1)]
  have i: "i < length h" and n: "\<not> \<not> i < length h" using 2(6) by (auto simp: eq split: if_splits)
  have p: "painted color h \<subseteq> painted color (upd_node i (paint color) h)" using painted_upd_paint [OF i] by auto
  let ?f = "e_addr_ldap_flags (h ! i)"
  consider (seen) "e_addr_anti_loop (h ! i) = color"
    | (found) "e_addr_anti_loop (h ! i) \<noteq> color" "has_flag ?f STATUS_EMAIL_SENDER"
    | (absent) "e_addr_anti_loop (h ! i) \<noteq> color" "\<not> has_flag ?f STATUS_EMAIL_SENDER" "has_flag ?f STATUS_NO_EMAIL_SENDER"
    | (new) "e_addr_anti_loop (h ! i) \<noteq> color" "\<not> has_flag ?f STATUS_EMAIL_SENDER" "\<not> has_flag ?f STATUS_NO_EMAIL_SENDER"
    by blast
  then show ?case
  proof cases
    case seen
    with 2(6) i show ?thesis by (intro 2(2)) (simp_all add: eq)
  next
    case found
    with 2(6) i p show ?thesis by (auto simp: eq)
  next
    case absent
    with 2(6) i have "sender_is_child color el (upd_node i (paint color) h) = Inr (b, h')" by (simp add: eq)
    from 2(3) [OF n absent(1) refl absent(2,3) this] p show ?thesis by auto
  next
    case new
    with 2(6) i obtain b2 h2 where w: "sender_is_child color (e_addr_children (h ! i)) (upd_node i (paint color) h) = Inr (b2, h2)"
      and r: "(if b2 then Inr (True, upd_node i (mark STATUS_EMAIL_SENDER) h2)
           else sender_is_child color el (upd_node i (mark STATUS_NO_EMAIL_SENDER) h2)) = Inr (b, h')"
      by (auto simp: eq Let_def)
    note l = 2(4) [OF n new(1) refl new(2,3)]
    show ?thesis
    proof (cases b2)
      case True
      with r l [OF w] p show ?thesis by auto
    next
      case False
      with r have "sender_is_child color el (upd_node i (mark STATUS_NO_EMAIL_SENDER) h2) = Inr (b, h')" by simp
      from 2(5) [OF n new(1) refl new(2,3) w refl _ this] False l [OF w] p show ?thesis by auto
    qed
  qed
qed

termination sender_is_child
proof (relation "measures [\<lambda>(color, el, h). unpainted color h, \<lambda>(color, el, h). length el]", goal_cases)
  case (5 color i el h h1 r b h2)
  from sender_paint [of color "e_addr_children (h ! i)" h1 b h2] 5
  have "unpainted color h2 \<le> unpainted color h1" by (auto intro: unpainted_le)
  also have "\<dots> < unpainted color h" using 5 by (auto simp: unpainted_paint)
  finally show ?case by simp
qed (auto simp: unpainted_paint)

subsection \<open>Is there a way up that is not blocked?\<close>

text \<open>
  \<open>unblocked_path_to_root\<close> looks at a node and then at its parents; the loop over the
  parents and the calls for each of them are one function over the list.
\<close>

function any_path :: "int \<Rightarrow> nat option list \<Rightarrow> nodes \<Rightarrow> (bool \<times> nodes) run" where
  "any_path color [] h = Inr (False, h)"
| "any_path color (None # el) h = Inr (True, h)"
| "any_path color (Some i # el) h =
     (if \<not> i < length h then Inl NullDeref
      else if e_addr_anti_loop (h ! i) = color then any_path color el h
      else
        (let h1 = upd_node i (paint color) h; flags = e_addr_ldap_flags (h ! i)
         in if has_flag flags STATUS_LDAP_MEMONLY \<or> has_flag flags STATUS_NO_ROOT_PATH then any_path color el h1
            else if has_flag flags STATUS_ROOT_PATH then Inr (True, h1)
            else and_then (any_path color (e_addr_parents (h ! i)) h1) (\<lambda>(b, h2).
              if b then Inr (True, upd_node i (mark STATUS_ROOT_PATH) h2)
              else any_path color el (upd_node i (mark STATUS_NO_ROOT_PATH) h2))))"
  by pat_completeness auto

lemma path_paint:
  assumes "any_path_dom (color, el, h)" "any_path color el h = Inr (b, h')"
  shows "length h' = length h \<and> painted color h \<subseteq> painted color h'"
  using assms
proof (induction color el h arbitrary: b h' rule: any_path.pinduct)
  case (3 color i el h)
  note eq = any_path.psimps(3) [OF 3(1)]
  have i: "i < length h" and n: "\<not> \<not> i < length h" using 3(6) by (auto simp: eq split: if_splits)
  have p: "painted color h \<subseteq> painted color (upd_node i (paint color) h)" using painted_upd_paint [OF i] by auto
  let ?blocked = "has_flag (e_addr_ldap_flags (h ! i)) STATUS_LDAP_MEMONLY \<or> has_flag (e_addr_ldap_flags (h ! i)) STATUS_NO_ROOT_PATH"
  let ?root = "has_flag (e_addr_ldap_flags (h ! i)) STATUS_ROOT_PATH"
  consider (seen) "e_addr_anti_loop (h ! i) = color"
    | (blocked) "e_addr_anti_loop (h ! i) \<noteq> color" "?blocked"
    | (root) "e_addr_anti_loop (h ! i) \<noteq> color" "\<not> ?blocked" "?root"
    | (new) "e_addr_anti_loop (h ! i) \<noteq> color" "\<not> ?blocked" "\<not> ?root" by blast
  then show ?case
  proof cases
    case seen
    with 3(6) i show ?thesis by (intro 3(2)) (simp_all add: eq)
  next
    case blocked
    with 3(6) i have "any_path color el (upd_node i (paint color) h) = Inr (b, h')" by (auto simp: eq Let_def)
    from 3(3) [OF n blocked(1) refl refl blocked(2) this] p show ?thesis by auto
  next
    case root
    with 3(6) i p show ?thesis by (auto simp: eq)
  next
    case new
    with 3(6) i obtain b2 h2 where w: "any_path color (e_addr_parents (h ! i)) (upd_node i (paint color) h) = Inr (b2, h2)"
      and r: "(if b2 then Inr (True, upd_node i (mark STATUS_ROOT_PATH) h2)
           else any_path color el (upd_node i (mark STATUS_NO_ROOT_PATH) h2)) = Inr (b, h')"
      by (auto simp: eq Let_def)
    note l = 3(4) [OF n new(1) refl refl new(2,3) w]
    show ?thesis
    proof (cases b2)
      case True
      with r l p show ?thesis by auto
    next
      case False
      with r have "any_path color el (upd_node i (mark STATUS_NO_ROOT_PATH) h2) = Inr (b, h')" by simp
      from 3(5) [OF n new(1) refl refl new(2,3) w refl _ this] False l p show ?thesis by auto
    qed
  qed
qed (simp_all add: any_path.psimps)

termination any_path
proof (relation "measures [\<lambda>(color, el, h). unpainted color h, \<lambda>(color, el, h). length el]", goal_cases)
  case (5 color i el h h1 flags r b h2)
  from path_paint [of color "e_addr_parents (h ! i)" h1 b h2] 5
  have "unpainted color h2 \<le> unpainted color h1" by (auto intro: unpainted_le)
  also have "\<dots> < unpainted color h" using 5 by (auto simp: unpainted_paint)
  finally show ?case by simp
qed (auto simp: unpainted_paint)

definition unblocked_path_to_root :: "int \<Rightarrow> nat \<Rightarrow> nodes \<Rightarrow> (bool \<times> nodes) run" where
  "unblocked_path_to_root color i h = any_path color [Some i] h"

declare supress_addrs.simps(2) [simp del] sender_is_child.simps(2) [simp del] any_path.simps(3) [simp del]

subsection \<open>What suppression reaches\<close>

definition kids :: "nodes \<Rightarrow> (nat \<times> nat) set" where
  "kids h = {(i, j). i < length h \<and> j \<in> set (e_addr_children (h ! i))}"

text \<open>The nodes in a list and all below them.\<close>

definition below :: "nodes \<Rightarrow> nat list \<Rightarrow> nat set" where
  "below h el = (kids h)\<^sup>* `` set el"

definition supressed :: "nodes \<Rightarrow> nat set" where
  "supressed h = Collect (marked STATUS_LDAP_SUPRESSED h)"

lemma kids_shape:
  assumes "same_shape h h'"
  shows "kids h' = kids h"
proof -
  have "e_addr_children (h' ! i) = e_addr_children (h ! i)" if "i < length h" for i
    using same_shape_nth [OF assms, of i] that by simp
  with same_shape_length [OF assms] show ?thesis by (auto simp: kids_def)
qed

lemma below_shape: "same_shape h h' \<Longrightarrow> below h' el = below h el"
  by (simp add: below_def kids_shape)

lemma below_Cons: "i < length h \<Longrightarrow> below h (i # el) = insert i (below h (e_addr_children (h ! i)) \<union> below h el)"
  unfolding below_def by (auto simp: kids_def elim: converse_rtranclE intro: converse_rtrancl_into_rtrancl)

lemma below_start: "set el \<subseteq> below h el"
  by (auto simp: below_def)

lemma has_status_flags [simp]:
  "has_flag (set_flag w STATUS_LDAP_SUPRESSED) STATUS_LDAP_SUPRESSED"
  "has_flag (set_flag w STATUS_LDAP_SUPRESSED) STATUS_EMAIL_SENDER = has_flag w STATUS_EMAIL_SENDER"
  "has_flag (set_flag w STATUS_EMAIL_SENDER) STATUS_EMAIL_SENDER"
  "has_flag (set_flag w STATUS_NO_EMAIL_SENDER) STATUS_EMAIL_SENDER = has_flag w STATUS_EMAIL_SENDER"
  "has_flag (set_flag w STATUS_NO_EMAIL_SENDER) STATUS_NO_EMAIL_SENDER"
  "has_flag (set_flag w STATUS_EMAIL_SENDER) STATUS_NO_EMAIL_SENDER = has_flag w STATUS_NO_EMAIL_SENDER"
  by (simp_all add: status_flags set_flag_def bit_or_iff bit_flag)

lemma supressed_paint [simp]: "supressed (upd_node i (paint k) h) = supressed h"
  unfolding supressed_def by (rule Collect_cong) simp

lemma supressed_mark: "i < length h \<Longrightarrow> supressed (upd_node i (mark STATUS_LDAP_SUPRESSED) h) = insert i (supressed h)"
  by (auto simp: supressed_def marked_def upd_node_nth)

lemma upd_shape [simp]: "same_shape h (upd_node i (paint k) h)" "same_shape h (upd_node i (mark f) h)"
  by (simp_all add: upd_node_shape)

definition sealed :: "nat set \<Rightarrow> nodes \<Rightarrow> bool" where
  "sealed G h \<longleftrightarrow> (\<forall>i\<in>supressed h - G. set (e_addr_children (h ! i)) \<subseteq> supressed h)"

lemma supress_walk:
  assumes "supress_addrs color el h = Inr h'" "painted color h \<subseteq> supressed h" "sealed G h"
  shows "same_shape h h' \<and> supressed h \<union> set el \<subseteq> supressed h' \<and> painted color h' \<subseteq> supressed h' \<and>
    sealed G h' \<and> supressed h' \<subseteq> supressed h \<union> below h el"
  using assms
proof (induction color el h arbitrary: G h' rule: supress_addrs.induct)
  case (1 color h)
  then show ?case by simp
next
  case (2 color i el h)
  note eq = supress_addrs.simps(2) [of color i el h]
  have i: "i < length h" and n: "\<not> \<not> i < length h" "\<not> has_flag (e_addr_ldap_flags (h ! i)) STATUS_EMAIL_SENDER"
    using 2(5) by (auto simp: eq split: if_splits)
  let ?h1 = "upd_node i (paint color) h"
  have p: "painted color ?h1 = insert i (painted color h)" by (rule painted_upd_paint [OF i])
  have sp: "sealed G ?h1" using 2(7) i by (auto simp: sealed_def upd_node_nth)
  consider (seen) "e_addr_anti_loop (h ! i) = color"
    | (old) "e_addr_anti_loop (h ! i) \<noteq> color" "has_flag (e_addr_ldap_flags (h ! i)) STATUS_LDAP_SUPRESSED"
    | (new) "e_addr_anti_loop (h ! i) \<noteq> color" "\<not> has_flag (e_addr_ldap_flags (h ! i)) STATUS_LDAP_SUPRESSED" by blast
  then show ?case
  proof cases
    case seen
    then have "i \<in> supressed h" using i 2(6) by (auto simp: painted_def)
    moreover from seen 2(5) n i have "supress_addrs color el h = Inr h'" by (simp add: eq)
    ultimately show ?thesis using 2(1) [OF n seen _ 2(6,7)] below_Cons [OF i, of el] by auto
  next
    case old
    then have s: "i \<in> supressed h" using i by (simp add: supressed_def marked_def)
    from old 2(5) n i have "supress_addrs color el ?h1 = Inr h'" by (simp add: eq)
    note w = 2(2) [OF n old(1) refl old(2) this _ sp]
    have "painted color ?h1 \<subseteq> supressed ?h1" using p s 2(6) by auto
    with w have "same_shape ?h1 h'" and r: "supressed h \<union> set el \<subseteq> supressed h'" "painted color h' \<subseteq> supressed h'"
        "sealed G h'" "supressed h' \<subseteq> supressed h \<union> below ?h1 el" by auto
    from same_shape_trans [OF upd_shape(1) this(1)] r s below_Cons [OF i, of el] below_shape [OF upd_shape(1), where el = el]
    show ?thesis by auto
  next
    case new
    let ?m = "upd_node i (mark STATUS_LDAP_SUPRESSED) ?h1"
    from new 2(5) n i obtain h2 where h2: "supress_addrs color (e_addr_children (h ! i)) ?m = Inr h2"
        "supress_addrs color el h2 = Inr h'" by (auto simp: eq Let_def)
    have sh: "same_shape h ?m" by (rule same_shape_trans [OF upd_shape(1) upd_shape(2)])
    have sm: "supressed ?m = insert i (supressed h)" using supressed_mark [of i ?h1] i by simp
    have ch: "e_addr_children (?m ! j) = e_addr_children (h ! j)" for j by (simp add: upd_node_nth)
    have "sealed (insert i G) ?m" using 2(7) unfolding sealed_def sm ch by auto
    from 2(3) [OF n new(1) refl new(2) h2(1) _ this] p sm 2(6)
    have w: "same_shape ?m h2" "supressed ?m \<union> set (e_addr_children (h ! i)) \<subseteq> supressed h2"
        "painted color h2 \<subseteq> supressed h2" "sealed (insert i G) h2"
        "supressed h2 \<subseteq> supressed ?m \<union> below h (e_addr_children (h ! i))"
      using below_shape [OF sh] by auto
    have s2: "same_shape h h2" by (rule same_shape_trans [OF sh w(1)])
    have "set (e_addr_children (h2 ! k)) \<subseteq> supressed h2" if "k \<in> supressed h2 - G" for k
      using that w(2,4) same_shape_nth [OF s2, of i] i by (cases "k = i") (auto simp: sealed_def)
    then have "sealed G h2" by (simp add: sealed_def)
    from 2(4) [OF n new(1) refl new(2) h2 w(3) this] w(2,5) s2 below_shape [OF s2, where el = el] sm below_Cons [OF i, of el]
    show ?thesis using same_shape_trans [OF s2] by auto
  qed
qed

text \<open>From a sealed graph on, suppression reaches just what is below.\<close>

lemma sealed_below: "sealed {} h \<Longrightarrow> set el \<subseteq> supressed h \<Longrightarrow> below h el \<subseteq> supressed h"
proof
  fix j
  assume s: "sealed {} h" "set el \<subseteq> supressed h" and "j \<in> below h el"
  then obtain i where "i \<in> set el" "(i, j) \<in> (kids h)\<^sup>*" by (auto simp: below_def)
  from this(2,1) s show "j \<in> supressed h"
    by (induction rule: rtrancl_induct) (auto simp: kids_def sealed_def)
qed

subsection \<open>What the search for the sender finds\<close>

text \<open>No painted node is the sender, and outside the grey set their children are painted too.\<close>

definition explored :: "int \<Rightarrow> nat set \<Rightarrow> nodes \<Rightarrow> bool" where
  "explored color G h \<longleftrightarrow>
     (\<forall>i\<in>painted color h. \<not> marked STATUS_EMAIL_SENDER h i) \<and>
     (\<forall>i\<in>painted color h - G. set (e_addr_children (h ! i)) \<subseteq> painted color h) \<and>
     (\<forall>i. marked STATUS_NO_EMAIL_SENDER h i \<longrightarrow> i \<in> painted color h)"

lemma marked_mark_sender [simp]:
  "marked STATUS_EMAIL_SENDER (upd_node i (mark STATUS_NO_EMAIL_SENDER) h) j = marked STATUS_EMAIL_SENDER h j"
  by (auto simp: marked_def upd_node_nth)

lemma marked_mark_no:
  "marked STATUS_NO_EMAIL_SENDER (upd_node i (mark STATUS_NO_EMAIL_SENDER) h) j \<longleftrightarrow>
     (j = i \<and> i < length h) \<or> marked STATUS_NO_EMAIL_SENDER h j"
  by (auto simp: marked_def upd_node_nth)

lemma sender_walk:
  assumes "sender_is_child color el h = Inr (b, h')" "explored color G h"
  shows "same_shape h h' \<and>
    (if b then \<exists>j\<in>below h el. marked STATUS_EMAIL_SENDER h j
     else explored color G h' \<and> set el \<union> painted color h \<subseteq> painted color h' \<and>
       (\<forall>j. marked STATUS_EMAIL_SENDER h' j = marked STATUS_EMAIL_SENDER h j))"
  using assms
proof (induction color el h arbitrary: G b h' rule: sender_is_child.induct)
  case (1 color h)
  then show ?case by auto
next
  case (2 color i el h)
  note eq = sender_is_child.simps(2) [of color i el h]
  have i: "i < length h" and n: "\<not> \<not> i < length h" using 2(5) by (auto simp: eq split: if_splits)
  let ?h1 = "upd_node i (paint color) h" and ?f = "e_addr_ldap_flags (h ! i)"
  have p: "painted color ?h1 = insert i (painted color h)" by (rule painted_upd_paint [OF i])
  have ch: "e_addr_children (?h1 ! j) = e_addr_children (h ! j)" for j by (simp add: upd_node_nth)
  note bel = below_Cons [OF i, of el]
  consider (seen) "e_addr_anti_loop (h ! i) = color"
    | (found) "e_addr_anti_loop (h ! i) \<noteq> color" "has_flag ?f STATUS_EMAIL_SENDER"
    | (absent) "e_addr_anti_loop (h ! i) \<noteq> color" "\<not> has_flag ?f STATUS_EMAIL_SENDER" "has_flag ?f STATUS_NO_EMAIL_SENDER"
    | (new) "e_addr_anti_loop (h ! i) \<noteq> color" "\<not> has_flag ?f STATUS_EMAIL_SENDER" "\<not> has_flag ?f STATUS_NO_EMAIL_SENDER"
    by blast
  then show ?case
  proof cases
    case seen
    then have "i \<in> painted color h" using i by (simp add: painted_def)
    moreover from seen 2(5) i have "sender_is_child color el h = Inr (b, h')" by (simp add: eq)
    ultimately show ?thesis using 2(1) [OF n seen _ 2(6)] bel by (auto split: if_splits)
  next
    case found
    with 2(5) i have "b" "h' = ?h1" by (auto simp: eq)
    moreover have "marked STATUS_EMAIL_SENDER h i" using found i by (simp add: marked_def)
    ultimately show ?thesis using bel by auto
  next
    case absent
    then have "i \<in> painted color h" using 2(6) i by (auto simp: explored_def marked_def)
    with absent(1) show ?thesis by (simp add: painted_def)
  next
    case new
    then have np: "i \<notin> painted color h" by (simp add: painted_def)
    from new 2(5) i obtain b2 h2 where w: "sender_is_child color (e_addr_children (h ! i)) ?h1 = Inr (b2, h2)"
      and r: "(if b2 then Inr (True, upd_node i (mark STATUS_EMAIL_SENDER) h2)
           else sender_is_child color el (upd_node i (mark STATUS_NO_EMAIL_SENDER) h2)) = Inr (b, h')"
      by (auto simp: eq Let_def)
    have "explored color (insert i G) ?h1"
      using 2(6) new(2) unfolding explored_def p ch by (auto simp: marked_def upd_node_nth)
    note l = 2(3) [OF n new(1) refl new(2,3) w this]
    show ?thesis
    proof (cases b2)
      case True
      with r have h': "b" "h' = upd_node i (mark STATUS_EMAIL_SENDER) h2" by auto
      from l True have s2: "same_shape ?h1 h2" and "\<exists>j\<in>below ?h1 (e_addr_children (h ! i)). marked STATUS_EMAIL_SENDER ?h1 j" by auto
      then show ?thesis
        using h' bel below_shape [OF upd_shape(1) [of h i color], where el = "e_addr_children (h ! i)"]
          same_shape_trans [OF same_shape_trans [OF upd_shape(1) s2] upd_shape(2)] by auto
    next
      case False
      with r have r': "sender_is_child color el (upd_node i (mark STATUS_NO_EMAIL_SENDER) h2) = Inr (b, h')" by simp
      let ?h3 = "upd_node i (mark STATUS_NO_EMAIL_SENDER) h2"
      from l False have s2: "same_shape ?h1 h2" and e2: "explored color (insert i G) h2"
        and p2: "set (e_addr_children (h ! i)) \<union> painted color ?h1 \<subseteq> painted color h2"
        and m2: "\<And>j. marked STATUS_EMAIL_SENDER h2 j = marked STATUS_EMAIL_SENDER h j" by auto
      have s3: "same_shape h ?h3" by (rule same_shape_trans [OF same_shape_trans [OF upd_shape(1) s2] upd_shape(2)])
      have "e_addr_children (h2 ! i) = e_addr_children (h ! i)"
        using same_shape_nth [OF same_shape_trans [OF upd_shape(1) s2], of i] i by auto
      then have "set (e_addr_children (h2 ! k)) \<subseteq> painted color h2" if "k \<in> painted color h2 - G" for k
        using that p2 e2 by (cases "k = i") (auto simp: explored_def)
      moreover have "e_addr_children (?h3 ! k) = e_addr_children (h2 ! k)" for k by (simp add: upd_node_nth)
      ultimately have "explored color G ?h3"
        using e2 p2 p unfolding explored_def by (auto simp: marked_mark_no)
      from 2(4) [OF n new(1) refl new(2,3) w refl _ r' this] False s3 p2 p m2 bel below_shape [OF s3, where el = el]
      show ?thesis using same_shape_trans [OF s3] by (cases b) (auto intro: subsetD)
    qed
  qed
qed

text \<open>Pointers to nodes are good.\<close>

definition links_ok :: "nodes \<Rightarrow> bool" where
  "links_ok h \<longleftrightarrow> (\<forall>(i, j)\<in>kids h. j < length h)"

lemma links_ok_shape: "same_shape h h' \<Longrightarrow> links_ok h' = links_ok h"
  using kids_shape [of h h'] same_shape_length [of h h'] by (simp add: links_ok_def)

lemma links_ok_nth: "links_ok h \<Longrightarrow> i < length h \<Longrightarrow> \<forall>j\<in>set (e_addr_children (h ! i)). j < length h"
  by (auto simp: links_ok_def kids_def)

lemma sender_total:
  "links_ok h \<Longrightarrow> \<forall>i\<in>set el. i < length h \<Longrightarrow> \<exists>b h'. sender_is_child color el h = Inr (b, h') \<and> same_shape h h'"
proof (induction color el h rule: sender_is_child.induct)
  case (1 color h)
  then show ?case by auto
next
  case (2 color i el h)
  note eq = sender_is_child.simps(2) [of color i el h]
  have i: "i < length h" and n: "\<not> \<not> i < length h" and el: "\<forall>i\<in>set el. i < length h" using 2(6) by auto
  let ?h1 = "upd_node i (paint color) h" and ?f = "e_addr_ldap_flags (h ! i)"
  have s1: "same_shape h ?h1" by simp
  have l1: "links_ok ?h1" using links_ok_shape [OF s1] 2(5) by simp
  show ?case
  proof (cases "e_addr_anti_loop (h ! i) = color \<or> has_flag ?f STATUS_EMAIL_SENDER \<or> has_flag ?f STATUS_NO_EMAIL_SENDER")
    case True
    then show ?thesis using 2(1) [OF n _ 2(5) el] 2(2) [OF n _ refl _ _ l1] el i s1 same_shape_trans [OF s1]
      by (auto simp: eq Let_def)
  next
    case False
    then have new: "e_addr_anti_loop (h ! i) \<noteq> color" "\<not> has_flag ?f STATUS_EMAIL_SENDER" "\<not> has_flag ?f STATUS_NO_EMAIL_SENDER"
      by auto
    from 2(3) [OF n new(1) refl new(2,3) l1] links_ok_nth [OF 2(5) i]
    obtain b2 h2 where w: "sender_is_child color (e_addr_children (h ! i)) ?h1 = Inr (b2, h2)" "same_shape ?h1 h2" by auto
    let ?h3 = "upd_node i (mark STATUS_NO_EMAIL_SENDER) h2"
    have s2: "same_shape h h2" by (rule same_shape_trans [OF s1 w(2)])
    have s3: "same_shape h ?h3" by (rule same_shape_trans [OF s2 upd_shape(2)])
    show ?thesis
    proof (cases b2)
      case True
      with w new i show ?thesis using same_shape_trans [OF s2 upd_shape(2)] by (auto simp: eq Let_def)
    next
      case False
      from 2(4) [OF n new(1) refl new(2,3) w(1) refl False] links_ok_shape [OF s3] 2(5) el same_shape_length [OF s3]
      obtain b h' where "sender_is_child color el ?h3 = Inr (b, h')" "same_shape ?h3 h'" by auto
      with False w new i show ?thesis using same_shape_trans [OF s3] by (auto simp: eq Let_def)
    qed
  qed
qed

text \<open>
  A first walk with a colour of its own is exact: it finds the sender just when one of the
  nodes below is marked as the sender.
\<close>

lemma sender_is_child_exact:
  assumes "links_ok h" "\<forall>i\<in>set el. i < length h" "painted color h = {}" "\<forall>i. \<not> marked STATUS_NO_EMAIL_SENDER h i"
  shows "\<exists>h'. sender_is_child color el h = Inr (\<exists>j\<in>below h el. marked STATUS_EMAIL_SENDER h j, h')"
proof -
  from sender_total [OF assms(1,2)] obtain b h' where r: "sender_is_child color el h = Inr (b, h')" by blast
  have "explored color {} h" using assms(3,4) by (simp add: explored_def)
  note w = sender_walk [OF r this]
  show ?thesis
  proof (cases b)
    case True
    with r w show ?thesis by auto
  next
    case False
    with w have e: "explored color {} h'" "set el \<subseteq> painted color h'" "same_shape h h'"
      and m: "\<And>j. marked STATUS_EMAIL_SENDER h' j = marked STATUS_EMAIL_SENDER h j" by auto
    have "j \<in> painted color h'" if "j \<in> below h el" for j
    proof -
      from that obtain i where "i \<in> set el" "(i, j) \<in> (kids h')\<^sup>*" using kids_shape [OF e(3)] by (auto simp: below_def)
      from this(2,1) e(1,2) show ?thesis
        by (induction rule: rtrancl_induct) (auto simp: kids_def explored_def)
    qed
    then have "\<not> (\<exists>j\<in>below h el. marked STATUS_EMAIL_SENDER h j)" using e(1) m by (auto simp: explored_def)
    with r False show ?thesis by auto
  qed
qed

lemma supress_frame:
  "supress_addrs color el h = Inr h' \<Longrightarrow>
   same_shape h h' \<and> (\<forall>j. marked STATUS_EMAIL_SENDER h' j = marked STATUS_EMAIL_SENDER h j)"
proof (induction color el h arbitrary: h' rule: supress_addrs.induct)
  case (2 color i el h)
  note eq = supress_addrs.simps(2) [of color i el h]
  let ?h1 = "upd_node i (paint color) h" and ?m = "upd_node i (mark STATUS_LDAP_SUPRESSED) (upd_node i (paint color) h)"
  have n: "\<not> \<not> i < length h" "\<not> has_flag (e_addr_ldap_flags (h ! i)) STATUS_EMAIL_SENDER"
    using 2(5) by (auto simp: eq split: if_splits)
  have m: "marked STATUS_EMAIL_SENDER ?m j = marked STATUS_EMAIL_SENDER h j" for j
    by (auto simp: marked_def upd_node_nth)
  have sm: "same_shape h ?m" by (rule same_shape_trans [OF upd_shape(1) upd_shape(2)])
  show ?case
  proof (cases "e_addr_anti_loop (h ! i) = color")
    case True
    with 2(1) [OF n True] 2(5) n show ?thesis by (simp add: eq)
  next
    case False
    show ?thesis
    proof (cases "has_flag (e_addr_ldap_flags (h ! i)) STATUS_LDAP_SUPRESSED")
      case True
      with 2(2) [OF n False refl True] 2(5) n False same_shape_trans [OF upd_shape(1)] show ?thesis by (auto simp: eq)
    next
      case new: False
      with 2(5) n False obtain h2 where h2: "supress_addrs color (e_addr_children (h ! i)) ?m = Inr h2"
        "supress_addrs color el h2 = Inr h'" by (auto simp: eq Let_def)
      from 2(3) [OF n False refl new h2(1)] 2(4) [OF n False refl new h2] m same_shape_trans [OF same_shape_trans [OF sm]]
      show ?thesis by auto
    qed
  qed
qed simp

lemma supress_total:
  "links_ok h \<Longrightarrow> \<forall>i\<in>set el. i < length h \<Longrightarrow> \<forall>j\<in>below h el. \<not> marked STATUS_EMAIL_SENDER h j \<Longrightarrow>
   \<exists>h'. supress_addrs color el h = Inr h'"
proof (induction color el h rule: supress_addrs.induct)
  case (1 color h)
  then show ?case by auto
next
  case (2 color i el h)
  note eq = supress_addrs.simps(2) [of color i el h]
  have i: "i < length h" and n: "\<not> \<not> i < length h" and el: "\<forall>i\<in>set el. i < length h" using 2(6) by auto
  note bel = below_Cons [OF i, of el]
  have n2: "\<not> has_flag (e_addr_ldap_flags (h ! i)) STATUS_EMAIL_SENDER"
    using 2(7) i bel by (auto simp: marked_def)
  let ?h1 = "upd_node i (paint color) h" and ?m = "upd_node i (mark STATUS_LDAP_SUPRESSED) (upd_node i (paint color) h)"
  have m: "marked STATUS_EMAIL_SENDER ?m j = marked STATUS_EMAIL_SENDER h j" for j
    by (auto simp: marked_def upd_node_nth)
  have sm: "same_shape h ?m" by (rule same_shape_trans [OF upd_shape(1) upd_shape(2)])
  show ?case
  proof (cases "e_addr_anti_loop (h ! i) = color")
    case True
    then show ?thesis using 2(1) [OF n n2 True 2(5) el] 2(7) bel n n2 by (auto simp: eq)
  next
    case False
    show ?thesis
    proof (cases "has_flag (e_addr_ldap_flags (h ! i)) STATUS_LDAP_SUPRESSED")
      case True
      have "\<forall>j\<in>below ?h1 el. \<not> marked STATUS_EMAIL_SENDER ?h1 j"
        using 2(7) bel below_shape [OF upd_shape(1), where el = el] by simp
      from 2(2) [OF n n2 False refl True _ _ this] links_ok_shape [OF upd_shape(1)] 2(5) el True False n n2 i
      show ?thesis by (auto simp: eq)
    next
      case new: False
      have "\<forall>j\<in>below ?m (e_addr_children (h ! i)). \<not> marked STATUS_EMAIL_SENDER ?m j"
        using 2(7) bel below_shape [OF sm, where el = "e_addr_children (h ! i)"] m by simp
      from 2(3) [OF n n2 False refl new _ _ this] links_ok_shape [OF sm] 2(5) links_ok_nth [OF 2(5) i]
      obtain h2 where h2: "supress_addrs color (e_addr_children (h ! i)) ?m = Inr h2" by auto
      note f = supress_frame [OF h2]
      have s2: "same_shape h h2" using same_shape_trans [OF sm] f by blast
      have "\<forall>j\<in>below h2 el. \<not> marked STATUS_EMAIL_SENDER h2 j"
        using 2(7) bel below_shape [OF s2, where el = el] f m by simp
      from 2(4) [OF n n2 False refl new h2 _ _ this] links_ok_shape [OF s2] 2(5) el same_shape_length [OF s2] h2 n n2 i False new
      show ?thesis by (auto simp: eq Let_def)
    qed
  qed
qed

text \<open>
  C14: the members of a members-only group that refuses the sender are suppressed, all of them and
  nothing else: when no node below is the sender, nothing has the colour of the walk and what
  was suppressed before had all its members suppressed, the walk ends with just the nodes
  below the list added, however the groups contain each other.
\<close>

theorem supress_addrs_exact:
  assumes "links_ok h" "\<forall>i\<in>set el. i < length h" "\<forall>j\<in>below h el. \<not> marked STATUS_EMAIL_SENDER h j"
    and "painted color h = {}" "sealed {} h"
  shows "\<exists>h'. supress_addrs color el h = Inr h' \<and> supressed h' = supressed h \<union> below h el \<and> sealed {} h'"
proof -
  from supress_total [OF assms(1-3)] obtain h' where r: "supress_addrs color el h = Inr h'" by blast
  note w = supress_walk [OF r _ assms(5)]
  have "below h' el \<subseteq> supressed h'" using w assms(4) by (intro sealed_below) auto
  moreover have "below h' el = below h el" using w assms(4) by (intro below_shape) auto
  ultimately show ?thesis using r w assms(4) by blast
qed

text \<open>A group with itself among its members, and a person.\<close>

definition graph_ex :: nodes where
  "graph_ex = [zero_addr\<lparr>e_addr := ''g@a'', e_addr_children := [0, 1]\<rparr>, zero_addr\<lparr>e_addr := ''p@a''\<rparr>]"

theorem supress_addrs_exact_witness:
  "\<exists>h'. supress_addrs 1 [0] graph_ex = Inr h' \<and> supressed h' = {0, 1}"
proof -
  have k: "kids graph_ex = {(0, 0), (0, 1)}"
    by (auto simp: kids_def graph_ex_def zero_addr_def nth_Cons split: nat.splits)
  have "(kids graph_ex)\<^sup>* `` {0} = {0, 1}"
  proof -
    have "y \<in> {0, 1}" if "(0, y) \<in> (kids graph_ex)\<^sup>*" for y :: nat
      using that by (induction rule: rtrancl_induct) (auto simp: k)
    then show ?thesis using k by blast
  qed
  then have b: "below graph_ex [0] = {0, 1}" by (simp add: below_def)
  have f: "\<not> marked f graph_ex j" for f j
    by (auto simp: marked_def graph_ex_def zero_addr_def has_flag_def nth_Cons split: nat.splits)
  then have "supressed graph_ex = {}" by (simp add: supressed_def)
  moreover have len: "length graph_ex = 2" by (simp add: graph_ex_def)
  then have "links_ok graph_ex" by (simp add: links_ok_def k)
  moreover have "painted 1 graph_ex = {}"
    by (auto simp: painted_def graph_ex_def zero_addr_def nth_Cons split: nat.splits)
  ultimately show ?thesis using supress_addrs_exact [of graph_ex "[0]" 1] b f len
    by (auto simp: sealed_def)
qed

subsection \<open>Where the memory of a walk is wrong\<close>

text \<open>
  Two groups contain each other, and the first one the sender as well.  The walk from the
  first group comes to the second one, cannot go on from there, as the first is painted, and
  notes that the sender is not below it.  Asked for the second group later, it says no, and
  the suppression runs into its assertion.
\<close>

definition cycle_ex :: nodes where
  "cycle_ex = [zero_addr\<lparr>e_addr := ''a@x'', e_addr_children := [1, 2]\<rparr>,
     zero_addr\<lparr>e_addr := ''b@x'', e_addr_children := [0]\<rparr>,
     mark STATUS_EMAIL_SENDER (zero_addr\<lparr>e_addr := ''s@x''\<rparr>)]"

lemma sender_cycle_forgets:
  "case sender_is_child 1 [0] cycle_ex of
     Inr (found, h1) \<Rightarrow> found \<and>
       (case sender_is_child 2 [1] h1 of
          Inr (found2, h2) \<Rightarrow> \<not> found2 \<and> supress_addrs 3 [1] h2 = Inl AssertFail
        | Inl _ \<Rightarrow> False)
   | Inl _ \<Rightarrow> False"
  by code_simp

lemma sender_cycle_alone: "case sender_is_child 2 [1] cycle_ex of Inr (found, h2) \<Rightarrow> found | Inl _ \<Rightarrow> False"
  by code_simp

end
