(* ===== verification/ExpandAddr.thy ===== *)
theory ExpandAddr
  imports ExpandGraph Tokens Bounce DistName
begin

section \<open>Addresses of an expansion: address.c\<close>

text \<open>
  How an address comes into an expansion, and what alias databases, password files and
  \<open>.forward\<close> files give.  The contents of these files, and what a directory server answers,
  are fields of the state; a Berkeley DB is what it holds for a key.
\<close>

subsection \<open>State\<close>

text \<open>
  An action keeps its database handle and its directory: here the handles that are open are
  listed, and the file name of an LDAP action, which is NULL in the source, names its
  \<open>struct simta_ldap\<close>.
\<close>

record ldap_search_list =
  lud_filter :: string
  lud_dn :: string
  lds_rdn_pref :: bool
  lds_search_type :: int

record simta_ldap =
  ldap_searches :: "ldap_search_list list"
  ldap_groups :: "string list"
  ldap_people :: "string list"
  ldap_mailattr :: string
  ldap_mailfwdattr :: string
  ldap_gmailfwdattr :: "string option"
  ldap_vacationhost :: "string option"
  ldap_vacationattr :: "string option"
  ldap_associated_domain :: string
  ldap_ndomain :: int

record exp_conf =
  x_conf :: conf
  simta_domain :: string
  simta_exp_level_max :: int
  simta_default_host :: "simta_red option"
  simta_ldaps :: "string \<Rightarrow> simta_ldap"

text \<open>An entry of a directory, with its name, the parts of its name, and its attributes.\<close>

record ldap_entry =
  le_dn :: "string option"
  le_rdns :: "string list"
  le_attrs :: "(string \<times> string list) list"

record ldap_answer =
  la_rc :: int
  la_parsed :: bool
  la_entries :: "ldap_entry list"

datatype fopen_result = FOpened string | FMissing | FError

record exp_state = net_state +
  w_alias :: "string \<Rightarrow> string \<Rightarrow> string list"
  w_passwd :: "string \<Rightarrow> (string \<times> string) list option"
  w_forward :: "string \<Rightarrow> fopen_result"
  w_ldap :: "ldap_answer list"
  ldap_asked :: "(string \<times> string) list"
  open_dbs :: "action list"
  ldaps_up :: "string list"

text \<open>
  The list of addresses is the order in which the nodes are linked; an error envelope is
  named by the order of creation.
\<close>

record expand =
  exp_env :: envelope
  exp_addrs :: nodes
  exp_list :: "nat list"
  exp_addr_cursor :: "nat option"
  exp_current_action :: "action option"
  exp_errors :: "envelope list"
  exp_max_level :: int
  exp_entries :: int
  exp_memonly :: "nat list"
  exp_gmailfwding :: "nat list"

definition zero_expand :: "envelope \<Rightarrow> expand" where
  "zero_expand env = \<lparr>exp_env = env, exp_addrs = [], exp_list = [], exp_addr_cursor = None,
     exp_current_action = None, exp_errors = [], exp_max_level = 0, exp_entries = 0, exp_memonly = [],
     exp_gmailfwding = []\<rparr>"

definition upd_addr :: "nat \<Rightarrow> (exp_addr \<Rightarrow> exp_addr) \<Rightarrow> expand \<Rightarrow> expand" where
  "upd_addr i f exp = exp\<lparr>exp_addrs := upd_node i f (exp_addrs exp)\<rparr>"

definition upd_error :: "nat \<Rightarrow> (envelope \<Rightarrow> envelope) \<Rightarrow> expand \<Rightarrow> expand" where
  "upd_error k f exp = exp\<lparr>exp_errors := (exp_errors exp)[k := f (exp_errors exp ! k)]\<rparr>"

definition EXPANSION_TYPE_LDAP :: int where "EXPANSION_TYPE_LDAP = 3"

definition ADDRESS_FINAL :: int where "ADDRESS_FINAL = 1"
definition ADDRESS_EXCLUDE :: int where "ADDRESS_EXCLUDE = 2"
definition ADDRESS_SYSERROR :: int where "ADDRESS_SYSERROR = 3"

definition ALIAS_NOT_FOUND :: int where "ALIAS_NOT_FOUND = 1"
definition ALIAS_EXCLUDE :: int where "ALIAS_EXCLUDE = 2"
definition ALIAS_SYSERROR :: int where "ALIAS_SYSERROR = 3"
definition ALIAS_MAX_DOMAIN_LEN :: nat where "ALIAS_MAX_DOMAIN_LEN = 1024"

definition PASSWORD_NOT_FOUND :: int where "PASSWORD_NOT_FOUND = 1"
definition PASSWORD_EXCLUDE :: int where "PASSWORD_EXCLUDE = 2"
definition PASSWORD_SYSERROR :: int where "PASSWORD_SYSERROR = 3"
definition PASSWORD_FINAL :: int where "PASSWORD_FINAL = 4"

subsection \<open>Mailboxes that are the same\<close>

text \<open>
  The last labels of a domain, found from its end (the argument is reversed); the first
  character of the domain is not looked at.
\<close>

fun domain_tail :: "int \<Rightarrow> int \<Rightarrow> string \<Rightarrow> string \<Rightarrow> string" where
  "domain_tail ndomain dotcnt [] tail = tail"
| "domain_tail ndomain dotcnt [c] tail = c # tail"
| "domain_tail ndomain dotcnt (c # d # s) tail =
     (if c = CHR ''.'' then
        (if dotcnt = ndomain - 1 then tail else domain_tail ndomain (dotcnt + 1) (d # s) (c # tail))
      else domain_tail ndomain dotcnt (d # s) (c # tail))"

definition simta_ldapdomain :: "int \<Rightarrow> string \<Rightarrow> string" where
  "simta_ldapdomain ndomain buf = domain_tail ndomain 0 (rev buf) []"

definition simta_ldapuser :: "int \<Rightarrow> string \<Rightarrow> string \<times> string" where
  "simta_ldapuser ndomain buf =
     (let user = takeWhile (\<lambda>c. c \<noteq> CHR ''@'') buf; rest = drop (length user) buf
      in (user, if rest = [] then [] else simta_ldapdomain ndomain (tl rest)))"

definition simta_mbx_compare :: "int \<Rightarrow> string option \<Rightarrow> string option \<Rightarrow> int" where
  "simta_mbx_compare ndomain firstemail secondemail =
     (case (firstemail, secondemail) of
        (Some a, Some b) \<Rightarrow>
          (if a = [] \<or> b = [] then - 1
           else (let (n1, d1) = simta_ldapuser ndomain a; (n2, d2) = simta_ldapuser ndomain b; rc = strcasecmp n1 n2
                 in if rc = 0 then strcasecmp d1 d2 else rc))
      | _ \<Rightarrow> - 1)"

subsection \<open>A new address\<close>

definition address_bounce_create :: "exp_conf \<Rightarrow> expand \<Rightarrow> 'a sys_scheme \<Rightarrow> nat option \<times> expand \<times> 'a sys_scheme" where
  "address_bounce_create c exp s =
     (case env_create (x_conf c) DIR_FAST None (Some []) (Some (exp_env exp)) s of
        (None, s1) \<Rightarrow> (None, exp, s1)
      | (Some env, s1) \<Rightarrow> (Some (length (exp_errors exp)), exp\<lparr>exp_errors := exp_errors exp @ [env]\<rparr>, s1))"

definition exp_addr_link :: "'n list \<Rightarrow> 'n \<Rightarrow> 'a sys_scheme \<Rightarrow> bool \<times> 'n list \<times> 'a sys_scheme" where
  "exp_addr_link links add s =
     (if add \<in> set links then (True, links, s)
      else (let (malloc_ok, s1) = outcome s in (malloc_ok, if malloc_ok then add # links else links, s1)))"

definition find_addr :: "string \<Rightarrow> expand \<Rightarrow> nat option" where
  "find_addr addr exp = find (\<lambda>i. strcasecmp addr (e_addr (exp_addrs exp ! i)) = 0) (exp_list exp)"

text \<open>Where the \<open>@\<close> of an address is: None for an address that is not one.\<close>

definition addr_at :: "string \<Rightarrow> nat option option" where
  "addr_at a =
     (if a = [] \<or> strcasecmp STRING_POSTMASTER a = 0 then Some None
      else (case local_end a of
          None \<Rightarrow> None
        | Some e \<Rightarrow> if starts (CHR ''@'') (drop (Suc e) a) then Some (Some (Suc e)) else None))"

text \<open>What is looked up for an address of mail: whether its domain has a directory, and whether it is the sender.\<close>

definition email_node :: "exp_conf \<Rightarrow> expand \<Rightarrow> 'a q_state_scheme \<Rightarrow> exp_addr \<Rightarrow> (bool \<times> exp_addr) option run" where
  "email_node c exp s e =
     (case addr_at (e_addr e) of
        None \<Rightarrow> Inr None
      | Some None \<Rightarrow> Inr (Some (False, e))
      | Some (Some at) \<Rightarrow>
          and_then (simta_red_lookup_host (simta_domain_trailing_dot (x_conf c)) (simta_reds s) (drop (Suc at) (e_addr e)))
            (\<lambda>red.
               let ldap = (case red of None \<Rightarrow> False
                     | Some r \<Rightarrow> \<exists>a\<in>set (red_expand r). a_action a = EXPANSION_TYPE_LDAP);
                   e1 = e\<lparr>e_addr_at := Some at, e_addr_try_ldap := (if ldap then 1 else 0)\<rparr>;
                   sender = simta_mbx_compare 2 (Some (e_addr e)) (e_mail (exp_env exp)) = 0
               in Inr (Some (ldap, if sender then mark STATUS_EMAIL_SENDER e1 else e1))))"

definition list_insert :: "bool \<Rightarrow> nat option \<Rightarrow> nat \<Rightarrow> nat list \<Rightarrow> nat list" where
  "list_insert insert_head cursor i is =
     (if is = [] then [i]
      else if \<not> insert_head then is @ [i]
      else (case cursor of
          Some k \<Rightarrow> takeWhile (\<lambda>j. j \<noteq> k) is @ k # i # tl (dropWhile (\<lambda>j. j \<noteq> k) is)
        | None \<Rightarrow> i # is))"

text \<open>The new node, in the list of addresses; None when it is not one or memory is short.\<close>

definition new_address :: "exp_conf \<Rightarrow> expand \<Rightarrow> string \<Rightarrow> nat \<Rightarrow> int \<Rightarrow> string option \<Rightarrow> 'a q_state_scheme \<Rightarrow>
  (nat option \<times> expand \<times> 'a q_state_scheme) run" where
  "new_address c exp addr error_env addr_type from s =
     (let (malloc_ok, s1) = outcome s
      in if \<not> malloc_ok then Inr (None, exp, s1)
         else
           (let exp1 = exp\<lparr>exp_entries := exp_entries exp + 1\<rparr>; (addr_ok, s2) = outcome s1
            in if \<not> addr_ok then Inr (None, exp1, s2)
               else (case from of
                   None \<Rightarrow> Inl NullDeref
                 | Some f \<Rightarrow>
                     (let (from_ok, s3) = outcome s2;
                          e = zero_addr\<lparr>e_addr_errors := error_env, e_addr_type := addr_type,
                            e_addr_parent_action := exp_current_action exp, e_addr := addr, e_addr_from := f\<rparr>
                      in if \<not> from_ok then Inr (None, exp1, s3)
                         else and_then
                           (if addr_type = ADDRESS_TYPE_EMAIL then email_node c exp s3 e
                            else if addr_type = ADDRESS_TYPE_LDAP then Inr (Some (True, e\<lparr>e_addr_try_ldap := 1\<rparr>))
                            else Inl Panicked)
                           (\<lambda>made. case made of
                               None \<Rightarrow> Inr (None, exp1, s3)
                             | Some (insert_head, e1) \<Rightarrow>
                                 (let i = length (exp_addrs exp)
                                  in Inr (Some i, exp1\<lparr>exp_addrs := exp_addrs exp @ [e1],
                                       exp_list := list_insert insert_head (exp_addr_cursor exp) i (exp_list exp)\<rparr>, s3)))))))"

definition link_address :: "nat \<Rightarrow> expand \<Rightarrow> 'a sys_scheme \<Rightarrow> int \<times> expand \<times> 'a sys_scheme" where
  "link_address i exp s =
     (case exp_addr_link (e_addr_parents (exp_addrs exp ! i)) (exp_addr_cursor exp) s of
        (up_ok, ps, s1) \<Rightarrow>
          (let exp1 = upd_addr i (\<lambda>e. e\<lparr>e_addr_parents := ps\<rparr>) exp
           in if \<not> up_ok then (1, exp1, s1)
              else (case exp_addr_cursor exp of
                  None \<Rightarrow> (0, exp1, s1)
                | Some k \<Rightarrow>
                    (let level = e_addr_max_level (exp_addrs exp1 ! k) + 1;
                         exp2 = upd_addr i (\<lambda>e. e\<lparr>e_addr_max_level := level\<rparr>) exp1;
                         exp3 = exp2\<lparr>exp_max_level := max (exp_max_level exp2) level\<rparr>
                     in case exp_addr_link (e_addr_children (exp_addrs exp3 ! k)) i s1 of
                          (down_ok, cs, s2) \<Rightarrow>
                            (if down_ok then 0 else 1, upd_addr k (\<lambda>e. e\<lparr>e_addr_children := cs\<rparr>) exp3, s2)))))"

definition add_address :: "exp_conf \<Rightarrow> expand \<Rightarrow> string \<Rightarrow> nat \<Rightarrow> int \<Rightarrow> string option \<Rightarrow> 'a q_state_scheme \<Rightarrow>
  (int \<times> expand \<times> 'a q_state_scheme) run" where
  "add_address c exp addr error_env addr_type from s =
     and_then (case find_addr addr exp of
         Some i \<Rightarrow> Inr (Some i, exp, s)
       | None \<Rightarrow> new_address c exp addr error_env addr_type from s)
       (\<lambda>(e, exp1, s1). case e of
           None \<Rightarrow> Inr (1, exp1, s1)
         | Some i \<Rightarrow> Inr (link_address i exp1 s1))"

end
