(* ===== verification/ExpandSource.thy ===== *)
theory ExpandSource
  imports ExpandAddr
begin

section \<open>What an address expands to: alias databases, password files, .forward\<close>

subsection \<open>The addresses in a line\<close>

text \<open>
  \<open>address_string_recipients\<close> undoes each NUL it writes, so it sees the same line all the time:
  a pointer is what is left of it.
\<close>

function name_skip :: "string \<Rightarrow> string option" where
  "name_skip s =
     (if starts (CHR ''<'') s then Some s
      else (case (if starts (CHR 0x22) s then token_quoted_string s else token_dot_atom s) of
          None \<Rightarrow> None
        | Some e \<Rightarrow> (case skip_cws (drop (Suc e) s) of None \<Rightarrow> None | Some r \<Rightarrow> name_skip r)))"
  by auto
termination
proof (relation "measure length")
  fix s e r
  assume t: "(if starts (CHR 0x22) s then token_quoted_string s else token_dot_atom s) = Some e"
    and k: "skip_cws (drop (Suc e) s) = Some r"
  have "length r \<le> length (drop (Suc e) s)" by (rule skip_cws_length [OF k])
  moreover have "s \<noteq> []" using t by (auto simp: starts_def token_dot_atom_def split: if_splits)
  ultimately show "(r, s) \<in> measure length" by (cases s) auto
qed simp

declare name_skip.simps [simp del]

lemma name_skip_shorter: "name_skip s = Some r \<Longrightarrow> length r \<le> length s \<and> starts (CHR ''<'') r"
proof (induction s rule: name_skip.induct)
  case (1 s)
  show ?case
  proof (cases "starts (CHR ''<'') s")
    case True
    with 1(2) show ?thesis by (simp add: name_skip.simps [of s])
  next
    case False
    with 1(2) obtain e t where e: "(if starts (CHR 0x22) s then token_quoted_string s else token_dot_atom s) = Some e"
      and t: "skip_cws (drop (Suc e) s) = Some t" "name_skip t = Some r"
      by (auto simp: name_skip.simps [of s] split: option.splits)
    have "length t \<le> length s" using skip_cws_length [OF t(1)] by simp
    with 1(1) [OF False e t] show ?thesis by simp
  qed
qed

text \<open>An address in angle brackets behind a name, with what follows it.\<close>

definition angled :: "string \<Rightarrow> (string \<times> string) option" where
  "angled s =
     (case name_skip s of
        None \<Rightarrow> None
      | Some r \<Rightarrow>
          (let rest = dropWhile (\<lambda>c. c \<noteq> CHR ''>'') (tl r)
           in if rest = [] then None else Some (takeWhile (\<lambda>c. c \<noteq> CHR ''>'') (tl r), tl rest)))"

definition next_recipient :: "string \<Rightarrow> (string \<times> string) option" where
  "next_recipient start =
     (if starts (CHR 0x22) start \<or> starts (CHR ''<'') start then angled start
      else (case token_dot_atom start of
          None \<Rightarrow> None
        | Some e \<Rightarrow>
            (let at = drop (Suc e) start
             in if starts (CHR ''@'') at then
                  (case route_end (tl at) of
                     None \<Rightarrow> None
                   | Some e2 \<Rightarrow> (let rest = drop (Suc e2) (tl at) in Some (take (length start - length rest) start, rest)))
                else (case skip_cws at of None \<Rightarrow> None | Some s \<Rightarrow> angled s))))"

lemma angled_shorter:
  assumes "angled s = Some (a, r)"
  shows "length r < length s"
proof -
  from assms obtain t where t: "name_skip s = Some t" and r: "r = tl (dropWhile (\<lambda>c. c \<noteq> CHR ''>'') (tl t))"
    by (auto simp: angled_def Let_def split: option.splits if_splits)
  from name_skip_shorter [OF t] have "length t \<le> length s" "t \<noteq> []" by (auto simp: starts_def)
  moreover have "length r \<le> length (tl t)" using length_dropWhile_le [of "\<lambda>c. c \<noteq> CHR ''>''" "tl t"] by (simp add: r)
  ultimately show ?thesis by (cases t) auto
qed

lemma next_recipient_shorter: "next_recipient s = Some (a, r) \<Longrightarrow> length r < length s"
proof -
  assume n: "next_recipient s = Some (a, r)"
  show ?thesis
  proof (cases "starts (CHR 0x22) s \<or> starts (CHR ''<'') s")
    case True
    with n show ?thesis by (simp add: next_recipient_def angled_shorter)
  next
    case False
    with n obtain e where e: "token_dot_atom s = Some e" by (auto simp: next_recipient_def split: option.splits)
    then have "s \<noteq> []" by (auto simp: token_dot_atom_def)
    show ?thesis
    proof (cases "starts (CHR ''@'') (drop (Suc e) s)")
      case True
      with n False e \<open>s \<noteq> []\<close> show ?thesis by (cases s) (auto simp: next_recipient_def Let_def split: option.splits)
    next
      case no: False
      with n False e obtain t where "skip_cws (drop (Suc e) s) = Some t" "angled t = Some (a, r)"
        by (auto simp: next_recipient_def split: option.splits)
      then have "length r < length t" "length t \<le> length s"
        using angled_shorter skip_cws_length [of "drop (Suc e) s" t] by auto
      then show ?thesis by simp
    qed
  qed
qed

definition after_comma :: "string \<Rightarrow> string option" where
  "after_comma rest =
     (case skip_cws rest of
        None \<Rightarrow> None
      | Some r \<Rightarrow> if starts (CHR '','') r then skip_cws (tl r) else None)"

lemma after_comma_shorter: "after_comma s = Some r \<Longrightarrow> length r \<le> length s"
  using skip_cws_length [of s] skip_cws_length [where t = r]
  by (auto simp: after_comma_def split: option.splits if_splits) (metis diff_le_self le_trans length_tl)

function string_recipients :: "exp_conf \<Rightarrow> expand \<Rightarrow> string \<Rightarrow> nat \<Rightarrow> string option \<Rightarrow> 'a q_state_scheme \<Rightarrow>
  (int \<times> expand \<times> 'a q_state_scheme) run" where
  "string_recipients c exp start i from s =
     (case next_recipient start of
        None \<Rightarrow> Inr (0, exp, s)
      | Some (email, rest) \<Rightarrow>
          and_then (if is_emailaddr email
                    then add_address c exp email (e_addr_errors (exp_addrs exp ! i)) ADDRESS_TYPE_EMAIL from s
                    else Inr (0, exp, s))
            (\<lambda>(rc, exp1, s1).
               if rc \<noteq> 0 then Inr (1, exp1, s1)
               else (case after_comma rest of None \<Rightarrow> Inr (0, exp1, s1) | Some next \<Rightarrow> string_recipients c exp1 next i from s1)))"
  by auto
termination
proof (relation "measure (\<lambda>(c, exp, start, i, from, s). length start)")
  fix c exp start i "from" and s s1 :: "'a q_state_scheme" and email rest exp1 "next" p x y rc y2
  assume "next_recipient start = Some p" "(email, rest) = p" "after_comma rest = Some next"
  with next_recipient_shorter [of start email rest] after_comma_shorter [of rest "next"]
  show "((c, exp1, next, i, from, s1), c, exp, start, i, from, s) \<in> measure (\<lambda>(c, exp, start, i, from, s). length start)"
    by auto
qed simp

declare string_recipients.simps [simp del]

definition address_string_recipients :: "exp_conf \<Rightarrow> expand \<Rightarrow> string \<Rightarrow> nat \<Rightarrow> string option \<Rightarrow> 'a q_state_scheme \<Rightarrow>
  (int \<times> expand \<times> 'a q_state_scheme) run" where
  "address_string_recipients c exp line i from s =
     (case skip_cws line of None \<Rightarrow> Inr (0, exp, s) | Some start \<Rightarrow> string_recipients c exp start i from s)"

subsection \<open>Password files and .forward\<close>

definition simta_getpwnam :: "action \<Rightarrow> string \<Rightarrow> 'a exp_state_scheme \<Rightarrow> ((string \<times> string) option \<times> 'a exp_state_scheme) run" where
  "simta_getpwnam a user s =
     (case a_fname a of
        None \<Rightarrow> Inl NullDeref
      | Some f \<Rightarrow>
          (case w_passwd s f of
             None \<Rightarrow> Inr (None, s)
           | Some entries \<Rightarrow>
               (let (close_ok, s1) = outcome s
                in Inr (if close_ok then find (\<lambda>p. strcasecmp user (fst p) = 0) entries else None, s1))))"

text \<open>\<open>fgets\<close>: up to that many characters, or to the end of the line.\<close>

fun fgets :: "nat \<Rightarrow> string \<Rightarrow> string \<times> string" where
  "fgets n [] = ([], [])"
| "fgets n (ch # text) =
     (if n = 0 then ([], ch # text)
      else if ch = NL then ([ch], text)
      else (let (l, r) = fgets (n - 1) text in (ch # l, r)))"

lemma fgets_shorter: "0 < n \<Longrightarrow> s \<noteq> [] \<Longrightarrow> length (snd (fgets n s)) < length s"
proof (induction n s rule: fgets.induct)
  case (2 n ch s)
  then show ?case by (cases "n - 1 = 0"; cases s) (auto simp: Let_def split: prod.splits)
qed simp

text \<open>
  A line of more than 1023 characters is passed over, but only its first 1023: what follows is
  the next line.  The last line counts only with its newline.
\<close>

function forward_lines :: "exp_conf \<Rightarrow> expand \<Rightarrow> nat \<Rightarrow> string \<Rightarrow> int \<Rightarrow> 'a q_state_scheme \<Rightarrow>
  (int \<times> expand \<times> 'a q_state_scheme) run" where
  "forward_lines c exp i text rc s =
     (if text = [] then Inr (rc, exp, s)
      else
        (let buf = takeWhile (\<lambda>ch. ch \<noteq> NUL) (fst (fgets 1023 text)); rest = snd (fgets 1023 text)
         in if buf = [] then Inl OutOfBounds
            else if last buf \<noteq> NL then forward_lines c exp i rest rc s
            else and_then (address_string_recipients c exp (butlast buf) i (Some (e_addr_from (exp_addrs exp ! i))) s)
              (\<lambda>(bad, exp1, s1). if bad \<noteq> 0 then Inr (PASSWORD_SYSERROR, exp1, s1)
                 else forward_lines c exp1 i rest PASSWORD_EXCLUDE s1)))"
  by auto
termination
  by (relation "measure (\<lambda>(c, exp, i, text, rc, s). length text)") (auto simp: fgets_shorter)

declare forward_lines.simps [simp del]

definition MAXPATHLEN :: nat where "MAXPATHLEN = 4096"

definition local_name :: "exp_addr \<Rightarrow> string" where
  "local_name e = (case e_addr_at e of None \<Rightarrow> STRING_POSTMASTER | Some at \<Rightarrow> take at (e_addr e))"

definition password_expand :: "exp_conf \<Rightarrow> expand \<Rightarrow> nat \<Rightarrow> action \<Rightarrow> 'a exp_state_scheme \<Rightarrow>
  (int \<times> expand \<times> 'a exp_state_scheme) run" where
  "password_expand c exp i a s =
     and_then (simta_getpwnam a (local_name (exp_addrs exp ! i)) s) (\<lambda>(passwd, s1).
       case passwd of
         None \<Rightarrow> Inr (PASSWORD_NOT_FOUND, exp, s1)
       | Some (_, pw_dir) \<Rightarrow>
           (let fname = pw_dir @ ''/.forward''
            in if MAXPATHLEN \<le> length fname then Inr (PASSWORD_FINAL, exp, s1)
               else (case w_forward s1 fname of
                   FMissing \<Rightarrow> Inr (PASSWORD_FINAL, exp, s1)
                 | FError \<Rightarrow> Inr (PASSWORD_SYSERROR, exp, s1)
                 | FOpened text \<Rightarrow>
                     and_then (forward_lines c exp i text PASSWORD_FINAL s1) (\<lambda>(rc, exp1, s2).
                       let (close_ok, s3) = outcome s2
                       in Inr (if close_ok then rc else PASSWORD_SYSERROR, exp1, s3)))))"

subsection \<open>Alias databases\<close>

text \<open>
  \<open>db_open_r\<close> with its handle kept for the action.  The first part of the result is what
  \<open>ret\<close> holds behind it: 0 when the database has just been opened.
\<close>

definition alias_open :: "action \<Rightarrow> 'a exp_state_scheme \<Rightarrow> (int \<times> bool \<times> 'a exp_state_scheme) run" where
  "alias_open a s =
     (if a \<in> set (open_dbs s) then Inr (ALIAS_NOT_FOUND, True, s)
      else if a_fname a = None then Inl NullDeref
      else (let (open_ok, s1) = outcome s
            in if open_ok then Inr (0, True, s1\<lparr>open_dbs := a # open_dbs s1\<rparr>) else Inr (ALIAS_NOT_FOUND, False, s1)))"

text \<open>The values of the key; reading the next one may fail.\<close>

fun alias_values :: "exp_conf \<Rightarrow> expand \<Rightarrow> nat \<Rightarrow> string list \<Rightarrow> 'a q_state_scheme \<Rightarrow> (int \<times> expand \<times> 'a q_state_scheme) run" where
  "alias_values c exp i [] s = Inr (ALIAS_EXCLUDE, exp, s)"
| "alias_values c exp i (v # vs) s =
     (let (strdup_ok, s1) = outcome s
      in if \<not> strdup_ok then Inr (ALIAS_SYSERROR, exp, s1)
         else
           (let lone = (snd (correct_emailaddr (simta_domain c) True v) \<noteq> v);
                (malloc_ok, s2) = (if lone then outcome s1 else (True, s1));
                (ok, addr) = correct_emailaddr (simta_domain c) malloc_ok v
            in if ok = - 1 then Inr (ALIAS_SYSERROR, exp, s2)
               else and_then (if ok = 0 then Inr (0, exp, s2)
                    else add_address c exp addr (e_addr_errors (exp_addrs exp ! i)) ADDRESS_TYPE_EMAIL
                      (Some (e_addr_from (exp_addrs exp ! i))) s2)
                 (\<lambda>(rc, exp1, s3).
                    if rc \<noteq> 0 then Inr (ALIAS_SYSERROR, exp1, s3)
                    else (let (next_ok, s4) = outcome s3
                          in if next_ok then alias_values c exp1 i vs s4 else Inr (ALIAS_SYSERROR, exp1, s4)))))"

definition alias_expand :: "exp_conf \<Rightarrow> expand \<Rightarrow> nat \<Rightarrow> action \<Rightarrow> 'a exp_state_scheme \<Rightarrow>
  (int \<times> expand \<times> 'a exp_state_scheme) run" where
  "alias_expand c exp i a s =
     and_then (alias_open a s) (\<lambda>(rc, opened, s1).
       let e = exp_addrs exp ! i
       in if \<not> opened then Inr (ALIAS_NOT_FOUND, exp, s1)
          else if (case e_addr_at e of None \<Rightarrow> False | Some at \<Rightarrow> ALIAS_MAX_DOMAIN_LEN < at) then Inr (rc, exp, s1)
          else
            (let (set_ok, s2) = outcome s1; vs = w_alias s2 (the (a_fname a)) (local_name e)
             in if \<not> set_ok then Inr (ALIAS_SYSERROR, exp, s2)
                else if vs = [] then Inr (ALIAS_NOT_FOUND, exp, s2)
                else alias_values c exp i vs s2))"

text \<open>
  A local part of more than 1024 characters, when the database has just been opened, leaves 0
  as the result, which \<open>address_expand\<close> does not know.
\<close>

lemma alias_expand_long:
  assumes "a \<notin> set (open_dbs s)" "a_fname a \<noteq> None" "w_oracle s = []"
    and "e_addr_at (exp_addrs exp ! i) = Some at" "1024 < at"
  shows "alias_expand c exp i a s = Inr (0, exp, s\<lparr>open_dbs := a # open_dbs s\<rparr>)"
  using assms by (simp add: alias_expand_def alias_open_def ALIAS_MAX_DOMAIN_LEN_def Let_def del: and_then_Inr_iff)

end
