(* ===== verification/LdapExpand.thy ===== *)
theory LdapExpand
  imports ExpandSource AddressList
begin

section \<open>Groups and people of a directory: simta\_ldap.c\<close>

text \<open>
  The answers of the directory server are a list in the state, an answer for each search.
  An entry has a name, the values of the parts of its name (\<open>ldap_explode_dn( dn, 1 )\<close>), and
  attributes.  What the client library and the server do is not modelled beyond that; nor are
  the options of \<open>simta_ldap_init\<close>: opening a connection may fail, and binding to it.  Copies of
  short names whose success the source does not check are taken to succeed.
\<close>

subsection \<open>Results and types\<close>

definition LDAP_SYSERROR :: int where "LDAP_SYSERROR = 1"
definition LDAP_NOT_FOUND :: int where "LDAP_NOT_FOUND = 2"
definition LDAP_FINAL :: int where "LDAP_FINAL = 3"
definition LDAP_EXCLUDE :: int where "LDAP_EXCLUDE = 4"

definition LDAP_LOCAL :: int where "LDAP_LOCAL = 2"
definition LDAP_NOT_LOCAL :: int where "LDAP_NOT_LOCAL = 3"
definition LDAP_LOCAL_RBL :: int where "LDAP_LOCAL_RBL = 4"

definition LDS_USER :: int where "LDS_USER = 1"
definition LDS_GROUP_ERRORS :: int where "LDS_GROUP_ERRORS = 2"
definition LDS_GROUP_REQUEST :: int where "LDS_GROUP_REQUEST = 4"
definition LDS_GROUP_MEMBERS :: int where "LDS_GROUP_MEMBERS = 8"
definition LDS_GROUP_OWNER :: int where "LDS_GROUP_OWNER = 16"

text \<open>Codes of the client library.\<close>

definition LDAP_SUCCESS :: int where "LDAP_SUCCESS = 0"
definition LDAP_TIMELIMIT_EXCEEDED :: int where "LDAP_TIMELIMIT_EXCEEDED = 3"
definition LDAP_SIZELIMIT_EXCEEDED :: int where "LDAP_SIZELIMIT_EXCEEDED = 4"
definition LDAP_NO_SUCH_OBJECT :: int where "LDAP_NO_SUCH_OBJECT = 32"
definition LDAP_SERVER_DOWN :: int where "LDAP_SERVER_DOWN = - 1"
definition LDAP_FILTER_ERROR :: int where "LDAP_FILTER_ERROR = - 7"

definition MAXRETRIES :: nat where "MAXRETRIES = 5"

definition TEXT_WARNING :: int where "TEXT_WARNING = 0"
definition TEXT_ERROR :: int where "TEXT_ERROR = 1"

definition ENV_FLAG_SUPRESS_NO_EMAIL :: "32 word" where "ENV_FLAG_SUPRESS_NO_EMAIL = flag_bit 7"

subsection \<open>Asking the server\<close>

text \<open>A base and a filter; a server that has no more to say finds nothing.\<close>

definition ldap_search :: "string \<Rightarrow> string \<Rightarrow> 'a exp_state_scheme \<Rightarrow> ldap_answer \<times> 'a exp_state_scheme" where
  "ldap_search base pat s =
     (let s1 = s\<lparr>ldap_asked := (base, pat) # ldap_asked s\<rparr>
      in case w_ldap s of
        [] \<Rightarrow> (\<lparr>la_rc = LDAP_SUCCESS, la_parsed = True, la_entries = []\<rparr>, s1)
      | a # as \<Rightarrow> (a, s1\<lparr>w_ldap := as\<rparr>))"

definition simta_ldap_init :: "string \<Rightarrow> 'a exp_state_scheme \<Rightarrow> int \<times> 'a exp_state_scheme" where
  "simta_ldap_init ld s =
     (let (open_ok, s1) = (if ld \<in> set (ldaps_up s) then (True, s) else outcome s)
      in if \<not> open_ok then (LDAP_SYSERROR, s1)
         else (let (bind_ok, s2) = outcome s1
               in (if bind_ok then 0 else LDAP_SYSERROR, s2\<lparr>ldaps_up := List.insert ld (ldaps_up s2)\<rparr>)))"

definition simta_ldap_retry :: "string \<Rightarrow> 'a exp_state_scheme \<Rightarrow> int \<times> 'a exp_state_scheme" where
  "simta_ldap_retry ld s =
     (case simta_ldap_init ld (s\<lparr>ldaps_up := removeAll ld (ldaps_up s)\<rparr>) of (rc, s1) \<Rightarrow> (if rc \<noteq> 0 then 1 else 0, s1))"

definition ldap_get_values :: "ldap_entry \<Rightarrow> string \<Rightarrow> string list option" where
  "ldap_get_values entry attr =
     (case find (\<lambda>a. strcasecmp (fst a) attr = 0) (le_attrs entry) of None \<Rightarrow> None | Some a \<Rightarrow> Some (snd a))"

text \<open>The first value, which the source reads without looking whether there is one.\<close>

definition first_value :: "string list \<Rightarrow> string run" where
  "first_value vals = (case vals of [] \<Rightarrow> Inl NullDeref | v # _ \<Rightarrow> Inr v)"

definition is_true :: "ldap_entry \<Rightarrow> string \<Rightarrow> bool run" where
  "is_true entry attr =
     (case ldap_get_values entry attr of
        None \<Rightarrow> Inr False
      | Some vals \<Rightarrow> and_then (first_value vals) (\<lambda>v. Inr (strcasecmp v ''TRUE'' = 0)))"

definition simta_ldap_value :: "ldap_entry \<Rightarrow> string \<Rightarrow> string list \<Rightarrow> bool" where
  "simta_ldap_value entry attr master =
     (case ldap_get_values entry attr of
        None \<Rightarrow> False
      | Some vals \<Rightarrow> \<exists>v\<in>set vals. \<exists>m\<in>set master. strcasecmp v m = 0)"

subsection \<open>Names\<close>

text \<open>
  The text between quotes, without backslashes; None when it is not quoted or does not end,
  and then the name is used as it is.
\<close>

fun dequote :: "string \<Rightarrow> string option" where
  "dequote [] = None"
| "dequote (ch # r) =
     (if ch = CHR 0x22 then Some []
      else if ch = CHR 0x5C then (case r of [] \<Rightarrow> None | d # r2 \<Rightarrow> map_option ((#) d) (dequote r2))
      else map_option ((#) ch) (dequote r))"

definition simta_ldap_dequote :: "bool \<Rightarrow> string \<Rightarrow> string option" where
  "simta_ldap_dequote malloc_ok s =
     (if starts (CHR 0x22) s \<and> malloc_ok then dequote (tl s) else None)"

definition blank :: "string \<Rightarrow> string" where
  "blank = map (\<lambda>ch. if ch = CHR ''.'' \<or> ch = CHR ''_'' then CHR '' '' else ch)"

text \<open>What an escaped user name looks like in a filter.\<close>

definition filter_char :: "char \<Rightarrow> string" where
  "filter_char ch =
     (if ch = CHR ''.'' \<or> ch = CHR ''_'' then '' ''
      else if ch \<in> set ''()*'' then [CHR 0x5C, ch] else [ch])"

fun simta_ldap_string :: "string \<Rightarrow> string \<Rightarrow> string \<Rightarrow> string" where
  "simta_ldap_string [] user domain = []"
| "simta_ldap_string [ch] user domain = (if ch = CHR ''%'' then [] else [ch])"
| "simta_ldap_string (ch # d # r) user domain =
     (if ch \<noteq> CHR ''%'' then ch # simta_ldap_string (d # r) user domain
      else if d = CHR ''s'' then concat (map filter_char user) @ simta_ldap_string r user domain
      else if d = CHR ''h'' then domain @ simta_ldap_string r user domain
      else if d = CHR ''%'' then CHR ''%'' # simta_ldap_string r user domain
      else simta_ldap_string (d # r) user domain)"

text \<open>The part behind the last dash says who is meant; it is taken off the name.\<close>

definition simta_address_type :: "string \<Rightarrow> int \<times> string" where
  "simta_address_type name =
     (let tail = rev (takeWhile (\<lambda>ch. ch \<noteq> CHR ''-'') (rev name));
          front = take (length name - Suc (length tail)) name;
          says = (\<lambda>w. strcasecmp tail w = 0)
      in if length tail = length name then (LDS_USER, name)
         else if says ''error'' \<or> says ''errors'' then (LDS_GROUP_ERRORS, front)
         else if says ''request'' \<or> says ''requests'' then (LDS_GROUP_REQUEST, front)
         else if says ''owner'' \<or> says ''owners'' then (LDS_GROUP_OWNER, front)
         else (LDS_USER, name))"

subsection \<open>Telling the sender\<close>

text \<open>\<open>bounce_text\<close> on the error envelope of an address.\<close>

definition error_text :: "nat \<Rightarrow> int \<Rightarrow> string \<Rightarrow> string option \<Rightarrow> string option \<Rightarrow> expand \<Rightarrow> 'a sys_scheme \<Rightarrow>
  (int \<times> expand \<times> 'a sys_scheme) run" where
  "error_text k mode t1 t2 t3 exp s =
     (if \<not> k < length (exp_errors exp) then Inl NullDeref
      else and_then (bounce_text (exp_errors exp ! k) mode t1 t2 t3 s)
        (\<lambda>(rc, env, s1). Inr (rc, upd_error k (\<lambda>_. env) exp, s1)))"

text \<open>Texts one after the other, until one fails.\<close>

fun error_texts :: "nat \<Rightarrow> (string \<times> string option \<times> string option) list \<Rightarrow> expand \<Rightarrow> 'a sys_scheme \<Rightarrow>
  (bool \<times> expand \<times> 'a sys_scheme) run" where
  "error_texts k [] exp s = Inr (True, exp, s)"
| "error_texts k ((t1, t2, t3) # ts) exp s =
     and_then (error_text k TEXT_ERROR t1 t2 t3 exp s) (\<lambda>(rc, exp1, s1).
       if rc \<noteq> 0 then Inr (False, exp1, s1) else error_texts k ts exp1 s1)"

text \<open>The name of an entry to show: \<open>cn\<close> when the name is what was asked for.\<close>

definition shown_name :: "ldap_entry \<Rightarrow> string \<Rightarrow> string run" where
  "shown_name entry addr =
     and_then (first_value (le_rdns entry)) (\<lambda>rdn.
       if strcasecmp rdn addr = 0 then
         (case ldap_get_values entry ''cn'' of None \<Rightarrow> Inr rdn | Some vals \<Rightarrow> first_value vals)
       else Inr rdn)"

definition ambiguous_texts :: "simta_ldap \<Rightarrow> string \<Rightarrow> ldap_entry \<Rightarrow> (string \<times> string option \<times> string option) list run" where
  "ambiguous_texts ld addr entry =
     and_then (shown_name entry addr) (\<lambda>rdn.
       let vals = (if ldap_groups ld \<noteq> [] \<and> simta_ldap_value entry ''objectClass'' (ldap_groups ld)
                   then ldap_get_values entry ''description'' else ldap_get_values entry ''title'')
       in Inr (case vals of
            None \<Rightarrow> [(rdn, None, None)]
          | Some [] \<Rightarrow> [(rdn, None, None)]
          | Some (v # vs) \<Rightarrow> (rdn, Some [TAB], Some v) # map (\<lambda>w. ([TAB, TAB], Some w, None)) vs))"

fun all_ambiguous :: "simta_ldap \<Rightarrow> nat \<Rightarrow> string \<Rightarrow> ldap_entry list \<Rightarrow> expand \<Rightarrow> 'a sys_scheme \<Rightarrow>
  (expand \<times> 'a sys_scheme) run" where
  "all_ambiguous ld k addr [] exp s = Inr (exp, s)"
| "all_ambiguous ld k addr (entry # es) exp s =
     and_then (ambiguous_texts ld addr entry) (\<lambda>ts.
       and_then (error_texts k ts exp s) (\<lambda>(ok, exp1, s1).
         if ok then all_ambiguous ld k addr es exp1 s1 else Inr (exp1, s1)))"

definition do_ambiguous :: "simta_ldap \<Rightarrow> nat \<Rightarrow> string \<Rightarrow> ldap_entry list \<Rightarrow> expand \<Rightarrow> 'a sys_scheme \<Rightarrow>
  (expand \<times> 'a sys_scheme) run" where
  "do_ambiguous ld k addr res exp s =
     and_then (error_text k TEXT_ERROR addr (Some '': Ambiguous user'') None exp s) (\<lambda>(rc, exp1, s1).
       if rc \<noteq> 0 then Inr (exp1, s1) else all_ambiguous ld k addr res exp1 s1)"

text \<open>The lines of an address are separated by dollar signs; empty ones are left out.\<close>

function split_dollar :: "string \<Rightarrow> string list" where
  "split_dollar t =
     (let l = takeWhile (\<lambda>ch. ch \<noteq> CHR ''$'') t; r = dropWhile (\<lambda>ch. ch \<noteq> CHR ''$'') t
      in (if l = [] then [] else [l]) @ (if r = [] then [] else split_dollar (tl r)))"
  by auto
termination
proof (relation "measure length")
  fix t l r :: string
  assume r: "r = dropWhile (\<lambda>ch. ch \<noteq> CHR ''$'') t" "r \<noteq> []"
  have "length r \<le> length t" unfolding r(1) by (rule length_dropWhile_le)
  moreover from r(2) have "0 < length r" by (rule length_greater_0_conv [THEN iffD2])
  ultimately show "(tl r, t) \<in> measure length" unfolding in_measure length_tl by arith
qed simp

declare split_dollar.simps [simp del]

definition values_or :: "string \<Rightarrow> string list option \<Rightarrow> (string \<times> string option \<times> string option) list" where
  "values_or none vals = map (\<lambda>v. ([TAB], Some v, None)) (case vals of None \<Rightarrow> [none] | Some vs \<Rightarrow> vs)"

definition noemail_texts :: "ldap_entry \<Rightarrow> string \<Rightarrow> (string \<times> string option \<times> string option) list run" where
  "noemail_texts entry addr =
     and_then (shown_name entry addr) (\<lambda>rdn.
     and_then (case ldap_get_values entry ''postaladdress'' of
         None \<Rightarrow> Inr (Some [''No postaladdress registered''])
       | Some vals \<Rightarrow> and_then (first_value vals) (\<lambda>v. Inr (Some (split_dollar v)))) (\<lambda>postal.
       Inr ([(addr, Some ('': User has no email address registered.'' @ [NL]), None),
             (TAB # ''Name, title, postal address and phone for: '', Some addr, None), ([TAB], Some rdn, None)] @
            values_or ''No title or description registered''
              (case ldap_get_values entry ''title'' of
                 None \<Rightarrow> ldap_get_values entry ''description'' | Some vs \<Rightarrow> Some vs) @
            values_or [] postal @
            values_or ''No phone number registered'' (ldap_get_values entry ''telephoneNumber''))))"

definition do_noemail :: "nat \<Rightarrow> string \<Rightarrow> ldap_entry \<Rightarrow> expand \<Rightarrow> 'a sys_scheme \<Rightarrow> (expand \<times> 'a sys_scheme) run" where
  "do_noemail k addr entry exp s = and_then (noemail_texts entry addr) (\<lambda>ts.
     and_then (error_texts k ts exp s) (\<lambda>(_, exp1, s1). Inr (exp1, s1)))"

subsection \<open>Groups\<close>

text \<open>
  A group is expanded in steps that may end it with \<open>LDAP_SYSERROR\<close>.  \<open>Stop\<close> is such an end;
  what has been done to the expansion stays.
\<close>

datatype ('a, 's) group_step = Stop int expand 's | Go 'a expand 's

definition and_go :: "('a, 's) group_step run \<Rightarrow> ('a \<Rightarrow> expand \<Rightarrow> 's \<Rightarrow> ('b, 's) group_step run) \<Rightarrow> ('b, 's) group_step run" where
  "and_go m f = and_then m (\<lambda>r. case r of Stop rc exp s \<Rightarrow> Inr (Stop rc exp s) | Go x exp s \<Rightarrow> f x exp s)"

definition dotted :: "string \<Rightarrow> string" where
  "dotted = map (\<lambda>ch. if ch = CHR '' '' then CHR ''.'' else ch)"

text \<open>The normal form of the name is written over the name, the first time.\<close>

definition group_dn :: "ldap_entry \<Rightarrow> nat \<Rightarrow> expand \<Rightarrow> 's \<Rightarrow> (string, 's) group_step run" where
  "group_dn entry i exp s =
     (case le_dn entry of
        None \<Rightarrow> Inr (Stop LDAP_SYSERROR exp s)
      | Some dn \<Rightarrow>
          (if e_addr_dn (exp_addrs exp ! i) \<noteq> None then Inr (Go dn exp s)
           else and_then (dn_normalize_case dn) (\<lambda>d.
             Inr (Go d (upd_addr i (\<lambda>e. e\<lparr>e_addr_dn := Some d\<rparr>) exp) s))))"

definition group_owner :: "simta_ldap \<Rightarrow> ldap_entry \<Rightarrow> nat \<Rightarrow> expand \<Rightarrow> 'a sys_scheme \<Rightarrow> (string, 'a sys_scheme) group_step run" where
  "group_owner ld entry i exp s =
     and_then (first_value (le_rdns entry)) (\<lambda>rdn.
       let (malloc_ok, s1) = outcome s
       in if \<not> malloc_ok then Inr (Stop LDAP_SYSERROR exp s1)
          else Inr (Go rdn (upd_addr i (\<lambda>e. e\<lparr>e_addr_owner :=
                 Some (dotted (rdn @ ''-owner@'' @ ldap_associated_domain ld))\<rparr>) exp) s1))"

text \<open>Errors of a group go to its own address, unless the message is a bounce.\<close>

definition group_sender :: "exp_conf \<Rightarrow> simta_ldap \<Rightarrow> string \<Rightarrow> nat \<Rightarrow> expand \<Rightarrow> 'a sys_scheme \<Rightarrow>
  (string, 'a sys_scheme) group_step run" where
  "group_sender c ld rdn i exp s =
     (if e_addr_from (exp_addrs exp ! i) = [] then Inr (Go [] exp s)
      else
        (let (malloc_ok, s1) = outcome s
         in if \<not> malloc_ok then Inr (Stop LDAP_SYSERROR exp s1)
            else (case address_bounce_create c exp s1 of
                (None, exp1, s2) \<Rightarrow> Inr (Stop LDAP_SYSERROR exp1 s2)
              | (Some k, exp1, s2) \<Rightarrow>
                  (let exp2 = upd_addr i (\<lambda>e. e\<lparr>e_addr_errors := k\<rparr>) exp1;
                       named = dotted (rdn @ ''-errors@'' @ ldap_associated_domain ld);
                       good = is_emailaddr named; sender = (if good then named else []);
                       (strdup_ok, s3) = (if good then (True, s2) else outcome s2)
                   in if \<not> strdup_ok then Inr (Stop LDAP_SYSERROR exp2 s3)
                      else and_then (if good then Inr (0, exp2, s3)
                           else error_text k TEXT_WARNING ''Illegal email group name: '' (Some rdn) None exp2 s3)
                        (\<lambda>(_, exp3, s4).
                           case env_recipient (exp_errors exp3 ! k) (Some sender) s4 of
                             (rc, env, s5) \<Rightarrow>
                               (let exp4 = upd_error k (\<lambda>_. env) exp3
                                in Inr (if rc \<noteq> 0 then Stop LDAP_SYSERROR exp4 s5 else Go sender exp4 s5)))))))"

text \<open>A new envelope with the addresses of the values as recipients.\<close>

fun values_recipients :: "envelope \<Rightarrow> string list \<Rightarrow> 'a sys_scheme \<Rightarrow> bool \<times> envelope \<times> 'a sys_scheme" where
  "values_recipients env [] s = (True, env, s)"
| "values_recipients env (v # vs) s =
     (case env_string_recipients env v s of
        (rc, env1, s1) \<Rightarrow> if rc \<noteq> 0 then (False, env1, s1) else values_recipients env1 vs s1)"

definition values_envelope :: "exp_conf \<Rightarrow> string option \<Rightarrow> string list \<Rightarrow> expand \<Rightarrow> 'a env_state_scheme \<Rightarrow>
  envelope option \<times> 'a env_state_scheme" where
  "values_envelope c mail vals exp s =
     (case env_create (x_conf c) DIR_FAST None mail (Some (exp_env exp)) s of
        (None, s1) \<Rightarrow> (None, s1)
      | (Some env, s1) \<Rightarrow>
          (case values_recipients env vals s1 of
             (ok, env1, s2) \<Rightarrow> if ok then (Some env1, s2) else (None, env_free (Some env1) s2)))"

subsection \<open>Members of a group, and who may write to them\<close>

text \<open>
  Forwarding of group mail: whether the group ends here, and whether the variable \<open>r\<close> is left
  pointing to a recipient.  An envelope without a recipient is freed and then written to.
\<close>

definition group_forward :: "exp_conf \<Rightarrow> simta_ldap \<Rightarrow> ldap_entry \<Rightarrow> string \<Rightarrow> nat \<Rightarrow> expand \<Rightarrow> 'a env_state_scheme \<Rightarrow>
  (bool \<times> bool, 'a env_state_scheme) group_step run" where
  "group_forward c ld entry dn i exp s =
     (case (case ldap_gmailfwdattr ld of None \<Rightarrow> None | Some a \<Rightarrow> ldap_get_values entry a) of
        None \<Rightarrow> Inr (Go (False, False) exp s)
      | Some vals \<Rightarrow>
          (if e_n_exp_level (exp_env exp) < simta_exp_level_max c then
             (case values_envelope c (Some (e_addr_from (exp_addrs exp ! i))) vals exp s of
                (None, s1) \<Rightarrow> Inr (Stop LDAP_SYSERROR exp s1)
              | (Some env, s1) \<Rightarrow>
                  (if e_rcpt env = [] then Inl NullDeref
                   else Inr (Go (False, True) (upd_addr i (\<lambda>e. e\<lparr>e_addr_env_gmailfwd := Some env\<rparr>)
                          (exp\<lparr>exp_gmailfwding := i # exp_gmailfwding exp\<rparr>)) s1)))
           else and_then (error_text (e_addr_errors (exp_addrs exp ! i)) TEXT_ERROR ''group mail audit loop: '' (Some dn) None exp s)
             (\<lambda>(_, exp1, s1). Inr (Go (True, False) exp1 s1))))"

text \<open>Is one of the addresses in the values the sender's?\<close>

fun permitted_scan :: "simta_ldap \<Rightarrow> string option \<Rightarrow> string list \<Rightarrow> 'a sys_scheme \<Rightarrow> bool option \<times> 'a sys_scheme" where
  "permitted_scan ld mail [] s = (Some False, s)"
| "permitted_scan ld mail (v # vs) s =
     (let (malloc_ok, s1) = outcome s; (strdup_ok, s2) = (if malloc_ok then outcome s1 else (False, s1))
      in case string_address_init malloc_ok strdup_ok v of
           None \<Rightarrow> (None, s2)
         | Some sa \<Rightarrow>
             (if \<exists>a\<in>set (string_addresses sa). simta_mbx_compare (ldap_ndomain ld) (Some a) mail = 0 then (Some True, s2)
              else permitted_scan ld mail vs s2))"

text \<open>Whether only members may write, and whether the sender may anyway.\<close>

definition group_memonly :: "simta_ldap \<Rightarrow> ldap_entry \<Rightarrow> expand \<Rightarrow> 'a sys_scheme \<Rightarrow> (bool \<times> bool, 'a sys_scheme) group_step run" where
  "group_memonly ld entry exp s =
     and_then (is_true entry ''membersonly'') (\<lambda>memonly.
       if \<not> memonly then Inr (Go (False, False) exp s)
       else
         (case (if e_mail (exp_env exp) = None \<or> e_mail (exp_env exp) = Some [] then None
                else ldap_get_values entry ''permitted_sender'') of
            None \<Rightarrow> Inr (Go (True, False) exp s)
          | Some senderlist \<Rightarrow>
              (case permitted_scan ld (e_mail (exp_env exp)) senderlist s of
                 (None, s1) \<Rightarrow> Inr (Stop LDAP_SYSERROR exp s1)
               | (Some permitted, s1) \<Rightarrow> Inr (Go (\<not> permitted, permitted) exp s1))))"

text \<open>
  The moderators: whether the group ends here, whether none of them is good, and whether \<open>r\<close>
  points to a recipient behind it, which means that the sender is one of them.
\<close>

definition group_moderator :: "exp_conf \<Rightarrow> simta_ldap \<Rightarrow> ldap_entry \<Rightarrow> string \<Rightarrow> bool \<Rightarrow> bool \<Rightarrow> nat \<Rightarrow> expand \<Rightarrow>
  'a env_state_scheme \<Rightarrow> (bool \<times> bool \<times> bool, 'a env_state_scheme) group_step run" where
  "group_moderator c ld entry dn permitted r i exp s =
     (case (if permitted then None else ldap_get_values entry ''moderator'') of
        None \<Rightarrow> Inr (Go (False, False, r) exp s)
      | Some vals \<Rightarrow>
          (if e_n_exp_level (exp_env exp) < simta_exp_level_max c then
             (case values_envelope c (e_mail (exp_env exp)) vals exp s of
                (None, s1) \<Rightarrow> Inr (Stop LDAP_SYSERROR exp s1)
              | (Some env, s1) \<Rightarrow>
                  (if e_rcpt env = [] then
                     and_then (error_text (e_addr_errors (exp_addrs exp ! i)) TEXT_ERROR ''bad moderator: '' (Some dn) None exp
                         (env_free (Some env) s1))
                       (\<lambda>(_, exp1, s2). Inr (Go (False, True, False) exp1 s2))
                   else Inr (Go (False, False,
                          \<exists>q\<in>set (e_rcpt env). simta_mbx_compare (ldap_ndomain ld) (Some (r_rcpt q)) (e_mail (exp_env exp)) = 0)
                        (upd_addr i (\<lambda>e. e\<lparr>e_addr_env_moderated := Some env\<rparr>) exp) s1)))
           else and_then (error_text (e_addr_errors (exp_addrs exp ! i)) TEXT_ERROR ''moderator mail loop: '' (Some dn) None exp s)
             (\<lambda>(_, exp1, s1). Inr (Go (True, False, r) exp1 s1))))"

fun permitted_insert :: "string list \<Rightarrow> string stab \<Rightarrow> 'a sys_scheme \<Rightarrow> (bool \<times> string stab \<times> 'a sys_scheme) run" where
  "permitted_insert [] ok s = Inr (True, ok, s)"
| "permitted_insert (p # ps) ok s =
     and_then (dn_normalize_case p) (\<lambda>d.
       let (strdup_ok, s1) = outcome s
       in if \<not> strdup_ok then Inr (False, ok, s1)
          else
            (let (malloc_ok, s2) = outcome s1
             in case ll_insert ok d (Some d) None malloc_ok of
                  (rc, ok1) \<Rightarrow> if rc \<noteq> 0 then Inr (False, ok1, s2) else permitted_insert ps ok1 s2))"

definition permitted_create :: "nat \<Rightarrow> string list \<Rightarrow> expand \<Rightarrow> 'a sys_scheme \<Rightarrow> (int \<times> expand \<times> 'a sys_scheme) run" where
  "permitted_create i permitted exp s =
     and_then (permitted_insert permitted (e_addr_ok (exp_addrs exp ! i)) s)
       (\<lambda>(fine, ok, s1). Inr (if fine then 0 else 1, upd_addr i (\<lambda>e. e\<lparr>e_addr_ok := ok\<rparr>) exp, s1))"

text \<open>
  What follows from it: the sender is a moderator (or so it seems when \<open>r\<close> was left by the
  forwarding), or the group is for members only.
\<close>

definition group_policy :: "ldap_entry \<Rightarrow> bool \<Rightarrow> bool \<Rightarrow> bool \<Rightarrow> nat \<Rightarrow> expand \<Rightarrow> 'a env_state_scheme \<Rightarrow>
  (unit, 'a env_state_scheme) group_step run" where
  "group_policy entry mo_group permitted r i exp s =
     (if r then Inr (Go () (upd_addr i (\<lambda>e. e\<lparr>e_addr_env_moderated := None\<rparr>) exp)
          (env_free (e_addr_env_moderated (exp_addrs exp ! i)) s))
      else if \<not> mo_group \<or> permitted then Inr (Go () exp s)
      else and_then (is_true entry ''rfc822private'') (\<lambda>private.
        let exp1 = upd_addr i (\<lambda>e. mark STATUS_LDAP_MEMONLY (if private then mark STATUS_LDAP_PRIVATE e else e)) exp
        in case exp_addr_link (exp_memonly exp1) i s of
             (link_ok, links, s1) \<Rightarrow>
               (let exp2 = exp1\<lparr>exp_memonly := links\<rparr>
                in if \<not> link_ok then Inr (Stop LDAP_SYSERROR exp2 s1)
                   else (case ldap_get_values entry ''permittedgroup'' of
                       None \<Rightarrow> Inr (Go () exp2 s1)
                     | Some vals \<Rightarrow> and_then (permitted_create i vals exp2 s1)
                         (\<lambda>(rc, exp3, s2). Inr (if rc \<noteq> 0 then Stop LDAP_SYSERROR exp3 s2 else Go () exp3 s2))))))"

text \<open>The names and the addresses of the members.\<close>

definition group_members :: "exp_conf \<Rightarrow> simta_ldap \<Rightarrow> ldap_entry \<Rightarrow> string \<Rightarrow> bool \<Rightarrow> nat \<Rightarrow> expand \<Rightarrow> 'a env_state_scheme \<Rightarrow>
  (string list option \<times> string list option, 'a env_state_scheme) group_step run" where
  "group_members c ld entry dn suppressnoemail i exp s =
     and_go (group_forward c ld entry dn i exp s) (\<lambda>(over, r) exp1 s1.
       if over then Inr (Go (None, None) exp1 s1)
       else and_go (group_memonly ld entry exp1 s1) (\<lambda>(mo_group, permitted) exp2 s2.
         and_go (group_moderator c ld entry dn permitted r i exp2 s2) (\<lambda>(over2, moderator_error, r2) exp3 s3.
           if over2 then Inr (Go (None, None) exp3 s3)
           else and_go (group_policy entry mo_group permitted r2 i exp3 s3) (\<lambda>_ exp4 s4.
             let e = exp_addrs exp4 ! i;
                 all = ((e_addr_env_moderated e = None \<and> \<not> moderator_error) \<or> has_flag (e_addr_ldap_flags e) STATUS_LDAP_MEMONLY);
                 exp5 = (if suppressnoemail
                   then upd_error (e_addr_errors e) (\<lambda>env. env\<lparr>e_flags := set_flag (e_flags env) ENV_FLAG_SUPRESS_NO_EMAIL\<rparr>) exp4
                   else exp4)
             in Inr (Go (if all then (ldap_get_values entry ''member'', ldap_get_values entry ''rfc822mail'') else (None, None)) exp5 s4)))))"

text \<open>
  What is expanded, and what to say when there is nothing.  The addresses of a group's errors
  and requests are its owners' when it has none.
\<close>

definition group_values :: "exp_conf \<Rightarrow> simta_ldap \<Rightarrow> ldap_entry \<Rightarrow> string \<Rightarrow> bool \<Rightarrow> int \<Rightarrow> nat \<Rightarrow> expand \<Rightarrow>
  'a env_state_scheme \<Rightarrow> (string list option \<times> string list option \<times> string option, 'a env_state_scheme) group_step run" where
  "group_values c ld entry dn suppressnoemail t i exp s =
     (let vals = ldap_get_values entry;
          or_owner = (\<lambda>dnvals mailvals. if dnvals = None \<and> mailvals = None then vals ''owner'' else dnvals)
      in if t = LDS_GROUP_ERRORS then
           Inr (Go (or_owner (vals ''errorsto'') (vals ''rfc822errorsto''), vals ''rfc822errorsto'',
             Some ('': Group exists but has no errors-to address'' @ [NL])) exp s)
         else if t = LDS_GROUP_REQUEST then
           Inr (Go (or_owner (vals ''requeststo'') (vals ''rfc822requeststo''), vals ''rfc822requeststo'',
             Some ('': Group exists but has no requests-to address'' @ [NL])) exp s)
         else if t = LDS_GROUP_OWNER then
           Inr (Go (vals ''owner'', None, Some ('': Group exists but has no owners'' @ [NL])) exp s)
         else and_go (group_members c ld entry dn suppressnoemail i exp s)
           (\<lambda>(dnvals, mailvals) exp1 s1. Inr (Go (dnvals, mailvals, None) exp1 s1)))"

text \<open>The first value that cannot be added ends its list, and nothing more comes of it.\<close>

fun add_members :: "exp_conf \<Rightarrow> string list \<Rightarrow> string \<Rightarrow> nat \<Rightarrow> expand \<Rightarrow> 'a q_state_scheme \<Rightarrow> (expand \<times> 'a q_state_scheme) run" where
  "add_members c [] from i exp s = Inr (exp, s)"
| "add_members c (v # vs) from i exp s =
     and_then (dn_normalize_case v) (\<lambda>ndn.
       and_then (add_address c exp ndn (e_addr_errors (exp_addrs exp ! i)) ADDRESS_TYPE_LDAP (Some from) s)
         (\<lambda>(rc, exp1, s1). if rc \<noteq> 0 then Inr (exp1, s1) else add_members c vs from i exp1 s1))"

fun add_mail_members :: "exp_conf \<Rightarrow> string list \<Rightarrow> string \<Rightarrow> nat \<Rightarrow> expand \<Rightarrow> 'a q_state_scheme \<Rightarrow> (expand \<times> 'a q_state_scheme) run" where
  "add_mail_members c [] from i exp s = Inr (exp, s)"
| "add_mail_members c (v # vs) from i exp s =
     (if CHR ''@'' \<notin> set v then add_mail_members c vs from i exp s
      else and_then (address_string_recipients c exp v i (Some from) s)
        (\<lambda>(rc, exp1, s1). if rc \<noteq> 0 then Inr (exp1, s1) else add_mail_members c vs from i exp1 s1))"

definition simta_ldap_expand_group :: "exp_conf \<Rightarrow> simta_ldap \<Rightarrow> expand \<Rightarrow> nat \<Rightarrow> int \<Rightarrow> ldap_entry \<Rightarrow>
  'a q_state_scheme \<Rightarrow> (int \<times> expand \<times> 'a q_state_scheme) run" where
  "simta_ldap_expand_group c ld exp i t entry s =
     and_then
       (and_go (group_dn entry i exp s) (\<lambda>dn exp1 s1.
          and_then (is_true entry ''suppressNoEmailError'') (\<lambda>suppressnoemail.
          and_go (group_owner ld entry i exp1 s1) (\<lambda>rdn exp2 s2.
          and_go (group_sender c ld rdn i exp2 s2) (\<lambda>senderbuf exp3 s3.
          and_go (group_values c ld entry dn suppressnoemail t i exp3 s3) (\<lambda>(dnvals, mailvals, errmsg) exp4 s4.
            let from = (\<lambda>exp. if t = LDS_GROUP_MEMBERS \<or> t = LDS_USER then senderbuf else e_addr_from (exp_addrs exp ! i))
            in and_then (add_members c (case dnvals of None \<Rightarrow> [] | Some vs \<Rightarrow> vs) (from exp4) i exp4 s4) (\<lambda>(exp5, s5).
               and_then (add_mail_members c (case mailvals of None \<Rightarrow> [] | Some vs \<Rightarrow> vs) (from exp5) i exp5 s5) (\<lambda>(exp6, s6).
                 if dnvals = None \<and> mailvals = None \<and> errmsg \<noteq> None
                 then and_then (error_text (e_addr_errors (exp_addrs exp6 ! i)) TEXT_ERROR dn errmsg None exp6 s6)
                        (\<lambda>(_, exp7, s7). Inr (Go () exp7 s7))
                 else Inr (Go () exp6 s6)))))))))
       (\<lambda>r. case r of Stop rc exp1 s1 \<Rightarrow> Inr (rc, exp1, s1) | Go _ exp1 s1 \<Rightarrow> Inr (LDAP_EXCLUDE, exp1, s1))"

subsection \<open>People\<close>

fun forward_addresses :: "exp_conf \<Rightarrow> string list \<Rightarrow> nat \<Rightarrow> expand \<Rightarrow> 'a q_state_scheme \<Rightarrow> (bool \<times> expand \<times> 'a q_state_scheme) run" where
  "forward_addresses c [] i exp s = Inr (True, exp, s)"
| "forward_addresses c (v # vs) i exp s =
     and_then (address_string_recipients c exp v i (Some (e_addr_from (exp_addrs exp ! i))) s)
       (\<lambda>(rc, exp1, s1). if rc \<noteq> 0 then Inr (False, exp1, s1) else forward_addresses c vs i exp1 s1)"

definition note_sender :: "simta_ldap \<Rightarrow> ldap_entry \<Rightarrow> nat \<Rightarrow> expand \<Rightarrow> expand run" where
  "note_sender ld entry i exp =
     (case ldap_get_values entry (ldap_mailattr ld) of
        None \<Rightarrow> Inr exp
      | Some vals \<Rightarrow> Inr
          (if simta_mbx_compare (ldap_ndomain ld) (case vals of [] \<Rightarrow> None | v # _ \<Rightarrow> Some v) (e_mail (exp_env exp)) = 0
           then upd_addr i (mark STATUS_EMAIL_SENDER) exp else exp))"

text \<open>Who is on vacation gets a copy at the vacation host; it may be lost.\<close>

definition vacation_copy :: "exp_conf \<Rightarrow> simta_ldap \<Rightarrow> ldap_entry \<Rightarrow> nat \<Rightarrow> expand \<Rightarrow> 'a q_state_scheme \<Rightarrow>
  (expand \<times> 'a q_state_scheme) run" where
  "vacation_copy c ld entry i exp s =
     (case (ldap_vacationhost ld, ldap_vacationattr ld) of
        (Some host, Some attr) \<Rightarrow>
          and_then (is_true entry attr) (\<lambda>away.
            case (if away then ldap_get_values entry ''uid'' else None) of
              None \<Rightarrow> Inr (exp, s)
            | Some uid \<Rightarrow>
                and_then (first_value uid) (\<lambda>u.
                  and_then (add_address c exp (take 1023 (u @ ''@'' @ host)) (e_addr_errors (exp_addrs exp ! i)) ADDRESS_TYPE_EMAIL
                      (Some (e_addr_from (exp_addrs exp ! i))) s)
                    (\<lambda>(_, exp1, s1). Inr (exp1, s1))))
      | _ \<Rightarrow> Inr (exp, s))"

definition expand_person :: "exp_conf \<Rightarrow> simta_ldap \<Rightarrow> expand \<Rightarrow> nat \<Rightarrow> ldap_entry \<Rightarrow> string \<Rightarrow> 'a q_state_scheme \<Rightarrow>
  (int \<times> expand \<times> 'a q_state_scheme) run" where
  "expand_person c ld exp i entry addr s =
     (let e = exp_addrs exp ! i
      in case ldap_get_values entry (ldap_mailfwdattr ld) of
           None \<Rightarrow>
             (if e_addr_type e \<noteq> ADDRESS_TYPE_LDAP
              then and_then (do_noemail (e_addr_errors e) addr entry exp s) (\<lambda>(exp1, s1). Inr (LDAP_EXCLUDE, exp1, s1))
              else if has_flag (e_flags (exp_errors exp ! e_addr_errors e)) ENV_FLAG_SUPRESS_NO_EMAIL
              then Inr (LDAP_EXCLUDE, exp, s)
              else and_then (error_text (e_addr_errors e) TEXT_ERROR addr
                    (Some '' : Group member exists but does not have an email address'') (Some [NL]) exp s)
                  (\<lambda>(rc, exp1, s1). Inr (if rc \<noteq> 0 then LDAP_SYSERROR else LDAP_EXCLUDE, exp1, s1)))
         | Some vals \<Rightarrow>
             and_then (forward_addresses c vals i exp s) (\<lambda>(ok, exp1, s1).
               if \<not> ok then Inr (LDAP_SYSERROR, exp1, s1)
               else and_then (note_sender ld entry i exp1) (\<lambda>exp2.
                 and_then (vacation_copy c ld entry i exp2 s1) (\<lambda>(exp3, s2). Inr (LDAP_EXCLUDE, exp3, s2)))))"

definition simta_ldap_process_entry :: "exp_conf \<Rightarrow> simta_ldap \<Rightarrow> expand \<Rightarrow> nat \<Rightarrow> int \<Rightarrow> ldap_entry \<Rightarrow> string \<Rightarrow>
  'a q_state_scheme \<Rightarrow> (int \<times> expand \<times> 'a q_state_scheme) run" where
  "simta_ldap_process_entry c ld exp i t entry addr s =
     (if ldap_groups ld \<noteq> [] \<and> simta_ldap_value entry ''objectClass'' (ldap_groups ld)
      then simta_ldap_expand_group c ld exp i t entry s
      else if ldap_people ld \<noteq> [] \<and> simta_ldap_value entry ''objectClass'' (ldap_people ld)
      then expand_person c ld exp i entry addr s
      else and_then (error_text (e_addr_errors (exp_addrs exp ! i)) TEXT_ERROR addr
              (Some '' : Entry exists but is neither a group or person'') None exp s)
          (\<lambda>(_, exp1, s1). Inr (LDAP_EXCLUDE, exp1, s1)))"

subsection \<open>Searches\<close>

text \<open>
  One search, made again on a new connection when the server has gone; the first argument says
  how often that may still be done.
\<close>

datatype search_result = Found nat "ldap_entry list" | Ended int | NothingYet nat

fun one_search :: "nat \<Rightarrow> string \<Rightarrow> string \<times> string \<Rightarrow> 'a exp_state_scheme \<Rightarrow> search_result \<times> 'a exp_state_scheme" where
  "one_search retries ld q s =
     (let (a, s1) = ldap_search (fst q) (snd q) s
      in if la_rc a = LDAP_FILTER_ERROR \<or> la_rc a = LDAP_NO_SUCH_OBJECT then (Ended LDAP_NOT_FOUND, s1)
         else if la_rc a = LDAP_SERVER_DOWN then
           (case retries of
              0 \<Rightarrow> (Ended LDAP_SYSERROR, s1)
            | Suc n \<Rightarrow>
                (let (rc, s2) = simta_ldap_retry ld s1
                 in if rc \<noteq> 0 then (Ended LDAP_SYSERROR, s2) else one_search n ld q s2))
         else if la_rc a \<noteq> LDAP_SUCCESS \<and> la_rc a \<noteq> LDAP_SIZELIMIT_EXCEEDED \<and> la_rc a \<noteq> LDAP_TIMELIMIT_EXCEEDED
         then (Ended LDAP_SYSERROR, s1)
         else if \<not> la_parsed a then (Ended LDAP_SYSERROR, s1)
         else if la_entries a \<noteq> [] then (Found retries (la_entries a), s1)
         else if la_rc a = LDAP_TIMELIMIT_EXCEEDED then (Ended LDAP_SYSERROR, s1)
         else (NothingYet retries, s1))"

declare one_search.simps [simp del]

text \<open>The searches of a kind, one after the other, until one finds something.\<close>

fun all_searches :: "string \<Rightarrow> string \<Rightarrow> string \<Rightarrow> int \<Rightarrow> nat \<Rightarrow> ldap_search_list list \<Rightarrow> 'a exp_state_scheme \<Rightarrow>
  ((ldap_search_list \<times> ldap_entry list) + int) \<times> 'a exp_state_scheme" where
  "all_searches ld user domain addrtype retries [] s = (Inr LDAP_NOT_FOUND, s)"
| "all_searches ld user domain addrtype retries (lds # more_lds) s =
     (if and (lds_search_type lds) addrtype = 0 then all_searches ld user domain addrtype retries more_lds s
      else
        (let (malloc_ok, s1) = outcome s
         in if \<not> malloc_ok then (Inr LDAP_SYSERROR, s1)
            else (case one_search retries ld (lud_dn lds, simta_ldap_string (lud_filter lds) user domain) s1 of
                (Ended rc, s2) \<Rightarrow> (Inr rc, s2)
              | (Found _ es, s2) \<Rightarrow> (Inl (lds, es), s2)
              | (NothingYet n, s2) \<Rightarrow> all_searches ld user domain addrtype n more_lds s2)))"

text \<open>
  Of several entries the ones whose name starts with what was asked for are meant, where a
  search says so: one of them is the address.  Otherwise the user is ambiguous; then the
  entries that are left are listed, without those that were picked.
\<close>

definition meant :: "string \<Rightarrow> ldap_entry list \<Rightarrow> (ldap_entry list \<times> ldap_entry list) run" where
  "meant addr es =
     (if \<exists>e\<in>set es. le_rdns e = [] then Inl NullDeref
      else (let by_name = (\<lambda>e. strcasecmp (hd (le_rdns e)) addr = 0) in Inr (filter by_name es, filter (\<lambda>e. \<not> by_name e) es)))"

definition simta_ldap_name_search :: "exp_conf \<Rightarrow> string \<Rightarrow> simta_ldap \<Rightarrow> expand \<Rightarrow> nat \<Rightarrow> string \<Rightarrow> string \<Rightarrow> int \<Rightarrow>
  'a exp_state_scheme \<Rightarrow> (int \<times> expand \<times> 'a exp_state_scheme) run" where
  "simta_ldap_name_search c name ld exp i addr domain addrtype s =
     (case all_searches name addr domain addrtype MAXRETRIES (ldap_searches ld) s of
        (Inr rc, s1) \<Rightarrow> Inr (rc, exp, s1)
      | (Inl (lds, es), s1) \<Rightarrow>
          (let ambiguous = (\<lambda>res. and_then (do_ambiguous ld (e_addr_errors (exp_addrs exp ! i)) addr res exp s1)
             (\<lambda>(exp1, s2). Inr (LDAP_EXCLUDE, exp1, s2)))
           in case es of
                [entry] \<Rightarrow> simta_ldap_process_entry c ld exp i addrtype entry addr s1
              | _ \<Rightarrow>
                  (if \<not> lds_rdn_pref lds then ambiguous es
                   else and_then (meant addr es) (\<lambda>(tmpres, res). case tmpres of
                       [entry] \<Rightarrow> simta_ldap_process_entry c ld exp i addrtype entry addr s1
                     | _ \<Rightarrow> ambiguous res))))"

definition simta_ldap_dn_expand :: "exp_conf \<Rightarrow> simta_ldap \<Rightarrow> expand \<Rightarrow> nat \<Rightarrow> 'a exp_state_scheme \<Rightarrow>
  (int \<times> expand \<times> 'a exp_state_scheme) run" where
  "simta_ldap_dn_expand c ld exp i s =
     (let search_dn = e_addr (exp_addrs exp ! i); (a, s1) = ldap_search search_dn ''(objectclass=*)'' s
      in if la_rc a \<noteq> LDAP_SUCCESS \<and> la_rc a \<noteq> LDAP_SIZELIMIT_EXCEEDED \<and> la_rc a \<noteq> LDAP_TIMELIMIT_EXCEEDED \<and>
            la_rc a \<noteq> LDAP_NO_SUCH_OBJECT then Inr (LDAP_SYSERROR, exp, s1)
         else if \<not> la_parsed a then Inr (LDAP_SYSERROR, exp, s1)
         else (case la_entries a of
             [] \<Rightarrow> and_then (error_text (e_addr_errors (exp_addrs exp ! i)) TEXT_ERROR search_dn
                       (Some '' : Group member does not exist'') None exp s1)
                     (\<lambda>(rc, exp1, s2). Inr (if rc \<noteq> 0 then LDAP_SYSERROR else LDAP_EXCLUDE, exp1, s2))
           | entry # _ \<Rightarrow> simta_ldap_process_entry c ld exp i LDS_USER entry search_dn s1))"

subsection \<open>An address, by its name or by the name of its entry\<close>

definition unquoted :: "bool \<Rightarrow> string \<Rightarrow> string" where
  "unquoted malloc_ok name = (case simta_ldap_dequote malloc_ok name of None \<Rightarrow> name | Some dq \<Rightarrow> dq)"

definition simta_ldap_expand :: "exp_conf \<Rightarrow> string \<Rightarrow> expand \<Rightarrow> nat \<Rightarrow> 'a exp_state_scheme \<Rightarrow>
  (int \<times> expand \<times> 'a exp_state_scheme) run" where
  "simta_ldap_expand c name exp i s =
     (let ld = simta_ldaps c name; e = exp_addrs exp ! i; (rc, s1) = (if name \<in> set (ldaps_up s) then (0, s) else simta_ldap_init name s)
      in if rc \<noteq> 0 then Inr (rc, exp, s1)
         else if e_addr_type e = ADDRESS_TYPE_LDAP then simta_ldap_dn_expand c ld exp i s1
         else (case e_addr_at e of
             None \<Rightarrow> Inl Panicked
           | Some at \<Rightarrow>
               (let (strdup_ok, s2) = outcome s1
                in if \<not> strdup_ok then Inr (LDAP_SYSERROR, exp, s2)
                   else
                     (let local = take at (e_addr e); (malloc_ok, s3) = (if starts (CHR 0x22) local then outcome s2 else (True, s2));
                          (nametype, asked) = simta_address_type (blank (unquoted malloc_ok local))
                      in simta_ldap_name_search c name ld exp i asked (drop (Suc at) (e_addr e)) nametype s3))))"

text \<open>Whether there is such an address, and whether it wants a block list to be asked.\<close>

fun local_searches :: "string \<Rightarrow> string \<Rightarrow> ldap_search_list list \<Rightarrow> 'a exp_state_scheme \<Rightarrow>
  (ldap_entry option + int) run \<times> 'a exp_state_scheme" where
  "local_searches user domain [] s = (Inr (Inl None), s)"
| "local_searches user domain (lds # more_lds) s =
     (let (malloc_ok, s1) = outcome s
      in if \<not> malloc_ok then (Inr (Inr LDAP_SYSERROR), s1)
         else
           (let (a, s2) = ldap_search (lud_dn lds) (simta_ldap_string (lud_filter lds) user domain) s1
            in if la_rc a \<noteq> LDAP_SUCCESS \<and> la_rc a \<noteq> LDAP_SIZELIMIT_EXCEEDED then (Inr (Inr LDAP_SYSERROR), s2)
               else if \<not> la_parsed a then (Inl NullDeref, s2)
               else (case la_entries a of
                   [] \<Rightarrow> local_searches user domain more_lds s2
                 | entry # _ \<Rightarrow> (Inr (Inl (Some entry)), s2))))"

definition simta_ldap_address_local :: "exp_conf \<Rightarrow> string \<Rightarrow> string \<Rightarrow> string \<Rightarrow> 'a exp_state_scheme \<Rightarrow>
  (int \<times> 'a exp_state_scheme) run" where
  "simta_ldap_address_local c ldname name domain s =
     (let ld = simta_ldaps c ldname; (rc, s1) = (if ldname \<in> set (ldaps_up s) then (0, s) else simta_ldap_init ldname s)
      in if rc \<noteq> 0 then Inr (rc, s1)
         else
           (let (malloc_ok, s2) = (if starts (CHR 0x22) name then outcome s1 else (True, s1));
                (found, s3) = local_searches (snd (simta_address_type (blank (unquoted malloc_ok name)))) domain (ldap_searches ld) s2
            in and_then found (\<lambda>r. case r of
                Inr rc1 \<Rightarrow> Inr (rc1, s3)
              | Inl None \<Rightarrow> Inr (LDAP_NOT_LOCAL, s3)
              | Inl (Some entry) \<Rightarrow>
                  and_then (is_true entry ''realtimeblocklist'') (\<lambda>rbl. Inr
                    (if ldap_people ld \<noteq> [] \<and> simta_ldap_value entry ''objectClass'' (ldap_people ld) \<and>
                        ldap_get_values entry ''mailforwardingaddress'' = None then LDAP_NOT_LOCAL
                     else if rbl then LDAP_LOCAL_RBL else LDAP_LOCAL, s3)))))"

end
