(* ===== verification/AddressExpand.thy ===== *)
theory AddressExpand
  imports LdapExpand
begin

section \<open>The expansion of one address, and of all of them: address.c, expand.c\<close>

subsection \<open>One address\<close>

text \<open>
  The actions of a host, one after the other: a result, or None when no action knows the
  address.  An LDAP action is passed over when the address has no domain.
\<close>

fun expand_actions :: "exp_conf \<Rightarrow> nat \<Rightarrow> action list \<Rightarrow> expand \<Rightarrow> 'a exp_state_scheme \<Rightarrow>
  (int option \<times> expand \<times> 'a exp_state_scheme) run" where
  "expand_actions c i [] exp s = Inr (None, exp\<lparr>exp_current_action := None\<rparr>, s)"
| "expand_actions c i (a # as) exp s =
     (let exp1 = exp\<lparr>exp_current_action := Some a\<rparr>
      in if a_action a = EXPANSION_TYPE_ALIAS then
           and_then (alias_expand c exp1 i a s) (\<lambda>(rc, exp2, s1).
             if rc = ALIAS_EXCLUDE then Inr (Some ADDRESS_EXCLUDE, exp2, s1)
             else if rc = ALIAS_NOT_FOUND then expand_actions c i as exp2 s1
             else if rc = ALIAS_SYSERROR then Inr (Some ADDRESS_SYSERROR, exp2, s1) else Inl Panicked)
         else if a_action a = EXPANSION_TYPE_PASSWORD then
           and_then (password_expand c exp1 i a s) (\<lambda>(rc, exp2, s1).
             if rc = PASSWORD_EXCLUDE then Inr (Some ADDRESS_EXCLUDE, exp2, s1)
             else if rc = PASSWORD_FINAL then Inr (Some ADDRESS_FINAL, exp2, s1)
             else if rc = PASSWORD_NOT_FOUND then expand_actions c i as exp2 s1
             else if rc = PASSWORD_SYSERROR then Inr (Some ADDRESS_SYSERROR, exp2, s1) else Inl Panicked)
         else if a_action a = EXPANSION_TYPE_LDAP then
           (if e_addr_at (exp_addrs exp1 ! i) = None then expand_actions c i as exp1 s
            else case a_fname a of
                None \<Rightarrow> Inl NullDeref
              | Some ld \<Rightarrow> and_then (simta_ldap_expand c ld exp1 i s) (\<lambda>(rc, exp2, s1).
                  if rc = LDAP_EXCLUDE then Inr (Some ADDRESS_EXCLUDE, exp2, s1)
                  else if rc = LDAP_FINAL then Inr (Some ADDRESS_FINAL, exp2, s1)
                  else if rc = LDAP_NOT_FOUND then expand_actions c i as exp2 s1
                  else if rc = LDAP_SYSERROR then Inr (Some ADDRESS_SYSERROR, exp2, s1) else Inl Panicked))
         else Inl Panicked)"

text \<open>Data of a directory is looked up where its parent was, and nowhere else.\<close>

definition expand_dn :: "exp_conf \<Rightarrow> nat \<Rightarrow> expand \<Rightarrow> 'a exp_state_scheme \<Rightarrow>
  (int option \<times> expand \<times> 'a exp_state_scheme) run" where
  "expand_dn c i exp s =
     (let exp1 = exp\<lparr>exp_current_action := e_addr_parent_action (exp_addrs exp ! i)\<rparr>
      in case exp_current_action exp1 of
           None \<Rightarrow> Inl NullDeref
         | Some a \<Rightarrow>
             (case a_fname a of
                None \<Rightarrow> Inl NullDeref
              | Some ld \<Rightarrow> and_then (simta_ldap_expand c ld exp1 i s) (\<lambda>(rc, exp2, s1).
                  if rc = LDAP_EXCLUDE then Inr (Some ADDRESS_EXCLUDE, exp2, s1)
                  else if rc = LDAP_FINAL then Inr (Some ADDRESS_FINAL, exp2, s1)
                  else if rc = LDAP_NOT_FOUND then Inr (None, exp2, s1)
                  else if rc = LDAP_SYSERROR then Inr (Some ADDRESS_SYSERROR, exp2, s1) else Inl Panicked)))"

text \<open>A postmaster that nobody knows is dead; others are told about.\<close>

definition address_not_found :: "nat \<Rightarrow> expand \<Rightarrow> 'a sys_scheme \<Rightarrow> (int \<times> expand \<times> 'a sys_scheme) run" where
  "address_not_found i exp s =
     (let e = exp_addrs exp ! i
      in if (case e_addr_at e of None \<Rightarrow> True | Some at \<Rightarrow> strcasecmp (take at (e_addr e)) STRING_POSTMASTER = 0)
         then Inr (ADDRESS_FINAL, upd_addr i (\<lambda>e. e\<lparr>e_addr_type := ADDRESS_TYPE_DEAD\<rparr>) exp, s)
         else and_then (error_text (e_addr_errors e) TEXT_ERROR ''address not found: '' (Some (e_addr e)) None exp s)
           (\<lambda>(rc, exp1, s1). Inr (if rc \<noteq> 0 then ADDRESS_SYSERROR else ADDRESS_EXCLUDE, exp1, s1)))"

definition local_actions :: "exp_conf \<Rightarrow> exp_addr \<Rightarrow> 'a exp_state_scheme \<Rightarrow> ((int + action list) \<times> 'a exp_state_scheme) run" where
  "local_actions c e s =
     (case e_addr_at e of
        None \<Rightarrow> (case simta_default_host c of None \<Rightarrow> Inl NullDeref | Some red \<Rightarrow> Inr (Inr (red_expand red), s))
      | Some at \<Rightarrow>
          (let domain = drop (Suc at) (e_addr e)
           in if SIMTA_MAX_HOST_NAME_LEN < length domain then Inr (Inl ADDRESS_SYSERROR, s)
              else and_then (host_local (x_conf c) domain s) (\<lambda>(red, s1). Inr (case red of
                  None \<Rightarrow> (Inl ADDRESS_FINAL, s1)
                | Some r \<Rightarrow> (if red_host_type r = RED_HOST_TYPE_SECONDARY_MX \<or> red_expand r = [] then Inl ADDRESS_FINAL
                     else Inr (red_expand r), s1)))))"

definition address_expand :: "exp_conf \<Rightarrow> nat \<Rightarrow> expand \<Rightarrow> 'a exp_state_scheme \<Rightarrow> (int \<times> expand \<times> 'a exp_state_scheme) run" where
  "address_expand c i exp s =
     (let e = exp_addrs exp ! i;
          settle = (\<lambda>(rc, exp1, s1). case rc of None \<Rightarrow> address_not_found i exp1 s1 | Some r \<Rightarrow> Inr (r, exp1, s1))
      in if e_addr_type e = ADDRESS_TYPE_EMAIL then
           and_then (local_actions c e s) (\<lambda>(r, s1). case r of
               Inl rc \<Rightarrow> Inr (rc, exp, s1)
             | Inr actions \<Rightarrow> and_then (expand_actions c i actions exp s1) settle)
         else if e_addr_type e = ADDRESS_TYPE_LDAP then and_then (expand_dn c i exp s) settle
         else Inl Panicked)"

subsection \<open>All the addresses\<close>

text \<open>The addresses that came with the message.\<close>

fun add_originals :: "exp_conf \<Rightarrow> nat \<Rightarrow> recipient list \<Rightarrow> expand \<Rightarrow> 'a q_state_scheme \<Rightarrow>
  (bool \<times> expand \<times> 'a q_state_scheme) run" where
  "add_originals c k [] exp s = Inr (True, exp, s)"
| "add_originals c k (rcpt # rcpts) exp s =
     and_then (add_address c exp (r_rcpt rcpt) k ADDRESS_TYPE_EMAIL (e_mail (exp_env exp)) s)
       (\<lambda>(rc, exp1, s1). if rc \<noteq> 0 then Inr (False, exp1, s1) else add_originals c k rcpts exp1 s1)"

definition behind :: "nat \<Rightarrow> nat list \<Rightarrow> nat option" where
  "behind i is = (case tl (dropWhile (\<lambda>j. j \<noteq> i) is) of [] \<Rightarrow> None | j # _ \<Rightarrow> Some j)"

definition list_head :: "nat list \<Rightarrow> nat option" where
  "list_head is = (case is of [] \<Rightarrow> None | j # _ \<Rightarrow> Some j)"

text \<open>
  The loop over the list, which grows as it goes; so many addresses at most, and None when
  that was not enough.  True when all of them are expanded.
\<close>

fun exp_walk :: "nat \<Rightarrow> exp_conf \<Rightarrow> expand \<Rightarrow> 'a exp_state_scheme \<Rightarrow> (bool option \<times> expand \<times> 'a exp_state_scheme) run" where
  "exp_walk n c exp s =
     (case exp_addr_cursor exp of
        None \<Rightarrow> Inr (Some True, exp, s)
      | Some i \<Rightarrow>
          (case n of
             0 \<Rightarrow> Inr (None, exp, s)
           | Suc m \<Rightarrow>
               and_then (address_expand c i exp s) (\<lambda>(rc, exp1, s1).
                 if rc = ADDRESS_SYSERROR then Inr (Some False, exp1, s1)
                 else if rc = ADDRESS_EXCLUDE \<or> rc = ADDRESS_FINAL then
                   (let exp2 = upd_addr i (\<lambda>e. e\<lparr>e_addr_terminal := (if rc = ADDRESS_FINAL then 1 else 0)\<rparr>) exp1
                    in exp_walk m c (exp2\<lparr>exp_addr_cursor := behind i (exp_list exp2)\<rparr>) s1)
                 else Inl Panicked)))"

declare exp_walk.simps [simp del]

end
