(* ===== verification/Expand.thy ===== *)
theory Expand
  imports AddressExpand QDeliver
begin

section \<open>From one message to those for each host: expand.c\<close>

text \<open>
  The addresses of a message are expanded; groups for members only are looked at; then there
  is a new message for each host and sender, and one for each group that is moderated or
  forwarded; then the bounces are written, and the message is deleted.  A failure on the way
  takes back what was written.  \<open>simta_expand_debug\<close> is 0, and logging is left out, but not
  the comparison of senders that it makes.
\<close>

subsection \<open>The new envelopes\<close>

record expand_output =
  eo_hostname :: string
  eo_from :: "string option"
  eo_env :: envelope

text \<open>
  A pointer to an entry is the number of entries behind it.
\<close>

fun eo_lookup :: "expand_output list \<Rightarrow> string \<Rightarrow> string \<Rightarrow> nat option run" where
  "eo_lookup [] hostname from = Inr None"
| "eo_lookup (e # eo_list) hostname from =
     (if strcasecmp (eo_hostname e) hostname \<noteq> 0 then eo_lookup eo_list hostname from
      else case eo_from e of
          None \<Rightarrow> Inl NullDeref
        | Some f \<Rightarrow> if strcasecmp f from = 0 then Inr (Some (length eo_list)) else eo_lookup eo_list hostname from)"

definition eo_insert :: "envelope \<Rightarrow> expand_output list \<Rightarrow> 'a sys_scheme \<Rightarrow> bool \<times> expand_output list \<times> 'a sys_scheme" where
  "eo_insert env eo_list s =
     (let (malloc_ok, s1) = outcome s;
          e_new = \<lparr>eo_hostname = (case e_hostname env of None \<Rightarrow> [] | Some h \<Rightarrow> h), eo_from = e_mail env, eo_env = env\<rparr>
      in if malloc_ok then (True, e_new # eo_list, s1) else (False, eo_list, s1))"

fun eo_update :: "nat \<Rightarrow> envelope \<Rightarrow> expand_output list \<Rightarrow> expand_output list" where
  "eo_update k env [] = []"
| "eo_update k env (e # eo_list) =
     (if length eo_list = k then e\<lparr>eo_env := env\<rparr> # eo_list else e # eo_update k env eo_list)"

definition eo_get :: "nat \<Rightarrow> expand_output list \<Rightarrow> envelope" where
  "eo_get k eo_list = eo_env (rev eo_list ! k)"

record out_state =
  o_exp :: expand
  host_stab :: "expand_output list"
  env_dead :: "nat option"
  env_out :: int
  loop_color :: int

subsection \<open>Groups for members only\<close>

text \<open>A parent whose name is permitted; its name is NULL when it is not a group.\<close>

fun permitted_parent :: "string \<Rightarrow> nodes \<Rightarrow> nat option list \<Rightarrow> string option run" where
  "permitted_parent key h [] = Inr None"
| "permitted_parent key h (None # ps) = permitted_parent key h ps"
| "permitted_parent key h (Some p # ps) =
     (case e_addr_dn (h ! p) of
        None \<Rightarrow> Inl NullDeref
      | Some d \<Rightarrow> if key = d then Inr (Some d) else permitted_parent key h ps)"

fun parent_among :: "string list \<Rightarrow> nodes \<Rightarrow> nat option list \<Rightarrow> string option run" where
  "parent_among [] h ps = Inr None"
| "parent_among (key # oks) h ps =
     and_then (permitted_parent key h ps) (\<lambda>p. case p of Some d \<Rightarrow> Inr (Some d) | None \<Rightarrow> parent_among oks h ps)"

definition parent_permitted :: "nodes \<Rightarrow> nat \<Rightarrow> string option run" where
  "parent_permitted h i = parent_among (map st_key (e_addr_ok (h ! i))) h (e_addr_parents (h ! i))"

definition memonly_ok :: "exp_addr \<Rightarrow> exp_addr" where
  "memonly_ok e = e\<lparr>e_addr_ldap_flags := clear_flag (e_addr_ldap_flags e) STATUS_LDAP_MEMONLY, e_addr_env_moderated := None\<rparr>"

fun members_only :: "nat list \<Rightarrow> int \<Rightarrow> expand \<Rightarrow> 'a env_state_scheme \<Rightarrow> (int \<times> expand \<times> 'a env_state_scheme) run" where
  "members_only [] color exp s = Inr (color, exp, s)"
| "members_only (i # memonly) color exp s =
     and_then (parent_permitted (exp_addrs exp) i) (\<lambda>p.
     and_then (case p of
         Some d \<Rightarrow> Inr (True, color, exp_addrs exp)
       | None \<Rightarrow> and_then (sender_is_child color (e_addr_children (exp_addrs exp ! i)) (exp_addrs exp))
           (\<lambda>(found, h). Inr (found, color + 1, h))) (\<lambda>(good, color1, h).
       let exp1 = exp\<lparr>exp_addrs := h\<rparr>
       in if good then
            members_only memonly color1 (upd_addr i memonly_ok exp1)
              (env_free (e_addr_env_moderated (h ! i)) s)
          else
            and_then (supress_addrs color1 (e_addr_children (h ! i)) (upd_node i (mark STATUS_LDAP_SUPRESSOR) h))
              (\<lambda>h2. members_only memonly (color1 + 1) (exp1\<lparr>exp_addrs := h2\<rparr>) s)))"

subsection \<open>Writing an envelope\<close>

text \<open>
  The data file is a link to that of the message; then the command file is written and the
  envelope is queued.  A failed command file takes its data file with it.
\<close>

definition write_expanded :: "exp_conf \<Rightarrow> envelope \<Rightarrow> envelope \<Rightarrow> 'a q_state_scheme \<Rightarrow>
  (bool \<times> envelope \<times> 'a q_state_scheme) run" where
  "write_expanded c unexp env s =
     (let (link_ok, s1) = link (dfile unexp) (dfile env) s
      in if \<not> link_ok then Inr (False, env, s1)
         else if e_mail unexp = None \<or> e_mail env = None then Inl NullDeref
         else and_then (env_outfile (x_conf c) env s1) (\<lambda>(rc, env1, s2).
           if rc \<noteq> 0 then Inr (False, env1, snd (unlink (dfile env) s2))
           else and_then (queue_envelope (x_conf c) env1 s2) (\<lambda>(_, env2, s3). Inr (True, env2, s3))))"

definition put_env :: "nat \<Rightarrow> (envelope option \<Rightarrow> exp_addr \<Rightarrow> exp_addr) \<Rightarrow> envelope \<Rightarrow> out_state \<Rightarrow> out_state" where
  "put_env i f env st = st\<lparr>o_exp := upd_addr i (f (Some env)) (o_exp st)\<rparr>"

definition out_group :: "exp_conf \<Rightarrow> nat \<Rightarrow> (envelope option \<Rightarrow> exp_addr \<Rightarrow> exp_addr) \<Rightarrow> envelope \<Rightarrow> out_state \<Rightarrow>
  'a q_state_scheme \<Rightarrow> (bool \<times> out_state \<times> 'a q_state_scheme) run" where
  "out_group c i f env st s =
     and_then (write_expanded c (exp_env (o_exp st)) env s) (\<lambda>(ok, env1, s1).
       let st1 = put_env i f env1 st in Inr (ok, if ok then st1\<lparr>env_out := env_out st + 1\<rparr> else st1, s1))"

text \<open>The envelope that group mail is forwarded in, and the one for the moderators.\<close>

definition forward_env :: "envelope \<Rightarrow> envelope \<Rightarrow> envelope" where
  "forward_env unexp env = env\<lparr>e_dir := DIR_FAST, e_dinode := e_dinode unexp,
     e_attributes := or (e_attributes unexp) ENV_ATTR_ARCHIVE_ONLY\<rparr>"

definition moderated_env :: "envelope \<Rightarrow> envelope \<Rightarrow> envelope" where
  "moderated_env unexp env = env\<lparr>e_dinode := e_dinode unexp, e_attributes := e_attributes unexp\<rparr>"

text \<open>Who is told that a group was closed: the sender, and groups above unless it is private.\<close>

definition memonly_texts :: "nat \<Rightarrow> exp_addr \<Rightarrow> expand \<Rightarrow> 'a sys_scheme \<Rightarrow> (bool \<times> expand \<times> 'a sys_scheme) run" where
  "memonly_texts k e exp s =
     and_then (error_text k TEXT_ERROR ''Members only group conditions not met: '' (Some (e_addr e)) None exp s) (\<lambda>(rc, exp1, s1).
       if rc \<noteq> 0 then Inr (False, exp1, s1)
       else and_then (error_text k TEXT_ERROR ''If you have any questions, please contact the group owner: '' (e_addr_owner e) None exp1 s1)
         (\<lambda>(rc2, exp2, s2). Inr (rc2 = 0, exp2, s2)))"

fun suppressor_texts :: "nat \<Rightarrow> exp_addr \<Rightarrow> nat option list \<Rightarrow> expand \<Rightarrow> 'a sys_scheme \<Rightarrow> (bool \<times> expand \<times> 'a sys_scheme) run" where
  "suppressor_texts be e [] exp s = Inr (True, exp, s)"
| "suppressor_texts be e (p # ps) exp s =
     and_then (case p of
         None \<Rightarrow> memonly_texts be e exp s
       | Some j \<Rightarrow> if has_flag (e_addr_ldap_flags e) STATUS_LDAP_PRIVATE then Inr (True, exp, s)
                  else memonly_texts (e_addr_errors (exp_addrs exp ! j)) e exp s)
       (\<lambda>(ok, exp1, s1). if ok then suppressor_texts be e ps exp1 s1 else Inr (False, exp1, s1))"

subsection \<open>The envelope of an address\<close>

text \<open>The domain is what follows the first \<open>@\<close>; the dead have none.\<close>

definition out_domain :: "exp_addr \<Rightarrow> string option option run" where
  "out_domain e =
     (if e_addr_type e = ADDRESS_TYPE_EMAIL then
        (case dropWhile (\<lambda>ch. ch \<noteq> CHR ''@'') (e_addr e) of [] \<Rightarrow> Inr None | _ # domain \<Rightarrow> Inr (Some (Some domain)))
      else if e_addr_type e = ADDRESS_TYPE_DEAD then Inr (Some None)
      else Inl Panicked)"

definition out_create :: "exp_conf \<Rightarrow> string option \<Rightarrow> exp_addr \<Rightarrow> out_state \<Rightarrow> 'a env_state_scheme \<Rightarrow>
  (nat option \<times> out_state \<times> 'a env_state_scheme) run" where
  "out_create c domain e st s =
     (let unexp = exp_env (o_exp st)
      in case env_create (x_conf c) (if domain = None then DIR_DEAD else DIR_FAST) None (Some (e_addr_from e)) (Some unexp) s of
           (None, s1) \<Rightarrow> Inr (None, st, s1)
         | (Some env, s1) \<Rightarrow>
             (let env1 = env\<lparr>e_dinode := e_dinode unexp, e_attributes := e_attributes unexp\<rparr>
              in and_then (if domain = None then Inr (0, env1, s1) else env_hostname env1 domain s1) (\<lambda>(rc, env2, s2).
                   if rc \<noteq> 0 then Inr (None, st, env_free (Some env2) s2)
                   else (case eo_insert env2 (host_stab st) s2 of
                       (ok, eo_list, s3) \<Rightarrow>
                         (let k = length (host_stab st); st1 = (if domain = None then st\<lparr>env_dead := Some k\<rparr> else st)
                          in Inr (if ok then (Some k, st1\<lparr>host_stab := eo_list\<rparr>, s3) else (None, st1, env_free (Some env2) s3)))))))"

definition out_address :: "exp_conf \<Rightarrow> exp_addr \<Rightarrow> out_state \<Rightarrow> 'a env_state_scheme \<Rightarrow>
  (bool \<times> out_state \<times> 'a env_state_scheme) run" where
  "out_address c e st s =
     and_then (out_domain e) (\<lambda>d. case d of
         None \<Rightarrow> Inr (False, st, s)
       | Some domain \<Rightarrow>
           and_then (case domain of None \<Rightarrow> Inr (env_dead st) | Some h \<Rightarrow> eo_lookup (host_stab st) h (e_addr_from e)) (\<lambda>found.
           and_then (case found of None \<Rightarrow> out_create c domain e st s | Some k \<Rightarrow> Inr (Some k, st, s)) (\<lambda>(env, st1, s1).
             case env of
               None \<Rightarrow> Inr (False, st1, s1)
             | Some k \<Rightarrow>
                 (case env_recipient (eo_get k (host_stab st1)) (Some (e_addr e)) s1 of
                    (rc, env1, s2) \<Rightarrow> Inr (rc = 0, st1\<lparr>host_stab := eo_update k env1 (host_stab st1)\<rparr>, s2)))))"

text \<open>An address of the list; 0 is the envelope for errors of the message itself.\<close>

definition out_step :: "exp_conf \<Rightarrow> nat \<Rightarrow> out_state \<Rightarrow> 'a q_state_scheme \<Rightarrow> (bool \<times> out_state \<times> 'a q_state_scheme) run" where
  "out_step c i st s =
     (let exp = o_exp st
      in and_then (if has_flag (e_addr_ldap_flags (exp_addrs exp ! i)) STATUS_LDAP_SUPRESSED
           then and_then (unblocked_path_to_root (loop_color st) i (exp_addrs exp))
             (\<lambda>(free, h). Inr (\<not> free, st\<lparr>o_exp := exp\<lparr>exp_addrs := h\<rparr>, loop_color := loop_color st + 1\<rparr>))
           else Inr (False, st)) (\<lambda>(shut, st1).
         let e = exp_addrs (o_exp st1) ! i; unexp = exp_env exp
         in if shut then Inr (True, st1, s)
            else (case (e_addr_env_gmailfwd e, e_addr_env_moderated e) of
                (Some env, _) \<Rightarrow> out_group c i (\<lambda>m e. e\<lparr>e_addr_env_gmailfwd := m\<rparr>) (forward_env unexp env) st1 s
              | (None, Some env) \<Rightarrow> out_group c i (\<lambda>m e. e\<lparr>e_addr_env_moderated := m\<rparr>) (moderated_env unexp env) st1 s
              | (None, None) \<Rightarrow>
                  (if has_flag (e_addr_ldap_flags e) STATUS_LDAP_SUPRESSOR then
                     and_then (suppressor_texts 0 e (e_addr_parents e) (o_exp st1) s)
                       (\<lambda>(ok, exp2, s1). Inr (ok, st1\<lparr>o_exp := exp2\<rparr>, s1))
                   else if e_addr_terminal e = 0 then Inr (True, st1, s)
                   else out_address c e st1 s))))"

fun out_loop :: "exp_conf \<Rightarrow> nat list \<Rightarrow> out_state \<Rightarrow> 'a q_state_scheme \<Rightarrow> (bool \<times> out_state \<times> 'a q_state_scheme) run" where
  "out_loop c [] st s = Inr (True, st, s)"
| "out_loop c (i # is) st s =
     and_then (out_step c i st s) (\<lambda>(ok, st1, s1). if ok then out_loop c is st1 s1 else Inr (False, st1, s1))"

subsection \<open>Taking back\<close>

text \<open>An envelope whose command file was written leaves its queue and its files go.\<close>

definition unwind_env :: "envelope \<Rightarrow> 'a q_state_scheme \<Rightarrow> 'a q_state_scheme run" where
  "unwind_env env s =
     (if has_flag (e_flags env) ENV_FLAG_EFILE then
        and_then (queue_remove_envelope env s) (\<lambda>(env1, s1).
          case env_unlink env1 s1 of (rc, env2, s2) \<Rightarrow> Inr (env_free (Some env2) s2))
      else Inr (env_free (Some env) s))"

fun cleanup_envelope_list :: "envelope list \<Rightarrow> 'a q_state_scheme \<Rightarrow> 'a q_state_scheme run" where
  "cleanup_envelope_list [] s = Inr s"
| "cleanup_envelope_list (env # envs) s = and_then (unwind_env env s) (cleanup_envelope_list envs)"

text \<open>
  \<open>cleanup3\<close>: moderated groups, but only those that are for members only, and their envelopes
  stay in their queues.
\<close>

fun cleanup_moderated :: "nat list \<Rightarrow> expand \<Rightarrow> 'a env_state_scheme \<Rightarrow> expand \<times> 'a env_state_scheme" where
  "cleanup_moderated [] exp s = (exp, s)"
| "cleanup_moderated (i # memonly) exp s =
     (case e_addr_env_moderated (exp_addrs exp ! i) of
        None \<Rightarrow> cleanup_moderated memonly exp s
      | Some env \<Rightarrow>
          (if has_flag (e_flags env) ENV_FLAG_EFILE then
             (case env_unlink env s of (rc, env1, s1) \<Rightarrow>
                cleanup_moderated memonly (upd_addr i (\<lambda>e. e\<lparr>e_addr_env_moderated := None\<rparr>) exp) (env_free (Some env1) s1))
           else cleanup_moderated memonly exp s))"

text \<open>\<open>cleanup1\<close>: the envelopes for moderators that were not written are freed.\<close>

fun free_addrs :: "nat list \<Rightarrow> nodes \<Rightarrow> 'a env_state_scheme \<Rightarrow> 'a env_state_scheme" where
  "free_addrs [] h s = s"
| "free_addrs (i # is) h s =
     free_addrs is h (case e_addr_env_moderated (h ! i) of
         None \<Rightarrow> s
       | Some env \<Rightarrow> if has_flag (e_flags env) ENV_FLAG_EFILE then s else env_free (Some env) s)"

definition expand_free :: "expand \<Rightarrow> 'a env_state_scheme \<Rightarrow> 'a env_state_scheme" where
  "expand_free exp s = free_addrs (exp_list exp) (exp_addrs exp) s"

definition cleanup3 :: "expand \<Rightarrow> 'a env_state_scheme \<Rightarrow> int \<times> 'a env_state_scheme" where
  "cleanup3 exp s = (case cleanup_moderated (exp_memonly exp) exp s of (exp1, s1) \<Rightarrow> (1, expand_free exp1 s1))"

definition cleanup4 :: "out_state \<Rightarrow> 'a q_state_scheme \<Rightarrow> (int \<times> 'a q_state_scheme) run" where
  "cleanup4 st s = and_then (cleanup_envelope_list (map eo_env (host_stab st)) s) (\<lambda>s1. Inr (cleanup3 (o_exp st) s1))"

definition gmail_envs :: "expand \<Rightarrow> envelope list" where
  "gmail_envs exp = List.map_filter (\<lambda>i. e_addr_env_gmailfwd (exp_addrs exp ! i)) (exp_gmailfwding exp)"

definition cleanup5 :: "envelope list \<Rightarrow> out_state \<Rightarrow> 'a q_state_scheme \<Rightarrow> (int \<times> 'a q_state_scheme) run" where
  "cleanup5 errors st s =
     and_then (cleanup_envelope_list errors s) (\<lambda>s1.
       and_then (cleanup_envelope_list (gmail_envs (o_exp st)) s1) (cleanup4 st))"

subsection \<open>Writing them all\<close>

text \<open>The last entry first, as the list has them; the envelopes that are not reached stay as they are.\<close>

fun write_hosts :: "exp_conf \<Rightarrow> envelope \<Rightarrow> expand_output list \<Rightarrow> 'a q_state_scheme \<Rightarrow>
  (bool \<times> expand_output list \<times> 'a q_state_scheme) run" where
  "write_hosts c unexp [] s = Inr (True, [], s)"
| "write_hosts c unexp (eo # eo_list) s =
     and_then (write_expanded c unexp (eo_env eo) s) (\<lambda>(ok, env, s1).
       if \<not> ok then Inr (False, eo\<lparr>eo_env := env\<rparr> # eo_list, s1)
       else and_then (write_hosts c unexp eo_list s1) (\<lambda>(ok2, eos, s2). Inr (ok2, eo\<lparr>eo_env := env\<rparr> # eos, s2)))"

text \<open>What is left of a reader when its lines have been read.\<close>

function snet_read :: "snet \<Rightarrow> snet" where
  "snet_read sn = (case snet_getline sn of (None, sn') \<Rightarrow> sn' | (Some l, sn') \<Rightarrow> snet_read sn')"
  by auto
termination
  by (relation "measure (\<lambda>sn. length (sn_rest sn))") (auto dest: snet_getline_shorter [OF sym])

declare snet_read.simps [simp del]

text \<open>
  The reader of the message for the next bounce: opened for the first one, and then set back
  around its buffer.  None when it cannot be opened.
\<close>

definition error_reader :: "envelope \<Rightarrow> snet option \<Rightarrow> 'a net_state_scheme \<Rightarrow> (snet option \<times> 'a net_state_scheme) run" where
  "error_reader unexp sn s =
     (case sn of
        None \<Rightarrow>
          (case open_file (dfile unexp) s of
             (None, s1) \<Rightarrow> Inr (None, s1)
           | (Some ino, s1) \<Rightarrow>
               (let (attach_ok, s2) = outcome s1
                in Inr (if attach_ok then Some (snet_attach (w_data s2 ino) (1024 * 1024)) else None, s2)))
      | Some m \<Rightarrow>
          (let (lseek_ok, s1) = outcome s; (k, s2) = readahead s1
           in if \<not> lseek_ok then Inl Panicked
              else and_then (snet_rewind k (case w_names s2 (dfile unexp) of None \<Rightarrow> [] | Some ino \<Rightarrow> w_data s2 ino) m)
                (\<lambda>m1. Inr (Some m1, s2))))"

text \<open>A bounce: its data file, then its command file and its queue.\<close>

definition write_bounce :: "exp_conf \<Rightarrow> string \<Rightarrow> envelope \<Rightarrow> snet \<Rightarrow> envelope \<Rightarrow> 'a q_state_scheme \<Rightarrow>
  (bool \<times> envelope \<times> 'a q_state_scheme) run" where
  "write_bounce c daytime unexp sn env s =
     and_then (bounce_dfile_out (x_conf c) daytime env (Some sn) s) (\<lambda>(ino, env1, s1).
       if ino = 0 then Inr (False, env1\<lparr>e_dinode := 0\<rparr>, snd (outcome s1))
       else
         (let env2 = env1\<lparr>e_dinode := ino, e_err_text := None, e_error := 0\<rparr>
          in and_then (env_outfile (x_conf c) env2 s1) (\<lambda>(rc, env3, s2).
            if rc \<noteq> 0 then Inr (False, env3, snd (unlink (dfile env3) s2))
            else if e_mail unexp = None \<or> e_mail env3 = None then Inl NullDeref
            else and_then (queue_envelope (x_conf c) env3 s2) (\<lambda>(_, env4, s3). Inr (True, env4, s3)))))"

text \<open>
  The bounces, the last envelope first; the envelopes without an error are freed.  The
  result holds those that are left in the list.
\<close>

fun write_errors :: "exp_conf \<Rightarrow> string \<Rightarrow> envelope \<Rightarrow> snet option \<Rightarrow> envelope list \<Rightarrow> 'a net_state_scheme \<Rightarrow>
  (bool \<times> snet option \<times> envelope list \<times> 'a net_state_scheme) run" where
  "write_errors c daytime unexp sn [] s = Inr (True, sn, [], s)"
| "write_errors c daytime unexp sn (env # envs) s =
     (if e_error env = 0 then write_errors c daytime unexp sn envs (env_free (Some env) s)
      else and_then (error_reader unexp sn s) (\<lambda>(sn1, s1). case sn1 of
          None \<Rightarrow> Inr (False, None, env # envs, s1)
        | Some m \<Rightarrow>
            and_then (write_bounce c daytime unexp m env s1) (\<lambda>(ok, env1, s2).
              if \<not> ok then Inr (False, Some m, env1 # envs, s2)
              else and_then (write_errors c daytime unexp (Some (snet_read m)) envs s2)
                (\<lambda>(ok2, sn2, envs2, s3). Inr (ok2, sn2, env1 # envs2, s3)))))"

subsection \<open>The end of the message\<close>

definition truncate_file :: "path \<Rightarrow> 'a sys_scheme \<Rightarrow> bool \<times> 'a sys_scheme" where
  "truncate_file p s =
     (case w_names s p of
        None \<Rightarrow> (False, s)
      | Some ino \<Rightarrow> (let (ok, s1) = outcome s in if ok then (True, s1\<lparr>w_data := (w_data s1)(ino := [])\<rparr>) else (False, s1)))"

text \<open>
  \<open>utime\<close> sets the time of the data file to now; then the command file is emptied, unless the
  message is fast, and the files are removed.
\<close>

definition utime_now :: "path \<Rightarrow> 'a sys_scheme \<Rightarrow> bool \<times> 'a sys_scheme" where
  "utime_now p s =
     (case w_names s p of
        None \<Rightarrow> (False, s)
      | Some ino \<Rightarrow>
          (let (ok, s1) = outcome s in if ok then (True, s1\<lparr>w_mtime := (w_mtime s1)(ino := (case w_clock s1 of [] \<Rightarrow> fst (simta_tv_now s1) | t # _ \<Rightarrow> fst t))\<rparr>) else (False, s1)))"

definition expand_done :: "envelope \<Rightarrow> 'a sys_scheme \<Rightarrow> bool \<times> 'a sys_scheme" where
  "expand_done unexp s =
     (let (utime_ok, s1) = utime_now (dfile unexp) s
      in if \<not> utime_ok then (False, s1)
         else
           (let (truncate_ok, s2) = (if e_dir unexp \<noteq> DIR_FAST then truncate_file (efile unexp) s1 else (True, s1))
            in if \<not> truncate_ok then (False, s2) else (True, snd (snd (env_unlink unexp s2)))))"

text \<open>
  From the list of envelopes on.  A reader that cannot be closed is reported with the name of
  an envelope that is NULL by then.
\<close>

definition expand_write :: "exp_conf \<Rightarrow> string \<Rightarrow> envelope \<Rightarrow> out_state \<Rightarrow> 'a net_state_scheme \<Rightarrow>
  (int \<times> 'a net_state_scheme) run" where
  "expand_write c daytime unexp st s =
     and_then (write_hosts c unexp (host_stab st) s) (\<lambda>(ok, eos, s1).
       let st1 = st\<lparr>host_stab := eos\<rparr>
       in if \<not> ok then cleanup4 st1 s1
          else and_then (write_errors c daytime unexp None (rev (exp_errors (o_exp st))) s1) (\<lambda>(ok2, sn, errors, s2).
            if \<not> ok2 then cleanup5 errors st1 s2
            else
              (let (close_ok, s3) = (if sn = None then (True, s2) else outcome s2)
               in if \<not> close_ok then Inl NullDeref
                  else (case expand_done unexp s3 of
                      (fine, s4) \<Rightarrow> if fine then Inr (0, expand_free (o_exp st1) s4) else cleanup5 errors st1 s4))))"

text \<open>The message; None when so many addresses are not enough.\<close>

definition expand_message :: "nat \<Rightarrow> exp_conf \<Rightarrow> string \<Rightarrow> envelope \<Rightarrow> 'a exp_state_scheme \<Rightarrow> (int option \<times> 'a exp_state_scheme) run" where
  "expand_message n c daytime unexp s =
     (if e_hostname unexp \<noteq> None then Inr (Some 0, s)
      else (case address_bounce_create c (zero_expand unexp) s of
          (None, exp, s1) \<Rightarrow> Inr (Some 1, s1)
        | (Some k, exp, s1) \<Rightarrow>
            (case env_recipient (exp_errors exp ! k) (e_mail unexp) s1 of
               (rc, env, s2) \<Rightarrow>
                 if rc \<noteq> 0 then Inr (Some 1, s2)
                 else and_then (add_originals c k (e_rcpt unexp) (upd_error k (\<lambda>_. env) exp) s2) (\<lambda>(ok, exp1, s3).
                   if \<not> ok then Inr (Some 1, expand_free exp1 s3)
                   else and_then (exp_walk n c (exp1\<lparr>exp_addr_cursor := list_head (exp_list exp1)\<rparr>) s3) (\<lambda>(walked, exp2, s4).
                     case walked of
                       None \<Rightarrow> Inr (None, s4)
                     | Some False \<Rightarrow> Inr (Some 1, expand_free exp2 s4)
                     | Some True \<Rightarrow>
                         and_then (members_only (exp_memonly exp2) 1 exp2 s4) (\<lambda>(color, exp3, s5).
                         and_then (out_loop c (exp_list exp3)
                             \<lparr>o_exp = exp3, host_stab = [], env_dead = None, env_out = 0, loop_color = color\<rparr> s5) (\<lambda>(made, st, s6).
                           if \<not> made then (let (rc, s7) = cleanup3 (o_exp st) s6 in Inr (Some rc, s7))
                           else and_then (expand_write c daytime unexp st s6) (\<lambda>(rc, s7). Inr (Some rc, s7)))))))))"

end
