(* ===== verification/ExpandWalk.thy ===== *)
theory ExpandWalk
  imports Expand
begin

section \<open>The walk over the addresses of an expansion ends\<close>

text \<open>
  The list of addresses grows behind the address that is expanded, and never holds an address
  twice.  So whatever aliases, \<open>.forward\<close> files and directories say, a walk over it takes as
  many steps as there are different addresses.
\<close>

subsection \<open>What every operation keeps\<close>

text \<open>A list of all the nodes without repetition, and no two of them with one address.\<close>

definition walk_ok :: "expand \<Rightarrow> bool" where
  "walk_ok exp \<longleftrightarrow> distinct (exp_list exp) \<and> set (exp_list exp) = {..<length (exp_addrs exp)} \<and>
     distinct (map (\<lambda>e. lower (e_addr e)) (exp_addrs exp)) \<and>
     (case exp_addr_cursor exp of None \<Rightarrow> True | Some k \<Rightarrow> k \<in> set (exp_list exp))"

definition up_to :: "nat \<Rightarrow> nat list \<Rightarrow> nat list" where
  "up_to k = takeWhile (\<lambda>j. j \<noteq> k)"

definition grows :: "expand \<Rightarrow> expand \<Rightarrow> bool" where
  "grows exp exp' \<longleftrightarrow> exp_addr_cursor exp' = exp_addr_cursor exp \<and>
     (walk_ok exp \<longrightarrow> walk_ok exp' \<and>
        (\<forall>k. exp_addr_cursor exp = Some k \<longrightarrow> up_to k (exp_list exp') = up_to k (exp_list exp)))"

lemma grows_refl [simp]: "grows exp exp"
  by (simp add: grows_def)

lemma grows_trans: "grows a b \<Longrightarrow> grows b c \<Longrightarrow> grows a c"
  by (simp add: grows_def)

text \<open>Changes to nodes that keep the addresses, and to the other fields.\<close>

definition same_walk :: "expand \<Rightarrow> expand \<Rightarrow> bool" where
  "same_walk exp exp' \<longleftrightarrow> exp_addr_cursor exp' = exp_addr_cursor exp \<and> exp_list exp' = exp_list exp \<and>
     map e_addr (exp_addrs exp') = map e_addr (exp_addrs exp)"

lemma same_walk_ok: "same_walk exp exp' \<Longrightarrow> walk_ok exp' = walk_ok exp"
proof -
  assume s: "same_walk exp exp'"
  then have "map lower (map e_addr (exp_addrs exp')) = map lower (map e_addr (exp_addrs exp))"
    by (simp add: same_walk_def)
  moreover have "length (exp_addrs exp') = length (exp_addrs exp)" using s unfolding same_walk_def by (metis length_map)
  ultimately show ?thesis using s by (simp add: walk_ok_def same_walk_def comp_def split: option.split)
qed

lemma same_walk_grows: "same_walk exp exp' \<Longrightarrow> grows exp exp'"
  using same_walk_ok [of exp exp'] by (simp add: grows_def) (simp add: same_walk_def)

lemma upd_addr_same: "(\<And>e. e_addr (f e) = e_addr e) \<Longrightarrow> same_walk exp (upd_addr i f exp)"
  by (simp add: same_walk_def upd_addr_def upd_node_def map_update)
    (metis length_map list_update_id nth_map)

lemma grows_fields [simp]:
  "grows exp (exp'\<lparr>exp_current_action := a\<rparr>) = grows exp exp'"
  "grows exp (exp'\<lparr>exp_memonly := ms\<rparr>) = grows exp exp'"
  "grows exp (exp'\<lparr>exp_gmailfwding := gs\<rparr>) = grows exp exp'"
  "grows exp (exp'\<lparr>exp_max_level := l\<rparr>) = grows exp exp'"
  "grows exp (exp'\<lparr>exp_entries := n\<rparr>) = grows exp exp'"
  "grows exp (exp'\<lparr>exp_errors := es\<rparr>) = grows exp exp'"
  by (simp_all add: grows_def walk_ok_def cong: option.case_cong)

lemma grows_upd_addr [simp]: "(\<And>e. e_addr (f e) = e_addr e) \<Longrightarrow> grows exp (upd_addr i f exp') = grows exp exp'"
proof -
  assume "\<And>e. e_addr (f e) = e_addr e"
  then have s: "same_walk exp' (upd_addr i f exp')" by (rule upd_addr_same)
  from same_walk_ok [OF s] s show ?thesis by (auto simp: grows_def same_walk_def)
qed

lemma grows_upd_error [simp]: "grows exp (upd_error k f exp') = grows exp exp'"
  by (simp add: upd_error_def)

subsection \<open>Results that have grown\<close>

definition run_post :: "('a \<Rightarrow> bool) \<Rightarrow> 'a run \<Rightarrow> bool" where
  "run_post P m = (case m of Inl _ \<Rightarrow> True | Inr x \<Rightarrow> P x)"

lemma run_post_simps [simp]: "run_post P (Inr x) = P x" "run_post P (Inl e)"
  by (simp_all add: run_post_def)

lemma run_post_and_then: "run_post Q m \<Longrightarrow> (\<And>x. Q x \<Longrightarrow> run_post P (f x)) \<Longrightarrow> run_post P (and_then m f)"
  by (cases m) simp_all

definition grown3 :: "expand \<Rightarrow> 'r \<times> expand \<times> 's \<Rightarrow> bool" where
  "grown3 exp r \<longleftrightarrow> grows exp (fst (snd r))"

definition grown2 :: "expand \<Rightarrow> expand \<times> 's \<Rightarrow> bool" where
  "grown2 exp r \<longleftrightarrow> grows exp (fst r)"

definition grown :: "expand \<Rightarrow> ('r, 's) group_step \<Rightarrow> bool" where
  "grown exp r \<longleftrightarrow> grows exp (case r of Stop rc exp' s \<Rightarrow> exp' | Go x exp' s \<Rightarrow> exp')"

lemma grown3_simp [simp]: "grown3 exp (rc, exp', s) = grows exp exp'"
  by (simp add: grown3_def)

lemma grown2_simp [simp]: "grown2 exp (exp', s) = grows exp exp'"
  by (simp add: grown2_def)

lemma grown_simps [simp]: "grown exp (Stop rc exp' s) = grows exp exp'" "grown exp (Go x exp' s) = grows exp exp'"
  by (simp_all add: grown_def)

lemma grown3_then:
  assumes "run_post (grown3 exp1) m" "grows exp exp1"
    "\<And>rc exp2 s. m = Inr (rc, exp2, s) \<Longrightarrow> grows exp exp2 \<Longrightarrow> run_post P (f (rc, exp2, s))"
  shows "run_post P (and_then m f)"
  using assms by (cases m) (auto dest: grows_trans)

lemma grown2_then:
  assumes "run_post (grown2 exp1) m" "grows exp exp1" "\<And>exp2 s. grows exp exp2 \<Longrightarrow> run_post P (f (exp2, s))"
  shows "run_post P (and_then m f)"
  using assms by (cases m) (auto dest: grows_trans)

lemma grown_then:
  assumes "run_post (grown exp1) m" "grows exp exp1" "\<And>x exp2 s. grows exp exp2 \<Longrightarrow> run_post (grown exp) (f x exp2 s)"
  shows "run_post (grown exp) (and_go m f)"
  using assms by (cases m) (auto simp: and_go_def dest: grows_trans split: group_step.split)

text \<open>A step whose result does not matter for the list.\<close>

lemma any_then: "(\<And>x. run_post P (f x)) \<Longrightarrow> run_post P (and_then m f)"
  by (cases m) simp_all

lemma run_post_mono: "run_post (grown3 exp1) m \<Longrightarrow> grows exp exp1 \<Longrightarrow> run_post (grown3 exp) m"
  by (cases m) (auto simp: grown3_def intro: grows_trans)

subsection \<open>Addresses\<close>

lemma list_insert_cursor:
  assumes "case cursor of None \<Rightarrow> True | Some k \<Rightarrow> k \<in> set l" "distinct l" "i \<notin> set l"
  shows "set (list_insert head cursor i l) = insert i (set l) \<and> distinct (list_insert head cursor i l) \<and>
    (\<forall>k. cursor = Some k \<longrightarrow> up_to k (list_insert head cursor i l) = up_to k l)"
proof (cases cursor)
  case (Some k)
  with assms(1) obtain xs ys where "l = xs @ k # ys" "k \<notin> set xs" by (auto dest: split_list_first)
  with Some assms show ?thesis by (auto simp: list_insert_def up_to_def takeWhile_append dropWhile_append)
qed (use assms in \<open>auto simp: list_insert_def\<close>)

lemma find_addr_None:
  assumes "find_addr addr exp = None" "walk_ok exp"
  shows "lower addr \<notin> (\<lambda>e. lower (e_addr e)) ` set (exp_addrs exp)"
proof
  assume "lower addr \<in> (\<lambda>e. lower (e_addr e)) ` set (exp_addrs exp)"
  then obtain j where "j < length (exp_addrs exp)" "lower addr = lower (e_addr (exp_addrs exp ! j))"
    by (auto simp: in_set_conv_nth)
  with assms show False by (auto simp: find_addr_def find_None_iff walk_ok_def strcasecmp_eq0)
qed

lemma email_node_addr: "run_post (\<lambda>r. case r of None \<Rightarrow> True | Some (b, e') \<Rightarrow> e_addr e' = e_addr e) (email_node c exp s e)"
  unfolding email_node_def
  by (auto simp: Let_def mark_def split: option.split intro!: any_then)

lemma new_node_grows:
  assumes "find_addr (e_addr e) exp = None"
  shows "grows exp (exp\<lparr>exp_entries := n, exp_addrs := exp_addrs exp @ [e],
    exp_list := list_insert head (exp_addr_cursor exp) (length (exp_addrs exp)) (exp_list exp)\<rparr>)"
proof (cases "walk_ok exp")
  case True
  then have l: "case exp_addr_cursor exp of None \<Rightarrow> True | Some k \<Rightarrow> k \<in> set (exp_list exp)" "distinct (exp_list exp)"
    "length (exp_addrs exp) \<notin> set (exp_list exp)" "set (exp_list exp) = {..<length (exp_addrs exp)}"
    "distinct (map (\<lambda>e. lower (e_addr e)) (exp_addrs exp))"
    by (simp_all add: walk_ok_def)
  note new = list_insert_cursor [OF l(1-3), of head] and fresh = find_addr_None [OF assms True]
  have "set (list_insert head (exp_addr_cursor exp) (length (exp_addrs exp)) (exp_list exp)) = {..<Suc (length (exp_addrs exp))}"
    using new l(4) by (simp add: lessThan_Suc)
  with new fresh l show ?thesis by (cases "exp_addr_cursor exp") (simp_all add: grows_def walk_ok_def)
qed (simp add: grows_def)

lemma email_node_then:
  assumes "\<And>b e'. e_addr e' = e_addr e \<Longrightarrow> run_post P (f (Some (b, e')))" "run_post P (f None)"
  shows "run_post P (and_then (email_node c exp s e) f)"
  by (rule run_post_and_then [OF email_node_addr]) (use assms in \<open>auto split: option.splits\<close>)

lemma new_address_grows: "find_addr addr exp = None \<Longrightarrow> run_post (grown3 exp) (new_address c exp addr k t from s)"
  unfolding new_address_def
  by (auto simp: Let_def new_node_grows address_types split: prod.split option.split intro!: email_node_then)

lemma link_address_grows: "grows ex exp \<Longrightarrow> grown3 ex (link_address i exp s)"
  by (auto simp: link_address_def Let_def split: prod.split option.split)

lemma add_address_grows: "run_post (grown3 exp) (add_address c exp addr k t from s)"
  unfolding add_address_def
  by (rule grown3_then [where ?exp1.0 = exp])
    (auto split: option.split simp: new_address_grows link_address_grows)

lemma string_recipients_grows: "run_post (grown3 exp) (string_recipients c exp start i from s)"
proof (induction c exp start i "from" s rule: string_recipients.induct)
  case (1 c exp start i "from" s)
  show ?case
  proof (cases "next_recipient start")
    case (Some p)
    then obtain email rest where n: "next_recipient start = Some (email, rest)" by (cases p) auto
    have "run_post (grown3 exp) (if is_emailaddr email
        then add_address c exp email (e_addr_errors (exp_addrs exp ! i)) ADDRESS_TYPE_EMAIL from s else Inr (0, exp, s))"
      by (simp add: add_address_grows)
    then have "run_post (grown3 exp) (and_then (if is_emailaddr email
          then add_address c exp email (e_addr_errors (exp_addrs exp ! i)) ADDRESS_TYPE_EMAIL from s else Inr (0, exp, s))
        (\<lambda>(rc, exp1, s1). if rc \<noteq> 0 then Inr (1, exp1, s1)
           else (case after_comma rest of None \<Rightarrow> Inr (0, exp1, s1) | Some next \<Rightarrow> string_recipients c exp1 next i from s1)))"
    proof (rule grown3_then [OF _ grows_refl], goal_cases)
      case (1 rc exp2 s2)
      then show ?case by (auto split: option.split intro: run_post_mono [OF "1.IH" [OF n refl _ refl refl]])
    qed
    then show ?thesis unfolding string_recipients.simps [of c exp start i "from" s] n by simp
  qed (simp add: string_recipients.simps [of c exp start i "from" s])
qed

lemma address_string_recipients_grows: "run_post (grown3 exp) (address_string_recipients c exp line i from s)"
  by (simp add: address_string_recipients_def string_recipients_grows split: option.split)

subsection \<open>What every step of an expansion keeps\<close>

text \<open>
  The rules for sequences: what was done so far has grown from \<open>ex\<close>, and so has what follows.
\<close>

lemma seq3:
  assumes "run_post (grown3 ex) m" "\<And>rc exp2 s. grows ex exp2 \<Longrightarrow> run_post P (f (rc, exp2, s))"
  shows "run_post P (and_then m f)"
  by (rule grown3_then [OF assms(1) grows_refl]) (rule assms(2))

lemma seq2:
  assumes "run_post (grown2 ex) m" "\<And>exp2 s. grows ex exp2 \<Longrightarrow> run_post P (f (exp2, s))"
  shows "run_post P (and_then m f)"
  by (rule grown2_then [OF assms(1) grows_refl]) (rule assms(2))

lemma seq_go:
  assumes "run_post (grown ex) m" "\<And>x exp2 s. grows ex exp2 \<Longrightarrow> run_post (grown ex) (f x exp2 s)"
  shows "run_post (grown ex) (and_go m f)"
  by (rule grown_then [OF assms(1) grows_refl]) (rule assms(2))

lemma run_post_mono2: "run_post (grown2 exp1) m \<Longrightarrow> grows exp exp1 \<Longrightarrow> run_post (grown2 exp) m"
  by (cases m) (auto simp: grown2_def intro: grows_trans)

named_theorems growing

lemmas any_value = any_then [where m = "first_value v" for v] any_then [where m = "is_true e a" for e a]
  any_then [where m = "dn_normalize_case d" for d] any_then [where m = "shown_name e a" for e a]
  any_then [where m = "ambiguous_texts ld a e" for ld a e] any_then [where m = "noemail_texts e a" for e a]
  any_then [where m = "alias_open a s" for a s] any_then [where m = "simta_getpwnam a u s" for a u s]

lemma address_string_growing [growing]:
  "grows ex exp \<Longrightarrow> run_post (grown3 ex) (address_string_recipients c exp line i from s)"
  by (rule run_post_mono [OF address_string_recipients_grows])

lemma add_address_growing [growing]: "grows ex exp \<Longrightarrow> run_post (grown3 ex) (add_address c exp addr k t from s)"
  by (rule run_post_mono [OF add_address_grows])

lemma error_text_growing [growing]: "grows ex exp \<Longrightarrow> run_post (grown3 ex) (error_text k mode t1 t2 t3 exp s)"
  by (auto simp: error_text_def intro!: any_then)

lemma error_texts_growing [growing]: "grows ex exp \<Longrightarrow> run_post (grown3 ex) (error_texts k ts exp s)"
proof (induction ts arbitrary: exp s)
  case (Cons t ts)
  then show ?case by (cases t) (auto intro!: seq3 [where ex = ex] growing)
qed simp

lemma alias_values_growing [growing]: "grows ex exp \<Longrightarrow> run_post (grown3 ex) (alias_values c exp i vs s)"
  by (induction vs arbitrary: exp s) (auto simp: Let_def split: prod.split intro!: seq3 [where ex = ex] growing)

lemma alias_expand_growing [growing]: "grows ex exp \<Longrightarrow> run_post (grown3 ex) (alias_expand c exp i a s)"
  by (auto simp: alias_expand_def Let_def split: prod.split intro!: any_value growing)

lemma forward_lines_growing [growing]: "grows ex exp \<Longrightarrow> run_post (grown3 ex) (forward_lines c exp i t rc s)"
proof (induction t arbitrary: exp rc s rule: measure_induct_rule [where f = length])
  case (less t)
  show ?case
  proof (cases "t = []")
    case False
    then have "length (snd (fgets 1023 t)) < length t" by (intro fgets_shorter) simp_all
    with less show ?thesis
      by (subst forward_lines.simps) (auto simp: Let_def intro!: seq3 [where ex = ex] address_string_growing)
  qed (use less in \<open>simp add: forward_lines.simps\<close>)
qed

lemma password_expand_growing [growing]: "grows ex exp \<Longrightarrow> run_post (grown3 ex) (password_expand c exp i a s)"
  by (auto simp: password_expand_def Let_def split: prod.split option.split fopen_result.split
      intro!: any_value seq3 [where ex = ex] growing)

subsection \<open>Directories\<close>

lemma all_ambiguous_growing [growing]: "grows ex exp \<Longrightarrow> run_post (grown2 ex) (all_ambiguous ld k addr es exp s)"
  by (induction es arbitrary: exp s) (auto intro!: any_value seq3 [where ex = ex] growing)

lemma do_ambiguous_growing [growing]: "grows ex exp \<Longrightarrow> run_post (grown2 ex) (do_ambiguous ld k addr res exp s)"
  by (auto simp: do_ambiguous_def intro!: seq3 [where ex = ex] growing)

lemma do_noemail_growing [growing]: "grows ex exp \<Longrightarrow> run_post (grown2 ex) (do_noemail k addr entry exp s)"
  by (auto simp: do_noemail_def intro!: any_value seq3 [where ex = ex] growing)

lemma add_members_growing [growing]: "grows ex exp \<Longrightarrow> run_post (grown2 ex) (add_members c vs from i exp s)"
  by (induction vs arbitrary: exp s) (auto intro!: any_value seq3 [where ex = ex] growing)

lemma add_mail_members_growing [growing]: "grows ex exp \<Longrightarrow> run_post (grown2 ex) (add_mail_members c vs from i exp s)"
  by (induction vs arbitrary: exp s) (auto intro!: seq3 [where ex = ex] growing)

lemma forward_addresses_growing [growing]: "grows ex exp \<Longrightarrow> run_post (grown3 ex) (forward_addresses c vs i exp s)"
  by (induction vs arbitrary: exp s) (auto intro!: seq3 [where ex = ex] growing)

lemma vacation_copy_growing [growing]: "grows ex exp \<Longrightarrow> run_post (grown2 ex) (vacation_copy c ld entry i exp s)"
  by (auto simp: vacation_copy_def split: option.split intro!: any_value seq3 [where ex = ex] growing)

lemma note_sender_grows: "grows ex exp \<Longrightarrow> run_post (grows ex) (note_sender ld entry i exp)"
  by (auto simp: note_sender_def mark_def split: option.split)

lemma expand_person_growing [growing]: "grows ex exp \<Longrightarrow> run_post (grown3 ex) (expand_person c ld exp i entry addr s)"
  by (auto simp: expand_person_def Let_def split: option.split
      intro!: seq3 [where ex = ex] seq2 [where ex = ex] run_post_and_then [OF note_sender_grows] growing)

subsection \<open>Groups of a directory\<close>

lemma address_bounce_create_grows: "address_bounce_create c exp s = (k, exp', s') \<Longrightarrow> grows ex exp' = grows ex exp"
  by (auto simp: address_bounce_create_def split: prod.splits option.splits)

lemma group_dn_growing [growing]: "grows ex exp \<Longrightarrow> run_post (grown ex) (group_dn entry i exp s)"
  by (auto simp: group_dn_def split: option.split intro!: any_value)

lemma group_owner_growing [growing]: "grows ex exp \<Longrightarrow> run_post (grown ex) (group_owner ld entry i exp s)"
  by (auto simp: group_owner_def Let_def split: prod.split intro!: any_value)

lemma group_sender_growing [growing]: "grows ex exp \<Longrightarrow> run_post (grown ex) (group_sender c ld rdn i exp s)"
  by (auto simp: group_sender_def Let_def address_bounce_create_grows split: prod.split option.split
      intro!: seq3 [where ex = ex] growing)

lemma group_forward_growing [growing]: "grows ex exp \<Longrightarrow> run_post (grown ex) (group_forward c ld entry dn i exp s)"
  by (auto simp: group_forward_def Let_def split: prod.split option.split intro!: seq3 [where ex = ex] growing)

lemma group_memonly_growing [growing]: "grows ex exp \<Longrightarrow> run_post (grown ex) (group_memonly ld entry exp s)"
  by (auto simp: group_memonly_def Let_def split: prod.split option.split intro!: any_value)

lemma group_moderator_growing [growing]:
  "grows ex exp \<Longrightarrow> run_post (grown ex) (group_moderator c ld entry dn permitted r i exp s)"
  by (auto simp: group_moderator_def Let_def split: prod.split option.split intro!: seq3 [where ex = ex] growing)

lemma permitted_create_growing [growing]: "grows ex exp \<Longrightarrow> run_post (grown3 ex) (permitted_create i vals exp s)"
  by (auto simp: permitted_create_def intro!: any_then [where m = "permitted_insert a b d" for a b d])

lemma group_policy_growing [growing]: "grows ex exp \<Longrightarrow> run_post (grown ex) (group_policy entry mo permitted r i exp s)"
  by (auto simp: group_policy_def Let_def mark_def split: prod.split option.split
      intro!: any_value seq3 [where ex = ex] growing)

lemma group_members_growing [growing]:
  "grows ex exp \<Longrightarrow> run_post (grown ex) (group_members c ld entry dn hush i exp s)"
  by (auto simp: group_members_def Let_def intro!: seq_go [where ex = ex] growing)

lemma group_values_growing [growing]:
  "grows ex exp \<Longrightarrow> run_post (grown ex) (group_values c ld entry dn hush t i exp s)"
  by (auto simp: group_values_def Let_def intro!: seq_go [where ex = ex] growing)

lemma expand_group_growing [growing]:
  assumes g: "grows ex exp"
  shows "run_post (grown3 ex) (simta_ldap_expand_group c ld exp i t entry s)"
proof -
  have finish: "run_post (grown3 ex)
      (and_then m (\<lambda>r. case r of Stop rc exp1 s1 \<Rightarrow> Inr (rc, exp1, s1) | Go _ exp1 s1 \<Rightarrow> Inr (LDAP_EXCLUDE, exp1, s1)))"
    if "run_post (grown ex) m" for m
    using that by (auto elim!: run_post_and_then split: group_step.split)
  show ?thesis
    unfolding simta_ldap_expand_group_def
    by (rule finish) (auto simp: Let_def g
        intro!: any_value seq_go [where ex = ex] seq2 [where ex = ex] seq3 [where ex = ex] growing)
qed

lemma process_entry_growing [growing]:
  "grows ex exp \<Longrightarrow> run_post (grown3 ex) (simta_ldap_process_entry c ld exp i t entry addr s)"
  by (auto simp: simta_ldap_process_entry_def intro!: seq3 [where ex = ex] growing)

subsection \<open>Searches\<close>

lemma name_search_growing [growing]:
  "grows ex exp \<Longrightarrow> run_post (grown3 ex) (simta_ldap_name_search c name ld exp i addr domain t s)"
  by (auto simp: simta_ldap_name_search_def Let_def split: prod.split sum.split list.split
      intro!: any_then [where m = "meant a es" for a es] seq2 [where ex = ex] growing)

lemma dn_expand_growing [growing]: "grows ex exp \<Longrightarrow> run_post (grown3 ex) (simta_ldap_dn_expand c ld exp i s)"
  by (auto simp: simta_ldap_dn_expand_def Let_def split: prod.split list.split intro!: seq3 [where ex = ex] growing)

lemma ldap_expand_growing [growing]: "grows ex exp \<Longrightarrow> run_post (grown3 ex) (simta_ldap_expand c name exp i s)"
  by (auto simp: simta_ldap_expand_def Let_def split: prod.split option.split intro!: growing)

lemma expand_actions_growing [growing]: "grows ex exp \<Longrightarrow> run_post (grown3 ex) (expand_actions c i as exp s)"
  by (induction as arbitrary: exp s) (auto simp: Let_def split: option.split intro!: seq3 [where ex = ex] growing)

lemma expand_dn_growing [growing]: "grows ex exp \<Longrightarrow> run_post (grown3 ex) (expand_dn c i exp s)"
  by (auto simp: expand_dn_def Let_def split: option.split intro!: seq3 [where ex = ex] growing)

lemma address_not_found_growing [growing]: "grows ex exp \<Longrightarrow> run_post (grown3 ex) (address_not_found i exp s)"
  by (auto simp: address_not_found_def Let_def split: option.split intro!: seq3 [where ex = ex] growing)

lemma address_expand_growing [growing]: "grows ex exp \<Longrightarrow> run_post (grown3 ex) (address_expand c i exp s)"
  by (auto simp: address_expand_def Let_def split: option.split sum.split
      intro!: any_then [where m = "local_actions c e s" for c e s] seq3 [where ex = ex] growing)

subsection \<open>The walk\<close>

lemma walk_ok_length: "walk_ok exp \<Longrightarrow> length (exp_list exp) = length (exp_addrs exp)"
  by (metis card_lessThan distinct_card walk_ok_def)

lemma walk_ok_cursor: "walk_ok exp \<Longrightarrow> exp_addr_cursor exp = Some i \<Longrightarrow> i \<in> set (exp_list exp)"
  by (metis (no_types, lifting) option.simps(5) walk_ok_def)

lemma behind_up_to:
  assumes "distinct l" "i \<in> set l" "behind i l = Some j"
  shows "j \<in> set l \<and> up_to j l = up_to i l @ [i]"
proof -
  from assms(2) obtain xs ys where l: "l = xs @ i # ys" "i \<notin> set xs" by (auto dest: split_list_first)
  with assms(3) obtain zs where "ys = j # zs" by (auto simp: behind_def dropWhile_append3 dropWhile_append split: list.splits if_splits)
  with l assms(1) show ?thesis by (auto simp: up_to_def takeWhile_append)
qed

lemma behind_in: "behind i l = Some j \<Longrightarrow> j \<in> set l"
  unfolding behind_def by (auto split: list.splits) (metis list.sel(2) list.set_intros(1) list.set_sel(2) set_dropWhileD)

lemma walk_ok_behind: "walk_ok exp \<Longrightarrow> walk_ok (exp\<lparr>exp_addr_cursor := behind i (exp_list exp)\<rparr>)"
  by (auto simp: walk_ok_def split: option.split dest: behind_in)

lemma exp_walk_unfinished:
  assumes "walk_ok exp" "exp_walk n c exp s = Inr (None, exp', s')"
  shows "walk_ok exp' \<and>
    (case exp_addr_cursor exp of None \<Rightarrow> False | Some i \<Rightarrow> length (up_to i (exp_list exp)) + n < length (exp_addrs exp'))"
  using assms
proof (induction n arbitrary: exp s)
  case 0
  then obtain i where i: "exp_addr_cursor exp = Some i" "exp' = exp"
    by (auto simp: exp_walk.simps [of 0] split: option.splits)
  from walk_ok_cursor [OF "0.prems"(1) i(1)] have "i \<in> set (exp_list exp)" .
  then have "length (up_to i (exp_list exp)) < length (exp_list exp)"
    by (auto simp: up_to_def takeWhile_append dest!: split_list_first)
  with i "0.prems"(1) show ?case by (simp add: walk_ok_length)
next
  case (Suc n)
  then obtain i where i: "exp_addr_cursor exp = Some i"
    by (auto simp: exp_walk.simps [of "Suc n"] split: option.splits)
  with Suc.prems(2) obtain rc exp1 s1 where a: "address_expand c i exp s = Inr (rc, exp1, s1)"
    and w: "exp_walk n c (upd_addr i (\<lambda>e. e\<lparr>e_addr_terminal := (if rc = ADDRESS_FINAL then 1 else 0)\<rparr>) exp1
        \<lparr>exp_addr_cursor := behind i (exp_list exp1)\<rparr>) s1 = Inr (None, exp', s')" (is "exp_walk n c ?exp2 s1 = _")
    by (auto simp: exp_walk.simps [of "Suc n"] Let_def upd_addr_def split: if_splits)
  have g: "grows exp exp1" using address_expand_growing [OF grows_refl, of exp c i s] by (simp add: a)
  then have ok1: "walk_ok exp1" "exp_addr_cursor exp1 = Some i" "up_to i (exp_list exp1) = up_to i (exp_list exp)"
    using Suc.prems(1) i by (simp_all add: grows_def)
  have same: "exp_list ?exp2 = exp_list exp1" "exp_addr_cursor ?exp2 = behind i (exp_list exp1)" by (simp_all add: upd_addr_def)
  have "walk_ok ?exp2"
    using walk_ok_behind [of "upd_addr i (\<lambda>e. e\<lparr>e_addr_terminal := (if rc = ADDRESS_FINAL then 1 else 0)\<rparr>) exp1" i]
      same_walk_ok [OF upd_addr_same, of "\<lambda>e. e\<lparr>e_addr_terminal := (if rc = ADDRESS_FINAL then 1 else 0)\<rparr>" i exp1] ok1(1)
    by (simp add: upd_addr_def)
  from Suc.IH [OF this w] obtain j where j: "behind i (exp_list exp1) = Some j" "walk_ok exp'"
      "length (up_to j (exp_list exp1)) + n < length (exp_addrs exp')"
    unfolding same by (auto split: option.splits)
  have "distinct (exp_list exp1)" "i \<in> set (exp_list exp1)" using walk_ok_cursor [OF ok1(1,2)] ok1(1) by (simp_all add: walk_ok_def)
  from behind_up_to [OF this j(1)] j i ok1(3) show ?case by simp
qed

subsection \<open>From the addresses of the message\<close>

lemma add_originals_growing: "grows ex exp \<Longrightarrow> run_post (grown3 ex) (add_originals c k rcpts exp s)"
  by (induction rcpts arbitrary: exp s) (auto intro!: seq3 [where ex = ex] growing)

lemma walk_ok_head: "walk_ok exp \<Longrightarrow> walk_ok (exp\<lparr>exp_addr_cursor := list_head (exp_list exp)\<rparr>)"
proof -
  assume w: "walk_ok exp"
  have "list_head l = Some k \<Longrightarrow> k \<in> set l" for l k by (auto simp: list_head_def split: list.splits)
  from this [of "exp_list exp"] w show ?thesis unfolding walk_ok_def by (auto split: option.split)
qed

lemma walk_different:
  assumes "add_originals c k rcpts ((zero_expand env)\<lparr>exp_errors := es\<rparr>) s = Inr (True, exp, s1)"
    and "exp_walk n c (exp\<lparr>exp_addr_cursor := list_head (exp_list exp)\<rparr>) s1 = Inr (None, exp', s2)"
  shows "n < card ((\<lambda>e. lower (e_addr e)) ` set (exp_addrs exp'))"
proof -
  have "walk_ok ((zero_expand env)\<lparr>exp_errors := es\<rparr>)" by (simp add: zero_expand_def walk_ok_def)
  with add_originals_growing [OF grows_refl, of "(zero_expand env)\<lparr>exp_errors := es\<rparr>" c k rcpts s] assms(1)
  have "walk_ok exp" by (simp add: grows_def)
  from exp_walk_unfinished [OF walk_ok_head [OF this] assms(2)]
  have "walk_ok exp'" "n < length (exp_addrs exp')" by (auto split: option.splits)
  moreover from this(1) have "card ((\<lambda>e. lower (e_addr e)) ` set (exp_addrs exp')) = length (exp_addrs exp')"
    using distinct_card [of "map (\<lambda>e. lower (e_addr e)) (exp_addrs exp')"] by (simp add: walk_ok_def)
  ultimately show ?thesis by simp
qed

text \<open>
  C7: The expansion of a message ends: when its walk over the addresses, started on the
  addresses of the message, is not over after so many of them, then it has met more different
  addresses than that, case apart.  So aliases, \<open>.forward\<close> files and groups that lead back to
  each other cannot keep it going.
\<close>

theorem exp_walk_ends:
  assumes "add_originals c k rcpts ((zero_expand env)\<lparr>exp_errors := es\<rparr>) s = Inr (True, exp, s1)"
    and "exp_walk n c (exp\<lparr>exp_addr_cursor := list_head (exp_list exp)\<rparr>) s1 = Inr (None, exp', s2)"
  shows "n < card ((\<lambda>e. lower (e_addr e)) ` set (exp_addrs exp'))"
  using assms by (rule walk_different)

text \<open>Two aliases that lead to each other: one step is not enough, and two are.\<close>

definition exp_conf_ex :: exp_conf where
  "exp_conf_ex = \<lparr>x_conf = conf_ex, simta_domain = ''x.edu'', simta_exp_level_max = 10, simta_default_host = None,
     simta_ldaps = (\<lambda>_. \<lparr>ldap_searches = [], ldap_groups = [], ldap_people = [], ldap_mailattr = [],
       ldap_mailfwdattr = [], ldap_gmailfwdattr = None, ldap_vacationhost = None, ldap_vacationattr = None,
       ldap_associated_domain = [], ldap_ndomain = 2\<rparr>)\<rparr>"

definition exp_state_ex :: "action list \<Rightarrow> (string \<Rightarrow> string list) \<Rightarrow> exp_state" where
  "exp_state_ex acts al = net_state.extend ((net_state_ex [])\<lparr>simta_reds :=
       \<lparr>simta_red_hosts = [(new_red ''x.edu'' RED_HOST_TYPE_LOCAL)\<lparr>red_expand := acts\<rparr>],
        simta_secondary_mx = [], simta_remote_hosts = []\<rparr>\<rparr>)
     \<lparr>w_alias = (\<lambda>_. al), w_passwd = (\<lambda>_. None), w_forward = (\<lambda>_. FMissing), w_ldap = [], ldap_asked = [],
      open_dbs = [], ldaps_up = []\<rparr>"

definition alias_loop :: exp_state where
  "alias_loop = exp_state_ex [\<lparr>a_action = EXPANSION_TYPE_ALIAS, a_flags = ACTION_SUFFICIENT, a_fname = Some ''aliases''\<rparr>]
     (\<lambda>k. if k = ''a'' then [''b@x.edu''] else [''A@x.edu''])"

lemma run_holds: "(case m of Inl _ \<Rightarrow> False | Inr x \<Rightarrow> P x) \<longleftrightarrow> (\<exists>x. m = Inr x \<and> P x)"
  by (cases m) simp_all

lemma alias_loop_runs:
  "case add_originals exp_conf_ex 0 [new_recipient ''a@x.edu''] (zero_expand env_ex\<lparr>exp_errors := []\<rparr>) alias_loop of
     Inl _ \<Rightarrow> False
   | Inr (ok, exp, s1) \<Rightarrow> ok = True \<and>
       (case exp_walk 1 exp_conf_ex (exp\<lparr>exp_addr_cursor := list_head (exp_list exp)\<rparr>) s1 of
          Inl _ \<Rightarrow> False | Inr (r, exp', s2) \<Rightarrow> r = None)"
  by code_simp

theorem exp_walk_ends_witness:
  "\<exists>exp s1 exp' s2.
     add_originals exp_conf_ex 0 [new_recipient ''a@x.edu''] ((zero_expand env_ex)\<lparr>exp_errors := []\<rparr>) alias_loop =
       Inr (True, exp, s1) \<and>
     exp_walk 1 exp_conf_ex (exp\<lparr>exp_addr_cursor := list_head (exp_list exp)\<rparr>) s1 = Inr (None, exp', s2) \<and>
     1 < card ((\<lambda>e. lower (e_addr e)) ` set (exp_addrs exp'))"
proof -
  obtain exp s1 exp' s2
    where a: "add_originals exp_conf_ex 0 [new_recipient ''a@x.edu''] ((zero_expand env_ex)\<lparr>exp_errors := []\<rparr>) alias_loop =
        Inr (True, exp, s1)"
      and w: "exp_walk 1 exp_conf_ex (exp\<lparr>exp_addr_cursor := list_head (exp_list exp)\<rparr>) s1 = Inr (None, exp', s2)"
    using alias_loop_runs unfolding run_holds split_paired_Ex prod.case by blast
  from exp_walk_ends [OF a w] a w show ?thesis by blast
qed

end
