(* ===== verification/ExpandOut.thy ===== *)
theory ExpandOut
  imports ExpandWalk
begin

section \<open>Who gets the message after an expansion\<close>

text \<open>
  Every address that is final, and that no group keeps out, is a recipient of the new envelope
  for its host and sender; and nobody else is.
\<close>

subsection \<open>What looking for a way up leaves alone\<close>

text \<open>A node without its colour and without the two flags that the search puts there.\<close>

definition static :: "exp_addr \<Rightarrow> exp_addr" where
  "static e = e\<lparr>e_addr_anti_loop := 0,
     e_addr_ldap_flags := clear_flag (clear_flag (e_addr_ldap_flags e) STATUS_ROOT_PATH) STATUS_NO_ROOT_PATH\<rparr>"

lemma clear_set_flag [simp]:
  "clear_flag (clear_flag (set_flag w f) f) g = clear_flag (clear_flag w f) g"
  "clear_flag (clear_flag (set_flag w g) f) g = clear_flag (clear_flag w f) g"
  unfolding set_flag_def clear_flag_def by (auto intro!: bit_word_eqI simp: bit_simps)

lemma static_upd [simp]:
  "static (paint k e) = static e" "static (mark STATUS_ROOT_PATH e) = static e"
  "static (mark STATUS_NO_ROOT_PATH e) = static e"
  by (simp_all add: static_def mark_def paint_def)

lemma static_fields:
  assumes "static e' = static e"
  shows "e_addr e' = e_addr e" "e_addr_from e' = e_addr_from e" "e_addr_type e' = e_addr_type e"
    "e_addr_terminal e' = e_addr_terminal e" "e_addr_env_gmailfwd e' = e_addr_env_gmailfwd e"
    "e_addr_env_moderated e' = e_addr_env_moderated e"
    "has_flag (e_addr_ldap_flags e') STATUS_LDAP_SUPRESSED = has_flag (e_addr_ldap_flags e) STATUS_LDAP_SUPRESSED"
    "has_flag (e_addr_ldap_flags e') STATUS_LDAP_SUPRESSOR = has_flag (e_addr_ldap_flags e) STATUS_LDAP_SUPRESSOR"
proof -
  have "e_addr (static e) = e_addr e" "e_addr_from (static e) = e_addr_from e" "e_addr_type (static e) = e_addr_type e"
    "e_addr_terminal (static e) = e_addr_terminal e" "e_addr_env_gmailfwd (static e) = e_addr_env_gmailfwd e"
    "e_addr_env_moderated (static e) = e_addr_env_moderated e"
    "has_flag (e_addr_ldap_flags (static e)) STATUS_LDAP_SUPRESSED = has_flag (e_addr_ldap_flags e) STATUS_LDAP_SUPRESSED"
    "has_flag (e_addr_ldap_flags (static e)) STATUS_LDAP_SUPRESSOR = has_flag (e_addr_ldap_flags e) STATUS_LDAP_SUPRESSOR" for e
    by (simp_all add: static_def status_flags clear_flag_def bit_simps bit_flag)
  with assms show "e_addr e' = e_addr e" "e_addr_from e' = e_addr_from e" "e_addr_type e' = e_addr_type e"
    "e_addr_terminal e' = e_addr_terminal e" "e_addr_env_gmailfwd e' = e_addr_env_gmailfwd e"
    "e_addr_env_moderated e' = e_addr_env_moderated e"
    "has_flag (e_addr_ldap_flags e') STATUS_LDAP_SUPRESSED = has_flag (e_addr_ldap_flags e) STATUS_LDAP_SUPRESSED"
    "has_flag (e_addr_ldap_flags e') STATUS_LDAP_SUPRESSOR = has_flag (e_addr_ldap_flags e) STATUS_LDAP_SUPRESSOR"
    by metis+
qed

lemma static_upd_node: "static (f (h ! i)) = static (h ! i) \<Longrightarrow> map static (upd_node i f h) = map static h"
  by (simp add: upd_node_def map_update) (metis length_map list_update_id nth_map)

lemma any_path_static: "any_path color el h = Inr (b, h') \<Longrightarrow> map static h' = map static h"
proof (induction color el h arbitrary: b h' rule: any_path.induct)
  case (3 color i el h)
  have p: "map static (upd_node i (paint color) h) = map static h" by (rule static_upd_node) simp
  show ?case using "3.prems" "3.IH" p
    by (auto simp: any_path.simps(3) Let_def static_upd_node split: if_splits)
qed auto

subsection \<open>The list of envelopes\<close>

definition rcpts :: "envelope \<Rightarrow> string set" where
  "rcpts env = r_rcpt ` set (e_rcpt env)"

definition all_rcpts :: "expand_output list \<Rightarrow> string set" where
  "all_rcpts l = (\<Union>eo\<in>set l. rcpts (eo_env eo))"

text \<open>There is an envelope for the host and the sender with this recipient.\<close>

definition covers :: "expand_output list \<Rightarrow> string \<Rightarrow> string \<Rightarrow> string \<Rightarrow> bool" where
  "covers l host from addr \<longleftrightarrow> (\<exists>eo\<in>set l. strcasecmp (eo_hostname eo) host = 0 \<and>
     (\<exists>f. eo_from eo = Some f \<and> strcasecmp f from = 0) \<and> addr \<in> rcpts (eo_env eo))"

lemma eo_update_rev: "k < length l \<Longrightarrow> rev (eo_update k env l) = (rev l)[k := (rev l ! k)\<lparr>eo_env := env\<rparr>]"
proof (induction l)
  case (Cons e l)
  show ?case
  proof (cases "length l = k")
    case True
    then show ?thesis by (simp add: nth_append list_update_append)
  next
    case False
    with Cons show ?thesis by (simp add: nth_append list_update_append)
  qed
qed simp

lemma eo_lookup_found:
  "eo_lookup l host from = Inr (Some k) \<Longrightarrow> k < length l \<and> strcasecmp (eo_hostname (rev l ! k)) host = 0 \<and>
     (\<exists>f. eo_from (rev l ! k) = Some f \<and> strcasecmp f from = 0)"
  by (induction l) (auto simp: nth_append split: if_splits option.splits)

text \<open>One more recipient for an envelope of the list.\<close>

lemma add_rcpt:
  assumes "k < length l" "rcpts env = insert a (rcpts (eo_get k l))"
  shows "all_rcpts (eo_update k env l) = insert a (all_rcpts l)"
    and "covers l h f x \<Longrightarrow> covers (eo_update k env l) h f x"
    and "strcasecmp (eo_hostname (rev l ! k)) h = 0 \<Longrightarrow> eo_from (rev l ! k) = Some f' \<Longrightarrow> strcasecmp f' f = 0 \<Longrightarrow>
      covers (eo_update k env l) h f a"
    and "length (eo_update k env l) = length l"
proof -
  let ?e = "(rev l ! k)\<lparr>eo_env := env\<rparr>" and ?l = "rev l"
  have u: "set (eo_update k env l) = set (?l[k := ?e])" by (metis eo_update_rev [OF assms(1)] set_rev)
  have at: "?e \<in> set (eo_update k env l)" unfolding u by (rule set_update_memI) (simp add: assms(1))
  have keeps: "\<exists>eo'\<in>set (eo_update k env l). eo_hostname eo' = eo_hostname eo \<and> eo_from eo' = eo_from eo \<and>
      rcpts (eo_env eo) \<subseteq> rcpts (eo_env eo')" if "eo \<in> set l" for eo
  proof -
    from that obtain n where n: "n < length ?l" "?l ! n = eo" by (metis in_set_conv_nth set_rev)
    show ?thesis
    proof (cases "n = k")
      case True
      have "rcpts (eo_env eo) \<subseteq> rcpts env" using assms(2) n True by (auto simp: eo_get_def)
      with at n True show ?thesis by (intro bexI [where x = ?e]) auto
    next
      case False
      then have "?l[k := ?e] ! n = eo" using n by simp
      then have "eo \<in> set (eo_update k env l)" unfolding u by (metis length_list_update n(1) nth_mem)
      then show ?thesis by blast
    qed
  qed
  have "set (?l[k := ?e]) \<subseteq> insert ?e (set l)" using set_update_subset_insert [of ?l k ?e] by simp
  then have "all_rcpts (eo_update k env l) \<subseteq> insert a (all_rcpts l)"
  proof -
    assume sub: "set (?l[k := ?e]) \<subseteq> insert ?e (set l)"
    have "?l ! k \<in> set l" using assms(1) by (metis length_rev nth_mem set_rev)
    then have "rcpts env \<subseteq> insert a (all_rcpts l)" using assms(2) by (auto simp: all_rcpts_def eo_get_def)
    then show ?thesis using sub unfolding all_rcpts_def u by fastforce
  qed
  moreover have "all_rcpts l \<subseteq> all_rcpts (eo_update k env l)" unfolding all_rcpts_def using keeps by blast
  moreover have "a \<in> all_rcpts (eo_update k env l)" unfolding all_rcpts_def
    by (rule UN_I [OF at]) (simp add: assms(2))
  ultimately show "all_rcpts (eo_update k env l) = insert a (all_rcpts l)" by blast
  show "covers (eo_update k env l) h f x" if c: "covers l h f x"
  proof -
    from c obtain eo where "eo \<in> set l" "strcasecmp (eo_hostname eo) h = 0"
      "\<exists>f'. eo_from eo = Some f' \<and> strcasecmp f' f = 0" "x \<in> rcpts (eo_env eo)" by (auto simp: covers_def)
    with keeps [of eo] show ?thesis unfolding covers_def by (metis subsetD)
  qed
  show "covers (eo_update k env l) h f a"
    if "strcasecmp (eo_hostname (rev l ! k)) h = 0" "eo_from (rev l ! k) = Some f'" "strcasecmp f' f = 0"
    unfolding covers_def using that assms(2) by (intro bexI [OF _ at]) simp
  show "length (eo_update k env l) = length l" using eo_update_rev [OF assms(1)] by (metis length_list_update length_rev)
qed

lemma new_entry:
  assumes "\<not> k < length l" "k = length l" "rcpts (eo_env e) = {}"
  shows "all_rcpts (e # l) = all_rcpts l" "covers l h f x \<Longrightarrow> covers (e # l) h f x" "rev (e # l) ! k = e" "k < length (e # l)"
  using assms by (auto simp: all_rcpts_def covers_def nth_append)

lemma env_create_new:
  assumes "env_create c dir idn (Some m) parent s = (Some env, s')"
  shows "e_mail env = Some m \<and> e_rcpt env = [] \<and> e_hostname env = None"
  using assms
  by (auto simp: env_create_def env_sender_def env_inherit_def env_jail_set_def zero_env_def Let_def
      split: prod.splits option.splits if_splits)

text \<open>The entry that \<open>out_create\<close> makes.\<close>

lemma out_create_entry:
  assumes "out_create c domain e st s = Inr (Some k, st', s')"
  shows "\<exists>eo. host_stab st' = eo # host_stab st \<and> k = length (host_stab st) \<and> rcpts (eo_env eo) = {} \<and>
    eo_from eo = Some (e_addr_from e) \<and> (\<forall>h. domain = Some h \<longrightarrow> eo_hostname eo = h) \<and> o_exp st' = o_exp st \<and>
    env_dead st' = (if domain = None then Some k else env_dead st)"
proof -
  from assms obtain env s1 where n: "env_create (x_conf c) (if domain = None then DIR_DEAD else DIR_FAST) None
      (Some (e_addr_from e)) (Some (exp_env (o_exp st))) s = (Some env, s1)"
    by (auto simp: out_create_def Let_def split: prod.splits option.splits)
  note env_create_new [OF n]
  with assms n show ?thesis
    by (auto simp: out_create_def Let_def eo_insert_def env_hostname_def rcpts_def split: if_splits prod.splits option.splits)
qed

definition dead_ok :: "out_state \<Rightarrow> bool" where
  "dead_ok st \<longleftrightarrow> (case env_dead st of None \<Rightarrow> True | Some k \<Rightarrow> k < length (host_stab st))"

text \<open>An address goes into an envelope, and nothing else changes.\<close>

definition after_at :: "string \<Rightarrow> string option" where
  "after_at addr = (case dropWhile (\<lambda>ch. ch \<noteq> CHR ''@'') addr of [] \<Rightarrow> None | _ # host \<Rightarrow> Some host)"

definition placed :: "exp_addr \<Rightarrow> expand_output list \<Rightarrow> bool" where
  "placed e l \<longleftrightarrow> e_addr e \<in> all_rcpts l \<and>
     (e_addr_type e = ADDRESS_TYPE_EMAIL \<longrightarrow> (\<exists>host. after_at (e_addr e) = Some host \<and> covers l host (e_addr_from e) (e_addr e)))"

lemma out_domain_email:
  "out_domain e = Inr (Some d) \<Longrightarrow> e_addr_type e = ADDRESS_TYPE_EMAIL \<Longrightarrow> \<exists>h. after_at (e_addr e) = Some h \<and> d = Some h"
  unfolding out_domain_def after_at_def
  by (cases "dropWhile (\<lambda>ch. ch \<noteq> CHR ''@'') (e_addr e)") (auto simp del: dropWhile_eq_Nil_conv)

lemma out_address_places:
  assumes o: "out_address c e st s = Inr (True, st', s')" and dead: "dead_ok st"
  shows "dead_ok st' \<and> o_exp st' = o_exp st \<and> all_rcpts (host_stab st') = insert (e_addr e) (all_rcpts (host_stab st)) \<and>
    (\<forall>h f x. covers (host_stab st) h f x \<longrightarrow> covers (host_stab st') h f x) \<and> placed e (host_stab st')"
proof -
  let ?F = "\<lambda>domain. case domain of None \<Rightarrow> Inr (env_dead st) | Some h \<Rightarrow> eo_lookup (host_stab st) h (e_addr_from e)"
  let ?C = "\<lambda>domain found. case found of None \<Rightarrow> out_create c domain e st s | Some k \<Rightarrow> Inr (Some k, st, s)"
  let ?K = "\<lambda>(env, st1, s1). case env of None \<Rightarrow> Inr (False, st1, s1)
        | Some k \<Rightarrow> (case env_recipient (eo_get k (host_stab st1)) (Some (e_addr e)) s1 of
            (rc, env1, s2) \<Rightarrow> Inr (rc = 0, st1\<lparr>host_stab := eo_update k env1 (host_stab st1)\<rparr>, s2))"
  from o obtain d0 where d0: "out_domain e = Inr d0"
    and o1: "(case d0 of None \<Rightarrow> Inr (False, st, s)
      | Some domain \<Rightarrow> and_then (?F domain) (\<lambda>found. and_then (?C domain found) ?K)) = Inr (True, st', s')"
    unfolding out_address_def and_then_Inr_iff by blast
  from o1 obtain domain where dom: "d0 = Some domain" by (cases d0) auto
  with d0 have d: "out_domain e = Inr (Some domain)" by simp
  from o1 [unfolded dom option.case and_then_Inr_iff] obtain found k0 where f: "?F domain = Inr found"
    and c0: "?C domain found = Inr k0" and o2: "?K k0 = (Inr (True, st', s') :: _ run)" by blast
  obtain k st1 s1 where k0: "k0 = (Some k, st1, s1)" using o2 by (cases k0; cases "fst k0") auto
  obtain rc env1 s2 where rc: "env_recipient (eo_get k (host_stab st1)) (Some (e_addr e)) s1 = (rc, env1, s2)"
    by (cases "env_recipient (eo_get k (host_stab st1)) (Some (e_addr e)) s1") auto
  with o2 k0 have r: "env_recipient (eo_get k (host_stab st1)) (Some (e_addr e)) s1 = (0, env1, s')"
    and st': "st' = st1\<lparr>host_stab := eo_update k env1 (host_stab st1)\<rparr>" by auto
  from c0 k0 have c: "?C domain found = Inr (Some k, st1, s1)" by simp
  have env: "rcpts env1 = insert (e_addr e) (rcpts (eo_get k (host_stab st1)))"
    using r by (auto simp: env_recipient_def Let_def rcpts_def new_recipient_def split: prod.splits if_splits)
  have at: "k < length (host_stab st1) \<and> all_rcpts (host_stab st1) = all_rcpts (host_stab st) \<and> o_exp st1 = o_exp st \<and>
      dead_ok st1 \<and> (\<forall>h f x. covers (host_stab st) h f x \<longrightarrow> covers (host_stab st1) h f x) \<and>
      (\<forall>h. domain = Some h \<longrightarrow> strcasecmp (eo_hostname (rev (host_stab st1) ! k)) h = 0 \<and>
         (\<exists>f. eo_from (rev (host_stab st1) ! k) = Some f \<and> strcasecmp f (e_addr_from e) = 0))"
  proof (cases found)
    case None
    with c obtain eo where eo: "host_stab st1 = eo # host_stab st" "k = length (host_stab st)" "rcpts (eo_env eo) = {}"
        "eo_from eo = Some (e_addr_from e)" "\<forall>h. domain = Some h \<longrightarrow> eo_hostname eo = h" "o_exp st1 = o_exp st"
        "env_dead st1 = (if domain = None then Some k else env_dead st)"
      using out_create_entry [of c domain e st s k st1 s1] by auto
    with dead new_entry [of k "host_stab st" eo] show ?thesis
      by (auto simp: dead_ok_def strcasecmp_eq0 split: option.splits)
  next
    case (Some j)
    with c have "j = k" "st1 = st" by auto
    with Some f dead eo_lookup_found show ?thesis by (auto simp: dead_ok_def split: option.splits)
  qed
  then have k: "k < length (host_stab st1)" by blast
  note add = add_rcpt [OF k env]
  have "placed e (host_stab st')"
    using out_domain_email [OF d] at add(1) add(3) unfolding placed_def st' by fastforce
  then show ?thesis using at add(1,2,4) unfolding st' by (auto simp: dead_ok_def split: option.splits)
qed

subsection \<open>One address after the other\<close>

text \<open>A final address with no envelopes of its own, and not a group that was closed.\<close>

definition plain :: "exp_addr \<Rightarrow> bool" where
  "plain e \<longleftrightarrow> e_addr_env_gmailfwd e = None \<and> e_addr_env_moderated e = None \<and>
     \<not> has_flag (e_addr_ldap_flags e) STATUS_LDAP_SUPRESSOR \<and> e_addr_terminal e \<noteq> 0"

definition shut_out :: "exp_addr \<Rightarrow> bool" where
  "shut_out e \<longleftrightarrow> has_flag (e_addr_ldap_flags e) STATUS_LDAP_SUPRESSED"

lemma static_plain:
  assumes "static e' = static e"
  shows "plain e' = plain e" "shut_out e' = shut_out e" "placed e' l = placed e l"
  by (simp_all add: plain_def shut_out_def placed_def static_fields [OF assms])

lemma error_text_addrs: "error_text k mode t1 t2 t3 exp s = Inr (rc, exp', s') \<Longrightarrow> exp_addrs exp' = exp_addrs exp"
  by (auto simp: error_text_def upd_error_def split: if_splits)

lemma memonly_texts_addrs: "memonly_texts k e exp s = Inr (ok, exp', s') \<Longrightarrow> exp_addrs exp' = exp_addrs exp"
  by (auto simp: memonly_texts_def split: if_splits dest!: error_text_addrs)

lemma suppressor_texts_addrs: "suppressor_texts k e ps exp s = Inr (ok, exp', s') \<Longrightarrow> exp_addrs exp' = exp_addrs exp"
proof (induction ps arbitrary: exp s)
  case (Cons p ps)
  then show ?case
    by (auto split: option.splits if_splits dest!: memonly_texts_addrs)
qed simp

definition nodes_of :: "out_state \<Rightarrow> nodes" where
  "nodes_of st = exp_addrs (o_exp st)"

text \<open>What a step says about all the others.\<close>

definition others :: "nat \<Rightarrow> nodes \<Rightarrow> nodes \<Rightarrow> bool" where
  "others i h h' \<longleftrightarrow> length h' = length h \<and> (\<forall>j<length h. j \<noteq> i \<longrightarrow> static (h' ! j) = static (h ! j))"

lemma others_static: "map static h' = map static h \<Longrightarrow> others i h h'"
  unfolding others_def by (metis length_map nth_map)

lemma others_upd: "others i h (upd_node i f h') = others i h h'"
  by (auto simp: others_def upd_node_nth)

definition step_ok :: "exp_addr \<Rightarrow> out_state \<Rightarrow> out_state \<Rightarrow> bool" where
  "step_ok e st st' \<longleftrightarrow> dead_ok st' \<and>
     (\<forall>h f x. covers (host_stab st) h f x \<longrightarrow> covers (host_stab st') h f x) \<and>
     all_rcpts (host_stab st) \<subseteq> all_rcpts (host_stab st') \<and>
     all_rcpts (host_stab st') \<subseteq> all_rcpts (host_stab st) \<union> (if plain e then {e_addr e} else {}) \<and>
     (plain e \<and> \<not> shut_out e \<longrightarrow> placed e (host_stab st'))"

lemma step_ok_same: "dead_ok st \<Longrightarrow> host_stab st' = host_stab st \<Longrightarrow> env_dead st' = env_dead st \<Longrightarrow>
  \<not> plain e \<or> shut_out e \<Longrightarrow> step_ok e st st'"
  by (auto simp: step_ok_def dead_ok_def split: option.splits)

lemma out_group_result:
  assumes "out_group c i f env st s = Inr (ok, st', s')"
  shows "host_stab st' = host_stab st \<and> env_dead st' = env_dead st \<and> (others i h (nodes_of st) \<longrightarrow> others i h (nodes_of st'))"
  using assms
  by (auto simp: out_group_def put_env_def Let_def nodes_of_def upd_addr_def others_upd split: if_splits)

lemma out_step_result:
  assumes o: "out_step c i st s = Inr (True, st', s')" and dead: "dead_ok st" and i: "i < length (nodes_of st)"
  shows "step_ok (nodes_of st ! i) st st' \<and> others i (nodes_of st) (nodes_of st')"
proof -
  let ?e = "nodes_of st ! i"
  from o obtain shut st1 where g: "(if has_flag (e_addr_ldap_flags ?e) STATUS_LDAP_SUPRESSED
           then and_then (unblocked_path_to_root (loop_color st) i (nodes_of st))
             (\<lambda>(free, h). Inr (\<not> free, st\<lparr>o_exp := (o_exp st)\<lparr>exp_addrs := h\<rparr>, loop_color := loop_color st + 1\<rparr>))
           else Inr (False, st)) = (Inr (shut, st1) :: _ run)"
    and rest: "(let e = nodes_of st1 ! i; unexp = exp_env (o_exp st)
         in if shut then Inr (True, st1, s)
            else (case (e_addr_env_gmailfwd e, e_addr_env_moderated e) of
                (Some env, _) \<Rightarrow> out_group c i (\<lambda>m e. e\<lparr>e_addr_env_gmailfwd := m\<rparr>) (forward_env unexp env) st1 s
              | (None, Some env) \<Rightarrow> out_group c i (\<lambda>m e. e\<lparr>e_addr_env_moderated := m\<rparr>) (moderated_env unexp env) st1 s
              | (None, None) \<Rightarrow>
                  (if has_flag (e_addr_ldap_flags e) STATUS_LDAP_SUPRESSOR then
                     and_then (suppressor_texts 0 e (e_addr_parents e) (o_exp st1) s)
                       (\<lambda>(ok, exp2, s1). Inr (ok, st1\<lparr>o_exp := exp2\<rparr>, s1))
                   else if e_addr_terminal e = 0 then Inr (True, st1, s)
                   else out_address c e st1 s))) = Inr (True, st', s')"
    unfolding out_step_def Let_def and_then_Inr_iff nodes_of_def by auto
  have st1: "map static (nodes_of st1) = map static (nodes_of st)" "host_stab st1 = host_stab st" "env_dead st1 = env_dead st"
    "shut \<longrightarrow> shut_out ?e"
    using g by (auto simp: shut_out_def nodes_of_def unblocked_path_to_root_def split: if_splits dest!: any_path_static)
  then have se: "static (nodes_of st1 ! i) = static ?e" using i by (metis length_map nth_map)
  have d1: "dead_ok st1" using dead unfolding dead_ok_def st1(2,3) .
  have o1: "others i (nodes_of st) (nodes_of st1)" by (rule others_static) (rule st1(1))
  show ?thesis
  proof (cases "shut \<or> \<not> plain (nodes_of st1 ! i)")
    case True
    then have np: "\<not> plain ?e \<or> shut_out ?e" using st1(4) static_plain(1) [OF se] by auto
    have "host_stab st' = host_stab st1 \<and> env_dead st' = env_dead st1 \<and> others i (nodes_of st) (nodes_of st')"
      using rest True o1
      by (auto simp: Let_def plain_def nodes_of_def split: if_splits option.splits
          dest!: out_group_result [where h = "nodes_of st"] suppressor_texts_addrs)
    with np st1 show ?thesis using step_ok_same [OF dead] by simp
  next
    case False
    then have pl: "plain ?e" using static_plain(1) [OF se] by simp
    have "out_address c (nodes_of st1 ! i) st1 s = Inr (True, st', s')"
      using rest False by (auto simp: Let_def plain_def)
    note out_address_places [OF this d1]
    moreover from this have "nodes_of st' = nodes_of st1" by (simp add: nodes_of_def)
    ultimately show ?thesis using st1(2) o1 pl
      unfolding step_ok_def static_fields(1) [OF se] static_plain(3) [OF se] by auto
  qed
qed

lemma out_loop_places:
  assumes "out_loop c is st s = Inr (True, st', s')" "dead_ok st" "distinct is" "set is \<subseteq> {..<length (nodes_of st)}"
  shows "(\<forall>h f x. covers (host_stab st) h f x \<longrightarrow> covers (host_stab st') h f x) \<and>
    all_rcpts (host_stab st) \<subseteq> all_rcpts (host_stab st') \<and>
    (\<forall>i\<in>set is. plain (nodes_of st ! i) \<and> \<not> shut_out (nodes_of st ! i) \<longrightarrow> placed (nodes_of st ! i) (host_stab st')) \<and>
    all_rcpts (host_stab st') \<subseteq> all_rcpts (host_stab st) \<union>
      {e_addr (nodes_of st ! i) | i. i \<in> set is \<and> plain (nodes_of st ! i)}"
  using assms
proof (induction "is" arbitrary: st s)
  case (Cons i l)
  then obtain st1 s1 where o: "out_step c i st s = Inr (True, st1, s1)" and l: "out_loop c l st1 s1 = Inr (True, st', s')"
    by (auto split: if_splits)
  have i: "i < length (nodes_of st)" "i \<notin> set l" "distinct l" using Cons.prems by auto
  from out_step_result [OF o Cons.prems(2) i(1)]
  have ok: "step_ok (nodes_of st ! i) st st1" and oth: "others i (nodes_of st) (nodes_of st1)" by simp_all
  have "set l \<subseteq> {..<length (nodes_of st1)}" using Cons.prems(4) oth by (auto simp: others_def)
  note ih = Cons.IH [OF l ok [unfolded step_ok_def, THEN conjunct1] i(3) this]
  have same: "static (nodes_of st1 ! j) = static (nodes_of st ! j)" if "j \<in> set l" for j
    using oth that i(2) Cons.prems(4) by (auto simp: others_def)
  note eq = static_plain [OF same] static_fields(1) [OF same]
  have mono: "placed e (host_stab st1) \<Longrightarrow> placed e (host_stab st')" for e
    using ih unfolding placed_def by blast
  have "placed (nodes_of st ! j) (host_stab st')"
    if j: "j \<in> set (i # l)" "plain (nodes_of st ! j)" "\<not> shut_out (nodes_of st ! j)" for j
  proof (cases "j = i")
    case True
    with ok j show ?thesis by (intro mono) (simp add: step_ok_def)
  next
    case False
    with j have "j \<in> set l" by simp
    note e = eq [OF this]
    from ih \<open>j \<in> set l\<close> j e(1,2) have "placed (nodes_of st1 ! j) (host_stab st')" by blast
    with e(3) show ?thesis by simp
  qed
  moreover have "{e_addr (nodes_of st1 ! j) | j. j \<in> set l \<and> plain (nodes_of st1 ! j)} \<subseteq>
      {e_addr (nodes_of st ! j) | j. j \<in> set (i # l) \<and> plain (nodes_of st ! j)}" (is "?new \<subseteq> ?all")
    using eq by auto
  moreover have "all_rcpts (host_stab st1) \<subseteq> all_rcpts (host_stab st) \<union> ?all"
    using ok by (auto simp: step_ok_def split: if_splits)
  moreover have "all_rcpts (host_stab st') \<subseteq> all_rcpts (host_stab st1) \<union> ?new" using ih by simp
  ultimately show ?case using ih ok unfolding step_ok_def by (intro conjI) (blast+)
qed simp


text \<open>Two addresses of one host, and a group that is not final.\<close>

definition out_ex :: expand where
  "out_ex = (zero_expand env_ex)\<lparr>exp_addrs :=
     [zero_addr\<lparr>e_addr := ''g@a.edu'', e_addr_type := ADDRESS_TYPE_EMAIL\<rparr>,
      zero_addr\<lparr>e_addr := ''p@b.edu'', e_addr_type := ADDRESS_TYPE_EMAIL, e_addr_terminal := 1, e_addr_from := ''s@c.edu''\<rparr>,
      zero_addr\<lparr>e_addr := ''q@B.edu'', e_addr_type := ADDRESS_TYPE_EMAIL, e_addr_terminal := 1, e_addr_from := ''s@c.edu''\<rparr>],
     exp_list := [0, 1, 2]\<rparr>"

lemma out_ex_runs:
  "case out_loop exp_conf_ex [0, 1, 2] \<lparr>o_exp = out_ex, host_stab = [], env_dead = None, env_out = 0, loop_color = 1\<rparr>
       (exp_state_ex [] (\<lambda>_. [])) of
     Inl _ \<Rightarrow> False
   | Inr (ok, st, s) \<Rightarrow> ok = True \<and> map (\<lambda>eo. map r_rcpt (e_rcpt (eo_env eo))) (host_stab st) = [[''q@B.edu'', ''p@b.edu'']]"
  by code_simp


subsection \<open>Where it goes wrong\<close>

text \<open>
  A postmaster without a domain whom the password file knows is final and stays an address of
  mail, but it has no \<open>@\<close>: the expansion fails, each time.
\<close>

lemma postmaster_stuck:
  assumes "e_addr_type e = ADDRESS_TYPE_EMAIL" "CHR ''@'' \<notin> set (e_addr e)"
  shows "out_address c e st s = Inr (False, st, s)"
proof -
  have "dropWhile (\<lambda>ch. ch \<noteq> CHR ''@'') (e_addr e) = []" using assms(2) by (auto simp: dropWhile_eq_Nil_conv)
  then show ?thesis using assms(1) by (simp add: out_address_def out_domain_def del: dropWhile_eq_Nil_conv and_then_Inr_iff)
qed

lemma postmaster_final:
  assumes "e_addr_at (exp_addrs exp ! i) = None" "a_fname a = Some f"
    and "w_passwd s f = Some [(STRING_POSTMASTER, ''/root'')]" "w_forward s ''/root/.forward'' = FMissing" "w_oracle s = []"
  shows "password_expand c exp i a s = Inr (PASSWORD_FINAL, exp, s)"
  using assms
  by (simp add: password_expand_def simta_getpwnam_def local_name_def MAXPATHLEN_def strcasecmp_eq0 outcome_def
      del: and_then_Inr_iff)

text \<open>
  A group for members only that names permitted groups, reached through an alias or a person: the
  name of the parent is NULL and is compared.
\<close>

lemma parent_without_name:
  assumes "e_addr_ok (exp_addrs exp ! i) \<noteq> []" "e_addr_parents (exp_addrs exp ! i) = [Some p]" "e_addr_dn (exp_addrs exp ! p) = None"
  shows "members_only (i # is) color exp s = Inl NullDeref"
  using assms by (cases "e_addr_ok (exp_addrs exp ! i)") (simp_all add: parent_permitted_def)

text \<open>
  A dead message has a command file but no queue: when a later envelope cannot be written,
  taking it back goes through the pointer to its queue, which is NULL.
\<close>

lemma dead_not_queued: "e_dir env = DIR_DEAD \<Longrightarrow> queue_envelope c env s = Inr (0, env, s)"
  by (simp add: queue_envelope_def)

lemma dead_not_unwound:
  assumes "has_flag (e_flags env) ENV_FLAG_EFILE" "e_hq env = None"
  shows "cleanup_envelope_list (env # envs) s = Inl NullDeref"
  using assms by (simp add: unwind_env_def queue_remove_envelope_def)

end
