(* ===== verification/QRunner.thy ===== *)
theory QRunner
  imports QDeliver Expand
begin

section \<open>A run over all queues: q\_runner of queue.c\<close>

text \<open>
  \<open>q_runner\<close> is where expansion and delivery meet: all host queues are delivered, what is left
  and may be punted is, then one message without a host is expanded, and so on until there is
  none.  A bounce is a new message without a host, so the run is not structural: it is granted
  a number of rounds, a number of messages to try in a round and a number of addresses for an
  expansion, and \<open>Short\<close> says that one of them was not enough.  A delivery needs no grant: a pass
  more than the queue has messages is enough (\<open>q_deliver_drains\<close>).  Host queues are only added,
  at the head of the list, while the loops walk it, so each loop is over the names at its start.
\<close>

definition SIMTA_EXIT_OK :: int where "SIMTA_EXIT_OK = 0"
definition SIMTA_EXIT_ERROR :: int where "SIMTA_EXIT_ERROR = 1"
definition SIMTA_EXIT_OK_LEAKY :: int where "SIMTA_EXIT_OK_LEAKY = 2"

definition PROCESS_Q_SLOW :: int where "PROCESS_Q_SLOW = 2"

lemmas exit_codes = SIMTA_EXIT_OK_def SIMTA_EXIT_ERROR_def SIMTA_EXIT_OK_LEAKY_def

datatype 'x going = Going 'x | Stopped int | Short

subsection \<open>The host queues\<close>

definition queue_passes :: "hq_ref \<Rightarrow> 'a q_state_scheme \<Rightarrow> nat" where
  "queue_passes r s = (case get_hq r s of None \<Rightarrow> 0 | Some hq \<Rightarrow> Suc (length (hq_env_head hq)))"

definition deliver_queue :: "conf \<Rightarrow> string \<Rightarrow> hq_ref \<Rightarrow> 'a net_state_scheme \<Rightarrow> (bool \<times> 'a net_state_scheme) run" where
  "deliver_queue c daytime r s =
     and_then (q_deliver c daytime r (queue_passes r s) s) (\<lambda>(how, d, s1). Inr (how \<noteq> Running, s1))"

text \<open>
  The queues with something in them: those that may take mail are gathered, the longest first;
  the others are delivered on the spot, which bounces or moves their messages.
\<close>

fun gather :: "conf \<Rightarrow> string \<Rightarrow> string list \<Rightarrow> string list \<Rightarrow> 'a net_state_scheme \<Rightarrow>
  (string list going \<times> 'a net_state_scheme) run" where
  "gather c daytime [] dq s = Inr (Going dq, s)"
| "gather c daytime (h # hs) dq s =
     (case host_q_lookup h s of
        None \<Rightarrow> Inl NullDeref
      | Some hq \<Rightarrow>
          (if hq_env_head hq = [] then gather c daytime hs dq s
           else if is_deliverable hq then
             gather c daytime hs (map hq_hostname (deliver_first hq (List.map_filter (\<lambda>x. host_q_lookup x s) dq))) s
           else if hq_status hq \<in> {HOST_SUPRESSED, HOST_DOWN, HOST_BOUNCE} then
             and_then (deliver_queue c daytime (HostQ h) s) (\<lambda>(ok, s1).
               if ok then gather c daytime hs dq s1 else Inr (Short, s1))
           else Inr (Stopped 1, s)))"

fun deliver_each :: "conf \<Rightarrow> string \<Rightarrow> string list \<Rightarrow> 'a net_state_scheme \<Rightarrow> (bool \<times> 'a net_state_scheme) run" where
  "deliver_each c daytime [] s = Inr (True, s)"
| "deliver_each c daytime (h # hs) s =
     and_then (deliver_queue c daytime (HostQ h) s) (\<lambda>(ok, s1).
       if ok then deliver_each c daytime hs s1 else Inr (False, s1))"

definition deliver_punted :: "conf \<Rightarrow> string \<Rightarrow> 'a net_state_scheme \<Rightarrow> (bool \<times> 'a net_state_scheme) run" where
  "deliver_punted c daytime s =
     (case simta_punt_q s of
        None \<Rightarrow> Inr (True, s)
      | Some hq \<Rightarrow> if hq_env_head hq = [] then Inr (True, s) else deliver_queue c daytime PuntQ s)"

text \<open>All queues once: going on, or the result of the run.\<close>

definition deliver_all :: "conf \<Rightarrow> string \<Rightarrow> 'a net_state_scheme \<Rightarrow> (unit going \<times> 'a net_state_scheme) run" where
  "deliver_all c daytime s =
     and_then (gather c daytime (map hq_hostname (simta_host_q s)) [] s) (\<lambda>(g, s1). case g of
         Short \<Rightarrow> Inr (Short, s1)
       | Stopped rc \<Rightarrow> Inr (Stopped rc, s1)
       | Going dq \<Rightarrow>
           and_then (deliver_each c daytime dq s1) (\<lambda>(ok, s2).
             if \<not> ok then Inr (Short, s2)
             else and_then (deliver_punted c daytime s2) (\<lambda>(ok2, s3).
               Inr (if ok2 then Going () else Short, s3))))"

subsection \<open>A message that is not expanded\<close>

definition unexpanded_read :: "conf \<Rightarrow> envelope \<Rightarrow> 'a env_state_scheme \<Rightarrow> (bool \<times> envelope \<times> 'a env_state_scheme) run" where
  "unexpanded_read c env s =
     (if e_rcpt env = [] then
        and_then (env_move env DIR_FAST s) (\<lambda>(rc, env1, s1).
          if rc \<noteq> 0 then Inr (False, env1, s1)
          else and_then (env_read c READ_DELIVER_INFO env1 False s1) (\<lambda>(rc2, lock, env2, s2). Inr (rc2 = 0, env2, s2)))
      else if e_dir env \<noteq> DIR_FAST then Inl AssertFail
      else Inr (True, env, s))"

text \<open>A message of the slow queue that cannot be expanded is bounced when it is old.\<close>

definition unexpanded_bounce :: "conf \<Rightarrow> string \<Rightarrow> envelope \<Rightarrow> 'a q_state_scheme \<Rightarrow> (envelope \<times> 'a q_state_scheme) run" where
  "unexpanded_bounce c daytime env s =
     (case open_file (dfile env) s of
        (None, s1) \<Rightarrow> Inr (env, s1)
      | (Some ino, s1) \<Rightarrow>
          (case env_is_old c env ino s1 of
             (old, env1, s2) \<Rightarrow>
               if old = 0 then Inr (env1, s2)
               else
                 (let env2 = env1\<lparr>e_flags := set_flag (e_flags env1) ENV_FLAG_BOUNCE\<rparr>; (attach_ok, s3) = outcome s2
                  in if \<not> attach_ok then Inr (env2, s3)
                     else and_then (bounce_snet c daytime env2 (Some (snet_attach (w_data s3 ino) (1024 * 1024))) None None s3)
                       (\<lambda>(b, s4). case b of
                           None \<Rightarrow> Inr (env2, s4)
                         | Some benv \<Rightarrow>
                             (case env_unlink env2 s4 of
                                (rc, env3, s5) \<Rightarrow>
                                  if rc = 0 then and_then (queue_envelope c benv s5) (\<lambda>(rc2, b2, s6). Inr (env3, s6))
                                  else Inr (env3, snd (snd (env_unlink benv s5))))))))"

definition unexpanded_clean_up :: "envelope \<Rightarrow> 'a env_state_scheme \<Rightarrow> 'a env_state_scheme run" where
  "unexpanded_clean_up env s =
     and_then (env_move env DIR_SLOW s) (\<lambda>(rc, env1, s1). Inr (env_free (Some env1) s1))"

text \<open>One message: \<open>Some True\<close> when it was expanded, None when the addresses granted are not enough.\<close>

definition expand_one :: "nat \<Rightarrow> exp_conf \<Rightarrow> string \<Rightarrow> envelope \<Rightarrow> 'a exp_state_scheme \<Rightarrow> (bool option \<times> 'a exp_state_scheme) run" where
  "expand_one k c daytime env s =
     (let failed = (\<lambda>e s1. and_then (unexpanded_clean_up e s1) (\<lambda>s2. Inr (Some False, s2)))
      in and_then (unexpanded_read (x_conf c) env s) (\<lambda>(good, env1, s1).
           if \<not> good then failed env1 s1
           else and_then (expand_message k c daytime env1 s1) (\<lambda>(rc, s2). case rc of
               None \<Rightarrow> Inr (None, s2)
             | Some n \<Rightarrow>
                 (if n = 0 then Inr (Some True, env_free (Some env1) s2)
                  else if simta_process_type (x_conf c) = PROCESS_Q_SLOW then
                    and_then (unexpanded_bounce (x_conf c) daytime env1 s2) (\<lambda>(env2, s3). failed env2 s3)
                  else failed env1 s2))))"

text \<open>\<open>Going False\<close>: no message is left.\<close>

fun expand_next :: "nat \<Rightarrow> nat \<Rightarrow> exp_conf \<Rightarrow> string \<Rightarrow> 'a exp_state_scheme \<Rightarrow> (bool going \<times> 'a exp_state_scheme) run" where
  "expand_next k 0 c daytime s = Inr (Short, s)"
| "expand_next k (Suc m) c daytime s =
     (case simta_unexpanded_q s of
        None \<Rightarrow> Inl NullDeref
      | Some hq \<Rightarrow>
          (case hq_env_head hq of
             [] \<Rightarrow> Inr (Going False, s)
           | env # _ \<Rightarrow>
               and_then (queue_remove_envelope env s) (\<lambda>(env1, s1).
               and_then (expand_one k c daytime env1 s1) (\<lambda>(r, s2). case r of
                   None \<Rightarrow> Inr (Short, s2)
                 | Some True \<Rightarrow> Inr (Going True, s2)
                 | Some False \<Rightarrow> expand_next k m c daytime s2))))"

subsection \<open>The run\<close>

fun q_rounds :: "nat \<Rightarrow> nat \<Rightarrow> nat \<Rightarrow> exp_conf \<Rightarrow> string \<Rightarrow> 'a exp_state_scheme \<Rightarrow> (unit going \<times> 'a exp_state_scheme) run" where
  "q_rounds k m 0 c daytime s = Inr (Short, s)"
| "q_rounds k m (Suc n) c daytime s =
     and_then (deliver_all (x_conf c) daytime s) (\<lambda>(g, s1). case g of
         Going _ \<Rightarrow>
           and_then (expand_next k m c daytime s1) (\<lambda>(e, s2). case e of
               Going expanded \<Rightarrow> (if expanded then q_rounds k m n c daytime s2 else Inr (Going (), s2))
             | Stopped rc \<Rightarrow> Inr (Stopped rc, s2)
             | Short \<Rightarrow> Inr (Short, s2))
       | _ \<Rightarrow> Inr (g, s1))"

fun time_order_all :: "conf \<Rightarrow> string list \<Rightarrow> 'a q_state_scheme \<Rightarrow> 'a q_state_scheme run" where
  "time_order_all c [] s = Inr s"
| "time_order_all c (h # hs) s =
     (if host_q_lookup h s = None then Inl NullDeref
      else and_then (queue_time_order c (HostQ h) s) (\<lambda>s1. time_order_all c hs s1))"

text \<open>What could not be punted goes to the slow queue.\<close>

fun slow_all :: "envelope list \<Rightarrow> 'a q_state_scheme \<Rightarrow> 'a q_state_scheme run" where
  "slow_all [] s = Inr s"
| "slow_all (env # envs) s =
     and_then (queue_remove_envelope env s) (\<lambda>(env1, s1).
     and_then (unexpanded_clean_up env1 s1) (\<lambda>s2. slow_all envs s2))"

definition simta_red_close_ldap_dbs :: "'a exp_state_scheme \<Rightarrow> 'a exp_state_scheme" where
  "simta_red_close_ldap_dbs s =
     s\<lparr>ldaps_up := filter (\<lambda>ld. \<not> list_ex (\<lambda>red. list_ex (\<lambda>a. a_action a = EXPANSION_TYPE_LDAP \<and> a_fname a = Some ld)
         (red_receive red @ red_expand red)) (simta_red_hosts (simta_reds s))) (ldaps_up s)\<rparr>"

definition q_runner_exit :: "'a net_state_scheme \<Rightarrow> int" where
  "q_runner_exit s =
     (if simta_fast_files s \<noteq> 0 then SIMTA_EXIT_ERROR
      else if simta_leaky_queue s \<noteq> 0 then SIMTA_EXIT_OK_LEAKY else SIMTA_EXIT_OK)"

definition q_runner_done :: "'a exp_state_scheme \<Rightarrow> (int \<times> 'a exp_state_scheme) run" where
  "q_runner_done s =
     (let s1 = snd (simta_gettimeofday s)
      in and_then (case simta_punt_q s1 of None \<Rightarrow> Inr s1 | Some hq \<Rightarrow> slow_all (hq_env_head hq) s1) (\<lambda>s2.
           let s3 = simta_red_close_ldap_dbs s2 in Inr (q_runner_exit s3, s3)))"

text \<open>The grants are \<open>k\<close> addresses, \<open>m\<close> messages and \<open>n\<close> rounds; None when they are not enough.\<close>

definition q_runner :: "nat \<Rightarrow> nat \<Rightarrow> nat \<Rightarrow> exp_conf \<Rightarrow> string \<Rightarrow> 'a exp_state_scheme \<Rightarrow> (int option \<times> 'a exp_state_scheme) run" where
  "q_runner k m n c daytime s =
     (if simta_fast_files s < 0 then Inl AssertFail
      else if simta_host_q s = [] \<and> simta_unexpanded_q s = None then Inr (Some (simta_fast_files s), s)
      else
        and_then (queue_time_order (x_conf c) UnexpandedQ s) (\<lambda>s1.
        and_then (time_order_all (x_conf c) (map hq_hostname (simta_host_q s1)) s1) (\<lambda>s2.
          case simta_gettimeofday s2 of
            (None, s3) \<Rightarrow> Inr (Some (simta_fast_files s3), s3)
          | (Some tv, s3) \<Rightarrow>
              and_then (q_rounds k m n c daytime s3) (\<lambda>(g, s4). case g of
                  Short \<Rightarrow> Inr (None, s4)
                | Stopped rc \<Rightarrow> Inr (Some rc, s4)
                | Going _ \<Rightarrow> and_then (q_runner_done s4) (\<lambda>(rc, s5). Inr (Some rc, s5))))))"

subsection \<open>A directory: \<open>q_runner_dir\<close>\<close>

text \<open>
  A call of \<open>q_read_dir\<close> opens the directory, reads an entry or closes it; two calls more than
  there are entries are enough.  The result is the exit code.
\<close>

fun read_whole_dir :: "nat \<Rightarrow> conf \<Rightarrow> (hq_ref \<Rightarrow> nat) \<Rightarrow> string list \<Rightarrow> simta_dirp \<Rightarrow> 'a q_state_scheme \<Rightarrow>
  (bool option \<times> 'a q_state_scheme) run" where
  "read_whole_dir 0 c rnd listing sd s = Inr (None, s)"
| "read_whole_dir (Suc n) c rnd listing sd s =
     and_then (q_read_dir c rnd listing sd s) (\<lambda>(rc, sd1, s1).
       if rc \<noteq> 0 then Inr (Some False, s1)
       else if sd_dirp sd1 = None then Inr (Some True, s1)
       else read_whole_dir n c rnd listing sd1 s1)"

definition q_runner_dir :: "nat \<Rightarrow> nat \<Rightarrow> nat \<Rightarrow> exp_conf \<Rightarrow> string \<Rightarrow> (hq_ref \<Rightarrow> nat) \<Rightarrow> string list \<Rightarrow> simta_dir \<Rightarrow>
  'a exp_state_scheme \<Rightarrow> (int option \<times> 'a exp_state_scheme) run" where
  "q_runner_dir k m n c daytime rnd listing dir s =
     and_then (read_whole_dir (length listing + 2) (x_conf c) rnd listing
         \<lparr>sd_dirp = None, sd_dir = dir, sd_cycle = 0, sd_entries = 0\<rparr> s) (\<lambda>(r, s1). case r of
         None \<Rightarrow> Inr (None, s1)
       | Some False \<Rightarrow> Inr (Some 0, s1)
       | Some True \<Rightarrow>
           and_then (q_runner k m n c daytime s1) (\<lambda>(rc, s2). Inr (map_option (\<lambda>n. if n \<noteq> 0 then 1 else 0) rc, s2)))"

text \<open>The calls are enough: the directory is always read to its end or to the first error.\<close>

lemma q_read_dir_open:
  assumes "q_read_dir c rnd listing sd s = Inr (0, sd1, s1)" "sd_dirp sd = Some names"
  shows "sd_dirp sd1 = None \<or> (\<exists>name rest. names = name # rest \<and> sd_dirp sd1 = Some rest)"
  using assms
  by (cases names) (auto simp: q_read_dir_def q_read_end_def Let_def
      split: if_splits option.splits prod.splits list.splits)

lemma read_whole_dir_open:
  assumes "read_whole_dir n c rnd listing sd s = Inr (r, s')" "sd_dirp sd = Some names" "length names < n"
  shows "r \<noteq> None"
  using assms
proof (induction n c rnd listing sd s arbitrary: names rule: read_whole_dir.induct)
  case (2 n c rnd listing sd s)
  obtain rc sd1 s1 where q: "q_read_dir c rnd listing sd s = Inr (rc, sd1, s1)"
    using 2(2) by auto
  show ?case
  proof (cases "rc = 0 \<and> sd_dirp sd1 \<noteq> None")
    case True
    with q q_read_dir_open [of c rnd listing sd s sd1 s1 names] 2(3)
    obtain name rest where n: "names = name # rest" "sd_dirp sd1 = Some rest" by auto
    with True 2(2,4) q have "read_whole_dir n c rnd listing sd1 s1 = Inr (r, s')" "length rest < n" by auto
    from 2(1) [OF q refl _ _ _ this(1) n(2) this(2)] True show ?thesis by simp
  next
    case False
    with 2(2) q show ?thesis by (auto split: if_splits)
  qed
qed simp

lemma read_whole_dir_ends:
  assumes "read_whole_dir (length listing + 2) c rnd listing sd s = Inr (r, s')" "sd_dirp sd = None"
  shows "r \<noteq> None"
proof -
  obtain rc sd1 s1 where q: "q_read_dir c rnd listing sd s = Inr (rc, sd1, s1)"
    and r: "(if rc \<noteq> 0 then Inr (Some False, s1) else if sd_dirp sd1 = None then Inr (Some True, s1)
        else read_whole_dir (Suc (length listing)) c rnd listing sd1 s1) = Inr (r, s')"
    using assms(1) by (auto simp: numeral_2_eq_2)
  have "rc = 0 \<Longrightarrow> sd_dirp sd1 = Some listing"
    using q assms(2) by (auto simp: q_read_dir_def Let_def split: option.splits prod.splits if_splits)
  with r read_whole_dir_open [of "Suc (length listing)" c rnd listing sd1 s1 r s' listing]
  show ?thesis by (auto split: if_splits)
qed

subsection \<open>What is left when the rounds are over\<close>

lemma expand_next_done:
  "expand_next k m c daytime s = Inr (Going False, s') \<Longrightarrow>
   \<exists>hq. simta_unexpanded_q s' = Some hq \<and> hq_env_head hq = []"
  by (induction k m c daytime s rule: expand_next.induct)
    (auto split: option.splits list.splits bool.splits)

lemma q_rounds_done:
  "q_rounds k m n c daytime s = Inr (Going u, s') \<Longrightarrow>
   \<exists>hq. simta_unexpanded_q s' = Some hq \<and> hq_env_head hq = []"
proof (induction n arbitrary: s)
  case (Suc n)
  then obtain g s1 where d: "deliver_all (x_conf c) daytime s = Inr (g, s1)" by auto
  with Suc.prems obtain v where g: "g = Going v" by (cases g) auto
  with d Suc.prems obtain e s2 where e: "expand_next k m c daytime s1 = Inr (e, s2)" by auto
  with d g Suc.prems obtain b where "e = Going b" by (cases e) auto
  with d g e Suc show ?case by (cases b) (auto dest: expand_next_done)
qed simp

end
