(* ===== verification/MxLookup.thy ===== *)
theory MxLookup
  imports Net Bounce
begin

section \<open>Who connects, and may it: the rest of mx.c\<close>

text \<open>
  Reverse lookups, whether a domain exists, and lists of blocked and welcome addresses.  The
  answers come from \<open>w_dns\<close> in the order of the queries.  The name in a PTR answer is in the
  same bytes of the union as that of an alias (\<open>rr_cname\<close>).
\<close>

definition REVERSE_MATCH :: int where "REVERSE_MATCH = 0"
definition REVERSE_ERROR :: int where "REVERSE_ERROR = 1"
definition REVERSE_UNKNOWN :: int where "REVERSE_UNKNOWN = 2"
definition REVERSE_MISMATCH :: int where "REVERSE_MISMATCH = 3"
definition REVERSE_UNRESOLVED :: int where "REVERSE_UNRESOLVED = 4"

lemmas reverse_codes = REVERSE_MATCH_def REVERSE_ERROR_def REVERSE_UNKNOWN_def REVERSE_MISMATCH_def REVERSE_UNRESOLVED_def

definition RBL_UNKNOWN :: int where "RBL_UNKNOWN = 0"
definition RBL_ERROR :: int where "RBL_ERROR = 1"
definition RBL_NOT_FOUND :: int where "RBL_NOT_FOUND = 2"
definition RBL_BLOCK :: int where "RBL_BLOCK = 3"
definition RBL_ACCEPT :: int where "RBL_ACCEPT = 4"
definition RBL_LOG_ONLY :: int where "RBL_LOG_ONLY = 5"

lemmas rbl_codes = RBL_UNKNOWN_def RBL_ERROR_def RBL_NOT_FOUND_def RBL_BLOCK_def RBL_ACCEPT_def RBL_LOG_ONLY_def

definition DNSR_TYPE_PTR :: nat where "DNSR_TYPE_PTR = 12"

subsection \<open>Reverse lookup\<close>

text \<open>A query and its answer, with the handle in place.\<close>

definition query_answer :: "'a net_state_scheme \<Rightarrow> dnsr_result option \<times> 'a net_state_scheme" where
  "query_answer s =
     (let (query_ok, s1) = outcome s
      in if \<not> query_ok then (None, s1)
         else (case w_dns s1 of [] \<Rightarrow> (None, s1) | a # answers \<Rightarrow> (a, s1\<lparr>w_dns := answers\<rparr>)))"

definition has_address :: "in_addr \<Rightarrow> dnsr_result \<Rightarrow> bool" where
  "has_address ip result = list_ex (\<lambda>rr. rr_type rr = DNSR_TYPE_A \<and> rr_a rr = ip) result"

text \<open>The names of the PTR answer one after the other, until one of them has the address.\<close>

fun reverse_names :: "in_addr \<Rightarrow> dnsr_result \<Rightarrow> int \<Rightarrow> 'a net_state_scheme \<Rightarrow> (int \<times> string option) \<times> 'a net_state_scheme" where
  "reverse_names ip [] found s = ((found, None), s)"
| "reverse_names ip (rr # rrs) found s =
     (if rr_type rr \<noteq> DNSR_TYPE_PTR then reverse_names ip rrs found s
      else (case query_answer s of
          (None, s1) \<Rightarrow> ((REVERSE_ERROR, None), s1)
        | (Some result, s1) \<Rightarrow>
            if has_address ip result then ((REVERSE_MATCH, Some (rr_cname rr)), s1)
            else reverse_names ip rrs REVERSE_MISMATCH s1))"

text \<open>The result, and the name that is copied to \<open>dn\<close>; the name of the query takes memory.\<close>

definition check_reverse :: "in_addr \<Rightarrow> 'a net_state_scheme \<Rightarrow> (int \<times> string option) \<times> 'a net_state_scheme" where
  "check_reverse ip s =
     (let (new_ok, s1) = (if simta_dnsr s then (True, s) else outcome s)
      in if \<not> new_ok then ((REVERSE_ERROR, None), s1)
         else
           (let (name_ok, s2) = outcome (s1\<lparr>simta_dnsr := True\<rparr>)
            in if \<not> name_ok then ((REVERSE_ERROR, None), s2)
               else (case query_answer s2 of
                   (None, s3) \<Rightarrow> ((REVERSE_ERROR, None), s3)
                 | (Some names, s3) \<Rightarrow> reverse_names ip names REVERSE_UNKNOWN s3)))"

subsection \<open>Is there such a host?\<close>

text \<open>0 for yes, 1 for no, -1 when it cannot be told.\<close>

definition check_hostname :: "conf \<Rightarrow> string \<Rightarrow> 'a net_state_scheme \<Rightarrow> (int \<times> 'a net_state_scheme) run" where
  "check_hostname c hostname s =
     and_then (get_mx c hostname s) (\<lambda>(result, s1). case result of
         None \<Rightarrow> Inr (- 1, s1)
       | Some (_ # _) \<Rightarrow> Inr (0, s1)
       | Some [] \<Rightarrow>
           (case get_a hostname s1 of
              (None, s2) \<Rightarrow> Inr (- 1, s2)
            | (Some answers, s2) \<Rightarrow> Inr (if answers \<noteq> [] then 0 else 1, s2)))"

subsection \<open>Block lists\<close>

record rbl =
  rbl_type :: int
  rbl_type_text :: string
  rbl_domain :: string
  rbl_url :: string

record rbl_found =
  found_rbl :: "rbl option"
  found_msg :: "string option"

text \<open>
  The first list that has the address decides; lists that cannot be asked are passed over.
  \<open>found\<close> is left at the list that was asked last when memory runs out, and NULL when no list
  has the address.  The first answer is read as an address, whatever its type.
\<close>

fun rbl_check :: "int \<Rightarrow> rbl list \<Rightarrow> rbl_found \<Rightarrow> 'a net_state_scheme \<Rightarrow> (int \<times> rbl_found \<times> 'a net_state_scheme)" where
  "rbl_check verbose [] f s = (RBL_NOT_FOUND, f\<lparr>found_rbl := None\<rparr>, s)"
| "rbl_check verbose (r # rs) f s =
     (if verbose = 0 \<and> rbl_type r = RBL_LOG_ONLY then rbl_check verbose rs f s
      else
        (let f1 = f\<lparr>found_rbl := Some r\<rparr>; (name_ok, s1) = outcome s
         in if \<not> name_ok then rbl_check verbose rs f1 s1
            else (case get_a (rbl_domain r) s1 of
                (None, s2) \<Rightarrow> rbl_check verbose rs f1 s2
              | (Some [], s2) \<Rightarrow> rbl_check verbose rs f1 s2
              | (Some (rr # _), s2) \<Rightarrow>
                  (let (strdup_ok, s3) = outcome s2
                   in if \<not> strdup_ok then (RBL_ERROR, f1, s3)
                      else if rbl_type r = RBL_LOG_ONLY then rbl_check verbose rs f1 s3
                      else (rbl_type r, f1\<lparr>found_msg := Some (inet_ntoa (rr_a rr))\<rparr>, s3)))))"

text \<open>Configured lists are kept in order; other types than the three are refused.\<close>

definition rbl_text :: "int \<Rightarrow> string option" where
  "rbl_text type =
     (if type = RBL_ACCEPT then Some ''Accept'' else if type = RBL_LOG_ONLY then Some ''Log_Only''
      else if type = RBL_BLOCK then Some ''Block'' else None)"

definition rbl_add :: "rbl list \<Rightarrow> int \<Rightarrow> string \<Rightarrow> string \<Rightarrow> 'a sys_scheme \<Rightarrow> int \<times> rbl list \<times> 'a sys_scheme" where
  "rbl_add rbls type domain url s =
     (case rbl_text type of
        None \<Rightarrow> (1, rbls, s)
      | Some t \<Rightarrow>
          (let (ok, s1) = all_ok 3 s
           in if ok then (0, rbls @ [\<lparr>rbl_type = type, rbl_type_text = t, rbl_domain = domain, rbl_url = url\<rparr>], s1)
              else (1, rbls, s1)))"

subsection \<open>What they decide\<close>

text \<open>A configured list is one of the three types, so a hit is a block or a welcome, with its list.\<close>

definition rbls_ok :: "rbl list \<Rightarrow> bool" where
  "rbls_ok rbls = list_all (\<lambda>r. rbl_text (rbl_type r) \<noteq> None) rbls"

lemma rbl_add_ok: "rbls_ok rbls \<Longrightarrow> rbl_add rbls type domain url s = (rc, rbls', s') \<Longrightarrow> rbls_ok rbls'"
  by (auto simp: rbl_add_def rbls_ok_def Let_def split: option.splits prod.splits if_splits)

lemma rbl_check_hit:
  assumes "rbl_check verbose rbls f s = (rc, f', s')" "rbls_ok rbls" "rc \<noteq> RBL_NOT_FOUND"
  shows "rc \<in> {RBL_BLOCK, RBL_ACCEPT, RBL_ERROR} \<and> found_rbl f' \<noteq> None"
  using assms
proof (induction verbose rbls f s rule: rbl_check.induct)
  case (2 verbose r rs f s)
  then show ?case
    by (simp add: Let_def rbls_ok_def split: if_splits prod.splits option.splits list.splits)
      (auto simp: rbl_text_def rbl_codes split: if_splits)
qed simp

text \<open>A match was confirmed by the address of the name.\<close>

lemma reverse_names_match:
  "reverse_names ip rrs found s = ((REVERSE_MATCH, name), s') \<Longrightarrow> found \<noteq> REVERSE_MATCH \<Longrightarrow>
   \<exists>rr \<in> set rrs. rr_type rr = DNSR_TYPE_PTR \<and> name = Some (rr_cname rr)"
  by (induction ip rrs found s rule: reverse_names.induct)
    (auto simp: reverse_codes split: if_splits prod.splits option.splits)

end
