(* ===== verification/Base64.thy ===== *)
theory Base64
  imports Prelude
begin

section \<open>Printing a digest: base64.c\<close>

text \<open>
  Both directions of base 64.  A byte is a word of 8 bits.  The tables of the source, which are
  generated, look up the bits of two neighbouring bytes together; here an entry is computed
  from the place of a character in the alphabet, and is 0 for the others.  The decoder indexes
  its tables with a \<open>char\<close>, which is negative from 128 on.  It knows no padding: \<open>=\<close> stands for
  zero bits, and the bytes that come of it are written too.
\<close>

unbundle bit_operations_syntax

type_synonym byte = "8 word"

subsection \<open>Tables\<close>

definition b64_char :: "nat \<Rightarrow> char" where
  "b64_char v =
     char_of (if v < 26 then 65 + v else if v < 52 then 71 + v else if v < 62 then v - 4
              else if v = 62 then 43 else 47)"

definition b64_pos :: "char \<Rightarrow> nat" where
  "b64_pos c =
     (let n = code c
      in if 65 \<le> n \<and> n \<le> 90 then n - 65 else if 97 \<le> n \<and> n \<le> 122 then n - 71
         else if 48 \<le> n \<and> n \<le> 57 then n + 4 else if n = 43 then 62 else if n = 47 then 63 else 0)"

definition etab_high6 :: "byte \<Rightarrow> char" where
  "etab_high6 b = b64_char (unat (drop_bit 2 b))"
definition etab_high24 :: "byte \<Rightarrow> char" where
  "etab_high24 b = b64_char (unat (push_bit 4 (b AND 0x03) OR drop_bit 4 b))"
definition etab_low42 :: "byte \<Rightarrow> char" where
  "etab_low42 b = b64_char (unat (push_bit 2 (b AND 0x0F) OR drop_bit 6 b))"
definition etab_low6 :: "byte \<Rightarrow> char" where
  "etab_low6 b = b64_char (unat (b AND 0x3F))"

definition dtab :: "(byte \<Rightarrow> byte) \<Rightarrow> char \<Rightarrow> byte run" where
  "dtab f c = (if code c < 128 then Inr (f (word_of_nat (b64_pos c))) else Inl OutOfBounds)"

definition dtab_high6 :: "char \<Rightarrow> byte run" where "dtab_high6 = dtab (push_bit 2)"
definition dtab_high2 :: "char \<Rightarrow> byte run" where "dtab_high2 = dtab (drop_bit 4)"
definition dtab_high4 :: "char \<Rightarrow> byte run" where "dtab_high4 = dtab (push_bit 4)"
definition dtab_low4 :: "char \<Rightarrow> byte run" where "dtab_low4 = dtab (drop_bit 2)"
definition dtab_low2 :: "char \<Rightarrow> byte run" where "dtab_low2 = dtab (push_bit 6)"
definition dtab_low6 :: "char \<Rightarrow> byte run" where "dtab_low6 = dtab id"

lemmas etabs = etab_high6_def etab_high24_def etab_low42_def etab_low6_def
lemmas dtabs = dtab_high6_def dtab_high2_def dtab_high4_def dtab_low4_def dtab_low2_def dtab_low6_def

subsection \<open>Encoding and decoding\<close>

fun base64_e :: "byte list \<Rightarrow> string" where
  "base64_e (a # b # c # d) =
     etab_high6 a # etab_high24 ((a AND 0x03) OR (b AND 0xF0)) #
     etab_low42 ((b AND 0x0F) OR (c AND 0xC0)) # etab_low6 c # base64_e d"
| "base64_e [a, b] =
     [etab_high6 a, etab_high24 ((a AND 0x03) OR (b AND 0xF0)), etab_low42 (b AND 0x0F), CHR ''='']"
| "base64_e [a] = [etab_high6 a, etab_high24 (a AND 0x03), CHR ''='', CHR ''='']"
| "base64_e [] = []"

definition both :: "byte run \<Rightarrow> byte run \<Rightarrow> byte run" where
  "both x y = and_then x (\<lambda>u. and_then y (\<lambda>v. Inr (u OR v)))"

text \<open>Characters behind the last group of four are not read.\<close>

fun base64_d :: "string \<Rightarrow> byte list run" where
  "base64_d (p # q # r # t # e) =
     and_then (both (dtab_high6 p) (dtab_high2 q)) (\<lambda>a.
     and_then (both (dtab_high4 q) (dtab_low4 r)) (\<lambda>b.
     and_then (both (dtab_low2 r) (dtab_low6 t)) (\<lambda>c.
     and_then (base64_d e) (\<lambda>d. Inr (a # b # c # d)))))"
| "base64_d e = Inr []"

definition SZ_BASE64_E :: "nat \<Rightarrow> nat" where "SZ_BASE64_E x = (x + 2) div 3 * 4 + 1"
definition SZ_BASE64_D :: "nat \<Rightarrow> nat" where "SZ_BASE64_D x = x div 4 * 3"

subsection \<open>The tables belong together\<close>

lemma b64_pos_char [simp]: "v < 64 \<Longrightarrow> b64_pos (b64_char v) = v"
  and code_b64_char [simp]: "v < 64 \<Longrightarrow> code (b64_char v) < 128"
  by (auto simp: b64_pos_def b64_char_def of_char_of Let_def)

lemma dtab_char: "v < 64 \<Longrightarrow> dtab f (b64_char v) = Inr (f (word_of_nat v))"
  by (simp add: dtab_def)

lemma bits8: "(\<And>n. n \<in> {0, 1, 2, 3, 4, 5, 6, 7} \<Longrightarrow> bit (x :: byte) n = bit y n) \<Longrightarrow> x = y"
  by (rule bit_word_eqI) (auto simp: less_Suc_eq numeral_eq_Suc)

lemma six_bits: "(w :: byte) AND 0x3F = w \<Longrightarrow> unat w < 64"
proof -
  assume "w AND 0x3F = w"
  moreover have "w AND 0x3F = take_bit 6 w" by (rule bits8) (auto simp: bit_simps)
  ultimately have "take_bit 6 w = w" by simp
  then have "unat w = unat (take_bit 6 w)" by simp
  also have "\<dots> < 64" using take_bit_nat_less_exp [of 6 "unat w"] by (simp add: unsigned_take_bit_eq)
  finally show ?thesis .
qed

lemma dtab_word: "(w :: byte) AND 0x3F = w \<Longrightarrow> dtab f (b64_char (unat w)) = Inr (f w)"
  using six_bits [of w] by (simp add: dtab_char)

lemma tab_pair: "(w :: byte) AND 0x3F = w \<Longrightarrow> f w = x \<Longrightarrow> dtab f (b64_char (unat w)) = Inr x"
  by (simp add: dtab_word)

lemma no_bit: "\<not> bit (b :: byte) 8" "\<not> bit (b :: byte) 9" "\<not> bit (b :: byte) 10" "\<not> bit (b :: byte) 11"
    "\<not> bit (b :: byte) 12" "\<not> bit (b :: byte) 13"
  using bit_imp_le_length [of b] by fastforce+

lemma suc_bits: "bit (b :: byte) (Suc (Suc 0)) = bit b 2" "bit (b :: byte) (Suc (Suc (Suc 0))) = bit b 3"
  by (simp_all add: numeral_2_eq_2 numeral_3_eq_3)

lemma tab_pairs:
  "dtab_high6 (etab_high6 b) = Inr (b AND 0xFC)"
  "dtab_high2 (etab_high24 b) = Inr (b AND 0x03)" "dtab_high4 (etab_high24 b) = Inr (b AND 0xF0)"
  "dtab_low4 (etab_low42 b) = Inr (b AND 0x0F)" "dtab_low2 (etab_low42 b) = Inr (b AND 0xC0)"
  "dtab_low6 (etab_low6 b) = Inr (b AND 0x3F)"
  unfolding etabs dtabs
  by (rule tab_pair; rule bits8, auto simp: bit_simps suc_bits no_bit)+

lemma tab_pad: "dtab_low4 (CHR ''='') = Inr 0" "dtab_low2 (CHR ''='') = Inr 0" "dtab_low6 (CHR ''='') = Inr 0"
  by (simp_all add: dtabs dtab_def b64_pos_def)

lemma glue:
  "((a :: byte) AND 0xFC) OR ((a AND 0x03 OR b AND 0xF0) AND 0x03) = a"
  "((a AND 0x03 OR b AND 0xF0) AND 0xF0) OR ((b AND 0x0F OR d AND 0xC0) AND 0x0F) = (b :: byte)"
  "((b AND 0x0F OR d AND 0xC0) AND 0xC0) OR (d AND 0x3F) = (d :: byte)"
  by (rule bits8, auto simp: bit_simps)+

text \<open>
  C0: what was encoded comes back, whatever the bytes are, with as many bytes of 0 behind it as
  fill the last group of three; no table is read out of its bounds.
\<close>

theorem base64_roundtrip: "base64_d (base64_e d) = Inr (d @ replicate ((3 - length d mod 3) mod 3) 0)"
proof (induction d rule: base64_e.induct)
  case (1 a b c d)
  have "(3 - length (a # b # c # d) mod 3) mod 3 = (3 - length d mod 3) mod 3" by (simp add: mod_Suc)
  with 1 show ?case by (simp add: both_def tab_pairs glue del: and_then_Inr_iff)
next
  case (2 a b)
  have "(b AND 0x0F) AND 0xC0 = (0 :: byte)" "((a AND 0x03 OR b AND 0xF0) AND 0xF0) OR ((b AND 0x0F) AND 0x0F) = b"
    by (rule bits8, auto simp: bit_simps)+
  then show ?case by (simp add: both_def tab_pairs tab_pad glue numeral_2_eq_2 del: and_then_Inr_iff)
next
  case (3 a)
  have "(a AND 0xFC) OR ((a AND 0x03) AND 0x03) = a" "(a AND 0x03) AND 0xF0 = (0 :: byte)"
    by (rule bits8, auto simp: bit_simps)+
  then show ?case by (simp add: both_def tab_pairs tab_pad numeral_2_eq_2 del: and_then_Inr_iff)
qed simp

text \<open>The sizes the callers reserve, with the NUL, are those that are used.\<close>

lemma base64_e_size: "length (base64_e d) + 1 = SZ_BASE64_E (length d)"
proof (induction d rule: base64_e.induct)
  case (1 a b c d)
  have "(5 + length d) div 3 = (2 + length d) div 3 + 1" by presburger
  with 1 show ?case by (simp add: SZ_BASE64_E_def)
qed (auto simp: SZ_BASE64_E_def)

lemma base64_d_size: "base64_d e = Inr d \<Longrightarrow> length d = SZ_BASE64_D (length e)"
proof (induction e arbitrary: d rule: base64_d.induct)
  case (1 p q r t e)
  have "(4 + length e) div 4 = length e div 4 + 1" by presburger
  with 1 show ?case by (auto simp: SZ_BASE64_D_def)
qed (auto simp: SZ_BASE64_D_def)

end
