(* ===== verification/Receive.thy ===== *)
theory Receive
  imports QRunner MxLookup HeaderText Argcargv
begin

section \<open>The SMTP server: the session and its commands (receive.c)\<close>

text \<open>
  A session is a \<open>receive_data\<close>: the connection, the message that is being received, what is
  known of the client and the table of commands that are answered.  Each command is a function
  that returns a code, the session and the state of the process.  The build has TLS, SASL
  and libwrap (\<open>STRING_UNKNOWN\<close> is from its header); what these libraries say is an outcome each.  Sleeping (\<open>tarpit_sleep\<close>) and log
  lines change nothing.  A run of the queues that is granted too little is \<open>Exhausted\<close>.
\<close>

subsection \<open>Codes\<close>

definition SMTP_MODE_NORMAL :: int where "SMTP_MODE_NORMAL = 0"
definition SMTP_MODE_OFF :: int where "SMTP_MODE_OFF = 1"
definition SMTP_MODE_REFUSE :: int where "SMTP_MODE_REFUSE = 2"
definition SMTP_MODE_GLOBAL_RELAY :: int where "SMTP_MODE_GLOBAL_RELAY = 3"
definition SMTP_MODE_TEMPFAIL :: int where "SMTP_MODE_TEMPFAIL = 4"
definition SMTP_MODE_TARPIT :: int where "SMTP_MODE_TARPIT = 5"
definition SMTP_MODE_NOAUTH :: int where "SMTP_MODE_NOAUTH = 6"

lemmas smtp_modes = SMTP_MODE_NORMAL_def SMTP_MODE_OFF_def SMTP_MODE_REFUSE_def SMTP_MODE_GLOBAL_RELAY_def
  SMTP_MODE_TEMPFAIL_def SMTP_MODE_TARPIT_def SMTP_MODE_NOAUTH_def

definition RECEIVE_OK :: int where "RECEIVE_OK = 0"
definition RECEIVE_SYSERROR :: int where "RECEIVE_SYSERROR = 1"
definition RECEIVE_CLOSECONNECTION :: int where "RECEIVE_CLOSECONNECTION = 16"

lemmas receive_codes = RECEIVE_OK_def RECEIVE_SYSERROR_def RECEIVE_CLOSECONNECTION_def

definition MDCTX_UNINITILIZED :: int where "MDCTX_UNINITILIZED = 0"
definition MDCTX_READY :: int where "MDCTX_READY = 1"
definition MDCTX_IN_USE :: int where "MDCTX_IN_USE = 2"
definition MDCTX_FINAL :: int where "MDCTX_FINAL = 3"

definition LOCAL_ADDRESS :: int where "LOCAL_ADDRESS = 1"
definition NOT_LOCAL :: int where "NOT_LOCAL = 2"
definition LOCAL_ERROR :: int where "LOCAL_ERROR = 3"
definition MX_ADDRESS :: int where "MX_ADDRESS = 4"
definition LOCAL_ADDRESS_RBL :: int where "LOCAL_ADDRESS_RBL = 5"

definition S_421_DECLINE :: string where
  "S_421_DECLINE = ''Service not available: closing transmission channel''"
definition S_451_DECLINE :: string where
  "S_451_DECLINE = ''Requested action aborted: service temporarily unavailable''"
definition S_UNKNOWN_HOST :: string where "S_UNKNOWN_HOST = ''Unknown host''"
definition S_DENIED :: string where "S_DENIED = ''Access denied for IP''"

subsection \<open>Configuration and state\<close>

text \<open>
  The grants for \<open>q_runner\<close>, and the text of the date, are part of the configuration here.
  \<open>simta_checksum_md\<close> is the digest of the TLS library, as bytes; \<open>simta_spool\<close> are the paths of the
  directories; \<open>simta_log_tv\<close> is when the process began to log, \<open>filter_pid\<close> the id of the filter.
\<close>

record recv_conf =
  rc_exp :: exp_conf
  rc_grants :: "nat \<times> nat \<times> nat"
  rc_daytime :: string
  simta_smtp_default_mode :: int
  simta_smtp_punishment_mode :: int
  simta_max_message_size :: int
  simta_max_received_headers :: int
  simta_max_failed_rcpts :: int
  simta_strict_smtp_syntax :: int
  simta_from_checking :: int
  simta_sasl :: int
  simta_tls :: int
  simta_service_smtps :: int
  simta_mail_filter :: "string option"
  simta_checksum_md :: "(string \<Rightarrow> 8 word list) option"
  simta_data_url :: "string option"
  simta_reverse_url :: "string option"
  simta_libwrap_url :: "string option"
  simta_rbls :: "rbl list"
  simta_user_rbls :: "rbl list"
  simta_rbl_verbose_logging :: int
  simta_inbound_accepted_message_timer :: int
  simta_inbound_data_session_timer :: int
  simta_inbound_data_line_timer :: int
  simta_inbound_command_line_timer :: int
  simta_inbound_command_inactivity_timer :: int
  simta_inbound_global_session_timer :: int
  simta_smtp_rcvbuf_min :: int
  simta_global_connections :: int
  simta_global_connections_max :: int
  simta_global_throttle_connections :: int
  simta_global_throttle_max :: int
  simta_local_connections_max :: int
  simta_local_throttle_max :: int
  simta_ignore_reverse :: int
  simta_ignore_connect_in_reverse_errors :: int
  simta_version :: string
  sasl_mechs :: string
  simta_spool :: "simta_dir \<Rightarrow> string"
  simta_log_tv :: int
  filter_pid :: int

abbreviation rc_conf :: "recv_conf \<Rightarrow> conf" where
  "rc_conf c \<equiv> x_conf (rc_exp c)"

text \<open>
  What the SASL library returns for each step of an exchange: the code, the challenge in base 64
  (empty when there is none), and who has been authenticated.
\<close>

datatype sasl_code = SASL_OK | SASL_CONTINUE | SASL_NOMECH | SASL_BADPROT | SASL_TOOWEAK | SASL_ENCRYPT | SASL_ERROR

record sasl_answer =
  sasl_rc :: sasl_code
  sasl_serverout :: string
  sasl_user :: string

record recv_state = exp_state +
  simta_smtp_extension :: int
  w_sasl :: "sasl_answer list"
  filter_runs :: "string list list"

datatype c_func = F_helo | F_ehlo | F_mail | F_rcpt | F_data | F_rset | F_noop | F_quit | F_help
  | F_not_implemented | F_starttls | F_auth | F_bad_sequence

type_synonym command = "string \<times> c_func"

definition smtp_commands :: "command list" where
  "smtp_commands = [(''HELO'', F_helo), (''EHLO'', F_ehlo), (''MAIL'', F_mail), (''RCPT'', F_rcpt),
     (''DATA'', F_data), (''RSET'', F_rset), (''NOOP'', F_noop), (''QUIT'', F_quit), (''HELP'', F_help),
     (''VRFY'', F_not_implemented), (''EXPN'', F_not_implemented), (''STARTTLS'', F_starttls), (''AUTH'', F_auth)]"

definition refuse_commands :: "command list" where
  "refuse_commands = [(''HELO'', F_bad_sequence), (''EHLO'', F_bad_sequence), (''MAIL'', F_mail), (''RCPT'', F_rcpt),
     (''DATA'', F_data), (''RSET'', F_bad_sequence), (''NOOP'', F_bad_sequence), (''QUIT'', F_quit),
     (''HELP'', F_bad_sequence), (''VRFY'', F_bad_sequence), (''EXPN'', F_bad_sequence),
     (''STARTTLS'', F_bad_sequence), (''AUTH'', F_bad_sequence)]"

definition off_commands :: "command list" where
  "off_commands = [(''MAIL'', F_mail), (''RCPT'', F_rcpt), (''DATA'', F_data), (''QUIT'', F_quit)]"

text \<open>\<open>r_ac\<close> is the length of \<open>r_av\<close>, \<open>r_ncommands\<close> that of \<open>r_commands\<close>; \<open>r_md_text\<close> is what the digest has seen.\<close>

record receive_data =
  r_snet :: smtp_conn
  r_env :: "envelope option"
  r_av :: "string list"
  r_sin :: in_addr
  r_write_before_banner :: int
  r_data_success :: int
  r_data_attempt :: int
  r_mail_success :: int
  r_mail_attempt :: int
  r_rcpt_success :: int
  r_rcpt_attempt :: int
  r_failed_rcpts :: int
  r_tls :: int
  r_auth :: int
  r_dns_match :: int
  r_rbl_status :: int
  r_rbl :: rbl_found
  r_hello :: "string option"
  r_remote_hostname :: "string option"
  r_commands :: "command list"
  r_smtp_mode :: int
  r_auth_id :: "string option"
  r_tv_inactivity :: int
  r_tv_session :: int
  r_tv_accepted :: int
  r_mdctx_status :: int
  r_mdctx_bytes :: "32 word"
  r_md_text :: string

type_synonym 's handled = "(int \<times> receive_data \<times> 's) run"

definition S_UNKNOWN :: string where "S_UNKNOWN = ''unknown''"
definition S_UNRESOLVED :: string where "S_UNRESOLVED = ''Unresolved''"

text \<open>The session as \<open>smtp_receive\<close> sets it up.\<close>

definition zero_receive :: "snet \<Rightarrow> in_addr \<Rightarrow> receive_data" where
  "zero_receive sn ip = \<lparr>r_snet = \<lparr>conn_in = sn, conn_out = []\<rparr>, r_env = None, r_av = [], r_sin = ip,
     r_write_before_banner = 0, r_data_success = 0, r_data_attempt = 0, r_mail_success = 0, r_mail_attempt = 0,
     r_rcpt_success = 0, r_rcpt_attempt = 0, r_failed_rcpts = 0, r_tls = 0, r_auth = 0,
     r_dns_match = REVERSE_UNRESOLVED, r_rbl_status = RBL_UNKNOWN, r_rbl = \<lparr>found_rbl = None, found_msg = None\<rparr>,
     r_hello = None, r_remote_hostname = Some S_UNRESOLVED, r_commands = [], r_smtp_mode = SMTP_MODE_NORMAL,
     r_auth_id = None, r_tv_inactivity = 0, r_tv_session = 0, r_tv_accepted = 0,
     r_mdctx_status = MDCTX_UNINITILIZED, r_mdctx_bytes = 0, r_md_text = []\<rparr>"

text \<open>\<open>set_smtp_mode\<close>: the name of the mode is read from a table of eight.\<close>

definition mode_commands :: "int \<Rightarrow> command list" where
  "mode_commands mode =
     (if mode \<in> {SMTP_MODE_TEMPFAIL, SMTP_MODE_GLOBAL_RELAY, SMTP_MODE_TARPIT, SMTP_MODE_NORMAL, SMTP_MODE_NOAUTH}
      then smtp_commands
      else if mode = SMTP_MODE_REFUSE then refuse_commands else off_commands)"

definition set_smtp_mode :: "int \<Rightarrow> receive_data \<Rightarrow> receive_data run" where
  "set_smtp_mode mode r =
     (if mode < 0 \<or> 7 < mode then Inl OutOfBounds
      else Inr (r\<lparr>r_smtp_mode := if mode = 7 then SMTP_MODE_OFF else mode, r_commands := mode_commands mode\<rparr>))"

subsection \<open>Replies\<close>

definition snet_reply :: "string \<Rightarrow> receive_data \<Rightarrow> 'a sys_scheme \<Rightarrow> bool \<times> receive_data \<times> 'a sys_scheme" where
  "snet_reply t r s =
     (let (ok, s1) = outcome s; cn = r_snet r
      in if ok then (True, r\<lparr>r_snet := cn\<lparr>conn_out := conn_out cn @ t\<rparr>\<rparr>, s1) else (False, r, s1))"

text \<open>The text for each code, whether the host name goes in front of it, and what is returned.\<close>

record banner_kind =
  bk_code :: int
  bk_text :: string
  bk_hostname :: bool
  bk_ret :: int

definition banner :: "int \<Rightarrow> string \<Rightarrow> bool \<Rightarrow> int \<Rightarrow> banner_kind" where
  "banner n t host rc = \<lparr>bk_code = n, bk_text = t, bk_hostname = host, bk_ret = rc\<rparr>"

definition banner_kind_of :: "int \<Rightarrow> banner_kind" where
  "banner_kind_of n =
     (let plain = (\<lambda>t. banner n t False RECEIVE_OK)
      in if n = 211 then banner n ''simta'' True RECEIVE_OK
         else if n = 220 then banner n ''Simple Internet Message Transfer Agent ready'' True RECEIVE_OK
         else if n = 221 then banner n ''Service closing transmission channel'' True RECEIVE_CLOSECONNECTION
         else if n = 235 then plain ''Authentication successful''
         else if n = 250 then plain ''OK''
         else if n = 334 then plain []
         else if n = 354 then plain ''Start mail input; end with <CRLF>.<CRLF>''
         else if n = 451 then plain ''Local error in processing: requested action aborted''
         else if n = 500 then plain ''Command unrecognized''
         else if n = 501 then plain ''Syntax error in parameters or arguments''
         else if n = 502 then plain ''Command not implemented''
         else if n = 503 then plain ''Bad sequence of commands''
         else if n = 504 then plain ''Unrecognized authentication type''
         else if n = 530 then plain ''Authentication required''
         else if n = 534 then plain ''Authentication mechanism is too weak''
         else if n = 535 then plain ''Invalid initial-response arugment for mechanism''
         else if n = 538 then plain ''Encryption required for requested authentication mechanism''
         else if n = 550 then plain ''Requested action failed''
         else if n = 552 then plain ''Message exceeds fixed maximum message size''
         else if n = 554 then plain ''Transaction failed''
         else banner 421 ''Local error in processing: closing transmission channel'' True RECEIVE_CLOSECONNECTION)"

definition banner_line :: "conf \<Rightarrow> int \<Rightarrow> string option \<Rightarrow> string option \<Rightarrow> string" where
  "banner_line c n msg arg =
     (let k = banner_kind_of n
      in show_int (bk_code k) @ '' '' @ (if bk_hostname k then ''<'' @ simta_hostname c @ ''> '' else []) @
         (case msg of Some m \<Rightarrow> m | None \<Rightarrow> bk_text k) @ (case arg of Some a \<Rightarrow> '': '' @ a | None \<Rightarrow> []) @ CRLF)"

definition smtp_write_banner :: "recv_conf \<Rightarrow> int \<Rightarrow> string option \<Rightarrow> string option \<Rightarrow> receive_data \<Rightarrow> 'a sys_scheme \<Rightarrow>
  int \<times> receive_data \<times> 'a sys_scheme" where
  "smtp_write_banner c n msg arg r s =
     (case snet_reply (banner_line (rc_conf c) n msg arg) r s of
        (ok, r1, s1) \<Rightarrow> (if ok then bk_ret (banner_kind_of n) else RECEIVE_CLOSECONNECTION, r1, s1))"

definition say :: "recv_conf \<Rightarrow> int \<Rightarrow> string option \<Rightarrow> string option \<Rightarrow> receive_data \<Rightarrow> 'a sys_scheme \<Rightarrow> 'a sys_scheme handled" where
  "say c n msg arg r s = Inr (smtp_write_banner c n msg arg r s)"

text \<open>A reply of our own making: closing the connection when it cannot be written.\<close>

definition say_lines :: "string \<Rightarrow> receive_data \<Rightarrow> 'a sys_scheme \<Rightarrow> 'a sys_scheme handled" where
  "say_lines t r s =
     (case snet_reply t r s of (ok, r1, s1) \<Rightarrow> Inr (if ok then RECEIVE_OK else RECEIVE_CLOSECONNECTION, r1, s1))"

text \<open>A line of the client, a time-out, or the end of the connection.\<close>

datatype heard = Line string | Late | Gone

definition client_line :: "receive_data \<Rightarrow> 'a sys_scheme \<Rightarrow> heard \<times> receive_data \<times> 'a sys_scheme" where
  "client_line r s =
     (let (in_time, s1) = outcome s; cn = r_snet r
      in if \<not> in_time then (Late, r, s1)
         else (case snet_getline (conn_in cn) of
             (l, sn) \<Rightarrow> (case l of None \<Rightarrow> Gone | Some t \<Rightarrow> Line t, r\<lparr>r_snet := cn\<lparr>conn_in := sn\<rparr>\<rparr>, s1)))"

text \<open>Going on when the result is \<open>RECEIVE_OK\<close>, and giving up with a code otherwise.\<close>

definition go_on :: "int \<Rightarrow> 's handled \<Rightarrow> (receive_data \<Rightarrow> 's \<Rightarrow> 's handled) \<Rightarrow> 's handled" where
  "go_on rc m f = and_then m (\<lambda>(n, r, s). if n = RECEIVE_OK then f r s else Inr (rc, r, s))"

subsection \<open>Accepted messages and new transactions\<close>

definition deliver_accepted :: "recv_conf \<Rightarrow> receive_data \<Rightarrow> 'a recv_state_scheme \<Rightarrow> 'a recv_state_scheme handled" where
  "deliver_accepted c r s =
     and_then
       (case r_env r of
          None \<Rightarrow> Inr (r, s)
        | Some env \<Rightarrow>
            (if has_flag (e_flags env) ENV_FLAG_EFILE
             then and_then (queue_envelope (rc_conf c) env s) (\<lambda>(rc, env1, s1). Inr (r\<lparr>r_env := None\<rparr>, s1))
             else Inr (r, s)))
       (\<lambda>(r1, s1). case rc_grants c of (k, m, n) \<Rightarrow>
          and_then (q_runner k m n (rc_exp c) (rc_daytime c) s1) (\<lambda>(rc, s2). case rc of
              None \<Rightarrow> Inl Exhausted
            | Some x \<Rightarrow> Inr (if x \<noteq> 0 then RECEIVE_SYSERROR else RECEIVE_OK, r1, s2)))"

definition reset :: "recv_conf \<Rightarrow> receive_data \<Rightarrow> 'a recv_state_scheme \<Rightarrow> 'a recv_state_scheme handled" where
  "reset c r s =
     go_on RECEIVE_SYSERROR (deliver_accepted c r s) (\<lambda>r1 s1.
       Inr (RECEIVE_OK, r1\<lparr>r_env := None\<rparr>, if r_env r1 = None then s1 else env_free (r_env r1) s1))"

definition hello :: "string \<Rightarrow> receive_data \<Rightarrow> 'a sys_scheme \<Rightarrow> 'a sys_scheme handled" where
  "hello hostname r s =
     (if r_hello r \<noteq> None then Inr (RECEIVE_OK, r, s)
      else (let (ok, s1) = outcome s
            in Inr (if ok then (RECEIVE_OK, r\<lparr>r_hello := Some hostname\<rparr>, s1) else (RECEIVE_SYSERROR, r, s1))))"

definition f_helo :: "recv_conf \<Rightarrow> receive_data \<Rightarrow> 'a recv_state_scheme \<Rightarrow> 'a recv_state_scheme handled" where
  "f_helo c r s =
     (if length (r_av r) \<noteq> 2 then
        say c 501 None (Some (''RFC 2821 section 4.1.1.1: '' @ [CHR 0x22] @ ''HELO'' @ [CHR 0x22] @ '' SP Domain CRLF'')) r s
      else go_on RECEIVE_SYSERROR (hello (r_av r ! 1) r s) (\<lambda>r1 s1. say c 250 (Some ''Hello'') (Some (r_av r ! 1)) r1 s1))"

text \<open>
  The lines of the reply to EHLO, each with a dash as long as the number of extensions that
  was configured has not been counted down to 0.
\<close>

definition ehlo_lines :: "recv_conf \<Rightarrow> string \<Rightarrow> int \<Rightarrow> string list" where
  "ehlo_lines c host tls =
     [simta_hostname (rc_conf c) @ '' Hello '' @ host] @
     (if 0 \<le> simta_max_message_size c then [''SIZE='' @ show_int (simta_max_message_size c)] else []) @
     (if simta_sasl c \<noteq> 0 then [''AUTH '' @ sasl_mechs c] else []) @
     (if simta_tls c \<noteq> 0 \<and> tls = 0 then [''STARTTLS''] else [])"

fun ehlo_reply :: "int \<Rightarrow> string list \<Rightarrow> string list" where
  "ehlo_reply n [] = []"
| "ehlo_reply n (l # ls) = (''250'' @ (if n \<noteq> 0 then ''-'' else '' '') @ l @ CRLF) # ehlo_reply (n - 1) ls"

fun say_each :: "string list \<Rightarrow> receive_data \<Rightarrow> 'a sys_scheme \<Rightarrow> 'a sys_scheme handled" where
  "say_each [] r s = Inr (RECEIVE_OK, r, s)"
| "say_each (l # ls) r s = go_on RECEIVE_CLOSECONNECTION (say_lines l r s) (\<lambda>r1 s1. say_each ls r1 s1)"

text \<open>The mechanisms are asked for behind the lines in front of them.\<close>

definition f_ehlo :: "recv_conf \<Rightarrow> receive_data \<Rightarrow> 'a recv_state_scheme \<Rightarrow> 'a recv_state_scheme handled" where
  "f_ehlo c r s =
     (if length (r_av r) \<noteq> 2 then
        say c 501 None (Some (''RFC 2821 section 4.1.1.1: '' @ [CHR 0x22] @ ''EHLO'' @ [CHR 0x22] @ '' SP Domain CRLF'')) r s
      else
        go_on RECEIVE_SYSERROR (reset c r s) (\<lambda>r1 s1.
        go_on RECEIVE_SYSERROR (hello (r_av r ! 1) r1 s1) (\<lambda>r2 s2.
          let ls = ehlo_reply (simta_smtp_extension s2) (ehlo_lines c (r_av r ! 1) (r_tls r2));
              k = (if 0 \<le> simta_max_message_size c then 2 else 1)
          in go_on RECEIVE_CLOSECONNECTION (say_each (take k ls) r2 s2) (\<lambda>r3 s3.
               let (mechs_ok, s4) = (if simta_sasl c \<noteq> 0 then outcome s3 else (True, s3))
               in if \<not> mechs_ok then Inr (RECEIVE_SYSERROR, r3, s4) else say_each (drop k ls) r3 s4))))"

end
