(* ===== verification/ReceiveCommands.thy ===== *)
theory ReceiveCommands
  imports Receive
begin

section \<open>The SMTP server: MAIL, RCPT and the small commands (receive.c)\<close>

subsection \<open>MAIL\<close>

definition QT :: string where "QT = [CHR 0x22]"

definition mail_usage_text :: string where
  "mail_usage_text =
     ''501-Syntax violates RFC 2821 section 4.1.1.2:'' @ CRLF @
     ''501-     '' @ QT @ ''MAIL FROM:'' @ QT @ '' ('' @ QT @ ''<>'' @ QT @ '' / Reverse-Path ) [ SP Mail-parameters ] CRLF'' @ CRLF @
     ''501-         Reverse-path = Path'' @ CRLF @
     ''501          Path = '' @ QT @ ''<'' @ QT @ '' [ A-d-l '' @ QT @ '':'' @ QT @ '' ] Mailbox '' @ QT @ ''>'' @ QT @ CRLF"

definition f_mail_usage :: "recv_conf \<Rightarrow> receive_data \<Rightarrow> 'a recv_state_scheme \<Rightarrow> 'a recv_state_scheme handled" where
  "f_mail_usage c r s =
     go_on RECEIVE_CLOSECONNECTION (say_lines mail_usage_text r s) (\<lambda>r1 s1.
     go_on RECEIVE_SYSERROR (deliver_accepted c r1 s1) (\<lambda>r2 s2. Inr (RECEIVE_OK, r2, s2)))"

text \<open>\<open>strncasecmp( s, p, strlen( p )) == 0\<close>\<close>

definition case_prefix :: "string \<Rightarrow> string \<Rightarrow> bool" where
  "case_prefix p s \<longleftrightarrow> lower (take (length p) s) = lower p"

text \<open>
  \<open>strtol\<close> with base 10 on a \<open>long\<close> of 64 bits: the value, saturated, and where it stopped
  (at the start when there is no digit).
\<close>

definition LONG_MAX :: int where "LONG_MAX = 2 ^ 63 - 1"
definition LONG_MIN :: int where "LONG_MIN = - (2 ^ 63)"

definition strtol :: "string \<Rightarrow> int \<times> string" where
  "strtol t =
     (case scan_int t of
        None \<Rightarrow> (0, t)
      | Some v \<Rightarrow>
          (let u = dropWhile isspace t;
               w = (if u \<noteq> [] \<and> (hd u = CHR ''-'' \<or> hd u = CHR ''+'') then tl u else u)
           in (max LONG_MIN (min LONG_MAX v), dropWhile isdigit w)))"

definition bad_size :: "string \<Rightarrow> bool" where
  "bad_size t \<longleftrightarrow> (case strtol t of
     (v, rest) \<Rightarrow> t = [] \<or> rest \<noteq> [] \<or> v = LONG_MIN \<or> v = LONG_MAX \<or> v < 0)"

text \<open>The parameters behind the address: the reply that refuses them, if one does.\<close>

fun mail_params :: "recv_conf \<Rightarrow> bool \<Rightarrow> string list \<Rightarrow> (int \<times> string option \<times> string option) option" where
  "mail_params c seen_size [] = None"
| "mail_params c seen_size (p # ps) =
     (if case_prefix ''SIZE'' p then
        (if seen_size then Some (501, None, Some ''duplicate SIZE specified'')
         else if \<not> case_prefix ''SIZE='' p then Some (501, None, Some ''invalid SIZE command'')
         else if 0 < simta_max_message_size c then
           (if bad_size (drop 5 p) then Some (501, Some ''Syntax Error: invalid SIZE parameter'', Some (drop 5 p))
            else if simta_max_message_size c < fst (strtol (drop 5 p)) then Some (552, None, None)
            else mail_params c True ps)
         else mail_params c True ps)
      else Some (501, Some ''Syntax Error: unsupported SMPT service extension'', Some p))"

text \<open>The address of the command, in a word of its own unless the syntax is strict, and the parameters.\<close>

definition mail_words :: "recv_conf \<Rightarrow> string list \<Rightarrow> ((string option \<times> string option) \<times> string list) option" where
  "mail_words c av =
     (if length av < 2 then None
      else if simta_strict_smtp_syntax c = 0 \<and> 3 \<le> length av \<and> strcasecmp (av ! 1) ''FROM:'' = 0 then
        map_option (\<lambda>a. (a, drop 3 av)) (parse_emailaddr RFC_2821_MAIL_FROM (Some (av ! 2)))
      else if \<not> case_prefix ''FROM:'' (av ! 1) then None
      else map_option (\<lambda>a. (a, drop 2 av)) (parse_emailaddr RFC_2821_MAIL_FROM (Some (drop 5 (av ! 1)))))"

text \<open>What the mode says to a sender: nothing, or a reply.\<close>

definition mail_mode :: "recv_conf \<Rightarrow> string option \<Rightarrow> receive_data \<Rightarrow> 'a recv_state_scheme \<Rightarrow>
  'a recv_state_scheme handled \<Rightarrow> ('a recv_state_scheme \<Rightarrow> 'a recv_state_scheme handled) \<Rightarrow> 'a recv_state_scheme handled" where
  "mail_mode c domain r s err go =
     (if r_smtp_mode r = SMTP_MODE_TEMPFAIL then say c 451 (Some S_451_DECLINE) None r s
      else if r_smtp_mode r = SMTP_MODE_NOAUTH then say c 530 None None r s
      else if r_smtp_mode r = SMTP_MODE_REFUSE then say c 503 None None r s
      else if r_smtp_mode r = SMTP_MODE_TARPIT then go s
      else if r_smtp_mode r \<in> {SMTP_MODE_GLOBAL_RELAY, SMTP_MODE_NORMAL} then
        (if simta_from_checking c = 0 then go s
         else (case domain of
             None \<Rightarrow> go s
           | Some d \<Rightarrow> and_then (check_hostname (rc_conf c) d s) (\<lambda>(rc, s1).
               if rc = 0 then go s1
               else if rc < 0 then say c 451 None None r s1
               else say c 550 (Some S_UNKNOWN_HOST) (Some d) r s1)))
      else err)"

definition checksumming :: "recv_conf \<Rightarrow> bool" where
  "checksumming c \<longleftrightarrow> simta_mail_filter c \<noteq> None \<and> simta_checksum_md c \<noteq> None"

definition digest_ready :: "recv_conf \<Rightarrow> receive_data \<Rightarrow> receive_data" where
  "digest_ready c r =
     (if checksumming c \<and> r_mdctx_status r \<noteq> MDCTX_READY
      then r\<lparr>r_mdctx_status := MDCTX_READY, r_mdctx_bytes := 0, r_md_text := []\<rparr> else r)"

definition digest_add :: "recv_conf \<Rightarrow> string \<Rightarrow> receive_data \<Rightarrow> receive_data" where
  "digest_add c t r =
     (if checksumming c
      then r\<lparr>r_md_text := r_md_text r @ t, r_mdctx_bytes := r_mdctx_bytes r + word_of_nat (length t),
             r_mdctx_status := MDCTX_IN_USE\<rparr>
      else r)"

definition f_mail :: "recv_conf \<Rightarrow> receive_data \<Rightarrow> 'a recv_state_scheme \<Rightarrow> 'a recv_state_scheme handled" where
  "f_mail c r0 s =
     (let r = r0\<lparr>r_mail_attempt := r_mail_attempt r0 + 1\<rparr>
      in if r_smtp_mode r = SMTP_MODE_OFF then say c 421 (Some S_421_DECLINE) None r s
         else (case mail_words c (r_av r) of
             None \<Rightarrow> f_mail_usage c r s
           | Some ((addr, domain), ps) \<Rightarrow>
               (case mail_params c False ps of
                  Some (n, msg, arg) \<Rightarrow> say c n msg arg r s
                | None \<Rightarrow>
                    mail_mode c domain r s (Inr (RECEIVE_SYSERROR, r, s)) (\<lambda>s1.
                    go_on RECEIVE_SYSERROR (reset c r s1) (\<lambda>r2 s2.
                      case env_create (rc_conf c) DIR_FAST None addr None s2 of
                        (None, s3) \<Rightarrow> Inr (RECEIVE_SYSERROR, r2, s3)
                      | (Some env, s3) \<Rightarrow>
                          (let r3 = digest_ready c (r2\<lparr>r_env := Some env\<rparr>);
                               r4 = (if r_smtp_mode r3 \<noteq> SMTP_MODE_TARPIT
                                     then r3\<lparr>r_mail_success := r_mail_success r3 + 1\<rparr> else r3)
                           in say c 250 None None (r4\<lparr>r_tv_inactivity := 0\<rparr>) s3))))))"

subsection \<open>Is a recipient local?\<close>

text \<open>
  The first \<open>@\<close> ends the name that is looked up, even one in a quoted local part.  A source
  that cannot be asked is passed over; \<open>found\<close> counts the required sources that know the name.
\<close>

definition found_in :: "action \<Rightarrow> bool \<Rightarrow> int \<Rightarrow> int + int" where
  "found_in a known found =
     (if known then (if a_flags a = ACTION_SUFFICIENT then Inl LOCAL_ADDRESS else Inr (found + 1))
      else if a_flags a = ACTION_REQUIRED then Inl NOT_LOCAL else Inr found)"

fun local_sources :: "exp_conf \<Rightarrow> string \<Rightarrow> string \<Rightarrow> action list \<Rightarrow> int \<Rightarrow> 'a exp_state_scheme \<Rightarrow>
  (int \<times> 'a exp_state_scheme) run" where
  "local_sources c user domain [] found s = Inr (if found \<noteq> 0 then LOCAL_ADDRESS else NOT_LOCAL, s)"
| "local_sources c user domain (a # as) found s =
     (let next = (\<lambda>f s1. case f of Inl rc \<Rightarrow> Inr (rc, s1) | Inr n \<Rightarrow> local_sources c user domain as n s1)
      in if a_action a = EXPANSION_TYPE_ALIAS then
           and_then (alias_open a s) (\<lambda>(rc, opened, s1).
             if \<not> opened then local_sources c user domain as found s1
             else (let (get_ok, s2) = outcome s1
                   in next (found_in a (get_ok \<and> w_alias s2 (the (a_fname a)) user \<noteq> []) found) s2))
         else if a_action a = EXPANSION_TYPE_PASSWORD then
           and_then (simta_getpwnam a user s) (\<lambda>(pw, s1). next (found_in a (pw \<noteq> None) found) s1)
         else if a_action a = EXPANSION_TYPE_LDAP then
           (case a_fname a of
              None \<Rightarrow> Inl NullDeref
            | Some ld \<Rightarrow> and_then (simta_ldap_address_local c ld user domain s) (\<lambda>(rc, s1).
                if rc = LDAP_NOT_LOCAL then next (found_in a False found) s1
                else if rc = LDAP_LOCAL then next (found_in a True found) s1
                else if rc = LDAP_LOCAL_RBL then Inr (LOCAL_ADDRESS_RBL, s1)
                else Inr (LOCAL_ERROR, s1)))
         else Inl Panicked)"

definition local_address :: "exp_conf \<Rightarrow> string \<Rightarrow> string \<Rightarrow> simta_red \<Rightarrow> 'a exp_state_scheme \<Rightarrow> (int \<times> 'a exp_state_scheme) run" where
  "local_address c addr domain red s =
     (if CHR ''@'' \<notin> set addr then Inr (NOT_LOCAL, s)
      else if red_host_type red = RED_HOST_TYPE_SECONDARY_MX then Inr (MX_ADDRESS, s)
      else local_sources c (takeWhile (\<lambda>ch. ch \<noteq> CHR ''@'') addr) domain (red_receive red) 0 s)"

subsection \<open>RCPT\<close>

definition rcpt_usage_text :: string where
  "rcpt_usage_text =
     ''501-Syntax violates RFC 2821 section 4.1.1.3:'' @ CRLF @
     ''501-     '' @ QT @ ''RCPT TO:'' @ QT @ '' ('' @ QT @ ''<Postmaster@'' @ QT @ '' domain '' @ QT @ ''>'' @ QT @ '' / '' @
       QT @ ''<Postmaster>'' @ QT @ '' / Forward-Path ) [ SP Rcpt-parameters ] CRLF'' @ CRLF @
     ''501-         Forward-path = Path'' @ CRLF @
     ''501          Path = '' @ QT @ ''<'' @ QT @ '' [ A-d-l '' @ QT @ '':'' @ QT @ '' ] Mailbox '' @ QT @ ''>'' @ QT @ CRLF"

definition f_rcpt_usage :: "receive_data \<Rightarrow> 'a sys_scheme \<Rightarrow> 'a sys_scheme handled" where
  "f_rcpt_usage r s = say_lines rcpt_usage_text r s"

definition f_bad_sequence :: "recv_conf \<Rightarrow> receive_data \<Rightarrow> 'a sys_scheme \<Rightarrow> 'a sys_scheme handled" where
  "f_bad_sequence c r s = say c 503 None None r s"

definition f_noauth :: "recv_conf \<Rightarrow> receive_data \<Rightarrow> 'a sys_scheme \<Rightarrow> 'a sys_scheme handled" where
  "f_noauth c r s = say c 530 None None r s"

definition rcpt_words :: "recv_conf \<Rightarrow> string list \<Rightarrow> (string option \<times> string option) option" where
  "rcpt_words c av =
     (if length av = 2 then
        (if case_prefix ''TO:'' (av ! 1) then parse_emailaddr RFC_2821_RCPT_TO (Some (drop 3 (av ! 1))) else None)
      else if simta_strict_smtp_syntax c = 0 \<and> length av = 3 then
        (if strcasecmp (av ! 1) ''TO:'' = 0 then parse_emailaddr RFC_2821_RCPT_TO (Some (av ! 2)) else None)
      else None)"

text \<open>There is a transaction, and its message has not been accepted yet.\<close>

definition in_transaction :: "receive_data \<Rightarrow> envelope option" where
  "in_transaction r =
     (case r_env r of None \<Rightarrow> None | Some env \<Rightarrow> if has_flag (e_flags env) ENV_FLAG_EFILE then None else Some env)"

definition rcpt_accept :: "recv_conf \<Rightarrow> string \<Rightarrow> envelope \<Rightarrow> receive_data \<Rightarrow> 'a sys_scheme \<Rightarrow> 'a sys_scheme handled" where
  "rcpt_accept c addr env r s =
     (case env_recipient env (Some addr) s of
        (rc, env1, s1) \<Rightarrow>
          let r1 = r\<lparr>r_env := Some env1\<rparr>
          in if rc \<noteq> 0 then Inr (RECEIVE_SYSERROR, r1, s1)
             else
               (let r2 = (if r_smtp_mode r1 \<noteq> SMTP_MODE_TARPIT then r1\<lparr>r_rcpt_success := r_rcpt_success r1 + 1\<rparr> else r1)
                in say c 250 None None ((digest_add c addr r2)\<lparr>r_tv_inactivity := 0\<rparr>) s1))"

definition rcpt_failed :: "receive_data \<Rightarrow> receive_data" where
  "rcpt_failed r = r\<lparr>r_failed_rcpts := r_failed_rcpts r + 1\<rparr>"

text \<open>
  A user who wants the block lists asked: they are asked once in a session.  After an error
  the resolver says whether it was a time-out (the outcome).
\<close>

definition rcpt_rbl :: "recv_conf \<Rightarrow> string \<Rightarrow> envelope \<Rightarrow> receive_data \<Rightarrow> 'a recv_state_scheme \<Rightarrow> 'a recv_state_scheme handled" where
  "rcpt_rbl c addr env r s =
     (if simta_user_rbls c = [] then rcpt_accept c addr env r s
      else
        (let (status, f, s1) = (if r_rbl_status r = RBL_UNKNOWN
              then rbl_check (simta_rbl_verbose_logging c) (simta_user_rbls c) (r_rbl r) s
              else (r_rbl_status r, r_rbl r, s));
             r1 = r\<lparr>r_rbl_status := status, r_rbl := f\<rparr>
         in if status = RBL_NOT_FOUND then rcpt_accept c addr env r1 s1
            else (case found_rbl f of
                None \<Rightarrow> Inl NullDeref
              | Some rbl \<Rightarrow>
                  (if status = RBL_ACCEPT then rcpt_accept c addr env r1 s1
                   else if status = RBL_BLOCK then
                     say_lines (''550 <'' @ simta_hostname (rc_conf c) @ ''> '' @ S_DENIED @ '' '' @ inet_ntoa (r_sin r) @
                       '': See '' @ rbl_url rbl @ CRLF) (rcpt_failed r1) s1
                   else
                     (let r2 = r1\<lparr>r_rbl_status := RBL_UNKNOWN\<rparr>; (timed_out, s2) = outcome s1
                      in if \<not> timed_out then Inr (RECEIVE_CLOSECONNECTION, r2, s2)
                         else rcpt_accept c addr env r2 s2)))))"

text \<open>In normal mode the domain must exist and be one of ours, and know the user.\<close>

definition rcpt_local :: "recv_conf \<Rightarrow> string \<Rightarrow> string \<Rightarrow> envelope \<Rightarrow> simta_red \<Rightarrow> receive_data \<Rightarrow> 'a recv_state_scheme \<Rightarrow>
  'a recv_state_scheme handled" where
  "rcpt_local c addr domain env red r s =
     and_then (local_address (rc_exp c) addr domain red s) (\<lambda>(kind, s1).
       if kind = NOT_LOCAL then say c 550 None (Some ''User not found'') (rcpt_failed r) s1
       else if kind = LOCAL_ERROR then say c 451 None None (digest_add c addr r) s1
       else if kind = LOCAL_ADDRESS_RBL then rcpt_rbl c addr env r s1
       else rcpt_accept c addr env r s1)"

definition rcpt_normal :: "recv_conf \<Rightarrow> string \<Rightarrow> string \<Rightarrow> envelope \<Rightarrow> receive_data \<Rightarrow> 'a recv_state_scheme \<Rightarrow>
  'a recv_state_scheme handled" where
  "rcpt_normal c addr domain env r s =
     and_then (check_hostname (rc_conf c) domain s) (\<lambda>(rc, s1).
       if rc < 0 then say c 451 None None (digest_add c addr (rcpt_failed r)) s1
       else if rc \<noteq> 0 then say c 550 (Some S_UNKNOWN_HOST) (Some domain) (rcpt_failed r) s1
       else
         and_then (host_local (rc_conf c) domain s1) (\<lambda>(red, s2).
           let foreign = say_lines (''551 User not local to <'' @ simta_hostname (rc_conf c) @ ''>: please try <'' @ domain @ ''>'' @ CRLF)
                 (rcpt_failed r) s2
           in case red of
                None \<Rightarrow> foreign
              | Some h \<Rightarrow>
                  (if red_receive h = [] \<and> red_host_type h = RED_HOST_TYPE_LOCAL then foreign
                   else rcpt_local c addr domain env h r s2)))"

definition f_rcpt :: "recv_conf \<Rightarrow> receive_data \<Rightarrow> 'a recv_state_scheme \<Rightarrow> 'a recv_state_scheme handled" where
  "f_rcpt c r0 s =
     (let r = r0\<lparr>r_rcpt_attempt := r_rcpt_attempt r0 + 1\<rparr>
      in if r_smtp_mode r = SMTP_MODE_OFF then say c 421 (Some S_421_DECLINE) None r s
         else (case in_transaction r of
             None \<Rightarrow> f_bad_sequence c r s
           | Some env \<Rightarrow>
               (case rcpt_words c (r_av r) of
                  None \<Rightarrow> f_rcpt_usage r s
                | Some (None, domain) \<Rightarrow> Inl NullDeref
                | Some (Some addr, domain) \<Rightarrow>
                    (if r_smtp_mode r = SMTP_MODE_TEMPFAIL then say c 451 (Some S_451_DECLINE) None r s
                     else if r_smtp_mode r = SMTP_MODE_NOAUTH then f_noauth c r s
                     else if r_smtp_mode r = SMTP_MODE_REFUSE then f_bad_sequence c r s
                     else if r_smtp_mode r \<in> {SMTP_MODE_TARPIT, SMTP_MODE_GLOBAL_RELAY} then rcpt_accept c addr env r s
                     else if r_smtp_mode r = SMTP_MODE_NORMAL then
                       (case domain of None \<Rightarrow> rcpt_accept c addr env r s | Some d \<Rightarrow> rcpt_normal c addr d env r s)
                     else Inr (RECEIVE_SYSERROR, r, s)))))"

subsection \<open>The small commands\<close>

definition f_quit :: "recv_conf \<Rightarrow> receive_data \<Rightarrow> 'a sys_scheme \<Rightarrow> 'a sys_scheme handled" where
  "f_quit c r s = say c 221 None None r s"

definition f_rset :: "recv_conf \<Rightarrow> receive_data \<Rightarrow> 'a recv_state_scheme \<Rightarrow> 'a recv_state_scheme handled" where
  "f_rset c r s = go_on RECEIVE_SYSERROR (reset c r s) (\<lambda>r1 s1. say c 250 None None r1 s1)"

definition f_noop :: "recv_conf \<Rightarrow> receive_data \<Rightarrow> 'a recv_state_scheme \<Rightarrow> 'a recv_state_scheme handled" where
  "f_noop c r s =
     go_on RECEIVE_SYSERROR (deliver_accepted c r s) (\<lambda>r1 s1. say c 250 (Some ''simta'') (Some (simta_version c)) r1 s1)"

definition f_help :: "recv_conf \<Rightarrow> receive_data \<Rightarrow> 'a recv_state_scheme \<Rightarrow> 'a recv_state_scheme handled" where
  "f_help c r s =
     go_on RECEIVE_SYSERROR (deliver_accepted c r s) (\<lambda>r1 s1. say c 211 None (Some (simta_version c)) r1 s1)"

definition f_not_implemented :: "recv_conf \<Rightarrow> receive_data \<Rightarrow> 'a recv_state_scheme \<Rightarrow> 'a recv_state_scheme handled" where
  "f_not_implemented c r s =
     go_on RECEIVE_SYSERROR (deliver_accepted c r s) (\<lambda>r1 s1. say c 502 None None r1 s1)"

end
