(* ===== verification/ReceiveAuth.thy ===== *)
theory ReceiveAuth
  imports ReceiveCommands
begin

section \<open>The SMTP server: STARTTLS and AUTH (receive.c)\<close>

subsection \<open>TLS\<close>

text \<open>
  The plain text that was read ahead of the handshake is dropped: so much of what the client
  sends as was in the buffer, which the environment chooses.
\<close>

definition discard :: "nat \<Rightarrow> snet \<Rightarrow> snet" where
  "discard k sn =
     (if k = 0 \<or> sn_rest sn = [] then sn
      else sn\<lparr>sn_rest := drop k (sn_rest sn), sn_rstate := if sn_rstate sn = SNET_FUZZY then SNET_BOL else sn_rstate sn\<rparr>)"

definition tls_failed :: "recv_conf \<Rightarrow> receive_data \<Rightarrow> 'a sys_scheme \<Rightarrow> 'a sys_scheme handled" where
  "tls_failed c r s = say c 501 None (Some (''SSL didn'' @ [CHR 0x27] @ ''t work!'')) r s"

text \<open>The setup of the library, the handshake, and the certificate of the client when one is wanted.\<close>

definition start_tls :: "recv_conf \<Rightarrow> receive_data \<Rightarrow> 'a recv_state_scheme \<Rightarrow> 'a recv_state_scheme handled" where
  "start_tls c r s =
     (let (setup_ok, s1) = outcome s
      in if \<not> setup_ok then tls_failed c r s1
         else
           (let (handshake_ok, s2) = outcome s1
            in if \<not> handshake_ok then tls_failed c r s2
               else
                 (let (peer_ok, s3) = (if simta_service_smtps c = 2 then outcome s2 else (True, s2))
                  in if \<not> peer_ok then tls_failed c r s3
                     else
                       (let (k, s4) = readahead s3; cn = r_snet r
                        in Inr (RECEIVE_OK, r\<lparr>r_tls := 1, r_snet := cn\<lparr>conn_in := discard k (conn_in cn)\<rparr>\<rparr>,
                             s4\<lparr>simta_smtp_extension := simta_smtp_extension s4 - 1\<rparr>)))))"

definition post_tls :: "recv_conf \<Rightarrow> receive_data \<Rightarrow> 'a sys_scheme \<Rightarrow> 'a sys_scheme handled" where
  "post_tls c r s =
     (if simta_sasl c = 0 then Inr (RECEIVE_OK, r, s)
      else (let (props_ok, s1) = all_ok 2 s in Inr (if props_ok then RECEIVE_OK else RECEIVE_SYSERROR, r, s1)))"

text \<open>
  A failure that the client has been told is \<open>RECEIVE_OK\<close>, so the command goes on as if the
  connection were encrypted.
\<close>

definition f_starttls :: "recv_conf \<Rightarrow> receive_data \<Rightarrow> 'a recv_state_scheme \<Rightarrow> 'a recv_state_scheme handled" where
  "f_starttls c r s =
     (if simta_tls c = 0 then say c 502 None None r s
      else if r_tls r \<noteq> 0 then Inr (RECEIVE_SYSERROR, r, s)
      else if length (r_av r) \<noteq> 1 then say c 501 None (Some ''no parameters allowed'') r s
      else
        go_on RECEIVE_CLOSECONNECTION (say c 220 (Some ''Ready to start TLS'') None r s) (\<lambda>r1 s1.
        go_on RECEIVE_OK (start_tls c r1 s1) (\<lambda>r2 s2.
        go_on RECEIVE_SYSERROR (reset c r2 s2) (\<lambda>r3 s3. post_tls c (r3\<lparr>r_hello := None\<rparr>) s3))))"

subsection \<open>Authentication\<close>

definition next_sasl :: "'a recv_state_scheme \<Rightarrow> sasl_answer \<times> 'a recv_state_scheme" where
  "next_sasl s =
     (case w_sasl s of
        [] \<Rightarrow> (\<lparr>sasl_rc = SASL_ERROR, sasl_serverout = [], sasl_user = []\<rparr>, s)
      | a # as \<Rightarrow> (a, s\<lparr>w_sasl := as\<rparr>))"

definition reset_sasl_conn :: "'a sys_scheme \<Rightarrow> bool \<times> 'a sys_scheme" where
  "reset_sasl_conn s = all_ok 3 s"

text \<open>The end of an exchange that succeeded.\<close>

definition auth_done :: "recv_conf \<Rightarrow> sasl_answer \<Rightarrow> receive_data \<Rightarrow> 'a sys_scheme \<Rightarrow> 'a sys_scheme handled" where
  "auth_done c a r s =
     (let (name_ok, s1) = outcome s
      in if \<not> name_ok then Inr (RECEIVE_CLOSECONNECTION, r, s1)
         else
           (let r1 = r\<lparr>r_auth_id := Some (sasl_user a)\<rparr>; (mech_ok, s2) = outcome s1
            in if \<not> mech_ok then Inr (RECEIVE_CLOSECONNECTION, r1, s2)
               else
                 go_on RECEIVE_CLOSECONNECTION (say c 235 None None r1 s2) (\<lambda>r2 s3.
                   let (layer, s4) = outcome s3; r3 = r2\<lparr>r_auth := 1\<rparr>;
                       r4 = (if layer then r3\<lparr>r_hello := None\<rparr> else r3)
                   in and_then (set_smtp_mode (simta_smtp_default_mode c) r4) (\<lambda>r5. Inr (RECEIVE_OK, r5, s4)))))"

text \<open>
  One step: the challenge is sent, the answer read, decoded and handed to the library.  There are
  as many steps as the library has answers.
\<close>

definition auth_step :: "recv_conf \<Rightarrow> sasl_answer \<Rightarrow> receive_data \<Rightarrow> 'a recv_state_scheme \<Rightarrow>
  (receive_data \<Rightarrow> 'a recv_state_scheme \<Rightarrow> 'a recv_state_scheme handled) \<Rightarrow> 'a recv_state_scheme handled" where
  "auth_step c a r s next =
     (let (encode_ok, s1) = (if sasl_serverout a \<noteq> [] then outcome s else (True, s))
      in if \<not> encode_ok then Inr (RECEIVE_CLOSECONNECTION, r, s1)
         else go_on RECEIVE_CLOSECONNECTION (say c 334 (Some (sasl_serverout a)) None r s1) (\<lambda>r1 s2.
           case client_line r1 s2 of
             (Line l, r2, s3) \<Rightarrow>
               (if l = ''*'' then
                  (let (reset_ok, s4) = reset_sasl_conn s3
                   in if \<not> reset_ok then Inr (RECEIVE_CLOSECONNECTION, r2, s4)
                      else say c 501 None (Some ''client canceled authentication'') r2 s4)
                else
                  (let (decode_ok, s4) = outcome s3
                   in if \<not> decode_ok then say c 501 None (Some ''unable to BASE64 decode argument'') r2 s4
                      else next r2 s4))
           | (_, r2, s3) \<Rightarrow> Inr (RECEIVE_CLOSECONNECTION, r2, s3)))"

fun auth_loop :: "recv_conf \<Rightarrow> nat \<Rightarrow> sasl_answer \<Rightarrow> receive_data \<Rightarrow> 'a recv_state_scheme \<Rightarrow> 'a recv_state_scheme handled" where
  "auth_loop c n a r s =
     (case sasl_rc a of
        SASL_CONTINUE \<Rightarrow>
          (case n of
             0 \<Rightarrow> Inr (RECEIVE_SYSERROR, r, s)
           | Suc m \<Rightarrow> auth_step c a r s (\<lambda>r1 s1. case next_sasl s1 of (a1, s2) \<Rightarrow> auth_loop c m a1 r1 s2))
      | SASL_OK \<Rightarrow> auth_done c a r s
      | SASL_NOMECH \<Rightarrow> say c 504 None None r s
      | SASL_BADPROT \<Rightarrow> say c 535 None None r s
      | SASL_TOOWEAK \<Rightarrow> say c 534 None None r s
      | SASL_ENCRYPT \<Rightarrow> say c 538 None None r s
      | SASL_ERROR \<Rightarrow> Inr (RECEIVE_SYSERROR, r, s))"

definition f_auth :: "recv_conf \<Rightarrow> receive_data \<Rightarrow> 'a recv_state_scheme \<Rightarrow> 'a recv_state_scheme handled" where
  "f_auth c r s =
     (let ac = length (r_av r)
      in if ac \<noteq> 2 \<and> ac \<noteq> 3 then say c 501 None (Some ''RFC 2554 section 4 AUTH mechanism [initial-response]'') r s
         else if r_auth r \<noteq> 0 then f_bad_sequence c r s
         else if (case r_env r of None \<Rightarrow> False | Some env \<Rightarrow> e_mail env \<noteq> None) then f_bad_sequence c r s
         else
           (let (decode_ok, s1) = (if ac = 3 \<and> r_av r ! 2 \<noteq> ''='' then outcome s else (True, s))
            in if \<not> decode_ok then say c 501 None (Some ''unable to BASE64 decode argument'') r s1
               else (case next_sasl s1 of (a, s2) \<Rightarrow> auth_loop c (Suc (length (w_sasl s2))) a r s2)))"

subsection \<open>A handshake that failed\<close>

text \<open>When the client could be told, the failure is reported as success.\<close>

lemma start_tls_failure_ok:
  "w_oracle s = False # True # os \<Longrightarrow> \<exists>r' s'. start_tls c r s = Inr (RECEIVE_OK, r', s') \<and> r_tls r' = r_tls r"
  by (auto simp: start_tls_def outcome_def tls_failed_def say_def smtp_write_banner_def snet_reply_def Let_def
      banner_kind_of_def banner_def)

end
