(* ===== verification/ReceiveData.thy ===== *)
theory ReceiveData
  imports ReceiveAuth Base64
begin

section \<open>The SMTP server: DATA (receive.c)\<close>

text \<open>
  \<open>f_data\<close> writes the lines of the client to a data file, runs the content filter, and then keeps,
  jails, bounces or deletes the message.  Its variables are a record; a step is over with None,
  or with the code that is to be returned when the source jumps to its end (\<open>goto error\<close>).
\<close>

definition MESSAGE_ACCEPT :: "32 word" where "MESSAGE_ACCEPT = 0"
definition MESSAGE_TEMPFAIL :: "32 word" where "MESSAGE_TEMPFAIL = flag_bit 0"
definition MESSAGE_REJECT :: "32 word" where "MESSAGE_REJECT = flag_bit 1"
definition MESSAGE_DELETE :: "32 word" where "MESSAGE_DELETE = flag_bit 2"
definition MESSAGE_DISCONNECT :: "32 word" where "MESSAGE_DISCONNECT = flag_bit 3"
definition MESSAGE_TARPIT :: "32 word" where "MESSAGE_TARPIT = flag_bit 4"
definition MESSAGE_JAIL :: "32 word" where "MESSAGE_JAIL = flag_bit 5"
definition MESSAGE_BOUNCE :: "32 word" where "MESSAGE_BOUNCE = flag_bit 6"

lemmas message_flags = MESSAGE_ACCEPT_def MESSAGE_TEMPFAIL_def MESSAGE_REJECT_def MESSAGE_DELETE_def
  MESSAGE_DISCONNECT_def MESSAGE_TARPIT_def MESSAGE_JAIL_def MESSAGE_BOUNCE_def

datatype read_error = NO_ERROR | PROTOCOL_ERROR | SYSTEM_ERROR

definition S_TIMEOUT :: string where "S_TIMEOUT = ''Connection length exceeded''"
definition S_CLOSING :: string where "S_CLOSING = ''closing transmission channel''"
definition S_451_MESSAGE :: string where "S_451_MESSAGE = ''Message Tempfailed''"
definition S_554_MESSAGE :: string where "S_554_MESSAGE = ''Message Failed''"

subsection \<open>The content filter\<close>

definition env_string :: "string \<Rightarrow> string option \<Rightarrow> string" where
  "env_string left right = left @ ''='' @ (case right of None \<Rightarrow> [] | Some v \<Rightarrow> v)"

text \<open>
  The environment of the filter.  With a checksum it has 15 entries and an end, in an array of
  14; that is the child's memory.
\<close>

definition filter_env :: "recv_conf \<Rightarrow> receive_data \<Rightarrow> envelope \<Rightarrow> string option \<Rightarrow> string list" where
  "filter_env c r env mid =
     [env_string ''SIMTA_DFILE'' (if has_flag (e_flags env) ENV_FLAG_DFILE
        then Some (simta_spool c (e_dir env) @ ''/D'' @ e_id env) else None),
      env_string ''SIMTA_TFILE'' (if has_flag (e_flags env) ENV_FLAG_TFILE
        then Some (simta_spool c (e_dir env) @ ''/t'' @ e_id env) else None),
      env_string ''SIMTA_REMOTE_IP'' (Some (inet_ntoa (r_sin r))),
      env_string ''SIMTA_REMOTE_HOSTNAME'' (r_remote_hostname r),
      env_string ''SIMTA_REVERSE_LOOKUP'' (Some (show_int (r_dns_match r))),
      env_string ''SIMTA_SMTP_MAIL_FROM'' (e_mail env),
      env_string ''SIMTA_SMTP_HELO'' (r_hello r),
      env_string ''SIMTA_MID'' mid,
      env_string ''SIMTA_UID'' (Some (e_id env)),
      env_string ''SIMTA_WRITE_BEFORE_BANNER'' (Some (if r_write_before_banner r \<noteq> 0 then ''1'' else ''0'')),
      env_string ''SIMTA_AUTH_ID'' (r_auth_id r),
      env_string ''SIMTA_PID'' (Some (show_int (filter_pid c))),
      env_string ''SIMTA_CID'' (Some (show_int (simta_log_tv c)))] @
     (case simta_checksum_md c of
        None \<Rightarrow> []
      | Some md \<Rightarrow>
          [env_string ''SIMTA_CHECKSUM_SIZE'' (Some (take 9 (show_int (sint (r_mdctx_bytes r))))),
           env_string ''SIMTA_CHECKSUM'' (Some (base64_e (md (r_md_text r))))])"

definition filter_line :: "string list \<Rightarrow> string option \<Rightarrow> 'a sys_scheme \<Rightarrow> bool \<times> string option \<times> 'a sys_scheme" where
  "filter_line ls msg s =
     (if ls = [] \<or> msg \<noteq> None then (True, msg, s)
      else (let (strdup_ok, s1) = outcome s in (strdup_ok, if strdup_ok then Some (hd ls) else None, s1)))"

text \<open>The exit status of the filter is its answer; anything that fails makes the message fail for now.\<close>

definition filter_wait :: "wait_status \<Rightarrow> 'a sys_scheme \<Rightarrow> (32 word \<times> 'a sys_scheme) run" where
  "filter_wait st s =
     (let (wait_ok, s1) = outcome s
      in if wait_ok then Inr (case st of Exited n \<Rightarrow> word_of_int (n mod 256) | Killed \<Rightarrow> MESSAGE_TEMPFAIL, s1)
         else (let (other_error, s2) = outcome s1
               in if other_error then Inr (MESSAGE_TEMPFAIL, s2) else Inl Uninit))"

definition content_filter :: "recv_conf \<Rightarrow> receive_data \<Rightarrow> envelope \<Rightarrow> string option \<Rightarrow> string option \<Rightarrow>
  'a recv_state_scheme \<Rightarrow> (32 word \<times> string option \<times> 'a recv_state_scheme) run" where
  "content_filter c r env mid msg s =
     (let (pipe_ok, s1) = outcome s
      in if \<not> pipe_ok then Inr (MESSAGE_TEMPFAIL, msg, s1)
         else
           (let (tv, s2) = simta_gettimeofday s1; (fork_ok, s3) = outcome s2
            in if \<not> fork_ok then Inr (MESSAGE_TEMPFAIL, msg, s3)
               else (case next_child (s3\<lparr>filter_runs := filter_env c r env mid # filter_runs s3\<rparr>) of
                   (out, st, s4) \<Rightarrow>
                     (let (setup_ok, s5) = all_ok 2 s4
                      in if \<not> setup_ok then Inr (MESSAGE_TEMPFAIL, msg, s5)
                         else (case filter_line (snet_lines (snet_attach out (1024 * 1024))) msg s5 of
                             (kept, msg1, s6) \<Rightarrow>
                               if \<not> kept then Inr (MESSAGE_TEMPFAIL, msg1, s6)
                               else
                                 (let (close_ok, s7) = outcome s6
                                  in if \<not> close_ok then Inr (MESSAGE_TEMPFAIL, msg1, s7)
                                     else and_then (filter_wait st s7) (\<lambda>(n, s8). Inr (n, msg1, s8))))))))"

subsection \<open>The lines of a message\<close>

record data_run =
  dr_ino :: nat
  dr_dff :: bool
  dr_header :: bool
  dr_line_no :: int
  dr_banner :: "32 word"
  dr_read_err :: read_error
  dr_system :: "string option"
  dr_filter :: "string option"
  dr_rh :: receive_headers
  dr_wrote :: "32 word"
  dr_read :: "32 word"
  dr_now :: int
  dr_told :: bool

definition zero_data :: data_run where
  "zero_data = \<lparr>dr_ino = 0, dr_dff = False, dr_header = True, dr_line_no = 0, dr_banner = MESSAGE_TEMPFAIL,
     dr_read_err = NO_ERROR, dr_system = None, dr_filter = None, dr_rh = zero_headers, dr_wrote = 0, dr_read = 0,
     dr_now = 0, dr_told = False\<rparr>"

type_synonym 's data_step = "(int option \<times> data_run \<times> receive_data \<times> 's) run"

definition data_go :: "'s data_step \<Rightarrow> (data_run \<Rightarrow> receive_data \<Rightarrow> 's \<Rightarrow> 's data_step) \<Rightarrow> 's data_step" where
  "data_go m f = and_then m (\<lambda>(e, d, r, s). if e = None then f d r s else Inr (e, d, r, s))"

text \<open>The headers are watched until they end.\<close>

definition data_header :: "recv_conf \<Rightarrow> string \<Rightarrow> data_run \<Rightarrow> 'a sys_scheme \<Rightarrow> data_run \<times> 'a sys_scheme" where
  "data_header c line d s =
     (if dr_read_err d \<noteq> NO_ERROR \<or> \<not> dr_header d then (d, s)
      else (case header_text (simta_seen_before_domain (rc_conf c)) (dr_line_no d) line (Some (dr_rh d)) s of
          (rc, msg, rh, s1) \<Rightarrow>
            (let d1 = d\<lparr>dr_rh := (case rh of Some h \<Rightarrow> h | None \<Rightarrow> dr_rh d)\<rparr>
             in (if rc = 0 then d1 else if rc < 0 then d1\<lparr>dr_read_err := SYSTEM_ERROR\<rparr> else d1\<lparr>dr_header := False\<rparr>, s1))))"

definition data_reject :: "string \<Rightarrow> data_run \<Rightarrow> data_run" where
  "data_reject why d = d\<lparr>dr_system := Some why, dr_banner := MESSAGE_REJECT, dr_read_err := PROTOCOL_ERROR\<rparr>"

definition data_limits :: "recv_conf \<Rightarrow> nat \<Rightarrow> data_run \<Rightarrow> data_run" where
  "data_limits c len d =
     (let d1 = (if dr_read_err d = NO_ERROR \<and> 0 < simta_max_message_size c \<and>
                  nat (simta_max_message_size c) < unat (dr_wrote d + word_of_nat len + 1)
                then data_reject ''Message too large'' d else d)
      in if dr_read_err d1 = NO_ERROR \<and> simta_max_received_headers c < r_received_count (dr_rh d1)
         then data_reject ''Too many Received headers'' d1 else d1)"

definition seen_before :: "receive_headers \<Rightarrow> string option" where
  "seen_before h =
     (case r_seen_before h of
        None \<Rightarrow> None
      | Some i \<Rightarrow> (case r_all_seen_before h of None \<Rightarrow> None | Some ts \<Rightarrow> if i < length ts then Some (ts ! i) else None))"

definition data_seen :: "data_run \<Rightarrow> 'a sys_scheme \<Rightarrow> data_run \<times> 'a sys_scheme" where
  "data_seen d s =
     (case seen_before (dr_rh d) of
        None \<Rightarrow> (d, s)
      | Some t \<Rightarrow>
          (let (strdup_ok, s1) = outcome s
           in (d\<lparr>dr_system := Some ''Seen Before'', dr_filter := if strdup_ok then Some t else None,
                 dr_banner := MESSAGE_DELETE, dr_read_err := PROTOCOL_ERROR\<rparr>, s1)))"

definition data_write :: "string \<Rightarrow> nat \<Rightarrow> data_run \<Rightarrow> 'a sys_scheme \<Rightarrow> data_run \<times> 'a sys_scheme" where
  "data_write line len d s =
     (if dr_read_err d \<noteq> NO_ERROR then (d, s)
      else
        (let (ok, s1) = (if dr_dff d then append_data (dr_ino d) (line @ [NL]) s else (True, s))
         in (if ok then d\<lparr>dr_wrote := dr_wrote d + word_of_nat len + 1\<rparr> else d\<lparr>dr_read_err := SYSTEM_ERROR\<rparr>, s1)))"

text \<open>After an error the rest is read, but nothing is kept.\<close>

definition data_drop :: "envelope \<Rightarrow> data_run \<Rightarrow> 'a sys_scheme \<Rightarrow> envelope \<times> data_run \<times> 'a sys_scheme" where
  "data_drop env d s =
     (if dr_read_err d = NO_ERROR \<or> \<not> dr_dff d then (env, d, s)
      else
        (let (fclose_ok, s1) = outcome s;
             d1 = (if fclose_ok then d else d\<lparr>dr_read_err := SYSTEM_ERROR\<rparr>)
         in case env_dfile_unlink env s1 of
              (rc, env1, s2) \<Rightarrow> (env1, (if rc \<noteq> 0 then d1\<lparr>dr_read_err := SYSTEM_ERROR\<rparr> else d1)\<lparr>dr_dff := False\<rparr>, s2)))"

text \<open>
  The length is that of the line with the dot that is taken away, here as in the sizes; so the
  digest gets the NUL behind such a line too.
\<close>

definition data_digest :: "recv_conf \<Rightarrow> string \<Rightarrow> bool \<Rightarrow> data_run \<Rightarrow> receive_data \<Rightarrow> receive_data" where
  "data_digest c line stuffed d r =
     (if dr_dff d \<and> checksumming c
      then r\<lparr>r_md_text := r_md_text r @ line @ (if stuffed then [NUL] else []),
             r_mdctx_bytes := r_mdctx_bytes r + word_of_nat (length line + (if stuffed then 1 else 0))\<rparr>
      else r)"

definition data_line :: "recv_conf \<Rightarrow> string \<Rightarrow> envelope \<Rightarrow> data_run \<Rightarrow> receive_data \<Rightarrow> 'a sys_scheme \<Rightarrow>
  envelope \<times> data_run \<times> receive_data \<times> 'a sys_scheme" where
  "data_line c l env d r s =
     (let stuffed = starts (CHR ''.'') l; line = (if stuffed then tl l else l);
          (d1, s1) = data_header c line d s;
          (d2, s2) = data_seen (data_limits c (length l) d1) s1;
          (d3, s3) = data_write line (length l) d2 s2;
          (env1, d4, s4) = data_drop env d3 s3
      in (env1, d4, data_digest c line stuffed d4 r, s4))"

text \<open>The session ends with the global timer or that of the data, whichever is first.\<close>

definition data_session :: "recv_conf \<Rightarrow> receive_data \<Rightarrow> int \<Rightarrow> int option" where
  "data_session c r now =
     (let timer = simta_inbound_data_session_timer c;
          global = (if r_tv_session r \<noteq> 0 then Some (r_tv_session r) else None)
      in if timer = 0 then global
         else (case global of
             Some t \<Rightarrow> if now + timer < t then Some (now + timer) else Some t
           | None \<Rightarrow> Some (now + timer)))"

definition data_timeout :: "recv_conf \<Rightarrow> data_run \<Rightarrow> receive_data \<Rightarrow> 'a sys_scheme \<Rightarrow> 'a sys_scheme data_step" where
  "data_timeout c d r s =
     (case smtp_write_banner c 421 (Some S_TIMEOUT) (Some S_CLOSING) r s of
        (rc, r1, s1) \<Rightarrow> Inr (Some RECEIVE_CLOSECONNECTION, d, r1, s1))"

definition data_clock :: "data_run \<Rightarrow> 'a sys_scheme \<Rightarrow> data_run \<times> 'a sys_scheme" where
  "data_clock d s =
     (case simta_gettimeofday s of
        (None, s1) \<Rightarrow> (d\<lparr>dr_read_err := SYSTEM_ERROR\<rparr>, s1)
      | (Some tv, s1) \<Rightarrow> (d\<lparr>dr_now := fst tv\<rparr>, s1))"

definition data_count :: "string \<Rightarrow> data_run \<Rightarrow> data_run" where
  "data_count l d = d\<lparr>dr_line_no := dr_line_no d + 1, dr_read := dr_read d + word_of_nat (length l) + 2\<rparr>"

function data_loop :: "recv_conf \<Rightarrow> int option \<Rightarrow> envelope \<Rightarrow> data_run \<Rightarrow> receive_data \<Rightarrow> 'a sys_scheme \<Rightarrow>
  envelope \<times> 'a sys_scheme data_step" where
  "data_loop c session env d r s =
     (if (case session of None \<Rightarrow> False | Some t \<Rightarrow> t \<le> dr_now d) then (env, data_timeout c d r s)
      else (case client_line r s of
          (Late, r1, s1) \<Rightarrow> (env, data_timeout c d r1 s1)
        | (Gone, r1, s1) \<Rightarrow> (env, Inr (Some RECEIVE_SYSERROR, d, r1, s1))
        | (Line l, r1, s1) \<Rightarrow>
            (case data_clock d s1 of
               (d1, s2) \<Rightarrow>
                 (if l = ''.'' then (env, Inr (None, data_count l d1, r1, s2))
                  else (case data_line c l env (data_count l d1) r1 s2 of
                      (env1, d2, r2, s3) \<Rightarrow> data_loop c session env1 d2 r2 s3)))))"
  by pat_completeness auto

lemma client_line_shorter:
  "client_line r s = (Line l, r1, s1) \<Longrightarrow> length (sn_rest (conn_in (r_snet r1))) < length (sn_rest (conn_in (r_snet r)))"
  by (auto simp: client_line_def Let_def split: prod.splits if_splits option.splits dest: snet_getline_shorter)

lemma data_line_snet: "data_line c l env d r s = (env1, d2, r2, s3) \<Longrightarrow> r_snet r2 = r_snet r"
  by (auto simp: data_line_def Let_def data_digest_def split: prod.splits if_splits)

termination data_loop
  by (relation "measure (\<lambda>(c, session, env, d, r, s). length (sn_rest (conn_in (r_snet r))))")
    (auto split: prod.splits dest!: client_line_shorter [OF sym] data_line_snet)

declare data_loop.simps [simp del]

subsection \<open>The start of the file\<close>

text \<open>The trace in front of the message; \<open>fprintf\<close> prints a NULL.\<close>

definition received_text :: "recv_conf \<Rightarrow> receive_data \<Rightarrow> envelope \<Rightarrow> string" where
  "received_text c r env =
     ''Received: FROM '' @ (case r_hello r of None \<Rightarrow> ''NULL'' | Some h \<Rightarrow> h) @ '' ('' @ (case r_remote_hostname r of None \<Rightarrow> ''(null)'' | Some h \<Rightarrow> h) @
     '' ['' @ inet_ntoa (r_sin r) @ ''])'' @ [NL] @
     [TAB] @ ''By '' @ simta_hostname (rc_conf c) @ '' ID '' @ e_id env @ '' ;'' @ [NL] @
     (if simta_sasl c \<noteq> 0
      then [TAB] @ ''Authuser '' @ (case r_auth_id r of None \<Rightarrow> ''(null)'' | Some a \<Rightarrow> a) @ '';'' @ [NL] else []) @
     [TAB] @ rc_daytime c @ [NL]"

text \<open>
  From the open file to its first lines.  A stream that cannot be had is the end; so is a
  socket whose window cannot be widened.
\<close>

definition data_start :: "recv_conf \<Rightarrow> nat \<Rightarrow> envelope \<Rightarrow> receive_data \<Rightarrow> 'a sys_scheme \<Rightarrow> 'a sys_scheme data_step" where
  "data_start c ino env r s =
     (let d = zero_data\<lparr>dr_ino := ino\<rparr>; (fdopen_ok, s1) = outcome s
      in if \<not> fdopen_ok then Inr (Some RECEIVE_SYSERROR, d, r, s1)
         else
           (let d1 = d\<lparr>dr_dff := True\<rparr>;
                (window_ok, s2) = (if simta_smtp_rcvbuf_min c \<noteq> 0 then outcome s1 else (True, s1))
            in if \<not> window_ok then Inr (Some RECEIVE_SYSERROR, d1, r, s2)
               else (case append_data ino (received_text c r env) s2 of
                   (ok, s3) \<Rightarrow> Inr (if ok then None else Some RECEIVE_SYSERROR, d1, r, s3))))"

definition data_go_ahead :: "recv_conf \<Rightarrow> data_run \<Rightarrow> receive_data \<Rightarrow> 'a sys_scheme \<Rightarrow> 'a sys_scheme data_step" where
  "data_go_ahead c d r s =
     (case smtp_write_banner c 354 None None (r\<lparr>r_tv_inactivity := 0\<rparr>) s of
        (rc, r1, s1) \<Rightarrow>
          if rc \<noteq> RECEIVE_OK then Inr (Some RECEIVE_CLOSECONNECTION, d, r1, s1)
          else (case simta_gettimeofday s1 of
              (None, s2) \<Rightarrow> Inr (Some RECEIVE_SYSERROR, d, r1, s2)
            | (Some tv, s2) \<Rightarrow> Inr (None, d\<lparr>dr_now := fst tv\<rparr>, r1, s2)))"

subsection \<open>What becomes of the message\<close>

definition with_env :: "receive_data \<Rightarrow> envelope \<Rightarrow> receive_data" where
  "with_env r env = r\<lparr>r_env := Some env\<rparr>"

text \<open>A file that is still marked is closed; one whose stream is gone has no descriptor to look at.\<close>

definition data_close :: "envelope \<Rightarrow> data_run \<Rightarrow> 'a sys_scheme \<Rightarrow> int option \<times> envelope \<times> data_run \<times> 'a sys_scheme" where
  "data_close env d s =
     (if \<not> has_flag (e_flags env) ENV_FLAG_DFILE then (None, env, d, s)
      else if \<not> dr_dff d then (Some RECEIVE_SYSERROR, env, d, s)
      else
        (let (fstat_ok, s1) = outcome s
         in if \<not> fstat_ok then (Some RECEIVE_SYSERROR, env, d, s1)
            else
              (let env1 = env\<lparr>e_dinode := dr_ino d\<rparr>; d1 = d\<lparr>dr_dff := False\<rparr>; (fclose_ok, s2) = outcome s1
               in if \<not> fclose_ok then (Some RECEIVE_SYSERROR, env1, d1, s2)
                  else (None, env1, d1\<lparr>dr_banner := MESSAGE_ACCEPT\<rparr>, s2))))"

definition filter_verdict :: "32 word \<Rightarrow> 32 word \<Rightarrow> 32 word" where
  "filter_verdict verdict n =
     (if verdict = MESSAGE_TEMPFAIL \<or> verdict = MESSAGE_REJECT then verdict
      else if has_flag n MESSAGE_TEMPFAIL then MESSAGE_TEMPFAIL
      else if has_flag n MESSAGE_REJECT then MESSAGE_REJECT else verdict)"

text \<open>
  The filter is asked about a message on the disk.  With a filter but no message there is no
  answer: the variable is not set.
\<close>

definition data_filter :: "recv_conf \<Rightarrow> envelope \<Rightarrow> data_run \<Rightarrow> receive_data \<Rightarrow> 'a recv_state_scheme \<Rightarrow>
  (int option \<times> 32 word \<times> envelope \<times> data_run \<times> receive_data \<times> 'a recv_state_scheme) run" where
  "data_filter c env d r s =
     (if simta_mail_filter c = None \<or> r_smtp_mode r = SMTP_MODE_TARPIT then Inr (None, MESSAGE_ACCEPT, env, d, r, s)
      else if \<not> has_flag (e_flags env) ENV_FLAG_DFILE then Inl Uninit
      else
        (let r1 = (if checksumming c then r\<lparr>r_mdctx_status := MDCTX_FINAL\<rparr> else r)
         in case simta_gettimeofday s of
              (None, s1) \<Rightarrow> Inr (Some RECEIVE_SYSERROR, 0, env, d, r1, s1)
            | (Some tv, s1) \<Rightarrow>
                and_then (env_tfile env s1) (\<lambda>(rc, env1, s2).
                  if rc \<noteq> 0 then Inr (Some RECEIVE_SYSERROR, 0, env1, d, r1, s2)
                  else and_then (content_filter c r1 env1 (r_mid (dr_rh d)) (dr_filter d) s2) (\<lambda>(n, msg, s3).
                    Inr (None, n, env1, d\<lparr>dr_filter := msg, dr_banner := filter_verdict (dr_banner d) n\<rparr>, r1, s3)))))"

definition accepted_timer :: "recv_conf \<Rightarrow> data_run \<Rightarrow> receive_data \<Rightarrow> receive_data" where
  "accepted_timer c d r =
     (if 0 \<le> simta_inbound_accepted_message_timer c
      then r\<lparr>r_tv_accepted := simta_inbound_accepted_message_timer c + dr_now d\<rparr> else r)"

definition S_POLICY :: string where
  "S_POLICY = ''This message was rejected based on local content policies''"

definition data_bounce :: "recv_conf \<Rightarrow> 32 word \<Rightarrow> envelope \<Rightarrow> data_run \<Rightarrow> receive_data \<Rightarrow> 'a recv_state_scheme \<Rightarrow>
  (int option \<times> envelope \<times> receive_data \<times> 'a recv_state_scheme) run" where
  "data_bounce c n env d r s =
     (if \<not> has_flag n MESSAGE_BOUNCE then Inr (None, env, r, s)
      else
        and_then (bounce (rc_conf c) (rc_daytime c) env
            (if has_flag (e_flags env) ENV_FLAG_DFILE \<and> \<not> has_flag n MESSAGE_DELETE then 1 else 0)
            (Some (case dr_filter d of Some m \<Rightarrow> m | None \<Rightarrow> S_POLICY)) s)
          (\<lambda>(b, env1, s1). case b of
              None \<Rightarrow> Inr (Some RECEIVE_SYSERROR, env1, r, s1)
            | Some benv \<Rightarrow>
                and_then (queue_envelope (rc_conf c) benv s1) (\<lambda>(rc, b1, s2).
                  Inr (None, env1, accepted_timer c d r, s2))))"

text \<open>To jail: the command file is written anew, for the jail host.\<close>

definition data_jail :: "recv_conf \<Rightarrow> envelope \<Rightarrow> 'a sys_scheme \<Rightarrow> (int option \<times> envelope \<times> 'a sys_scheme) run" where
  "data_jail c env s =
     (if \<not> has_flag (e_flags env) ENV_FLAG_DFILE \<or> simta_jail_host (rc_conf c) = None then Inr (None, env, s)
      else (case env_tfile_unlink env s of
          (rc, env1, s1) \<Rightarrow>
            if rc \<noteq> 0 then Inr (Some RECEIVE_SYSERROR, env1, s1)
            else and_then (env_hostname env1 (simta_jail_host (rc_conf c)) s1) (\<lambda>(rc2, env2, s2).
              if rc2 \<noteq> 0 then Inr (Some RECEIVE_SYSERROR, env2, s2)
              else Inr (None, if simta_mail_jail (rc_conf c) \<noteq> 0 \<and> simta_bounce_jail (rc_conf c) = 0
                              then env_jail_set env2 ENV_JAIL_NO_CHANGE else env2, s2))))"

definition data_delete :: "32 word \<Rightarrow> envelope \<Rightarrow> data_run \<Rightarrow> 'a sys_scheme \<Rightarrow> int option \<times> envelope \<times> 'a sys_scheme" where
  "data_delete n env d s =
     (if (dr_banner d = MESSAGE_TEMPFAIL \<or> dr_banner d = MESSAGE_REJECT \<or> has_flag n MESSAGE_DELETE \<or> has_flag n MESSAGE_BOUNCE) \<and>
         has_flag (e_flags env) ENV_FLAG_DFILE
      then (case env_dfile_unlink env s of (rc, env1, s1) \<Rightarrow> (if rc \<noteq> 0 then Some RECEIVE_SYSERROR else None, env1, s1))
      else (None, env, s))"

definition data_jail_or_delete :: "recv_conf \<Rightarrow> 32 word \<Rightarrow> envelope \<Rightarrow> data_run \<Rightarrow> 'a sys_scheme \<Rightarrow>
  (int option \<times> envelope \<times> 'a sys_scheme) run" where
  "data_jail_or_delete c n env d s =
     (if has_flag n MESSAGE_JAIL then data_jail c env s else Inr (data_delete n env d s))"

text \<open>A message that still has its data file is accepted: its command file goes to the disk.\<close>

definition data_out :: "recv_conf \<Rightarrow> envelope \<Rightarrow> data_run \<Rightarrow> receive_data \<Rightarrow> 'a env_state_scheme \<Rightarrow>
  (int option \<times> envelope \<times> receive_data \<times> 'a env_state_scheme) run" where
  "data_out c env d r s =
     (if \<not> has_flag (e_flags env) ENV_FLAG_DFILE then Inr (None, env, r, s)
      else and_then (env_outfile (rc_conf c) env s) (\<lambda>(rc, env1, s1).
        if rc \<noteq> 0 then Inr (Some RECEIVE_SYSERROR, env1, r, s1)
        else (let r1 = accepted_timer c d r in Inr (None, env1, r1\<lparr>r_data_success := r_data_success r1 + 1\<rparr>, s1))))"

definition data_mode :: "32 word \<Rightarrow> receive_data \<Rightarrow> receive_data run" where
  "data_mode n r =
     (if has_flag n MESSAGE_DISCONNECT then set_smtp_mode SMTP_MODE_OFF r
      else if has_flag n MESSAGE_TARPIT then set_smtp_mode SMTP_MODE_TARPIT r else Inr r)"

definition failure_message :: "recv_conf \<Rightarrow> data_run \<Rightarrow> receive_data \<Rightarrow> string option" where
  "failure_message c d r =
     (if dr_filter d \<noteq> None then dr_filter d else if dr_system d \<noteq> None then dr_system d
      else if r_smtp_mode r = SMTP_MODE_TARPIT then None else simta_data_url c)"

definition accept_line :: "envelope \<Rightarrow> string option \<Rightarrow> string" where
  "accept_line env msg =
     ''250 Accepted: ('' @ e_id env @ '')'' @ (case msg of None \<Rightarrow> [] | Some m \<Rightarrow> '': '' @ m) @ CRLF"

definition data_reply :: "recv_conf \<Rightarrow> envelope \<Rightarrow> data_run \<Rightarrow> receive_data \<Rightarrow> 'a sys_scheme \<Rightarrow> 'a sys_scheme data_step" where
  "data_reply c env d r s =
     (let d1 = d\<lparr>dr_told := True\<rparr>;
          (rc, r1, s1) =
            (if dr_banner d = MESSAGE_TEMPFAIL then smtp_write_banner c 451 (Some S_451_MESSAGE) (failure_message c d r) r s
             else if dr_banner d = MESSAGE_REJECT then smtp_write_banner c 554 (Some S_554_MESSAGE) (failure_message c d r) r s
             else (case snet_reply (accept_line env (dr_filter d)) r s of
                 (ok, r1, s1) \<Rightarrow> (if ok then RECEIVE_OK else RECEIVE_CLOSECONNECTION, r1, s1)))
      in Inr (Some (if rc \<noteq> RECEIVE_OK then RECEIVE_CLOSECONNECTION
                    else if dr_read_err d = SYSTEM_ERROR then RECEIVE_SYSERROR else RECEIVE_OK), d1, r1, s1))"

subsection \<open>The command\<close>

text \<open>What the filter or the limits have decided is done, and the client is told.\<close>

definition data_settle :: "recv_conf \<Rightarrow> 32 word \<Rightarrow> envelope \<Rightarrow> data_run \<Rightarrow> receive_data \<Rightarrow> 'a recv_state_scheme \<Rightarrow>
  'a recv_state_scheme data_step" where
  "data_settle c n env d r s =
     and_then (data_bounce c n env d r s) (\<lambda>(e1, env1, r1, s1).
       if e1 \<noteq> None then Inr (e1, d, with_env r1 env1, s1)
       else and_then (data_jail_or_delete c n env1 d s1) (\<lambda>(e2, env2, s2).
         if e2 \<noteq> None then Inr (e2, d, with_env r1 env2, s2)
         else and_then (data_out c env2 d r1 s2) (\<lambda>(e3, env3, r3, s3).
           if e3 \<noteq> None then Inr (e3, d, with_env r3 env3, s3)
           else and_then (data_mode n (with_env r3 env3)) (\<lambda>r4. data_reply c env3 d r4 s3))))"

text \<open>From the end of the lines to the reply.\<close>

definition data_finish :: "recv_conf \<Rightarrow> envelope \<Rightarrow> data_run \<Rightarrow> receive_data \<Rightarrow> 'a recv_state_scheme \<Rightarrow> 'a recv_state_scheme data_step" where
  "data_finish c env d r s =
     (case data_close env d s of
        (Some rc, env1, d1, s1) \<Rightarrow> Inr (Some rc, d1, with_env r env1, s1)
      | (None, env1, d1, s1) \<Rightarrow>
          and_then (data_filter c env1 d1 r s1) (\<lambda>(e2, n, env2, d2, r2, s2).
            if e2 \<noteq> None then Inr (e2, d2, with_env r2 env2, s2)
            else (case simta_gettimeofday s2 of
                (None, s3) \<Rightarrow> Inr (Some RECEIVE_SYSERROR, d2, with_env r2 env2, s3)
              | (Some tv, s3) \<Rightarrow> data_settle c n env2 (d2\<lparr>dr_now := fst tv\<rparr>) r2 s3)))"

text \<open>
  The end: a stream is closed; a message that has no command file loses its other files and
  its envelope.  After a reply has been given, a system error only turns the session off.
\<close>

definition unlink_left :: "envelope \<Rightarrow> 32 word \<Rightarrow> (envelope \<Rightarrow> 'a sys_scheme \<Rightarrow> int \<times> envelope \<times> 'a sys_scheme) \<Rightarrow> int \<Rightarrow>
  'a sys_scheme \<Rightarrow> int \<times> envelope \<times> 'a sys_scheme" where
  "unlink_left env flag remove rc s =
     (if \<not> has_flag (e_flags env) flag then (rc, env, s)
      else (case remove env s of
          (n, env1, s1) \<Rightarrow> (if n \<noteq> 0 \<and> rc = RECEIVE_OK then RECEIVE_SYSERROR else rc, env1, s1)))"

definition data_error :: "int \<Rightarrow> data_run \<Rightarrow> receive_data \<Rightarrow> 'a env_state_scheme \<Rightarrow> 'a env_state_scheme handled" where
  "data_error rc d r s =
     (case r_env r of
        None \<Rightarrow> Inl NullDeref
      | Some env \<Rightarrow>
          (let (fclose_ok, s1) = (if dr_dff d then outcome s else (True, s));
               rc1 = (if \<not> fclose_ok \<and> rc = RECEIVE_OK then RECEIVE_SYSERROR else rc);
               (rc2, r2, s2) =
                 (if has_flag (e_flags env) ENV_FLAG_EFILE then (rc1, r, s1)
                  else
                    (let (rcd, envd, sd) = unlink_left env ENV_FLAG_DFILE env_dfile_unlink rc1 s1;
                         (rct, envt, st) = unlink_left envd ENV_FLAG_TFILE env_tfile_unlink rcd sd
                     in (rct, r\<lparr>r_env := None\<rparr>, env_free (Some envt) st)))
           in if dr_told d \<and> rc2 = RECEIVE_SYSERROR
              then and_then (set_smtp_mode SMTP_MODE_OFF r2) (\<lambda>r3. Inr (RECEIVE_OK, r3, s2))
              else Inr (rc2, r2, s2)))"

definition data_transfer :: "recv_conf \<Rightarrow> envelope \<Rightarrow> data_run \<Rightarrow> receive_data \<Rightarrow> 'a recv_state_scheme \<Rightarrow> 'a recv_state_scheme data_step" where
  "data_transfer c env d r s =
     data_go (data_go_ahead c d r s) (\<lambda>d1 r1 s1.
       case data_loop c (data_session c r1 (dr_now d1)) env d1 r1 s1 of
         (env2, m) \<Rightarrow> and_then m (\<lambda>(e, d2, r2, s2).
           if e \<noteq> None then Inr (e, d2, with_env r2 env2, s2) else data_finish c env2 d2 r2 s2))"

definition data_body :: "recv_conf \<Rightarrow> envelope \<Rightarrow> receive_data \<Rightarrow> 'a recv_state_scheme \<Rightarrow> 'a recv_state_scheme handled" where
  "data_body c env r s =
     (let finish = (\<lambda>m. and_then m (\<lambda>(e, d, r1, s1).
            data_error (case e of None \<Rightarrow> RECEIVE_SYSERROR | Some rc \<Rightarrow> rc) d r1 s1))
      in if r_smtp_mode r = SMTP_MODE_TARPIT then finish (data_transfer c env zero_data r s)
         else (case env_dfile_open env s of
             (None, env1, s1) \<Rightarrow> Inr (- 1, with_env r env1, s1)
           | (Some ino, env1, s1) \<Rightarrow>
               finish (data_go (data_start c ino env1 (with_env r env1) s1) (\<lambda>d1 r1 s2. data_transfer c env1 d1 r1 s2))))"

definition f_data :: "recv_conf \<Rightarrow> receive_data \<Rightarrow> 'a recv_state_scheme \<Rightarrow> 'a recv_state_scheme handled" where
  "f_data c r0 s =
     (let r = r0\<lparr>r_data_attempt := r_data_attempt r0 + 1\<rparr>
      in if r_smtp_mode r = SMTP_MODE_OFF then say c 421 (Some S_421_DECLINE) None r s
         else if length (r_av r) \<noteq> 1 then say c 501 None (Some (''RFC 2821 section 4.1.1.1 '' @ QT @ ''DATA'' @ QT @ '' CRLF'')) r s
         else (case in_transaction r of
             None \<Rightarrow> f_bad_sequence c r s
           | Some env \<Rightarrow>
               (if e_rcpt env = [] then say c 554 None (Some ''No valid recipients'') r s
                else if r_smtp_mode r = SMTP_MODE_TEMPFAIL then say c 451 (Some S_451_DECLINE) None r s
                else if r_smtp_mode r = SMTP_MODE_NOAUTH then f_noauth c r s
                else if r_smtp_mode r = SMTP_MODE_REFUSE then f_bad_sequence c r s
                else if r_smtp_mode r \<in> {SMTP_MODE_TARPIT, SMTP_MODE_GLOBAL_RELAY, SMTP_MODE_NORMAL}
                  then data_body c env r s
                else Inr (RECEIVE_SYSERROR, r, s))))"

end
