(* ===== verification/ReceiveSession.thy ===== *)
theory ReceiveSession
  imports ReceiveData
begin

section \<open>The SMTP server: a session (receive.c)\<close>

text \<open>
  \<open>smtp_receive\<close>: what is checked before the first reply, the loop over the commands, and the
  end.  A step of the loop is a function, and \<open>session\<close> the relation of the states it leads to.
\<close>

subsection \<open>The opening\<close>

text \<open>Why the loop is not reached or left: to say 421, to close, or a return without closing.\<close>

datatype ending = Syserror | Closing | Returned int

type_synonym 's outset = "(ending option \<times> receive_data \<times> 's) run"

definition then_open :: "'s outset \<Rightarrow> (receive_data \<Rightarrow> 's \<Rightarrow> 's outset) \<Rightarrow> 's outset" where
  "then_open m f = and_then m (\<lambda>(e, r, s). if e = None then f r s else Inr (e, r, s))"

definition decline :: "recv_conf \<Rightarrow> string \<Rightarrow> string option \<Rightarrow> receive_data \<Rightarrow> 'a sys_scheme \<Rightarrow> 'a sys_scheme outset" where
  "decline c msg arg r s =
     (case smtp_write_banner c 421 (Some msg) arg r s of (rc, r1, s1) \<Rightarrow> Inr (Some Closing, r1, s1))"

definition S_MAXCONNECT :: string where "S_MAXCONNECT = ''Maximum connections exceeded''"
definition S_MISMATCH :: string where "S_MISMATCH = ''Mismatch''"

definition too_many :: "int \<Rightarrow> int \<Rightarrow> bool" where
  "too_many limit n \<longleftrightarrow> limit \<noteq> 0 \<and> limit < n"

definition auth_init :: "recv_conf \<Rightarrow> bool \<Rightarrow> receive_data \<Rightarrow> 'a recv_state_scheme \<Rightarrow> 'a recv_state_scheme handled" where
  "auth_init c tls_socket r s =
     and_then
       (if simta_sasl c = 0 then Inr (True, r, s)
        else and_then (set_smtp_mode SMTP_MODE_NOAUTH r) (\<lambda>r1. let (sasl_ok, s1) = all_ok 4 s in Inr (sasl_ok, r1, s1)))
       (\<lambda>(go, r1, s1).
          if \<not> go then Inr (- 1, r1, s1)
          else if \<not> tls_socket then Inr (0, r1, s1)
          else
            go_on (- 1) (start_tls c r1 s1) (\<lambda>r2 s2.
            go_on (- 1) (post_tls c r2 s2) (\<lambda>r3 s3. Inr (0, r3, s3))))"

text \<open>The name of the client; an unknown one is NULL once libwrap has let it in.\<close>

definition check_client :: "recv_conf \<Rightarrow> receive_data \<Rightarrow> 'a recv_state_scheme \<Rightarrow> 'a recv_state_scheme outset" where
  "check_client c r s =
     (case check_reverse (r_sin r) s of
        ((found, name), s1) \<Rightarrow>
          let r1 = r\<lparr>r_dns_match := found,
                r_remote_hostname := (if found = REVERSE_MATCH then name
                  else if found = REVERSE_MISMATCH then Some S_MISMATCH else Some S_UNKNOWN)\<rparr>;
              wrap = (\<lambda>s2. let (allowed, s3) = outcome s2
                 in if \<not> allowed then decline c S_421_DECLINE (simta_libwrap_url c) r1 s3
                    else Inr (None, if found = REVERSE_MATCH \<or> found = REVERSE_MISMATCH then r1
                                    else r1\<lparr>r_remote_hostname := None\<rparr>, s3))
          in if found = REVERSE_MATCH then wrap s1
             else if found = REVERSE_UNKNOWN \<or> found = REVERSE_MISMATCH then
               (if simta_ignore_reverse c = 0 then decline c S_421_DECLINE (simta_reverse_url c) r1 s1 else wrap s1)
             else
               (if simta_ignore_connect_in_reverse_errors c = 0 then decline c S_421_DECLINE None r1 s1 else wrap s1))"

definition check_lists :: "recv_conf \<Rightarrow> receive_data \<Rightarrow> 'a recv_state_scheme \<Rightarrow> 'a recv_state_scheme outset" where
  "check_lists c r s =
     (if simta_rbls c = [] then Inr (None, r, s)
      else (case rbl_check (simta_rbl_verbose_logging c) (simta_rbls c) (r_rbl r) s of
          (status, f, s1) \<Rightarrow>
            let r1 = r\<lparr>r_rbl := f\<rparr>
            in if status = RBL_NOT_FOUND then Inr (None, r1\<lparr>r_rbl_status := RBL_UNKNOWN\<rparr>, s1)
               else if found_rbl f = None then Inl NullDeref
               else if status = RBL_BLOCK then
                 and_then (set_smtp_mode SMTP_MODE_OFF (r1\<lparr>r_rbl_status := RBL_BLOCK\<rparr>)) (\<lambda>r2. Inr (None, r2, s1))
               else if status = RBL_ACCEPT then Inr (None, r1\<lparr>r_rbl_status := RBL_ACCEPT\<rparr>, s1)
               else
                 (let (timed_out, s2) = outcome s1
                  in Inr (if timed_out then None else Some Syserror, r1\<lparr>r_rbl_status := RBL_UNKNOWN\<rparr>, s2))))"

text \<open>Clients on no list of welcome ones are counted; their numbers are the arguments.\<close>

definition check_limits :: "recv_conf \<Rightarrow> int \<Rightarrow> int \<Rightarrow> receive_data \<Rightarrow> 'a sys_scheme \<Rightarrow> 'a sys_scheme outset" where
  "check_limits c clients throttle r s =
     (if r_rbl_status r \<noteq> RBL_ACCEPT \<and>
         (too_many (simta_local_connections_max c) clients \<or> too_many (simta_local_throttle_max c) throttle)
      then decline c S_MAXCONNECT (Some S_CLOSING) r s else Inr (None, r, s))"

text \<open>Did the client write before it was greeted?  The second outcome says no.\<close>

definition check_early :: "receive_data \<Rightarrow> 'a sys_scheme \<Rightarrow> 'a sys_scheme outset" where
  "check_early r s =
     (let (select_ok, s1) = outcome s
      in if \<not> select_ok then Inr (Some Syserror, r, s1)
         else (let (silent, s2) = outcome s1 in Inr (None, if silent then r else r\<lparr>r_write_before_banner := 1\<rparr>, s2)))"

text \<open>In mode off the greeting names the list that blocked the client, without looking whether there is one.\<close>

definition greet :: "recv_conf \<Rightarrow> receive_data \<Rightarrow> 'a sys_scheme \<Rightarrow> 'a sys_scheme outset" where
  "greet c r s =
     and_then
       (if r_smtp_mode r = SMTP_MODE_OFF then
          (case found_rbl (r_rbl r) of
             None \<Rightarrow> Inl NullDeref
           | Some rbl \<Rightarrow> say_lines (''554 <'' @ simta_hostname (rc_conf c) @ ''> '' @ S_DENIED @ '' '' @ inet_ntoa (r_sin r) @
               '': See '' @ rbl_url rbl @ CRLF) r s)
        else say c 220 None None r s)
       (\<lambda>(rc, r1, s1). Inr (if rc \<noteq> RECEIVE_OK then Some Closing else None, r1, s1))"

definition open_checked :: "recv_conf \<Rightarrow> bool \<Rightarrow> int \<Rightarrow> int \<Rightarrow> receive_data \<Rightarrow> 'a recv_state_scheme \<Rightarrow> 'a recv_state_scheme outset" where
  "open_checked c tls_socket clients throttle r s =
     and_then (auth_init c tls_socket r s) (\<lambda>(rc, r1, s1).
       if rc \<noteq> 0 then Inr (Some Syserror, r1, s1)
       else
         (let (dnsr_ok, s2) = (if simta_dnsr s1 then (True, s1) else outcome s1)
          in if \<not> dnsr_ok then Inr (Some Syserror, r1, s2)
             else
               then_open (check_client c r1 (s2\<lparr>simta_dnsr := True\<rparr>)) (\<lambda>r3 s3.
               then_open (check_lists c r3 s3) (\<lambda>r4 s4.
               then_open (check_limits c clients throttle r4 s4) (\<lambda>r5 s5.
               then_open (check_early r5 s5) (\<lambda>r6 s6. greet c r6 s6))))))"

definition smtp_open :: "recv_conf \<Rightarrow> bool \<Rightarrow> int \<Rightarrow> int \<Rightarrow> receive_data \<Rightarrow> 'a recv_state_scheme \<Rightarrow> 'a recv_state_scheme outset" where
  "smtp_open c tls_socket clients throttle r s =
     and_then (reset c r s) (\<lambda>(rc, r1, s1).
       if rc \<noteq> RECEIVE_OK then Inr (Some Syserror, r1, s1)
       else
         (let (alloc_ok, s2) = all_ok 2 s1
          in if \<not> alloc_ok then Inr (Some Syserror, r1, s2)
             else if too_many (simta_global_connections_max c) (simta_global_connections c) \<or>
                     too_many (simta_global_throttle_max c) (simta_global_throttle_connections c)
               then decline c S_MAXCONNECT (Some S_CLOSING) r1 s2
             else if r_smtp_mode r1 = SMTP_MODE_REFUSE then
               (case smtp_write_banner c 554 (Some ''No SMTP Service here'') None r1 s2 of
                  (rc2, r2, s3) \<Rightarrow> Inr (if rc2 \<noteq> RECEIVE_OK then Some Closing else None, r2, s3))
             else open_checked c tls_socket clients throttle r1 s2))"

subsection \<open>A command\<close>

definition dispatch :: "recv_conf \<Rightarrow> c_func \<Rightarrow> receive_data \<Rightarrow> 'a recv_state_scheme \<Rightarrow> 'a recv_state_scheme handled" where
  "dispatch c f r s =
     (case f of
        F_helo \<Rightarrow> f_helo c r s | F_ehlo \<Rightarrow> f_ehlo c r s | F_mail \<Rightarrow> f_mail c r s | F_rcpt \<Rightarrow> f_rcpt c r s
      | F_data \<Rightarrow> f_data c r s | F_rset \<Rightarrow> f_rset c r s | F_noop \<Rightarrow> f_noop c r s | F_quit \<Rightarrow> f_quit c r s
      | F_help \<Rightarrow> f_help c r s | F_not_implemented \<Rightarrow> f_not_implemented c r s | F_starttls \<Rightarrow> f_starttls c r s
      | F_auth \<Rightarrow> f_auth c r s | F_bad_sequence \<Rightarrow> f_bad_sequence c r s)"

definition lookup_command :: "receive_data \<Rightarrow> c_func option" where
  "lookup_command r =
     (case r_av r of
        [] \<Rightarrow> None
      | w # _ \<Rightarrow> map_option snd (find (\<lambda>cm. strcasecmp w (fst cm) = 0) (r_commands r)))"

text \<open>Too many recipients that failed: the mode is changed, and the id of the message is logged.\<close>

definition punish :: "recv_conf \<Rightarrow> receive_data \<Rightarrow> receive_data run" where
  "punish c r =
     (if r_smtp_mode r = SMTP_MODE_NORMAL \<and> 0 < simta_max_failed_rcpts c \<and> simta_max_failed_rcpts c \<le> r_failed_rcpts r
      then (if r_env r = None then Inl NullDeref else set_smtp_mode (simta_smtp_punishment_mode c) r)
      else Inr r)"

text \<open>A step ends the session, or goes on with the capacity of the word vector and \<open>continue_after_timeout\<close>.\<close>

datatype 's stepped = Again nat bool receive_data 's | Over ending receive_data 's

definition run_command :: "recv_conf \<Rightarrow> nat \<Rightarrow> bool \<Rightarrow> receive_data \<Rightarrow> 'a recv_state_scheme \<Rightarrow> 'a recv_state_scheme stepped run" where
  "run_command c cap cont r s =
     (case lookup_command r of
        None \<Rightarrow>
          (if r_smtp_mode r = SMTP_MODE_OFF then
             (case smtp_write_banner c 421 (Some S_421_DECLINE) None r s of (rc, r1, s1) \<Rightarrow> Inr (Over Closing r1 s1))
           else (case smtp_write_banner c 500 None None r s of
               (rc, r1, s1) \<Rightarrow> Inr (if rc \<noteq> RECEIVE_OK then Over Closing r1 s1 else Again cap cont r1 s1)))
      | Some f \<Rightarrow>
          and_then (dispatch c f r s) (\<lambda>(rc, r1, s1).
            if rc = RECEIVE_CLOSECONNECTION then Inr (Over Closing r1 s1)
            else if rc \<noteq> RECEIVE_OK then Inr (Over Syserror r1 s1)
            else and_then (punish c r1) (\<lambda>r2. Inr (Again cap cont r2 s1))))"

text \<open>
  A line: a copy for the log, then its words.  One outcome stands for the memory of the vector,
  which fails when the vector must grow or not at all.
\<close>

definition smtp_line :: "recv_conf \<Rightarrow> nat \<Rightarrow> bool \<Rightarrow> string \<Rightarrow> receive_data \<Rightarrow> 'a recv_state_scheme \<Rightarrow> 'a recv_state_scheme stepped run" where
  "smtp_line c cap cont l r s =
     (let (strdup_ok, s1) = outcome s
      in if \<not> strdup_ok then Inr (Over Syserror r s1)
         else
           (let (realloc_ok, s2) = outcome s1
            in and_then (acav_parse2821 (\<lambda>_. realloc_ok) cap l) (\<lambda>p. case p of
                None \<Rightarrow> Inr (Over Syserror r s2)
              | Some (av, cap1) \<Rightarrow> run_command c cap1 cont (r\<lparr>r_av := av\<rparr>) s2)))"

definition smtp_wait :: "recv_conf \<Rightarrow> nat \<Rightarrow> bool \<Rightarrow> receive_data \<Rightarrow> 'a recv_state_scheme \<Rightarrow> 'a recv_state_scheme stepped run" where
  "smtp_wait c cap cont r s =
     (case client_line r s of
        (Line l, r1, s1) \<Rightarrow> smtp_line c cap cont l r1 s1
      | (Late, r1, s1) \<Rightarrow>
          (if cont then Inr (Again cap False r1 s1)
           else (case smtp_write_banner c 421 (Some S_TIMEOUT) (Some S_CLOSING) r1 s1 of (rc, r2, s2) \<Rightarrow> Inr (Over Closing r2 s2)))
      | (Gone, r1, s1) \<Rightarrow> Inr (Over Syserror r1 s1))"

text \<open>How long to wait: the least of the timers; the timers of inactivity and of the session end it.\<close>

definition smtp_timers :: "recv_conf \<Rightarrow> int \<Rightarrow> receive_data \<Rightarrow> (int \<times> receive_data) option" where
  "smtp_timers c now r =
     (if r_tv_session r \<noteq> 0 \<and> r_tv_session r \<le> now then None
      else
        (let w1 = (if r_tv_session r \<noteq> 0 then min (simta_inbound_command_line_timer c) (r_tv_session r - now)
                   else simta_inbound_command_line_timer c)
         in if simta_inbound_command_inactivity_timer c \<le> 0 then Some (w1, r)
            else if r_tv_inactivity r \<noteq> 0 \<and> r_tv_inactivity r \<le> now then None
            else
              (let r1 = (if r_tv_inactivity r = 0
                         then r\<lparr>r_tv_inactivity := simta_inbound_command_inactivity_timer c + now\<rparr> else r)
               in Some (min w1 (r_tv_inactivity r1 - now), r1))))"

text \<open>When an accepted message has waited long enough, it is delivered before the next command.\<close>

definition smtp_step :: "recv_conf \<Rightarrow> nat \<Rightarrow> bool \<Rightarrow> receive_data \<Rightarrow> 'a recv_state_scheme \<Rightarrow> 'a recv_state_scheme stepped run" where
  "smtp_step c cap cont r s =
     (case simta_gettimeofday s of
        (None, s1) \<Rightarrow> Inr (Over Syserror r s1)
      | (Some tv, s1) \<Rightarrow>
          (case smtp_timers c (fst tv) r of
             None \<Rightarrow> Inr (Over Syserror r s1)
           | Some (w, r1) \<Rightarrow>
               (if r_tv_accepted r1 = 0 then smtp_wait c cap cont r1 s1
                else if r_tv_accepted r1 \<le> fst tv then
                  and_then (deliver_accepted c (r1\<lparr>r_tv_accepted := 0\<rparr>) s1) (\<lambda>(rc, r2, s2).
                    Inr (if rc \<noteq> RECEIVE_OK then Over (Returned RECEIVE_SYSERROR) r2 s2 else Again cap cont r2 s2))
                else smtp_wait c cap (cont \<or> r_tv_accepted r1 - fst tv < w) r1 s1)))"

text \<open>The states a session goes through from the opening on.\<close>

inductive session :: "recv_conf \<Rightarrow> nat \<Rightarrow> bool \<Rightarrow> receive_data \<Rightarrow> 'a recv_state_scheme \<Rightarrow>
  nat \<Rightarrow> bool \<Rightarrow> receive_data \<Rightarrow> 'a recv_state_scheme \<Rightarrow> bool" for c cap cont r s where
  here: "session c cap cont r s cap cont r s"
| step: "session c cap cont r s cap1 cont1 r1 s1 \<Longrightarrow> smtp_step c cap1 cont1 r1 s1 = Inr (Again cap2 cont2 r2 s2) \<Longrightarrow>
    session c cap cont r s cap2 cont2 r2 s2"

end
