(* ===== verification/ReceiveLoop.thy ===== *)
theory ReceiveLoop
  imports ReceiveSession
begin

section \<open>The SMTP server: the loop ends (receive.c)\<close>

text \<open>
  No command puts anything back into what the client sends, so each command that is read makes
  the rest shorter.  The two other ways around the loop are limited as well: an accepted
  message is delivered once, and a time-out that is waited for again uses up an outcome.
\<close>

definition to_come :: "receive_data \<Rightarrow> nat" where
  "to_come r = length (sn_rest (conn_in (r_snet r)))"

text \<open>
  What always holds of a session: the mode is one of seven, the commands are those of the
  mode, and a message that is not accepted yet has no files.
\<close>

definition mode_ok :: "receive_data \<Rightarrow> bool" where
  "mode_ok r \<longleftrightarrow> 0 \<le> r_smtp_mode r \<and> r_smtp_mode r \<le> 6 \<and> r_commands r = mode_commands (r_smtp_mode r)"

definition files_settled :: "envelope \<Rightarrow> bool" where
  "files_settled env \<longleftrightarrow> has_flag (e_flags env) ENV_FLAG_EFILE \<or>
     \<not> has_flag (e_flags env) ENV_FLAG_DFILE \<and> \<not> has_flag (e_flags env) ENV_FLAG_TFILE"

definition env_ok :: "receive_data \<Rightarrow> bool" where
  "env_ok r \<longleftrightarrow> (case r_env r of None \<Rightarrow> True | Some env \<Rightarrow> files_settled env)"

definition session_ok :: "receive_data \<Rightarrow> bool" where
  "session_ok r \<longleftrightarrow> mode_ok r \<and> env_ok r"

text \<open>One session comes after another; and the sessions that a command can end with.\<close>

definition follows :: "receive_data \<Rightarrow> receive_data \<Rightarrow> bool" where
  "follows r' r \<longleftrightarrow> to_come r' \<le> to_come r \<and> (mode_ok r \<longrightarrow> mode_ok r') \<and> (env_ok r \<longrightarrow> env_ok r')"

definition hears :: "receive_data \<Rightarrow> ('x \<times> receive_data \<times> 's) run \<Rightarrow> bool" where
  "hears r m \<longleftrightarrow> (\<forall>rc r' s'. m = Inr (rc, r', s') \<longrightarrow> follows r' r)"

named_theorems hearing \<open>what commands leave of a session\<close>

lemma follows_refl [simp]: "follows r r"
  by (simp add: follows_def)

lemma follows_trans: "follows r2 r1 \<Longrightarrow> follows r1 r \<Longrightarrow> follows r2 r"
  by (auto simp: follows_def)

lemma hears_Inr [hearing]: "follows r' r \<Longrightarrow> hears r (Inr (rc, r', s'))"
  and hears_Inl [hearing]: "hears r (Inl e)"
  by (auto simp: hears_def)

lemma hears_go_on [hearing]: "hears r m \<Longrightarrow> (\<And>r1 s1. follows r1 r \<Longrightarrow> hears r (f r1 s1)) \<Longrightarrow> hears r (go_on rc m f)"
  by (fastforce simp: hears_def go_on_def split: if_splits)

lemma hears_and_then [hearing]: "(\<And>x. m = Inr x \<Longrightarrow> hears r (f x)) \<Longrightarrow> hears r (and_then m f)"
  by (auto simp: hears_def)

text \<open>Changes of single fields.\<close>

lemma session_upd [simp]:
  "to_come (r\<lparr>r_env := v1\<rparr>) = to_come r" "mode_ok (r\<lparr>r_env := v1\<rparr>) = mode_ok r" "env_ok (r\<lparr>r_env := None\<rparr>)"
  "to_come (r\<lparr>r_tv_accepted := v3\<rparr>) = to_come r" "mode_ok (r\<lparr>r_tv_accepted := v3\<rparr>) = mode_ok r"
  "to_come (r\<lparr>r_tv_inactivity := v3\<rparr>) = to_come r" "mode_ok (r\<lparr>r_tv_inactivity := v3\<rparr>) = mode_ok r"
  "to_come (r\<lparr>r_data_success := v3\<rparr>) = to_come r" "mode_ok (r\<lparr>r_data_success := v3\<rparr>) = mode_ok r"
  "to_come (r\<lparr>r_mdctx_status := v3\<rparr>) = to_come r" "mode_ok (r\<lparr>r_mdctx_status := v3\<rparr>) = mode_ok r"
  "files_settled env \<Longrightarrow> env_ok (r\<lparr>r_env := Some env\<rparr>)"
  by (simp_all add: to_come_def mode_ok_def env_ok_def)

lemma follows_upd [simp]:
  "follows (r1\<lparr>r_hello := v2\<rparr>) r = follows r1 r" "follows (r1\<lparr>r_auth := v3\<rparr>) r = follows r1 r"
  "follows (r1\<lparr>r_auth_id := v2\<rparr>) r = follows r1 r" "follows (r1\<lparr>r_mail_attempt := v3\<rparr>) r = follows r1 r"
  "follows (r1\<lparr>r_rcpt_attempt := v3\<rparr>) r = follows r1 r" "follows (r1\<lparr>r_data_attempt := v3\<rparr>) r = follows r1 r"
  "follows (r1\<lparr>r_mail_success := v3\<rparr>) r = follows r1 r" "follows (r1\<lparr>r_rcpt_success := v3\<rparr>) r = follows r1 r"
  "follows (r1\<lparr>r_data_success := v3\<rparr>) r = follows r1 r" "follows (r1\<lparr>r_failed_rcpts := v3\<rparr>) r = follows r1 r"
  "follows (r1\<lparr>r_tv_inactivity := v3\<rparr>) r = follows r1 r" "follows (r1\<lparr>r_tv_accepted := v3\<rparr>) r = follows r1 r"
  "follows (r1\<lparr>r_rbl_status := v3\<rparr>) r = follows r1 r" "follows (r1\<lparr>r_rbl := v4\<rparr>) r = follows r1 r"
  "follows (r1\<lparr>r_mdctx_status := v3\<rparr>) r = follows r1 r" "follows (r1\<lparr>r_mdctx_bytes := v5\<rparr>) r = follows r1 r"
  "follows (r1\<lparr>r_md_text := v6\<rparr>) r = follows r1 r" "follows (r1\<lparr>r_av := v8\<rparr>) r = follows r1 r"
  by (simp_all add: follows_def to_come_def mode_ok_def env_ok_def)

lemma follows_env [simp]:
  "follows r1 r \<Longrightarrow> follows (r1\<lparr>r_env := None\<rparr>) r"
  "follows r1 r \<Longrightarrow> env_ok r \<longrightarrow> files_settled env \<Longrightarrow> follows (r1\<lparr>r_env := Some env\<rparr>) r"
  by (auto simp: follows_def to_come_def mode_ok_def env_ok_def)

lemma follows_small [simp]:
  "follows (digest_add c t r1) r = follows r1 r" "follows (digest_ready c r1) r = follows r1 r"
  "follows (rcpt_failed r1) r = follows r1 r"
  by (simp_all add: digest_add_def digest_ready_def rcpt_failed_def)

lemma set_smtp_mode_ok: "set_smtp_mode mode r = Inr r' \<Longrightarrow> to_come r' = to_come r \<and> mode_ok r' \<and> r_env r' = r_env r"
  by (auto simp: set_smtp_mode_def mode_ok_def to_come_def mode_commands_def smtp_modes split: if_splits)

lemma set_smtp_mode_follows: "set_smtp_mode mode r1 = Inr r' \<Longrightarrow> follows r1 r \<Longrightarrow> follows r' r"
  by (auto simp: follows_def env_ok_def dest!: set_smtp_mode_ok)

lemma in_transaction_settled:
  "in_transaction r1 = Some env \<Longrightarrow> follows r1 r \<Longrightarrow>
   r_env r1 = Some env \<and> \<not> has_flag (e_flags env) ENV_FLAG_EFILE \<and> (env_ok r \<longrightarrow> files_settled env)"
  by (auto simp: in_transaction_def follows_def env_ok_def split: option.splits if_splits)

subsection \<open>Replies, and the end of a transaction\<close>

lemma snet_reply_same:
  "snet_reply t r s = (ok, r', s') \<Longrightarrow> to_come r' = to_come r \<and> mode_ok r' = mode_ok r \<and> r_env r' = r_env r"
  by (auto simp: snet_reply_def to_come_def mode_ok_def Let_def split: prod.splits if_splits)

lemma banner_same:
  "smtp_write_banner c n msg arg r s = (rc, r', s') \<Longrightarrow> to_come r' = to_come r \<and> mode_ok r' = mode_ok r \<and> r_env r' = r_env r"
  by (auto simp: smtp_write_banner_def split: prod.splits dest: snet_reply_same)

lemma say_hears [hearing]: "follows r1 r \<Longrightarrow> hears r (say c n msg arg r1 s)"
  by (auto simp: hears_def say_def follows_def env_ok_def dest!: banner_same)

lemma say_lines_hears [hearing]: "follows r1 r \<Longrightarrow> hears r (say_lines t r1 s)"
  by (auto simp: hears_def say_lines_def follows_def env_ok_def split: prod.splits dest!: snet_reply_same)

lemma deliver_accepted_kept:
  "deliver_accepted c r1 s = Inr (rc, r', s') \<Longrightarrow> (r' = r1 \<or> r' = r1\<lparr>r_env := None\<rparr>)"
  by (cases "rc_grants c") (auto simp: deliver_accepted_def split: option.splits if_splits)

lemma deliver_accepted_hears [hearing]: "follows r1 r \<Longrightarrow> hears r (deliver_accepted c r1 s)"
  by (auto simp: hears_def dest: deliver_accepted_kept)

lemma reset_hears [hearing]: "follows r1 r \<Longrightarrow> hears r (reset c r1 s)"
  unfolding reset_def by (intro hearing) (auto simp: Let_def)

lemma hello_hears [hearing]: "follows r1 r \<Longrightarrow> hears r (hello h r1 s)"
  by (auto simp: hears_def hello_def Let_def split: prod.splits if_splits)

subsection \<open>Every command\<close>

lemma f_helo_hears [hearing]: "follows r1 r \<Longrightarrow> hears r (f_helo c r1 s)"
  unfolding f_helo_def by (auto intro!: hearing)

lemma say_each_hears [hearing]: "follows r1 r \<Longrightarrow> hears r (say_each ls r1 s)"
  by (induction ls arbitrary: r1 s) (auto intro!: hearing)

lemma f_ehlo_hears [hearing]: "follows r1 r \<Longrightarrow> hears r (f_ehlo c r1 s)"
  unfolding f_ehlo_def Let_def by (auto intro!: hearing split: prod.splits)

lemma f_mail_usage_hears [hearing]: "follows r1 r \<Longrightarrow> hears r (f_mail_usage c r1 s)"
  unfolding f_mail_usage_def by (auto intro!: hearing)

lemma mail_mode_hears [hearing]:
  "follows r1 r \<Longrightarrow> hears r err \<Longrightarrow> (\<And>s1. hears r (go s1)) \<Longrightarrow> hears r (mail_mode c domain r1 s err go)"
  unfolding mail_mode_def by (auto intro!: hearing split: option.splits prod.splits)

lemma env_create_fresh: "env_create c dir idn mail None s = (Some env, s') \<Longrightarrow> files_settled env"
  by (auto simp: files_settled_def has_flag_def env_create_def env_sender_def env_inherit_def env_jail_set_def zero_env_def Let_def
      split: prod.splits option.splits if_splits)

lemma f_mail_hears [hearing]: "follows r1 r \<Longrightarrow> hears r (f_mail c r1 s)"
  unfolding f_mail_def Let_def
  by (auto intro!: hearing dest!: env_create_fresh split: option.splits prod.splits)

lemma env_recipient_settled: "env_recipient env addr s = (rc, env', s') \<Longrightarrow> files_settled env' = files_settled env"
  by (auto simp: env_recipient_def files_settled_def Let_def split: if_splits prod.splits)

lemma rcpt_accept_hears [hearing]:
  "follows r1 r \<Longrightarrow> env_ok r \<longrightarrow> files_settled env \<Longrightarrow> hears r (rcpt_accept c addr env r1 s)"
  unfolding rcpt_accept_def Let_def
  by (auto intro!: hearing dest!: env_recipient_settled split: prod.splits)

lemma small_hears [hearing]:
  "follows r1 r \<Longrightarrow> hears r (f_rcpt_usage r1 s)"
  "follows r1 r \<Longrightarrow> hears r (f_bad_sequence c r1 s)"
  "follows r1 r \<Longrightarrow> hears r (f_noauth c r1 s)"
  "follows r1 r \<Longrightarrow> hears r (f_quit c r1 s)"
  "follows r1 r \<Longrightarrow> hears r (tls_failed c r1 s)"
  by (auto simp: f_rcpt_usage_def f_bad_sequence_def f_noauth_def f_quit_def tls_failed_def intro!: hearing)

lemma rcpt_rbl_hears [hearing]: 
  "follows r1 r \<Longrightarrow> env_ok r \<longrightarrow> files_settled env \<Longrightarrow> hears r (rcpt_rbl c addr env r1 s)"
proof -
  assume r1: "follows r1 r" "env_ok r \<longrightarrow> files_settled env"
  obtain status f s1 where "(if r_rbl_status r1 = RBL_UNKNOWN
      then rbl_check (simta_rbl_verbose_logging c) (simta_user_rbls c) (r_rbl r1) s
      else (r_rbl_status r1, r_rbl r1, s)) = (status, f, s1)"
    by (cases "if r_rbl_status r1 = RBL_UNKNOWN
      then rbl_check (simta_rbl_verbose_logging c) (simta_user_rbls c) (r_rbl r1) s
      else (r_rbl_status r1, r_rbl r1, s)")
  with r1 show ?thesis
    unfolding rcpt_rbl_def Let_def by (simp only: prod.case) (auto intro!: hearing split: option.split prod.split)
qed

lemma rcpt_local_hears [hearing]: 
  "follows r1 r \<Longrightarrow> env_ok r \<longrightarrow> files_settled env \<Longrightarrow> hears r (rcpt_local c addr domain env red r1 s)"
  unfolding rcpt_local_def by (auto intro!: hearing)

lemma rcpt_normal_hears [hearing]: 
  "follows r1 r \<Longrightarrow> env_ok r \<longrightarrow> files_settled env \<Longrightarrow> hears r (rcpt_normal c addr domain env r1 s)"
  unfolding rcpt_normal_def Let_def by (auto intro!: hearing split: option.splits)

lemma f_rcpt_hears [hearing]: "follows r1 r \<Longrightarrow> hears r (f_rcpt c r1 s)"
  unfolding f_rcpt_def Let_def by (auto intro!: hearing dest!: in_transaction_settled [where r = r] split: option.splits)

lemma delivering_hears [hearing]:
  "follows r1 r \<Longrightarrow> hears r (f_rset c r1 s)"
  "follows r1 r \<Longrightarrow> hears r (f_noop c r1 s)"
  "follows r1 r \<Longrightarrow> hears r (f_help c r1 s)"
  "follows r1 r \<Longrightarrow> hears r (f_not_implemented c r1 s)"
  by (auto simp: f_rset_def f_noop_def f_help_def f_not_implemented_def intro!: hearing)

text \<open>TLS drops what was read ahead; SASL reads lines.\<close>

lemma discard_less: "length (sn_rest (discard k sn)) \<le> length (sn_rest sn)"
  by (simp add: discard_def)

lemma start_tls_hears [hearing]: "follows r1 r \<Longrightarrow> hears r (start_tls c r1 s)"
  unfolding start_tls_def Let_def
  by (auto intro!: hearing simp: follows_def to_come_def mode_ok_def env_ok_def intro: order_trans [OF discard_less]
      split: prod.splits)

lemma post_tls_hears [hearing]: "follows r1 r \<Longrightarrow> hears r (post_tls c r1 s)"
  unfolding post_tls_def Let_def by (auto intro!: hearing split: prod.splits)

lemma f_starttls_hears [hearing]: "follows r1 r \<Longrightarrow> hears r (f_starttls c r1 s)"
  unfolding f_starttls_def by (auto intro!: hearing)

lemma getline_scan_less:
  "getline_scan m eof st acc rest = (l, st', rest') \<Longrightarrow> length rest' \<le> length acc + length rest"
  by (induction m eof st acc rest arbitrary: l st' rest' rule: getline_scan.induct) (force split: if_splits)+

lemma client_line_follows: "client_line r s = (l, r1, s1) \<Longrightarrow> follows r1 r"
  by (auto simp: client_line_def follows_def to_come_def mode_ok_def env_ok_def snet_getline_def Let_def
      dest!: getline_scan_less split: prod.splits if_splits option.splits)

lemma client_line_hears: "client_line r1 s = (l, r2, s2) \<Longrightarrow> follows r1 r \<Longrightarrow> follows r2 r"
  by (blast dest: client_line_follows intro: follows_trans)

lemma auth_done_hears [hearing]: "follows r1 r \<Longrightarrow> hears r (auth_done c a r1 s)"
  unfolding auth_done_def Let_def by (auto intro!: hearing dest!: set_smtp_mode_follows split: prod.split)

lemma auth_step_hears [hearing]:
  "follows r1 r \<Longrightarrow> (\<And>r2 s2. follows r2 r \<Longrightarrow> hears r (next r2 s2)) \<Longrightarrow>
   hears r (auth_step c a r1 s next)"
  unfolding auth_step_def Let_def
  by (auto intro!: hearing split: prod.split heard.split dest!: client_line_hears [where r = r])

lemma auth_loop_hears [hearing]: "follows r1 r \<Longrightarrow> hears r (auth_loop c n a r1 s)"
  by (induction n arbitrary: a r1 s)
    (subst auth_loop.simps, auto intro!: hearing split: sasl_code.split prod.split simp del: auth_loop.simps)+

lemma f_auth_hears [hearing]: "follows r1 r \<Longrightarrow> hears r (f_auth c r1 s)"
  unfolding f_auth_def Let_def by (auto intro!: hearing split: prod.split simp del: auth_loop.simps)

text \<open>DATA has results of other shapes; each step leaves the input alone but for the lines it reads.\<close>

lemma data_timeout_hears: "data_timeout c d r s = Inr (e, d', r', s') \<Longrightarrow> to_come r' = to_come r \<and> (mode_ok r \<longrightarrow> mode_ok r')"
  by (auto simp: data_timeout_def split: prod.splits dest: banner_same)

lemma data_line_hears: "data_line c l env d r s = (env1, d2, r2, s3) \<Longrightarrow> to_come r2 = to_come r \<and> (mode_ok r \<longrightarrow> mode_ok r2)"
  by (auto simp: data_line_def data_digest_def to_come_def mode_ok_def Let_def split: prod.splits if_splits)

lemma data_loop_hears: "data_loop c sess env d r s = (env', Inr (e, d', r', s')) \<Longrightarrow> to_come r' \<le> to_come r \<and> (mode_ok r \<longrightarrow> mode_ok r')"
proof (induction "to_come r" arbitrary: env d r s rule: less_induct)
  case less
  show ?case
  proof (cases "case sess of None \<Rightarrow> False | Some t \<Rightarrow> t \<le> dr_now d")
    case True
    with less.prems show ?thesis by (subst (asm) data_loop.simps) (auto dest: data_timeout_hears)
  next
    case False
    obtain h r1 s1 where h: "client_line r s = (h, r1, s1)" by (cases "client_line r s")
    obtain d1 s2 where c: "data_clock d s1 = (d1, s2)" by (cases "data_clock d s1")
    show ?thesis
    proof (cases h)
      case (Line l)
      obtain env1 d2 r2 s3 where l: "data_line c l env (data_count l d1) r1 s2 = (env1, d2, r2, s3)"
        by (cases "data_line c l env (data_count l d1) r1 s2")
      from h Line have "to_come r1 < to_come r" unfolding to_come_def by (blast dest: client_line_shorter)
      with data_line_hears [OF l] have "to_come r2 < to_come r" by simp
      with less.prems False h c Line l less.hyps [of r2 env1 d2 s3] data_line_hears [OF l] client_line_follows [OF h, unfolded follows_def] show ?thesis
        by (subst (asm) data_loop.simps) (auto split: if_splits)
    qed (use less.prems False h in \<open>subst (asm) data_loop.simps, auto simp: follows_def dest!: client_line_follows data_timeout_hears\<close>)+
  qed
qed

lemma data_go_ahead_hears: "data_go_ahead c d r s = Inr (e, d', r', s') \<Longrightarrow> to_come r' = to_come r \<and> (mode_ok r \<longrightarrow> mode_ok r')"
  by (auto simp: data_go_ahead_def split: prod.splits if_splits option.splits dest!: banner_same)

lemma with_env_hears [simp]:
  "to_come (with_env r env) = to_come r" "to_come (accepted_timer c d r) = to_come r"
  "mode_ok (with_env r env) = mode_ok r" "mode_ok (accepted_timer c d r) = mode_ok r"
  by (simp_all add: with_env_def accepted_timer_def)

lemma data_filter_hears: "data_filter c env d r s = Inr (e, n, env', d', r', s') \<Longrightarrow> to_come r' = to_come r \<and> (mode_ok r \<longrightarrow> mode_ok r')"
  by (auto simp: data_filter_def Let_def split: if_splits option.splits prod.splits)

lemma data_bounce_hears: "data_bounce c n env d r s = Inr (e, env', r', s') \<Longrightarrow> to_come r' = to_come r \<and> (mode_ok r \<longrightarrow> mode_ok r')"
  by (auto simp: data_bounce_def split: if_splits option.splits prod.splits)

lemma data_out_hears: "data_out c env d r s = Inr (e, env', r', s') \<Longrightarrow> to_come r' = to_come r \<and> (mode_ok r \<longrightarrow> mode_ok r')"
  by (auto simp: data_out_def Let_def split: if_splits)

lemma data_mode_hears: "data_mode n r = Inr r' \<Longrightarrow> to_come r' = to_come r \<and> (mode_ok r \<longrightarrow> mode_ok r')"
  by (auto simp: data_mode_def split: if_splits dest: set_smtp_mode_ok)

lemma data_reply_hears: "data_reply c env d r s = Inr (e, d', r', s') \<Longrightarrow> to_come r' = to_come r \<and> (mode_ok r \<longrightarrow> mode_ok r')"
  by (auto simp: data_reply_def Let_def split: if_splits prod.splits dest: banner_same snet_reply_same)

lemma data_settle_hears: "data_settle c n env d r s = Inr (e, d', r', s') \<Longrightarrow> to_come r' = to_come r \<and> (mode_ok r \<longrightarrow> mode_ok r')"
  unfolding data_settle_def
  by (clarsimp simp: data_settle_def split: if_splits;
      force dest!: data_bounce_hears data_out_hears data_mode_hears data_reply_hears split: if_splits)

lemma data_finish_hears: "data_finish c env d r s = Inr (e, d', r', s') \<Longrightarrow> to_come r' = to_come r \<and> (mode_ok r \<longrightarrow> mode_ok r')"
  by (auto simp: data_finish_def split: if_splits option.splits prod.splits
      dest!: data_filter_hears data_settle_hears)

lemma data_transfer_hears: "data_transfer c env d r s = Inr (e, d', r', s') \<Longrightarrow> to_come r' \<le> to_come r \<and> (mode_ok r \<longrightarrow> mode_ok r')"
  by (auto simp: data_transfer_def data_go_def split: if_splits prod.splits
      dest!: data_go_ahead_hears data_loop_hears data_finish_hears)

lemma data_error_hears:
  "data_error rc d r s = Inr (rc', r', s') \<Longrightarrow> to_come r' = to_come r \<and> (mode_ok r \<longrightarrow> mode_ok r') \<and> env_ok r'"
  by (auto simp: data_error_def env_ok_def files_settled_def Let_def split: if_splits option.splits prod.splits
      dest!: set_smtp_mode_ok)

lemma data_start_hears: "data_start c ino env r s = Inr (e, d', r', s') \<Longrightarrow> to_come r' = to_come r \<and> (mode_ok r \<longrightarrow> mode_ok r')"
  by (auto simp: data_start_def Let_def split: if_splits option.splits prod.splits)

lemma env_dfile_open_none: "env_dfile_open env s = (None, env', s') \<Longrightarrow> env' = env"
  by (auto simp: env_dfile_open_def split: option.splits prod.splits)

lemma hears_data_error:
  assumes "\<And>e d r2 s2. m = Inr (e, d, r2, s2) \<Longrightarrow> to_come r2 \<le> to_come r \<and> (mode_ok r \<longrightarrow> mode_ok r2)"
  shows "hears r (and_then m (\<lambda>(e, d, r1, s1). data_error (g e) d r1 s1))"
  unfolding hears_def
proof (intro allI impI)
  fix rc r' s'
  assume "and_then m (\<lambda>(e, d, r1, s1). data_error (g e) d r1 s1) = Inr (rc, r', s')"
  then obtain e d r2 s2 where "m = Inr (e, d, r2, s2)" "data_error (g e) d r2 s2 = Inr (rc, r', s')" by auto
  from assms [OF this(1)] data_error_hears [OF this(2)] show "follows r' r" by (auto simp: follows_def)
qed

lemma data_go_transfer_hears:
  assumes "data_go (data_start c ino env (with_env r env) s) (\<lambda>d1 r1 s2. data_transfer c env d1 r1 s2) = Inr (e, d, r', s')"
  shows "to_come r' \<le> to_come r \<and> (mode_ok r \<longrightarrow> mode_ok r')"
proof -
  obtain e1 d1 r1 s1 where 1: "data_start c ino env (with_env r env) s = Inr (e1, d1, r1, s1)"
    using assms by (auto simp: data_go_def)
  with assms data_start_hears [OF 1] show ?thesis
    by (auto simp: data_go_def split: if_splits dest!: data_transfer_hears)
qed

lemma data_body_hears [hearing]:
  assumes "follows r1 r" "env_ok r \<longrightarrow> files_settled env"
  shows "hears r (data_body c env r1 s)"
proof (cases "r_smtp_mode r1 = SMTP_MODE_TARPIT")
  case True
  with assms show ?thesis
    by (simp add: data_body_def, intro hears_data_error) (auto simp: follows_def dest!: data_transfer_hears)
next
  case False
  obtain ino env1 s1 where o: "env_dfile_open env s = (ino, env1, s1)" by (cases "env_dfile_open env s")
  show ?thesis
  proof (cases ino)
    case None
    with o env_dfile_open_none [of env s env1 s1] False assms show ?thesis
      by (auto simp: data_body_def with_env_def intro!: hearing)
  next
    case (Some i)
    with o False assms show ?thesis
      by (simp add: data_body_def, intro hears_data_error) (auto simp: follows_def dest!: data_go_transfer_hears)
  qed
qed

lemma f_data_hears [hearing]:
  assumes "follows r1 r"
  shows "hears r (f_data c r1 s)"
proof -
  let ?r = "r1\<lparr>r_data_attempt := r_data_attempt r1 + 1\<rparr>"
  have r: "follows ?r r" using assms by simp
  show ?thesis
  proof (cases "in_transaction ?r")
    case None
    with r show ?thesis by (simp add: f_data_def Let_def hearing)
  next
    case (Some env)
    with in_transaction_settled [OF Some r] r show ?thesis by (simp add: f_data_def Let_def hearing)
  qed
qed

lemma dispatch_hears: "dispatch c f r s = Inr (rc, r', s') \<Longrightarrow> follows r' r"
proof -
  have "hears r (dispatch c f r s)"
    by (cases f) (auto simp: dispatch_def intro!: hearing simp del: auth_loop.simps)
  then show "dispatch c f r s = Inr (rc, r', s') \<Longrightarrow> follows r' r" by (auto simp: hears_def)
qed

subsection \<open>The loop\<close>

lemma punish_follows: "punish c r1 = Inr r' \<Longrightarrow> follows r1 r \<Longrightarrow> follows r' r"
  by (auto simp: punish_def split: if_splits dest: set_smtp_mode_follows)

lemma banner_follows: "smtp_write_banner c n msg arg r s = (rc, r', s') \<Longrightarrow> follows r' r"
  by (auto simp: follows_def env_ok_def dest!: banner_same)

lemma run_command_hears:
  assumes "run_command c cap cont r1 s = Inr (Again cap1 cont1 r2 s1)" "follows r1 r"
  shows "follows r2 r"
proof (cases "lookup_command r1")
  case None
  with assms have "follows r2 r1"
    by (auto simp: run_command_def split: prod.splits if_splits dest: banner_follows)
  with assms(2) show ?thesis by (rule follows_trans [rotated])
next
  case (Some f)
  with assms(1) obtain rc r3 s3 where d: "dispatch c f r1 s = Inr (rc, r3, s3)" "punish c r3 = Inr r2"
    by (auto simp: run_command_def split: if_splits)
  from dispatch_hears [OF d(1)] have "follows r3 r" using assms(2) by (rule follows_trans)
  with d(2) show ?thesis by (rule punish_follows)
qed

lemma smtp_line_hears: "smtp_line c cap cont l r s = Inr (Again cap1 cont1 r1 s1) \<Longrightarrow> follows r1 r"
  by (auto simp: smtp_line_def Let_def split: option.splits prod.splits if_splits
      dest!: run_command_hears [where r = r])

lemma smtp_wait_progress:
  assumes "smtp_wait c cap cont r s = Inr (Again cap1 cont1 r1 s1)"
  shows "to_come r1 < to_come r \<or> r1 = r \<and> length (w_oracle s1) < length (w_oracle s)"
proof -
  obtain h r2 s2 where h: "client_line r s = (h, r2, s2)" by (cases "client_line r s")
  show ?thesis
  proof (cases h)
    case (Line l)
    with h have "to_come r2 < to_come r" unfolding to_come_def by (blast dest: client_line_shorter)
    with assms h Line show ?thesis by (auto simp: smtp_wait_def follows_def dest!: smtp_line_hears)
  next
    case Late
    with h have "r2 = r \<and> length (w_oracle s2) < length (w_oracle s)"
      by (auto simp: client_line_def outcome_def Let_def split: prod.splits option.splits list.splits if_splits)
    with assms h Late show ?thesis by (auto simp: smtp_wait_def split: if_splits prod.splits)
  qed (use assms h in \<open>auto simp: smtp_wait_def\<close>)
qed

lemma gettimeofday_oracle: "simta_gettimeofday s = (tv, s') \<Longrightarrow> length (w_oracle s') \<le> length (w_oracle s)"
  by (cases s rule: outcome_cases)
    (auto simp: simta_gettimeofday_def gettimeofday_def Let_def split: option.splits list.splits)

lemma smtp_timers_hears:
  "smtp_timers c now r = Some (w, r') \<Longrightarrow>
   to_come r' = to_come r \<and> r_tv_accepted r' = r_tv_accepted r \<and> follows r' r"
  by (auto simp: smtp_timers_def Let_def to_come_def split: if_splits)

lemma smtp_step_progress:
  assumes "smtp_step c cap cont r s = Inr (Again cap1 cont1 r1 s1)"
  shows "to_come r1 < to_come r \<or>
    to_come r1 = to_come r \<and>
      (r_tv_accepted r \<noteq> 0 \<and> r_tv_accepted r1 = 0 \<or>
       r_tv_accepted r1 = r_tv_accepted r \<and> length (w_oracle s1) < length (w_oracle s))"
proof -
  from assms obtain tv s2 where t: "simta_gettimeofday s = (Some tv, s2)"
    by (auto simp: smtp_step_def split: prod.splits option.splits)
  with assms obtain w r2 where w: "smtp_timers c (fst tv) r = Some (w, r2)"
    by (auto simp: smtp_step_def split: option.splits)
  note k = gettimeofday_oracle [OF t] smtp_timers_hears [OF w]
  show ?thesis
  proof (cases "r_tv_accepted r2 \<noteq> 0 \<and> r_tv_accepted r2 \<le> fst tv")
    case True
    with assms t w k show ?thesis by (auto simp: smtp_step_def split: if_splits dest!: deliver_accepted_kept)
  next
    case False
    with assms t w obtain cont2 where "smtp_wait c cap cont2 r2 s2 = Inr (Again cap1 cont1 r1 s1)"
      by (auto simp: smtp_step_def split: if_splits)
    from smtp_wait_progress [OF this] k show ?thesis by auto
  qed
qed

function smtp_loop :: "recv_conf \<Rightarrow> nat \<Rightarrow> bool \<Rightarrow> receive_data \<Rightarrow> 'a recv_state_scheme \<Rightarrow>
  (ending \<times> receive_data \<times> 'a recv_state_scheme) run" where
  "smtp_loop c cap cont r s =
     and_then (smtp_step c cap cont r s) (\<lambda>st. case st of
         Over e r1 s1 \<Rightarrow> Inr (e, r1, s1)
       | Again cap1 cont1 r1 s1 \<Rightarrow> smtp_loop c cap1 cont1 r1 s1)"
  by pat_completeness auto

termination smtp_loop
  by (relation "inv_image (less_than <*lex*> less_than <*lex*> less_than)
      (\<lambda>(c, cap, cont, r, s). (to_come r, if r_tv_accepted r \<noteq> 0 then 1 else 0 :: nat, length (w_oracle s)))")
    (auto dest!: smtp_step_progress)

declare smtp_loop.simps [simp del]

subsection \<open>What always holds of a session\<close>

lemma smtp_wait_hears:
  "smtp_wait c cap cont r s = Inr (Again cap1 cont1 r1 s1) \<Longrightarrow> follows r1 r"
  by (auto simp: smtp_wait_def split: prod.splits heard.splits if_splits
      dest!: smtp_line_hears client_line_follows intro: follows_trans)

lemma smtp_step_hears:
  assumes "smtp_step c cap cont r s = Inr (Again cap1 cont1 r1 s1)"
  shows "follows r1 r"
proof -
  from assms obtain tv s2 where t: "simta_gettimeofday s = (Some tv, s2)"
    by (auto simp: smtp_step_def split: prod.splits option.splits)
  with assms obtain w r2 where w: "smtp_timers c (fst tv) r = Some (w, r2)"
    by (auto simp: smtp_step_def split: option.splits)
  note k = smtp_timers_hears [OF w]
  show ?thesis
  proof (cases "r_tv_accepted r2 \<noteq> 0 \<and> r_tv_accepted r2 \<le> fst tv")
    case True
    with assms t w k show ?thesis by (auto simp: smtp_step_def split: if_splits dest!: deliver_accepted_kept)
  next
    case False
    with assms t w obtain cont2 where "smtp_wait c cap cont2 r2 s2 = Inr (Again cap1 cont1 r1 s1)"
      by (auto simp: smtp_step_def split: if_splits)
    from smtp_wait_hears [OF this] k show ?thesis by (blast intro: follows_trans)
  qed
qed

lemma session_follows: "session c cap cont r s cap' cont' r' s' \<Longrightarrow> follows r' r"
  by (induction rule: session.induct) (auto intro: follows_trans dest: smtp_step_hears)

lemma hears_then_open [hearing]:
  "hears r m \<Longrightarrow> (\<And>r1 s1. follows r1 r \<Longrightarrow> hears r (f r1 s1)) \<Longrightarrow> hears r (then_open m f)"
  by (fastforce simp: hears_def then_open_def split: if_splits)

lemma decline_hears [hearing]: "follows r1 r \<Longrightarrow> hears r (decline c msg arg r1 s)"
  by (auto simp: decline_def follows_def env_ok_def split: prod.split intro!: hearing dest!: banner_same)

lemma follows_opening [simp]:
  "follows (r1\<lparr>r_dns_match := v1\<rparr>) r = follows r1 r" "follows (r1\<lparr>r_remote_hostname := v2\<rparr>) r = follows r1 r"
  "follows (r1\<lparr>r_write_before_banner := v1\<rparr>) r = follows r1 r"
  by (simp_all add: follows_def to_come_def mode_ok_def env_ok_def)

lemma auth_init_hears [hearing]: "follows r1 r \<Longrightarrow> hears r (auth_init c tls_socket r1 s)"
  unfolding auth_init_def Let_def
  by (cases "all_ok 4 s") (auto intro!: hearing split: if_splits dest!: set_smtp_mode_follows [where r = r])

lemma check_client_hears [hearing]: "follows r1 r \<Longrightarrow> hears r (check_client c r1 s)"
  unfolding check_client_def Let_def by (auto intro!: hearing split: prod.split)

lemma check_lists_hears [hearing]: "follows r1 r \<Longrightarrow> hears r (check_lists c r1 s)"
  unfolding check_lists_def Let_def
  by (auto intro!: hearing split: prod.split dest!: set_smtp_mode_follows [where r = r])

lemma check_more_hears [hearing]:
  "follows r1 r \<Longrightarrow> hears r (check_limits c clients throttle r1 s)"
  "follows r1 r \<Longrightarrow> hears r (check_early r1 s')"
  by (auto simp: check_limits_def check_early_def Let_def intro!: hearing split: prod.split)

lemma hears_bind:
  "hears r m \<Longrightarrow> (\<And>x r1 s1. follows r1 r \<Longrightarrow> hears r (f (x, r1, s1))) \<Longrightarrow> hears r (and_then m f)"
  by (auto simp: hears_def; blast)

lemma greet_hears [hearing]: "follows r1 r \<Longrightarrow> hears r (greet c r1 s)"
  unfolding greet_def by (rule hears_bind) (auto split: option.split intro!: hearing)

lemma open_checked_hears [hearing]: "follows r1 r \<Longrightarrow> hears r (open_checked c tls_socket clients throttle r1 s)"
  unfolding open_checked_def Let_def by (rule hears_bind) (auto split: prod.split intro!: hearing)

lemma smtp_open_hears: "hears r (smtp_open c tls_socket clients throttle r s)"
  unfolding smtp_open_def Let_def
  by (rule hears_bind)
    (auto split: prod.split intro!: hearing dest!: banner_follows intro: follows_trans)

subsection \<open>A session from its start to its end\<close>

text \<open>The memory that is freed at the end is not looked at again; the last message is delivered.\<close>

definition smtp_end :: "recv_conf \<Rightarrow> bool \<Rightarrow> ending \<Rightarrow> receive_data \<Rightarrow> 'a recv_state_scheme \<Rightarrow> 'a recv_state_scheme handled" where
  "smtp_end c started e r s =
     (let close = (\<lambda>r1 s1.
            let (close_ok, s2) = outcome s1
            in and_then (reset c r1 s2) (\<lambda>(rc, r3, s3).
                 let s4 = (if started then snd (simta_gettimeofday s3) else s3)
                 in Inr (simta_fast_files s4, r3, s4)))
      in case e of
           Returned rc \<Rightarrow> Inr (rc, r, s)
         | Closing \<Rightarrow> close r s
         | Syserror \<Rightarrow> (case smtp_write_banner c 421 None None r s of (rc, r1, s1) \<Rightarrow> close r1 s1))"

text \<open>
  \<open>input\<close> is what the client sends; the numbers are those of the client's connections.  When the
  clock fails at the start the session timer counts from 0.
\<close>

definition smtp_receive :: "recv_conf \<Rightarrow> string \<Rightarrow> in_addr \<Rightarrow> bool \<Rightarrow> int \<Rightarrow> int \<Rightarrow> 'a recv_state_scheme \<Rightarrow> 'a recv_state_scheme handled" where
  "smtp_receive c input ip tls_socket clients throttle s =
     and_then (set_smtp_mode (simta_smtp_default_mode c) (zero_receive (snet_attach input (1024 * 1024)) ip)) (\<lambda>r.
       let (tv, s1) = simta_gettimeofday s; start = (case tv of None \<Rightarrow> 0 | Some t \<Rightarrow> fst t);
           r1 = (if 0 < simta_inbound_global_session_timer c
                 then r\<lparr>r_tv_session := simta_inbound_global_session_timer c + start\<rparr> else r);
           (attach_ok, s2) = outcome s1
       in if \<not> attach_ok then Inr (0, r1, s2)
          else
            and_then (smtp_open c tls_socket clients throttle r1 s2) (\<lambda>(e, r3, s3).
              and_then (case e of Some x \<Rightarrow> Inr (x, r3, s3) | None \<Rightarrow> smtp_loop c ACV_ARGC False r3 s3)
                (\<lambda>(x, r4, s4). smtp_end c (start \<noteq> 0) x r4 s4)))"

end
