(* ===== verification/ReceiveFacts.thy ===== *)
theory ReceiveFacts
  imports ReceiveLoop SmtpFacts ExpandWalk
begin

section \<open>The SMTP server: a message is taken as a whole or not at all (receive.c)\<close>

text \<open>
  What DATA does to the files, line by line and from the last line to the reply, whichever
  calls fail; and what always holds of a session.
\<close>

subsection \<open>Headers are only looked at\<close>

lemma make_more_seen_frame [frames]: "make_more_seen h s = (h', s') \<Longrightarrow> same_files s s'"
  by (auto simp: make_more_seen_def Let_def split: prod.splits if_splits dest!: frames intro: same_files_trans)

lemma append_seen_frame [frames]: "append_seen domain h w s = (ok, h', s') \<Longrightarrow> same_files s s'"
  by (auto simp: append_seen_def Let_def split: prod.splits if_splits option.splits dest!: frames)

lemma seen_text_frame [frames]: "seen_text domain h line s = (rc, m, h', s') \<Longrightarrow> same_files s s'"
proof (induction domain h line s rule: seen_text.induct)
  case (1 domain h line s)
  show ?case
  proof (cases "skip_cws line")
    case None
    with 1(2) show ?thesis by (simp add: seen_text.simps [of domain h line s])
  next
    case (Some start)
    let ?t = "if starts (CHR 0x22) start then token_quoted_string start else token_unquoted_atom start"
    show ?thesis
    proof (cases ?t)
      case None
      with Some 1(2) show ?thesis by (simp add: seen_text.simps [of domain h line s])
    next
      case e: (Some e)
      obtain ok h1 s1 where a: "append_seen domain h (take (Suc e) start) s = (ok, h1, s1)"
        by (metis prod.exhaust)
      from Some e a 1(2) have "if ok then seen_text domain h1 (drop (Suc e) start) s1 = (rc, m, h', s') else s' = s1"
        by (simp add: seen_text.simps [of domain h line s] split: if_splits)
      with 1(1) [OF Some e a [symmetric] refl] append_seen_frame [OF a] show ?thesis
        by (auto split: if_splits intro: same_files_trans)
    qed
  qed
qed

lemma mid_text_frame [frames]: "mid_text h line s = (rc, m, h', s') \<Longrightarrow> same_files s s'"
  by (auto simp: mid_text_def Let_def split: option.splits if_splits sum.splits prod.splits dest!: frames)

lemma header_field_frame [frames]: "header_field domain h name v s = (rc, m, h', s') \<Longrightarrow> same_files s s'"
  by (auto simp: header_field_def split: if_splits prod.splits dest!: frames intro: same_files_trans)

lemma header_text_frame [frames]: "header_text domain no line h s = (rc, m, h', s') \<Longrightarrow> same_files s s'"
  by (auto simp: header_text_def Let_def split: option.splits if_splits prod.splits dest!: frames)

text \<open>Only a field of that name can make a message one that has been seen.\<close>

definition marks :: "string \<Rightarrow> bool" where
  "marks l \<longleftrightarrow> (case field_name l of None \<Rightarrow> False | Some n \<Rightarrow> strcasecmp n STRING_SEEN_BEFORE = 0)"

definition unmarked :: "receive_headers \<Rightarrow> bool" where
  "unmarked h \<longleftrightarrow> r_seen_before h = None \<and> r_state h \<noteq> R_HEADER_SEEN"

lemma mid_text_unmarked: "mid_text h line s = (rc, m, h', s') \<Longrightarrow> unmarked h \<Longrightarrow> unmarked h'"
  by (auto simp: mid_text_def unmarked_def header_states Let_def split: option.splits if_splits sum.splits prod.splits)

lemma header_text_unmarked:
  "header_text domain no line (Some h) s = (rc, m, h', s') \<Longrightarrow> unmarked h \<Longrightarrow> \<not> marks line \<Longrightarrow>
   \<exists>h1. h' = Some h1 \<and> unmarked h1"
  by (auto simp: header_text_def header_field_def marks_def Let_def split: option.splits if_splits prod.splits
      dest!: mid_text_unmarked) (auto simp: unmarked_def header_states)

lemma header_text_result:
  "header_text domain no line (Some h) s = (rc, m, h', s') \<Longrightarrow>
   same_files s s' \<and> (unmarked h \<longrightarrow> \<not> marks line \<longrightarrow> unmarked (the h'))"
  by (auto dest: frames header_text_unmarked)

subsection \<open>A line of the message\<close>

text \<open>Nothing but the data file of the message changes.\<close>

definition only_dfile :: "envelope \<Rightarrow> 'a sys_scheme \<Rightarrow> 'b sys_scheme \<Rightarrow> bool" where
  "only_dfile env s s' \<longleftrightarrow> (\<forall>p. p \<noteq> dfile env \<longrightarrow> w_names s' p = w_names s p) \<and> w_next s' = w_next s"

definition unseen :: "data_run \<Rightarrow> bool" where
  "unseen d \<longleftrightarrow> unmarked (dr_rh d) \<and> dr_banner d \<in> {MESSAGE_TEMPFAIL, MESSAGE_REJECT}"

lemma data_header_result:
  "data_header c line d s = (d', s') \<Longrightarrow>
   same_files s s' \<and> dr_dff d' = dr_dff d \<and> dr_ino d' = dr_ino d \<and> (unseen d \<longrightarrow> \<not> marks line \<longrightarrow> unseen d')"
  by (auto simp: data_header_def unseen_def Let_def split: if_splits prod.splits option.splits
      dest!: header_text_result)

lemma data_limits_result:
  "dr_dff (data_limits c n d) = dr_dff d \<and> dr_ino (data_limits c n d) = dr_ino d \<and> (unseen d \<longrightarrow> unseen (data_limits c n d))"
  by (auto simp: data_limits_def data_reject_def unseen_def Let_def)

lemma data_seen_result:
  "data_seen d s = (d', s') \<Longrightarrow>
   same_files s s' \<and> dr_dff d' = dr_dff d \<and> dr_ino d' = dr_ino d \<and> (unseen d \<longrightarrow> unseen d')"
  by (auto simp: data_seen_def seen_before_def unseen_def unmarked_def Let_def
      split: if_splits prod.splits option.splits dest: frames)

lemma data_write_result:
  "data_write line n d s = (d', s') \<Longrightarrow>
   w_names s' = w_names s \<and> w_next s' = w_next s \<and> dr_dff d' = dr_dff d \<and> dr_ino d' = dr_ino d \<and>
   (unseen d \<longrightarrow> unseen d') \<and>
   (dr_dff d \<longrightarrow> dr_read_err d' = NO_ERROR \<longrightarrow> w_data s' = (w_data s)(dr_ino d := w_data s (dr_ino d) @ line @ [NL]))"
  by (auto simp: data_write_def unseen_def same_files_def Let_def
      split: if_splits prod.splits dest!: append_data_result)

lemma env_dfile_unlink_result:
  "env_dfile_unlink env s = (rc, env', s') \<Longrightarrow>
   only_dfile env s s' \<and> w_data s' = w_data s \<and> env' \<in> {env, env\<lparr>e_flags := clear_flag (e_flags env) ENV_FLAG_DFILE\<rparr>}"
  by (auto simp: env_dfile_unlink_def only_dfile_def same_files_def Let_def
      split: if_splits prod.splits dest!: unlink_result)

lemma data_drop_result:
  "data_drop env d s = (env', d', s') \<Longrightarrow>
   only_dfile env s s' \<and> w_data s' = w_data s \<and> (unseen d \<longrightarrow> unseen d') \<and> dr_ino d' = dr_ino d \<and>
   env' \<in> {env, env\<lparr>e_flags := clear_flag (e_flags env) ENV_FLAG_DFILE\<rparr>} \<and>
   (dr_dff d' \<longrightarrow> dr_dff d \<and> dr_read_err d = NO_ERROR \<and> env' = env \<and> w_names s' = w_names s)"
  unfolding data_drop_def Let_def
  by (cases "outcome s"; cases "env_dfile_unlink env (snd (outcome s))")
    (auto simp: only_dfile_def unseen_def same_files_def split: if_splits
      dest!: env_dfile_unlink_result outcome_frame)

lemma data_line_result:
  assumes "data_line c l env d r s = (env', d', r', s')"
  shows "only_dfile env s s' \<and> dr_ino d' = dr_ino d \<and> (unseen d \<longrightarrow> \<not> marks (undot l) \<longrightarrow> unseen d') \<and>
    env' \<in> {env, env\<lparr>e_flags := clear_flag (e_flags env) ENV_FLAG_DFILE\<rparr>} \<and>
    (dr_dff d' \<longrightarrow> dr_dff d \<and> env' = env \<and> w_names s' = w_names s \<and>
       w_data s' = (w_data s)(dr_ino d := w_data s (dr_ino d) @ undot l @ [NL]))"
proof -
  let ?line = "if starts (CHR ''.'') l then tl l else l"
  have u: "?line = undot l" by (simp add: undot_def starts_def)
  obtain d1 s1 where 1: "data_header c (undot l) d s = (d1, s1)" by (cases "data_header c (undot l) d s")
  obtain d2 s2 where 2: "data_seen (data_limits c (length l) d1) s1 = (d2, s2)"
    by (cases "data_seen (data_limits c (length l) d1) s1")
  obtain d3 s3 where 3: "data_write (undot l) (length l) d2 s2 = (d3, s3)"
    by (cases "data_write (undot l) (length l) d2 s2")
  obtain env4 d4 s4 where 4: "data_drop env d3 s3 = (env4, d4, s4)" by (metis prod.exhaust)
  from assms 1 2 3 4 have "env' = env4" "d' = d4" "s' = s4" by (simp_all add: data_line_def Let_def u)
  with data_header_result [OF 1] data_limits_result [of c "length l" d1] data_seen_result [OF 2]
    data_write_result [OF 3] data_drop_result [OF 4]
  show ?thesis by (auto simp: only_dfile_def same_files_def)
qed

subsection \<open>What is said\<close>

definition said :: "string list \<Rightarrow> receive_data \<Rightarrow> receive_data \<Rightarrow> bool" where
  "said ls r r' \<longleftrightarrow> conn_out (r_snet r') = conn_out (r_snet r) @ concat ls"

text \<open>No line of it is a reply of success.\<close>

definition no_success :: "string list \<Rightarrow> bool" where
  "no_success ls \<longleftrightarrow> list_all (\<lambda>l. hd l \<noteq> CHR ''2'') ls"

definition denied :: "receive_data \<Rightarrow> receive_data \<Rightarrow> bool" where
  "denied r r' \<longleftrightarrow> (\<exists>ls. said ls r r' \<and> no_success ls)"

lemma denied_refl [simp]: "denied r r"
  unfolding denied_def said_def no_success_def by (rule exI [where x = "[]"]) simp

lemma denied_trans: "denied r r1 \<Longrightarrow> denied r1 r2 \<Longrightarrow> denied r r2"
proof -
  assume "denied r r1" "denied r1 r2"
  then obtain ls ms where "said ls r r1" "no_success ls" "said ms r1 r2" "no_success ms" by (auto simp: denied_def)
  then have "said (ls @ ms) r r2" "no_success (ls @ ms)" by (simp_all add: said_def no_success_def)
  then show ?thesis by (auto simp: denied_def)
qed

lemma denied_same: "r_snet r' = r_snet r \<Longrightarrow> denied r r'"
  unfolding denied_def said_def no_success_def by (rule exI [where x = "[]"]) simp

lemma denied_upd [simp]:
  "denied (r\<lparr>r_env := v\<rparr>) r' = denied r r'" "denied r (r'\<lparr>r_env := v\<rparr>) = denied r r'"
  "denied (r\<lparr>r_tv_inactivity := n\<rparr>) r' = denied r r'" "denied (r\<lparr>r_data_attempt := n\<rparr>) r' = denied r r'"
  by (simp_all add: denied_def said_def)

lemma snet_reply_said: "snet_reply t r s = (ok, r', s') \<Longrightarrow> said (if ok then [t] else []) r r' \<and> same_files s s'"
  by (auto simp: snet_reply_def said_def Let_def split: prod.splits if_splits dest: frames)

lemma banner_said:
  assumes "smtp_write_banner c n msg arg r s = (rc, r', s')" "hd (show_int (bk_code (banner_kind_of n))) \<noteq> CHR ''2''"
    "show_int (bk_code (banner_kind_of n)) \<noteq> []"
  shows "denied r r' \<and> same_files s s'"
proof -
  obtain ok r1 s1 where r: "snet_reply (banner_line (rc_conf c) n msg arg) r s = (ok, r1, s1)" by (metis prod.exhaust)
  with assms have "r' = r1 \<and> s' = s1" by (auto simp: smtp_write_banner_def)
  moreover have "hd (banner_line (rc_conf c) n msg arg) \<noteq> CHR ''2''"
    using assms(2,3) by (simp add: banner_line_def Let_def)
  ultimately show ?thesis using snet_reply_said [OF r]
    by (auto simp: denied_def no_success_def intro!: exI [where x = "if ok then [banner_line (rc_conf c) n msg arg] else []"])
qed

text \<open>The codes that DATA uses to refuse.\<close>

definition refuses :: "int \<Rightarrow> bool" where
  "refuses n \<longleftrightarrow> n \<in> {354, 421, 451, 501, 503, 530, 554}"

lemma refuses_code: "refuses n \<Longrightarrow> show_int (bk_code (banner_kind_of n)) \<noteq> [] \<and> hd (show_int (bk_code (banner_kind_of n))) \<noteq> CHR ''2''"
proof -
  have "list_all (\<lambda>n. show_int (bk_code (banner_kind_of n)) \<noteq> [] \<and> hd (show_int (bk_code (banner_kind_of n))) \<noteq> CHR ''2'')
      [354, 421, 451, 501, 503, 530, 554]" by code_simp
  then show "refuses n \<Longrightarrow> ?thesis" by (auto simp: refuses_def)
qed

lemma banner_denied:
  "smtp_write_banner c n msg arg r s = (rc, r', s') \<Longrightarrow> refuses n \<Longrightarrow> denied r r' \<and> same_files s s'"
  using banner_said refuses_code by blast

lemma say_denied:
  "say c n msg arg r s = Inr (rc, r', s') \<Longrightarrow> refuses n \<Longrightarrow> denied r r' \<and> same_files s s'"
  by (simp add: say_def banner_denied)

subsection \<open>All the lines\<close>

text \<open>
  The state while the lines are read: the message has no command file, and an open data file has
  just the text that was meant for it.
\<close>

definition writing :: "envelope \<Rightarrow> string \<Rightarrow> envelope \<Rightarrow> data_run \<Rightarrow> 'a sys_scheme \<Rightarrow> bool" where
  "writing env0 body env d s \<longleftrightarrow>
     w_names s (efile env0) = None \<and> env\<lparr>e_flags := 0, e_dinode := 0\<rparr> = env0\<lparr>e_flags := 0, e_dinode := 0\<rparr> \<and>
     \<not> has_flag (e_flags env) ENV_FLAG_EFILE \<and> \<not> has_flag (e_flags env) ENV_FLAG_TFILE \<and>
     (dr_dff d \<longrightarrow> has_flag (e_flags env) ENV_FLAG_DFILE \<and> dr_ino d < w_next s \<and>
        w_names s (dfile env0) = Some (dr_ino d) \<and> w_data s (dr_ino d) = body)"

lemma same_paths:
  assumes "env\<lparr>e_flags := 0, e_dinode := 0\<rparr> = env0\<lparr>e_flags := 0, e_dinode := 0\<rparr>"
  shows "efile env = efile env0" "dfile env = dfile env0" "tfile env = tfile env0" "e_id env = e_id env0"
proof -
  have "e_dir env = e_dir (env\<lparr>e_flags := 0, e_dinode := 0\<rparr>)" "e_id env = e_id (env\<lparr>e_flags := 0, e_dinode := 0\<rparr>)" by simp_all
  then show "efile env = efile env0" "dfile env = dfile env0" "tfile env = tfile env0" "e_id env = e_id env0"
    unfolding assms by (simp_all add: env_paths)
qed

lemma dfile_not_efile [simp]: "dfile e \<noteq> efile e'" "tfile e \<noteq> efile e'" "dfile e \<noteq> tfile e'"
  by (simp_all add: env_paths)

lemma clear_flag_other:
  "has_flag (clear_flag f ENV_FLAG_DFILE) ENV_FLAG_EFILE = has_flag f ENV_FLAG_EFILE"
  "has_flag (clear_flag f ENV_FLAG_DFILE) ENV_FLAG_TFILE = has_flag f ENV_FLAG_TFILE"
  by (simp_all add: env_flags bit_flag)

lemma only_dfile_efile: "only_dfile env s s' \<Longrightarrow> w_names s' (efile env0) = w_names s (efile env0)"
  by (simp add: only_dfile_def env_paths)

lemma writing_line:
  assumes "data_line c l env d r s = (env', d', r', s')" "writing env0 body env d s"
  shows "writing env0 (body @ undot l @ [NL]) env' d' s'"
proof -
  note l = data_line_result [OF assms(1)]
  have p: "w_names s' (efile env0) = w_names s (efile env0)" using only_dfile_efile l by blast
  from l assms(2) have flags: "env'\<lparr>e_flags := 0, e_dinode := 0\<rparr> = env0\<lparr>e_flags := 0, e_dinode := 0\<rparr>"
    "\<not> has_flag (e_flags env') ENV_FLAG_EFILE" "\<not> has_flag (e_flags env') ENV_FLAG_TFILE"
    by (auto simp: writing_def clear_flag_other)
  show ?thesis
  proof (cases "dr_dff d'")
    case True
    with l assms(2) show ?thesis by (auto simp: writing_def only_dfile_def)
  next
    case False
    with assms(2) flags p show ?thesis by (simp add: writing_def)
  qed
qed

lemma writing_frame: "writing env0 body env d s \<Longrightarrow> same_files s s' \<Longrightarrow> writing env0 body env d s'"
  by (simp add: writing_def same_files_def)

lemma client_line_result:
  "client_line r s = (h, r1, s1) \<Longrightarrow> same_files s s1 \<and> denied r r1 \<and> conn_out (r_snet r1) = conn_out (r_snet r) \<and>
   (\<forall>l. h = Line l \<longrightarrow> snet_lines (conn_in (r_snet r)) = l # snet_lines (conn_in (r_snet r1)))"
  by (auto simp: client_line_def Let_def denied_def said_def no_success_def snet_lines.simps [of "conn_in (r_snet r)"]
      split: prod.splits option.splits if_splits dest: frames intro!: exI [where x = "[]"])

lemma data_clock_result:
  "data_clock d s = (d', s') \<Longrightarrow> same_files s s' \<and> (unseen d \<longrightarrow> unseen d') \<and> dr_dff d' = dr_dff d \<and> dr_ino d' = dr_ino d"
  by (auto simp: data_clock_def unseen_def split: prod.splits option.splits dest: frames)

lemma data_timeout_result:
  "data_timeout c d r s = Inr (e, d', r', s') \<Longrightarrow> e \<noteq> None \<and> d' = d \<and> same_files s s' \<and> denied r r'"
  by (auto simp: data_timeout_def refuses_def split: prod.splits dest!: banner_denied)

lemma data_count_simps [simp]:
  "unseen (data_count l d) = unseen d" "dr_dff (data_count l d) = dr_dff d" "dr_ino (data_count l d) = dr_ino d"
  by (simp_all add: data_count_def unseen_def)

text \<open>How far the lines were read, and what is then in the file.\<close>

lemma data_loop_result:
  assumes "data_loop c sess env d r s = (env', Inr (e, d', r', s'))" "writing env0 body env d s"
  shows "denied r r' \<and> (\<exists>text. writing env0 text env' d' s') \<and>
    (e = None \<longrightarrow> (\<exists>ls. received (snet_lines (conn_in (r_snet r))) = Some ls \<and>
       writing env0 (body @ with_ends [NL] ls) env' d' s' \<and> (unseen d \<longrightarrow> unseen d' \<or> list_ex marks ls)))"
  using assms
proof (induction "to_come r" arbitrary: env d r s body rule: less_induct)
  case less
  note loop = less.prems(1) [unfolded data_loop.simps [of c sess env d r s]]
  note w = less.prems(2)
  show ?case
  proof (cases "case sess of None \<Rightarrow> False | Some t \<Rightarrow> t \<le> dr_now d")
    case True
    with loop w show ?thesis by (auto dest!: data_timeout_result intro: writing_frame)
  next
    case False
    obtain h r1 s1 where h: "client_line r s = (h, r1, s1)" by (cases "client_line r s")
    obtain d1 s2 where c: "data_clock d s1 = (d1, s2)" by (cases "data_clock d s1")
    note hr = client_line_result [OF h] and cr = data_clock_result [OF c]
    have w1: "writing env0 body env d s1" using w hr by (blast intro: writing_frame)
    have w2: "writing env0 body env (data_count l d1) s2" for l
      using writing_frame [OF w1, of s2] cr by (simp add: writing_def)
    show ?thesis
    proof (cases h)
      case (Line l)
      show ?thesis
      proof (cases "l = ''.''")
        case True
        with loop False h c Line have "e = None" "d' = data_count l d1" "r' = r1" "env' = env" "s' = s2" by simp_all
        moreover have "received (snet_lines (conn_in (r_snet r))) = Some []" using hr Line True by simp
        ultimately show ?thesis using w2 [of l] hr cr
          by (intro conjI impI exI [where x = "[]"] exI [where x = body]) (simp_all add: with_ends_def)
      next
        case nd: False
        obtain env1 d2 r2 s3 where l: "data_line c l env (data_count l d1) r1 s2 = (env1, d2, r2, s3)"
          by (cases "data_line c l env (data_count l d1) r1 s2")
        from loop False h c Line nd l have nx: "data_loop c sess env1 d2 r2 s3 = (env', Inr (e, d', r', s'))" by simp
        from h Line have "to_come r1 < to_come r" unfolding to_come_def by (blast dest: client_line_shorter)
        with data_line_hears [OF l] have less2: "to_come r2 < to_come r" by simp
        note ih = less.hyps [OF less2 nx writing_line [OF l w2]]
        have sn: "r_snet r2 = r_snet r1" by (rule data_line_snet [OF l])
        have den: "denied r r'" using hr denied_same [OF sn] ih by (blast intro: denied_trans)
        have rec: "received (snet_lines (conn_in (r_snet r))) =
            map_option ((#) (undot l)) (received (snet_lines (conn_in (r_snet r2))))"
          using hr Line nd sn by simp
        have un: "unseen d \<Longrightarrow> unseen d2 \<or> marks (undot l)" using cr data_line_result [OF l] by auto
        show ?thesis
        proof (cases e)
          case None
          with ih obtain ls where "received (snet_lines (conn_in (r_snet r2))) = Some ls"
            "writing env0 ((body @ undot l @ [NL]) @ with_ends [NL] ls) env' d' s'" "unseen d2 \<longrightarrow> unseen d' \<or> list_ex marks ls"
            by auto
          with rec un den ih show ?thesis
            by (intro conjI impI exI [where x = "undot l # ls"]) (auto simp: with_ends_Cons)
        qed (use den ih in auto)
      qed
    next
      case Late
      with loop False h w1 hr show ?thesis by (auto dest!: data_timeout_result intro: writing_frame denied_trans)
    next
      case Gone
      with loop False h w1 hr show ?thesis by auto
    qed
  qed
qed

subsection \<open>From the last line to the reply\<close>

text \<open>Both files of the message are there, with all that belongs in them.\<close>

definition on_disk :: "envelope \<Rightarrow> string \<Rightarrow> 'a sys_scheme \<Rightarrow> bool" where
  "on_disk env body s \<longleftrightarrow>
     (\<exists>i j. w_names s (efile env) = Some i \<and> w_data s i = efile_text (env\<lparr>e_dinode := j\<rparr>) \<and>
        w_names s (dfile env) = Some j \<and> w_data s j = body)"

definition ready :: "envelope \<Rightarrow> string \<Rightarrow> envelope \<Rightarrow> 'a sys_scheme \<Rightarrow> bool" where
  "ready env0 body env s \<longleftrightarrow>
     w_names s (efile env0) = None \<and> env\<lparr>e_flags := 0, e_dinode := 0\<rparr> = env0\<lparr>e_flags := 0, e_dinode := 0\<rparr> \<and>
     \<not> has_flag (e_flags env) ENV_FLAG_EFILE \<and> \<not> has_flag (e_flags env) ENV_FLAG_TFILE \<and>
     (has_flag (e_flags env) ENV_FLAG_DFILE \<longrightarrow>
        e_dinode env < w_next s \<and> w_names s (dfile env0) = Some (e_dinode env) \<and> w_data s (e_dinode env) = body)"

text \<open>The mark of the command file tells whether the message is there.\<close>

definition mark_tells :: "envelope \<Rightarrow> string \<Rightarrow> receive_data \<Rightarrow> 'a sys_scheme \<Rightarrow> bool" where
  "mark_tells env0 body r s \<longleftrightarrow>
     (\<exists>env. r_env r = Some env \<and>
        (if has_flag (e_flags env) ENV_FLAG_EFILE then on_disk env0 body s else w_names s (efile env0) = None))"

lemma on_disk_frame: "on_disk env body s \<Longrightarrow> same_files s s' \<Longrightarrow> on_disk env body s'"
  by (simp add: on_disk_def same_files_def)

lemma mark_tells_frame: "mark_tells env0 body r s \<Longrightarrow> same_files s s' \<Longrightarrow> mark_tells env0 body r s'"
  by (auto simp: mark_tells_def same_files_def on_disk_def split: if_splits)

lemma ready_frame: "ready env0 body env s \<Longrightarrow> same_files s s' \<Longrightarrow> ready env0 body env s'"
  by (simp add: ready_def same_files_def)

lemma data_close_result:
  assumes "data_close env d s = (e, env', d', s')" "writing env0 body env d s"
  shows "same_files s s' \<and> \<not> has_flag (e_flags env') ENV_FLAG_EFILE \<and>
    (e = None \<longrightarrow> ready env0 body env' s' \<and>
       (if has_flag (e_flags env') ENV_FLAG_DFILE then dr_banner d' = MESSAGE_ACCEPT else d' = d))"
  using assms
  by (auto simp: data_close_def writing_def ready_def same_files_def Let_def
      split: if_splits prod.splits dest!: outcome_frame)

lemma env_efile_mark:
  assumes "env_efile c e s = Inr (rc, e', s')" "w_names s (tfile e) = Some i" "w_names s (efile e) = None"
    "\<not> has_flag (e_flags e) ENV_FLAG_EFILE"
  shows "has_flag (e_flags e') ENV_FLAG_EFILE \<longleftrightarrow> w_names s' (efile e) \<noteq> None"
proof -
  obtain ok s1 where rn: "rename (tfile e) (efile e) s = (ok, s1)" by fastforce
  note r = rename_result [OF rn]
  show ?thesis
  proof (cases ok)
    case False
    obtain u s2 where u: "unlink (tfile e) s1 = (u, s2)" by fastforce
    with assms(1) rn False have "e' = e" "s' = s2" by (auto simp: env_efile_def)
    with unlink_result [OF u] r False assms(3,4) show ?thesis by (auto simp: same_files_def)
  next
    case True
    define s2 where "s2 = (if e_dir e = DIR_FAST then s1\<lparr>simta_fast_files := simta_fast_files s1 + 1\<rparr> else s1)"
    obtain tv s3 where g: "simta_gettimeofday s2 = (tv, s3)" by fastforce
    have "same_files s2 s'" using assms(1) rn True g simta_gettimeofday_frame [OF g]
      by (auto simp: env_efile_def Let_def s2_def [symmetric] split: option.splits
          dest!: env_lists_add_frame elim: same_files_trans)
    then have "w_names s' (efile e) \<noteq> None" using r True assms(2) by (auto simp: same_files_def s2_def split: if_splits)
    moreover have "has_flag (e_flags e') ENV_FLAG_EFILE" using assms(1) rn True g
      by (auto simp: env_efile_def Let_def s2_def [symmetric] env_flags bit_flag split: option.splits
          dest!: env_lists_add_flags)
    ultimately show ?thesis by simp
  qed
qed

lemma env_outfile_mark:
  assumes "env_outfile c e s = Inr (rc, e', s')" "\<not> has_flag (e_flags e) ENV_FLAG_TFILE"
    "\<not> has_flag (e_flags e) ENV_FLAG_EFILE" "w_names s (efile e) = None"
  shows "has_flag (e_flags e') ENV_FLAG_EFILE \<longleftrightarrow> w_names s' (efile e) \<noteq> None"
proof -
  obtain rc1 e1 s1 where t: "env_tfile e s = Inr (rc1, e1, s1)"
    using assms(1,2) by (auto simp: env_outfile_def)
  note r = env_tfile_result [OF t]
  have n1: "w_names s1 (efile e) = None" using r assms(4) by (simp add: only_tfile_def env_paths)
  show ?thesis
  proof (cases "rc1 = 0")
    case False
    with assms t r n1 show ?thesis by (auto simp: env_outfile_def)
  next
    case True
    then have e1: "e1 = e\<lparr>e_flags := set_flag (e_flags e) ENV_FLAG_TFILE\<rparr>" using r by simp
    then have p: "efile e1 = efile e" "tfile e1 = tfile e" by (simp_all add: env_paths)
    have "\<not> has_flag (e_flags e1) ENV_FLAG_EFILE" using assms(3) e1 by (simp add: env_flags bit_flag)
    moreover obtain rc2 where f: "env_efile c e1 s1 = Inr (rc2, e', s')"
      using assms(1,2) t True by (auto simp: env_outfile_def)
    moreover have "w_names s1 (tfile e1) = Some (w_next s)" using r True p by auto
    ultimately show ?thesis using env_efile_mark [OF f] n1 p by simp
  qed
qed

lemma efile_text_flags: "efile_text (e\<lparr>e_flags := f\<rparr>) = efile_text e"
  by (cases "e_hostname e") (simp_all add: efile_text_def tfile_head_def tfile_body_def tfile_rcpts_def)

text \<open>The end of a message without a filter: it is written, or it stays without a command file.\<close>

lemma data_out_result:
  assumes "data_out c env d r s = Inr (e, env', r', s')" "ready env0 body env s"
  shows "mark_tells env0 body (with_env r' env') s' \<and> r_snet r' = r_snet r \<and>
    (e = None \<longrightarrow> has_flag (e_flags env) ENV_FLAG_DFILE \<longrightarrow> has_flag (e_flags env') ENV_FLAG_EFILE) \<and>
    (\<not> has_flag (e_flags env) ENV_FLAG_DFILE \<longrightarrow> env' = env)"
proof (cases "has_flag (e_flags env) ENV_FLAG_DFILE")
  case False
  with assms show ?thesis by (auto simp: data_out_def mark_tells_def ready_def with_env_def)
next
  case True
  let ?j = "e_dinode env"
  from assms(2) have same: "env\<lparr>e_flags := 0, e_dinode := 0\<rparr> = env0\<lparr>e_flags := 0, e_dinode := 0\<rparr>" by (simp add: ready_def)
  note p = same_paths [OF same]
  from assms(1) True obtain rc where o: "env_outfile (rc_conf c) env s = Inr (rc, env', s')"
    and e: "e = None \<longleftrightarrow> rc = 0" and sn: "r_snet r' = r_snet r"
    by (auto simp: data_out_def accepted_timer_def Let_def split: if_splits)
  from assms(2) have a: "\<not> has_flag (e_flags env) ENV_FLAG_TFILE" "\<not> has_flag (e_flags env) ENV_FLAG_EFILE"
    "w_names s (efile env) = None" by (simp_all add: ready_def p)
  note m = env_outfile_mark [OF o a]
  from a(3) have "\<forall>i. w_names s (efile env) = Some i \<longrightarrow> i < w_next s" by simp
  note res = env_outfile_result [OF o a(1) this]
  have tx: "efile_text env = efile_text (env0\<lparr>e_dinode := ?j\<rparr>)"
  proof -
    have "env\<lparr>e_flags := 0\<rparr> = (env\<lparr>e_flags := 0, e_dinode := 0\<rparr>)\<lparr>e_dinode := ?j\<rparr>" by simp
    also have "\<dots> = env0\<lparr>e_dinode := ?j, e_flags := 0\<rparr>" unfolding same by simp
    finally show ?thesis using efile_text_flags [of 0 env] efile_text_flags [of 0 "env0\<lparr>e_dinode := ?j\<rparr>"] by simp
  qed
  have keep: "w_names s' (dfile env0) = Some ?j" "w_data s' ?j = body"
  proof -
    have "w_names s' (dfile env) = w_names s (dfile env)" using conjunct1 [OF res] by (auto simp: env_paths)
    then show "w_names s' (dfile env0) = Some ?j" using assms(2) True by (simp add: ready_def p)
    show "w_data s' ?j = body" using conjunct1 [OF conjunct2 [OF res]] assms(2) True by (simp add: ready_def)
  qed
  show ?thesis
  proof (cases "has_flag (e_flags env') ENV_FLAG_EFILE")
    case True
    with m res a(3) obtain i where "w_names s' (efile env) = Some i" "w_data s' i = efile_text env" by auto
    with keep tx have "on_disk env0 body s'" unfolding on_disk_def p
      by (intro exI [where x = i] exI [where x = ?j]) simp
    with True sn \<open>has_flag (e_flags env) ENV_FLAG_DFILE\<close> show ?thesis by (simp add: mark_tells_def with_env_def)
  next
    case False
    with m have n: "w_names s' (efile env0) = None" by (simp add: p)
    with res have "rc \<noteq> 0" by (auto simp: p)
    with n False sn e \<open>has_flag (e_flags env) ENV_FLAG_DFILE\<close> show ?thesis by (simp add: mark_tells_def with_env_def)
  qed
qed

lemma accept_not_refused: "MESSAGE_ACCEPT \<noteq> MESSAGE_TEMPFAIL" "MESSAGE_ACCEPT \<noteq> MESSAGE_REJECT" "MESSAGE_ACCEPT = 0"
  by (simp_all add: message_flags flag_bit_def)

lemma data_reply_result:
  assumes "data_reply c env d r s = Inr (e, d', r', s')"
  shows "same_files s s' \<and> r_env r' = r_env r \<and> (dr_banner d \<in> {MESSAGE_TEMPFAIL, MESSAGE_REJECT} \<longrightarrow> denied r r')"
proof -
  have "r_env r' = r_env r"
    using assms by (auto simp: data_reply_def Let_def split: if_splits prod.splits dest!: banner_same snet_reply_same)
  moreover have "same_files s s' \<and> (dr_banner d \<in> {MESSAGE_TEMPFAIL, MESSAGE_REJECT} \<longrightarrow> denied r r')"
    using assms by (auto simp: data_reply_def refuses_def Let_def split: if_splits prod.splits dest!: banner_denied snet_reply_said)
  ultimately show ?thesis by blast
qed

definition taken :: "receive_data \<Rightarrow> bool" where
  "taken r \<longleftrightarrow> (\<exists>env. r_env r = Some env \<and> has_flag (e_flags env) ENV_FLAG_EFILE)"

text \<open>A message that is accepted is not bounced, not deleted, and changes no mode.\<close>

lemma accepted_no_bounce: "data_bounce c MESSAGE_ACCEPT env d r s = Inr (None, env, r, s)"
  by (simp add: data_bounce_def accept_not_refused(3))

lemma accepted_kept:
  "has_flag (e_flags env) ENV_FLAG_DFILE \<longrightarrow> dr_banner d = MESSAGE_ACCEPT \<Longrightarrow>
   data_jail_or_delete c MESSAGE_ACCEPT env d s = Inr (None, env, s)"
  using accept_not_refused by (auto simp: data_jail_or_delete_def data_delete_def)

lemma accepted_mode: "data_mode MESSAGE_ACCEPT r = Inr r"
  by (simp add: data_mode_def accept_not_refused(3))

lemma data_settle_result:
  assumes "data_settle c MESSAGE_ACCEPT env d r s = Inr (e, d', r', s')" "ready env0 body env s"
    "has_flag (e_flags env) ENV_FLAG_DFILE \<longrightarrow> dr_banner d = MESSAGE_ACCEPT"
  shows "mark_tells env0 body r' s' \<and>
    (taken r' \<or> denied r r' \<or> \<not> has_flag (e_flags env) ENV_FLAG_DFILE \<and> \<not> unseen d)"
proof -
  note j = accepted_kept [OF assms(3)] and m = accepted_mode
  note st = assms(1) [unfolded data_settle_def accepted_no_bounce and_then.simps prod.case j]
  then obtain e3 env3 r3 s3 where o: "data_out c env d r s = Inr (e3, env3, r3, s3)"
    by (cases "data_out c env d r s") auto
  note out = data_out_result [OF o assms(2)]
  have den: "denied r (with_env r3 env3)" using out by (intro denied_same) (simp add: with_env_def)
  show ?thesis
  proof (cases e3)
    case (Some rc)
    with st o have "r' = with_env r3 env3" "s' = s3" by simp_all
    with out den show ?thesis by simp
  next
    case None
    with st o m have rp: "data_reply c env3 d (with_env r3 env3) s3 = Inr (e, d', r', s')" by simp
    note rr = data_reply_result [OF rp]
    have "mark_tells env0 body r' s3" using out rr by (simp add: mark_tells_def)
    then have m: "mark_tells env0 body r' s'" using rr by (blast intro: mark_tells_frame)
    show ?thesis
    proof (cases "has_flag (e_flags env) ENV_FLAG_DFILE")
      case True
      with out None rr have "taken r'" by (simp add: taken_def with_env_def)
      with m show ?thesis by simp
    next
      case False
      have "unseen d \<Longrightarrow> denied (with_env r3 env3) r'" using rr by (simp add: unseen_def)
      with m den False show ?thesis by (blast intro: denied_trans)
    qed
  qed
qed

lemma data_finish_result:
  assumes "data_finish c env d r s = Inr (e, d', r', s')" "writing env0 body env d s" "simta_mail_filter c = None"
  shows "mark_tells env0 body r' s' \<and> (taken r' \<or> \<not> unseen d \<or> denied r r')"
proof -
  obtain e1 env1 d1 s1 where 1: "data_close env d s = (e1, env1, d1, s1)" by (metis prod.exhaust)
  note cl = data_close_result [OF 1 assms(2)]
  have gone: "mark_tells env0 body (with_env r env1) t \<and> denied r (with_env r env1)" if "same_files s1 t" for t :: "'b recv_state_scheme"
  proof -
    from cl that assms(2) have "\<not> has_flag (e_flags env1) ENV_FLAG_EFILE" "w_names t (efile env0) = None"
      by (simp_all add: writing_def same_files_def)
    then show ?thesis by (simp add: mark_tells_def with_env_def)
  qed
  show ?thesis
  proof (cases e1)
    case (Some rc)
    with 1 assms(1) gone [of s1] show ?thesis by (auto simp: data_finish_def)
  next
    case None
    obtain tv s2 where g: "simta_gettimeofday s1 = (tv, s2)" by (metis prod.exhaust)
    note fr = simta_gettimeofday_frame [OF g]
    show ?thesis
    proof (cases tv)
      case None
      with \<open>e1 = None\<close> 1 g assms(1,3) gone [OF fr] show ?thesis by (auto simp: data_finish_def data_filter_def)
    next
      case (Some t)
      with \<open>e1 = None\<close> 1 g assms(1,3)
      have st: "data_settle c MESSAGE_ACCEPT env1 (d1\<lparr>dr_now := fst t\<rparr>) r s2 = Inr (e, d', r', s')"
        by (simp add: data_finish_def data_filter_def)
      have rd: "ready env0 body env1 s2" using cl \<open>e1 = None\<close> fr by (blast intro: ready_frame)
      have "has_flag (e_flags env1) ENV_FLAG_DFILE \<longrightarrow> dr_banner (d1\<lparr>dr_now := fst t\<rparr>) = MESSAGE_ACCEPT"
        using cl \<open>e1 = None\<close> by simp
      from data_settle_result [OF st rd this] show ?thesis
        using cl \<open>e1 = None\<close> by (auto simp: unseen_def split: if_splits)
    qed
  qed
qed

subsection \<open>The whole command\<close>

lemma mark_tells_gone:
  "\<not> has_flag (e_flags env) ENV_FLAG_EFILE \<Longrightarrow> w_names s (efile env0) = None \<Longrightarrow>
   mark_tells env0 body (with_env r env) s \<and> \<not> taken (with_env r env)"
  by (simp add: mark_tells_def taken_def with_env_def)

lemma denied_with_env [simp]: "denied r (with_env r' env) = denied r r'" "denied (with_env r env) r' = denied r r'"
  by (simp_all add: with_env_def)

lemma banner_input:
  "smtp_write_banner c n msg arg r s = (rc, r', s') \<Longrightarrow> conn_in (r_snet r') = conn_in (r_snet r) \<and> r_env r' = r_env r"
  by (auto simp: smtp_write_banner_def snet_reply_def Let_def split: prod.splits if_splits)

lemma data_go_ahead_result:
  assumes "data_go_ahead c d r s = Inr (e, d', r', s')"
  shows "same_files s s' \<and> denied r r' \<and> unseen d' = unseen d \<and> dr_dff d' = dr_dff d \<and> dr_ino d' = dr_ino d \<and>
    conn_in (r_snet r') = conn_in (r_snet r) \<and> r_env r' = r_env r"
proof -
  obtain rc r1 s1 where b: "smtp_write_banner c 354 None None (r\<lparr>r_tv_inactivity := 0\<rparr>) s = (rc, r1, s1)"
    by (metis prod.exhaust)
  have "same_files s s1" "denied r r1" "conn_in (r_snet r1) = conn_in (r_snet r)" "r_env r1 = r_env r"
    using banner_denied [OF b] banner_input [OF b] by (simp_all add: refuses_def)
  with assms b show ?thesis
    by (auto simp: data_go_ahead_def unseen_def split: prod.splits if_splits option.splits
        dest!: frames intro: same_files_trans)
qed

text \<open>What a command did, from its first answer on.\<close>

definition fate :: "envelope \<Rightarrow> string \<Rightarrow> receive_data \<Rightarrow> receive_data \<Rightarrow> 'a sys_scheme \<Rightarrow> bool" where
  "fate env0 body r r' s' \<longleftrightarrow>
     (\<exists>ls. mark_tells env0 (body @ with_ends [NL] ls) r' s' \<and>
        (taken r' \<longrightarrow> received (snet_lines (conn_in (r_snet r))) = Some ls) \<and>
        (taken r' \<or> denied r r' \<or> received (snet_lines (conn_in (r_snet r))) = Some ls \<and> list_ex marks ls))"

lemma fate_gone:
  "\<not> has_flag (e_flags env) ENV_FLAG_EFILE \<Longrightarrow> w_names s' (efile env0) = None \<Longrightarrow> denied r r' \<Longrightarrow>
   fate env0 body r (with_env r' env) s'"
  using mark_tells_gone [of env s' env0] by (auto simp: fate_def)

lemma data_transfer_result:
  assumes "data_transfer c env d r s = Inr (e, d', r', s')" "writing env0 body env d s" "unseen d" "simta_mail_filter c = None"
    "r_env r = Some env"
  shows "fate env0 body r r' s'"
proof -
  obtain e1 d1 r1 s1 where 1: "data_go_ahead c d r s = Inr (e1, d1, r1, s1)"
    using assms(1) by (auto simp: data_transfer_def data_go_def)
  note ga = data_go_ahead_result [OF 1]
  show ?thesis
  proof (cases e1)
    case (Some rc)
    with 1 assms(1) have r': "r' = r1" "s' = s1" by (auto simp: data_transfer_def data_go_def)
    moreover have "r1 = with_env r1 env" using ga assms(5) by (simp add: with_env_def)
    moreover have "\<not> has_flag (e_flags env) ENV_FLAG_EFILE" "w_names s1 (efile env0) = None"
      using assms(2) ga by (simp_all add: writing_def same_files_def)
    ultimately show ?thesis using ga fate_gone by metis
  next
    case None
    have w1: "writing env0 body env d1 s1" using writing_frame [OF assms(2), of s1] ga by (simp add: writing_def)
    obtain env2 e2 d2 r2 s2 where l: "data_loop c (data_session c r1 (dr_now d1)) env d1 r1 s1 = (env2, Inr (e2, d2, r2, s2))"
      using assms(1) 1 None by (auto simp: data_transfer_def data_go_def split: prod.splits)
    note lr = data_loop_result [OF l w1]
    have den: "denied r r2" using ga lr by (blast intro: denied_trans)
    show ?thesis
    proof (cases e2)
      case (Some rc)
      with 1 None l assms(1) have r': "r' = with_env r2 env2" "s' = s2" by (auto simp: data_transfer_def data_go_def)
      from lr have "\<not> has_flag (e_flags env2) ENV_FLAG_EFILE" "w_names s2 (efile env0) = None" by (auto simp: writing_def)
      with den r' show ?thesis by (simp add: fate_gone)
    next
      case None
      with lr obtain ls where ls: "received (snet_lines (conn_in (r_snet r1))) = Some ls"
        "writing env0 (body @ with_ends [NL] ls) env2 d2 s2" "unseen d1 \<longrightarrow> unseen d2 \<or> list_ex marks ls" by auto
      from None \<open>e1 = None\<close> 1 l assms(1) have f: "data_finish c env2 d2 r2 s2 = Inr (e, d', r', s')"
        by (auto simp: data_transfer_def data_go_def)
      from data_finish_result [OF f ls(2) assms(4)] ls ga assms(3) den show ?thesis
        unfolding fate_def by (intro exI [where x = ls]) (auto intro: denied_trans)
    qed
  qed
qed

lemma unlink_left_result:
  assumes "unlink_left env flag remove rc s = (rc', env', s')" "\<And>e1 s1 n e2 s2. remove e1 s1 = (n, e2, s2) \<Longrightarrow> w_names s2 p = w_names s1 p"
  shows "w_names s' p = w_names s p"
  using assms by (auto simp: unlink_left_def split: if_splits prod.splits)

lemma tfile_unlink_efile: "env_tfile_unlink env s = (rc, env', s') \<Longrightarrow> w_names s' (efile e) = w_names s (efile e)"
  by (auto simp: env_tfile_unlink_def same_files_def env_paths Let_def split: prod.splits if_splits dest!: unlink_result)

lemma dfile_unlink_efile: "env_dfile_unlink env s = (rc, env', s') \<Longrightarrow> w_names s' (efile e) = w_names s (efile e)"
  by (auto dest!: env_dfile_unlink_result intro: only_dfile_efile)

lemma data_error_result:
  assumes "data_error rc d r s = Inr (rc', r', s')" "mark_tells env0 body r s"
  shows "r_snet r' = r_snet r \<and> taken r' = taken r \<and>
    (if taken r then on_disk env0 body s' else w_names s' (efile env0) = None)"
proof -
  from assms(2) obtain env where env: "r_env r = Some env"
    "if has_flag (e_flags env) ENV_FLAG_EFILE then on_disk env0 body s else w_names s (efile env0) = None"
    by (auto simp: mark_tells_def)
  obtain b s1 where o: "(if dr_dff d then outcome s else (True, s)) = (b, s1)" by (metis prod.exhaust)
  then have fr: "same_files s s1" by (auto split: if_splits dest: frames)
  show ?thesis
  proof (cases "has_flag (e_flags env) ENV_FLAG_EFILE")
    case True
    with assms(1) env o have "s' = s1" "r_env r' = r_env r" "r_snet r' = r_snet r"
      by (auto simp: data_error_def set_smtp_mode_def Let_def split: if_splits)
    with True env fr show ?thesis by (auto simp: taken_def intro: on_disk_frame)
  next
    case False
    obtain rcd envd sd where d: "unlink_left env ENV_FLAG_DFILE env_dfile_unlink
        (if \<not> b \<and> rc = RECEIVE_OK then RECEIVE_SYSERROR else rc) s1 = (rcd, envd, sd)" by (metis prod.exhaust)
    obtain rct envt st where t: "unlink_left envd ENV_FLAG_TFILE env_tfile_unlink rcd sd = (rct, envt, st)"
      by (metis prod.exhaust)
    have "w_names st (efile env0) = None"
      using unlink_left_result [OF d dfile_unlink_efile] unlink_left_result [OF t tfile_unlink_efile] env False fr
      by (simp add: same_files_def)
    moreover have "r_snet r' = r_snet r" "r_env r' = None" "s' = env_free (Some envt) st"
      using assms(1) env False o d t by (auto simp: data_error_def set_smtp_mode_def Let_def split: if_splits)
    ultimately show ?thesis using env False by (simp add: taken_def env_free_names)
  qed
qed

lemma data_start_result:
  assumes "data_start c ino env r s = Inr (e, d, r', s')" "writing env0 [] env (zero_data\<lparr>dr_ino := ino, dr_dff := True\<rparr>) s"
  shows "r' = r \<and> unseen d \<and> w_names s' = w_names s \<and> (e = None \<longrightarrow> writing env0 (received_text c r env) env d s')"
proof -
  have u: "unseen zero_data" by (simp add: unseen_def unmarked_def zero_data_def zero_headers_def header_states)
  with assms show ?thesis
    by (auto simp: data_start_def writing_def unseen_def same_files_def Let_def split: if_splits prod.splits
        dest!: append_data_result outcome_frame)
qed

text \<open>Both files are there, or the message is gone and the client has not been told that it was taken.\<close>

definition all_or_nothing :: "envelope \<Rightarrow> string \<Rightarrow> receive_data \<Rightarrow> receive_data \<Rightarrow> 'a sys_scheme \<Rightarrow> bool" where
  "all_or_nothing env head r r' s' \<longleftrightarrow>
     (\<exists>ls. received (snet_lines (conn_in (r_snet r))) = Some ls \<and> on_disk env (head @ with_ends [NL] ls) s' \<and> taken r') \<or>
     w_names s' (efile env) = None \<and> \<not> taken r' \<and>
       (denied r r' \<or> (\<exists>ls. received (snet_lines (conn_in (r_snet r))) = Some ls \<and> list_ex marks ls))"

lemma data_error_fate:
  assumes "data_error rc d r1 s1 = Inr (rc', r', s')" "fate env body r r1 s1"
  shows "all_or_nothing env body r r' s'"
proof -
  from assms(2) obtain ls where f: "mark_tells env (body @ with_ends [NL] ls) r1 s1"
    "taken r1 \<longrightarrow> received (snet_lines (conn_in (r_snet r))) = Some ls"
    "taken r1 \<or> denied r r1 \<or> received (snet_lines (conn_in (r_snet r))) = Some ls \<and> list_ex marks ls"
    by (auto simp: fate_def)
  from data_error_result [OF assms(1) f(1)]
  have e: "r_snet r' = r_snet r1" "taken r' = taken r1"
    "if taken r1 then on_disk env (body @ with_ends [NL] ls) s' else w_names s' (efile env) = None" by simp_all
  from e(1) have "denied r r1 = denied r r'" by (simp add: denied_def said_def)
  with e f show ?thesis unfolding all_or_nothing_def by (cases "taken r1") auto
qed

lemma nothing_done:
  "w_names s' (efile env) = None \<Longrightarrow> denied r r' \<Longrightarrow> \<not> taken r' \<Longrightarrow> all_or_nothing env body r r' s'"
  by (simp add: all_or_nothing_def)

lemma open_writing:
  assumes "env_dfile_open env s = (Some ino, env1, s1)" "\<not> has_flag (e_flags env) ENV_FLAG_EFILE" "files_settled env"
    "w_names s (efile env) = None"
  shows "writing env [] env1 (zero_data\<lparr>dr_ino := ino, dr_dff := True\<rparr>) s1"
proof -
  have "e_flags env1 = set_flag (e_flags env) ENV_FLAG_DFILE"
    "env1\<lparr>e_flags := 0, e_dinode := 0\<rparr> = env\<lparr>e_flags := 0, e_dinode := 0\<rparr>"
    using assms(1) by (auto simp: env_dfile_open_def split: option.splits prod.splits)
  moreover have "w_names s1 (efile env) = None \<and> w_names s1 (dfile env) = Some ino \<and> w_data s1 ino = [] \<and> ino < w_next s1"
    using assms by (auto simp: env_dfile_open_def same_files_def env_paths
        split: option.splits prod.splits dest!: open_excl_result)
  ultimately show ?thesis using assms(2,3)
    by (simp add: writing_def files_settled_def env_flags bit_flag)
qed

lemma data_body_result:
  assumes "data_body c env r s = Inr (rc, r', s')" "r_env r = Some env" "\<not> has_flag (e_flags env) ENV_FLAG_EFILE" "files_settled env"
    "w_names s (efile env) = None" "simta_mail_filter c = None"
  shows "all_or_nothing env (received_text c r env) r r' s'"
proof (cases "r_smtp_mode r = SMTP_MODE_TARPIT")
  case True
  with assms(1) obtain e d r1 s1 where t: "data_transfer c env zero_data r s = Inr (e, d, r1, s1)"
    and f: "data_error (case e of None \<Rightarrow> RECEIVE_SYSERROR | Some rc \<Rightarrow> rc) d r1 s1 = Inr (rc, r', s')"
    by (auto simp: data_body_def)
  have "writing env (received_text c r env) env zero_data s" "unseen zero_data"
    using assms by (simp_all add: writing_def files_settled_def unseen_def unmarked_def zero_data_def zero_headers_def header_states)
  from data_error_fate [OF f data_transfer_result [OF t this assms(6,2)]] show ?thesis .
next
  case False
  obtain fd env1 s1 where o: "env_dfile_open env s = (fd, env1, s1)" by (metis prod.exhaust)
  show ?thesis
  proof (cases fd)
    case None
    with False o assms(1) have "r' = with_env r env" "s' = s1" by (auto simp: data_body_def dest: env_dfile_open_none)
    moreover have "same_files s s1" using o None
      by (auto simp: env_dfile_open_def split: option.splits prod.splits dest!: open_excl_result)
    ultimately show ?thesis using assms
      by (intro nothing_done) (simp_all add: taken_def with_env_def same_files_def)
  next
    case (Some ino)
    note w = open_writing [OF o [unfolded Some] assms(3,4,5)]
    let ?r = "with_env r env1"
    obtain e d r1 s2 where t: "data_go (data_start c ino env1 ?r s1) (\<lambda>d1 r1 s2. data_transfer c env1 d1 r1 s2) = Inr (e, d, r1, s2)"
      and f: "data_error (case e of None \<Rightarrow> RECEIVE_SYSERROR | Some rc \<Rightarrow> rc) d r1 s2 = Inr (rc, r', s')"
      using False o Some assms(1) by (auto simp: data_body_def)
    obtain e0 d0 r0 s0 where st: "data_start c ino env1 ?r s1 = Inr (e0, d0, r0, s0)"
      using t by (cases "data_start c ino env1 ?r s1") (auto simp: data_go_def)
    note sr = data_start_result [OF st w]
    have "e_id env1 = e_id env" using o by (auto simp: env_dfile_open_def split: option.splits prod.splits)
    then have tx: "received_text c ?r env1 = received_text c r env" by (simp add: received_text_def with_env_def)
    have "fate env (received_text c r env) ?r r1 s2"
    proof (cases e0)
      case None
      with t st have "data_transfer c env1 d0 r0 s0 = Inr (e, d, r1, s2)" by (simp add: data_go_def)
      then show ?thesis using data_transfer_result sr None tx assms(6) by (fastforce simp: with_env_def)
    next
      case (Some n)
      with t st have "r1 = r0" "s2 = s0" by (simp_all add: data_go_def)
      with sr have "r1 = with_env ?r env1" by (simp add: with_env_def)
      note this \<open>s2 = s0\<close>
      with w sr show ?thesis by (simp add: writing_def fate_gone)
    qed
    from data_error_fate [OF f this] show ?thesis
      by (simp add: all_or_nothing_def with_env_def denied_def said_def)
  qed
qed

lemma said_nothing_done:
  assumes "say c n msg arg r s = Inr (rc, r', s')" "refuses n" "in_transaction r = Some env" "w_names s (efile env) = None"
  shows "all_or_nothing env body r r' s'"
proof -
  have "r_env r' = r_env r" using assms(1) by (auto simp: say_def dest!: banner_input)
  with say_denied [OF assms(1,2)] assms(3,4) show ?thesis
    by (intro nothing_done) (auto simp: taken_def in_transaction_def same_files_def split: option.splits if_splits)
qed

lemma f_data_result:
  assumes "f_data c r s = Inr (rc, r', s')" "in_transaction r = Some env" "files_settled env" "w_names s (efile env) = None"
    "simta_mail_filter c = None"
  shows "all_or_nothing env (received_text c r env) r r' s'"
proof -
  define r1 where "r1 = r\<lparr>r_data_attempt := r_data_attempt r + 1\<rparr>"
  have i: "in_transaction r1 = Some env" "r_env r1 = Some env" "\<not> has_flag (e_flags env) ENV_FLAG_EFILE"
    using assms(2) by (auto simp: in_transaction_def r1_def split: option.splits if_splits)
  have tx: "received_text c r1 env = received_text c r env" by (simp add: received_text_def r1_def)
  have a: "all_or_nothing env (received_text c r env) r1 r' s'"
  proof (cases "r' = r1 \<and> s' = s")
    case True
    then show ?thesis using i assms(4) by (intro nothing_done) (auto simp: taken_def)
  next
    case False
    with assms(1) i(1)
    have "(\<exists>n msg arg. say c n msg arg r1 s = Inr (rc, r', s') \<and> refuses n) \<or> data_body c env r1 s = Inr (rc, r', s')"
      unfolding f_data_def Let_def r1_def [symmetric]
      by (auto simp: f_bad_sequence_def f_noauth_def refuses_def split: if_splits)
    with i assms tx show ?thesis by (metis said_nothing_done data_body_result)
  qed
  then show ?thesis by (simp add: r1_def all_or_nothing_def denied_def said_def)
qed

subsection \<open>An example\<close>

definition recv_conf_ex :: "int \<Rightarrow> recv_conf" where
  "recv_conf_ex mode = \<lparr>rc_exp = exp_conf_ex, rc_grants = (0, 0, 0), rc_daytime = ''Thu, 1 Jan 1970 00:16:40 +0000'',
     simta_smtp_default_mode = mode, simta_smtp_punishment_mode = 3, simta_max_message_size = 0,
     simta_max_received_headers = 100, simta_max_failed_rcpts = 0, simta_strict_smtp_syntax = 0,
     simta_from_checking = 0, simta_sasl = 0, simta_tls = 0, simta_service_smtps = 0, simta_mail_filter = None,
     simta_checksum_md = None, simta_data_url = None, simta_reverse_url = None, simta_libwrap_url = None,
     simta_rbls = [], simta_user_rbls = [], simta_rbl_verbose_logging = 0, simta_inbound_accepted_message_timer = -1,
     simta_inbound_data_session_timer = 0, simta_inbound_data_line_timer = 300, simta_inbound_command_line_timer = 300,
     simta_inbound_command_inactivity_timer = 600, simta_inbound_global_session_timer = 0, simta_smtp_rcvbuf_min = 0,
     simta_global_connections = 1, simta_global_connections_max = 0, simta_global_throttle_connections = 0,
     simta_global_throttle_max = 0, simta_local_connections_max = 0, simta_local_throttle_max = 0,
     simta_ignore_reverse = 0, simta_ignore_connect_in_reverse_errors = 0, simta_version = ''1'', sasl_mechs = [],
     simta_spool = (\<lambda>_. ''/spool''), simta_log_tv = 1000, filter_pid = 7\<rparr>"

definition recv_state_ex :: recv_state where
  "recv_state_ex = exp_state.extend ((exp_state_ex [] (\<lambda>_. []))\<lparr>w_clock := replicate 20 (1000, 5)\<rparr>)
     \<lparr>simta_smtp_extension = 0, w_sasl = [], filter_runs = []\<rparr>"

definition data_session_ex :: receive_data where
  "data_session_ex = (zero_receive (snet_attach (''A: b'' @ CRLF @ CRLF @ ''..'' @ CRLF @ ''.'' @ CRLF) 1024) (192, 0, 2, 1))
     \<lparr>r_av := [''DATA''], r_env := Some env_ex, r_commands := smtp_commands\<rparr>"





text \<open>The lines of the example, up to the point where the command file is written.\<close>

lemma option_holds: "(case x of None \<Rightarrow> False | Some y \<Rightarrow> P y) \<longleftrightarrow> (\<exists>y. x = Some y \<and> P y)"
  by (cases x) simp_all

lemma pair_holds: "(case p of (a, b) \<Rightarrow> P a b) \<longleftrightarrow> (\<exists>a b. p = (a, b) \<and> P a b)"
  by (cases p) simp

lemma data_example_read:
  "case env_dfile_open env_ex recv_state_ex of (fd, env1, s1) \<Rightarrow> (case fd of None \<Rightarrow> False | Some ino \<Rightarrow>
     (case data_start (recv_conf_ex 0) ino env1 (with_env (data_session_ex\<lparr>r_data_attempt := 1\<rparr>) env1) s1 of Inl _ \<Rightarrow> False
      | Inr (e1, d1, r1, s2) \<Rightarrow> e1 = None \<and>
     (case data_go_ahead (recv_conf_ex 0) d1 r1 s2 of Inl _ \<Rightarrow> False
      | Inr (e2, d2, r2, s3) \<Rightarrow> e2 = None \<and>
     (case data_loop (recv_conf_ex 0) (data_session (recv_conf_ex 0) r2 (dr_now d2)) env1 d2 r2 s3 of (env2, m) \<Rightarrow> (case m of Inl _ \<Rightarrow> False
      | Inr (e3, d3, r3, s4) \<Rightarrow> e3 = None \<and>
     (case data_close env2 d3 s4 of (e4, env3, d4, s5) \<Rightarrow> e4 = None \<and>
     (case simta_gettimeofday s5 of (tv, s6) \<Rightarrow> (case tv of None \<Rightarrow> False | Some t \<Rightarrow>
        dr_banner d4 = MESSAGE_ACCEPT \<and> \<not> dr_dff d4 \<and> dr_read_err d4 = NO_ERROR \<and> has_flag (e_flags env3) ENV_FLAG_DFILE \<and>
        w_oracle s6 = [] \<and> w_names s6 (tfile env3) = None \<and>
        \<not> has_flag (e_flags env3) ENV_FLAG_TFILE \<and> e_dinode env3 \<noteq> 0 \<and> e_rcpt env3 \<noteq> []))))))))"
  by code_simp

lemma env_outfile_flag:
  assumes "env_outfile c e s = Inr (0, e', s')" "\<not> has_flag (e_flags e) ENV_FLAG_TFILE"
  shows "has_flag (e_flags e') ENV_FLAG_EFILE"
  using assms by (auto simp: env_outfile_def env_efile_def Let_def env_flags bit_flag split: if_splits prod.splits option.splits
      dest!: env_lists_add_flags)

lemma data_reply_returns: "\<exists>e d' r' s'. data_reply c env d r s = Inr (e, d', r', s')"
  by (simp add: data_reply_def Let_def split: prod.split)

lemma data_error_keeps:
  assumes "r_env r = Some env" "has_flag (e_flags env) ENV_FLAG_EFILE"
  shows "\<exists>rc' r' s'. data_error rc d r s = Inr (rc', r', s') \<and> r_env r' = Some env"
proof -
  obtain b s1 where o: "(if dr_dff d then outcome s else (True, s)) = (b, s1)" by (metis prod.exhaust)
  then show ?thesis using assms by (auto simp: data_error_def set_smtp_mode_def smtp_modes Let_def)
qed

lemma data_example_taken:
  "\<exists>rc r' s'. f_data (recv_conf_ex 0) data_session_ex recv_state_ex = Inr (rc, r', s') \<and> taken r'"
proof -
  let ?c = "recv_conf_ex 0" let ?r = "data_session_ex\<lparr>r_data_attempt := 1\<rparr>"
  obtain ino env1 s1 d1 r1 s2 d2 r2 s3 env2 d3 r3 s4 env3 d4 s5 t s6 where
    e: "env_dfile_open env_ex recv_state_ex = (Some ino, env1, s1)"
      "data_start ?c ino env1 (with_env ?r env1) s1 = Inr (None, d1, r1, s2)"
      "data_go_ahead ?c d1 r1 s2 = Inr (None, d2, r2, s3)"
      "data_loop ?c (data_session ?c r2 (dr_now d2)) env1 d2 r2 s3 = (env2, Inr (None, d3, r3, s4))"
      "data_close env2 d3 s4 = (None, env3, d4, s5)" "simta_gettimeofday s5 = (Some t, s6)"
    and f: "dr_banner d4 = MESSAGE_ACCEPT" "\<not> dr_dff d4" "dr_read_err d4 = NO_ERROR" "has_flag (e_flags env3) ENV_FLAG_DFILE"
      "writable env3 s6"
    using data_example_read unfolding run_holds option_holds pair_holds
    by clarify (rule that, (assumption | simp add: writable_def)+)
  from env_outfile_sure [OF f(5), of conf_ex] obtain tm fl s7 where
    o: "env_outfile conf_ex env3 s6 = Inr (0, env3\<lparr>e_etime := tm, e_flags := fl\<rparr>, s7)" "w_oracle s7 = []"
    by (auto simp: conf_ex_def)
  have cf: "rc_conf ?c = conf_ex" "simta_mail_filter ?c = None" "simta_inbound_accepted_message_timer ?c = -1"
    by (simp_all add: recv_conf_ex_def exp_conf_ex_def)
  let ?d = "d4\<lparr>dr_now := fst t\<rparr>"
  let ?env = "env3\<lparr>e_etime := tm, e_flags := fl\<rparr>"
  have fl: "has_flag fl ENV_FLAG_EFILE"
    using env_outfile_flag [OF o(1)] f(5) by (simp add: writable_def)
  let ?r4 = "(accepted_timer ?c ?d r3)\<lparr>r_data_success := r_data_success (accepted_timer ?c ?d r3) + 1\<rparr>"
  obtain e d' r' s' where rp: "data_reply ?c ?env ?d (with_env ?r4 ?env) s7 = Inr (e, d', r', s')"
    using data_reply_returns by fast
  then have tk: "r_env r' = Some ?env" by (auto simp: with_env_def dest: data_reply_result)
  have kp: "data_jail_or_delete ?c MESSAGE_ACCEPT env3 ?d s6 = Inr (None, env3, s6)"
    using f(1) by (intro accepted_kept) simp
  have "data_out ?c env3 ?d r3 s6 = Inr (None, ?env, ?r4, s7)" using o cf f(4) by (simp add: data_out_def Let_def)
  then have st: "data_settle ?c MESSAGE_ACCEPT env3 ?d r3 s6 = Inr (e, d', r', s')"
    using rp kp by (simp add: data_settle_def accepted_no_bounce accepted_mode)
  have fin: "data_finish ?c env2 d3 r3 s4 = Inr (e, d', r', s')"
    using e(5,6) st cf by (simp add: data_finish_def data_filter_def)
  obtain rc r4 s8 where er: "data_error (case e of None \<Rightarrow> RECEIVE_SYSERROR | Some rc \<Rightarrow> rc) d' r' s' = Inr (rc, r4, s8)" "r_env r4 = Some ?env"
    using data_error_keeps [OF tk] fl by force
  have md: "r_smtp_mode data_session_ex \<noteq> SMTP_MODE_TARPIT"
    by (simp add: data_session_ex_def zero_receive_def smtp_modes)
  have "data_body ?c env_ex ?r recv_state_ex = Inr (rc, r4, s8)"
    using e(1-4) fin er(1) md by (simp add: data_body_def data_transfer_def data_go_def)
  then have "f_data ?c data_session_ex recv_state_ex = Inr (rc, r4, s8)"
    by (simp add: f_data_def data_session_ex_def zero_receive_def smtp_modes in_transaction_def env_ex_def zero_env_def)
  with er(2) fl show ?thesis by (auto simp: taken_def)
qed

subsection \<open>The two properties\<close>



definition noop_input :: snet where
  "noop_input = snet_attach (''NOOP'' @ CRLF) 1024"

lemma session_example_runs:
  "case set_smtp_mode (simta_smtp_default_mode (recv_conf_ex 2)) (zero_receive noop_input (192, 0, 2, 1)) of Inl _ \<Rightarrow> False
   | Inr r0 \<Rightarrow> (case smtp_open (recv_conf_ex 2) False 0 0 (r0\<lparr>r_tv_session := 0\<rparr>) recv_state_ex of Inl _ \<Rightarrow> False
   | Inr (e, r1, s1) \<Rightarrow> e = None \<and> (case smtp_step (recv_conf_ex 2) ACV_ARGC False r1 s1 of Inl _ \<Rightarrow> False
   | Inr st \<Rightarrow> (case st of Over _ _ _ \<Rightarrow> False | Again cap cont r s \<Rightarrow> r_smtp_mode r = SMTP_MODE_REFUSE)))"
  by code_simp

text \<open>
  C11: in every state that a session of \<open>smtp_receive\<close> goes through, the mode is one of the seven, the
  commands are those of the mode, and an envelope that has no command file owns no other file.
\<close>

theorem session_well_formed:
  assumes "set_smtp_mode (simta_smtp_default_mode c) (zero_receive sn ip) = Inr r0"
    "smtp_open c tls_socket clients throttle (r0\<lparr>r_tv_session := t\<rparr>) s = Inr (None, r1, s1)"
    "session c ACV_ARGC False r1 s1 cap cont r s'"
  shows "0 \<le> r_smtp_mode r \<and> r_smtp_mode r \<le> 6 \<and>
    r_commands r = (if r_smtp_mode r = SMTP_MODE_OFF then off_commands
       else if r_smtp_mode r = SMTP_MODE_REFUSE then refuse_commands else smtp_commands) \<and>
    (case r_env r of
       None \<Rightarrow> True
     | Some env \<Rightarrow> has_flag (e_flags env) ENV_FLAG_EFILE \<or>
         \<not> has_flag (e_flags env) ENV_FLAG_DFILE \<and> \<not> has_flag (e_flags env) ENV_FLAG_TFILE)"
proof -
  have "mode_ok r0" "r_env r0 = None" using set_smtp_mode_ok [OF assms(1)] by (simp_all add: zero_receive_def)
  then have "mode_ok (r0\<lparr>r_tv_session := t\<rparr>)" "env_ok (r0\<lparr>r_tv_session := t\<rparr>)" by (simp_all add: mode_ok_def env_ok_def)
  moreover have "follows r1 (r0\<lparr>r_tv_session := t\<rparr>)" using smtp_open_hears assms(2) unfolding hears_def by blast
  moreover note session_follows [OF assms(3)]
  ultimately have "mode_ok r" "env_ok r" by (auto simp: follows_def)
  then show ?thesis by (auto simp: mode_ok_def mode_commands_def smtp_modes env_ok_def files_settled_def split: option.splits)
qed

theorem session_well_formed_witness:
  "\<exists>r1 (s1 :: recv_state) cap cont r s. session (recv_conf_ex 2) ACV_ARGC False r1 s1 cap cont r s \<and>
     smtp_step (recv_conf_ex 2) ACV_ARGC False r1 s1 = Inr (Again cap cont r s) \<and>
     r_smtp_mode r = SMTP_MODE_REFUSE \<and> r_commands r = refuse_commands"
proof -
  let ?c = "recv_conf_ex 2"
  obtain r0 r1 s1 st where o: "set_smtp_mode (simta_smtp_default_mode ?c) (zero_receive noop_input (192, 0, 2, 1)) = Inr r0"
      "smtp_open ?c False 0 0 (r0\<lparr>r_tv_session := 0\<rparr>) recv_state_ex = Inr (None, r1, s1)"
      "smtp_step ?c ACV_ARGC False r1 s1 = Inr st"
      "case st of Over _ _ _ \<Rightarrow> False | Again cap cont r s \<Rightarrow> r_smtp_mode r = SMTP_MODE_REFUSE"
    using session_example_runs unfolding run_holds pair_holds by blast
  then obtain cap cont r s where st: "st = Again cap cont r s" "r_smtp_mode r = SMTP_MODE_REFUSE" by (cases st) auto
  have se: "session ?c ACV_ARGC False r1 s1 cap cont r s"
    using o(3) st by (auto intro: session.step [OF session.here])
  from session_well_formed [OF o(1,2) se] st(2) have "r_commands r = refuse_commands" by (simp add: smtp_modes)
  with se o(3) [unfolded st(1)] st(2) show ?thesis by blast
qed

end
