(* ===== verification/Spec2Isabelle.thy ===== *)
theory Spec2Isabelle
  imports Prelude Interfaces StabList DllHeap Argcargv Wildcard DistName LineFile Red Sys Snet
    Envelope EnvFile Frames HostQueue Schedule Net DnsHost SmtpClient SmtpFacts Bounce BounceFacts
    Deliver Remote LocalDelivery QDeliver QDeliverFacts Tokens HeaderText AddressList
    ExpandGraph ExpandAddr ExpandSource LdapExpand AddressExpand Expand ExpandWalk ExpandOut
    QRunner MxLookup Base64 Receive ReceiveCommands ReceiveAuth ReceiveData ReceiveSession ReceiveLoop ReceiveFacts
begin

text \<open>
  A verification development of the mail transfer agent simta (C sources in src/).

  \<^bold>\<open>The program.\<close>  A message comes in over SMTP (receive.c) or from the command line
  (simsend.c) and is written to the spool as two files: a data file \<open>D<id>\<close> and a command
  file \<open>E<id>\<close> with the sender, the recipients and some attributes (envelope.c).  A message
  without a host name is expanded (expand.c, address.c, simta_ldap.c): every recipient is
  looked up, and one message is written for each host that results.  A message with a host
  name waits in the queue of its host (queue.c).  The daemon (daemon.c) reads the spool
  again and again and starts a process for each host queue when it is due.  That process
  runs \<open>q_deliver\<close>: the host is classified (red.c, mx.c), each message is handed to a local
  program (ml.c) or to the exchanges of the host over SMTP (smtp.c), and what was refused or
  is too old goes back to the sender as a bounce (bounce.c).

  \<^bold>\<open>Theories and sources.\<close>
  \<^item> Prelude: characters, \<open>strcmp\<close>, decimal numbers, and the sum \<open>run\<close> whose left side is a
    way to stop (NULL read, array bound, assertion, panic, unset variable).
  \<^item> Interfaces: the locales of the contracts between components (a sorted sequence, a queue
    of messages, a spool), with their lemmas; each is interpreted where a component
    provides it (StabList, DllHeap, HostQueue, EnvFile).
  \<^item> StabList, DllHeap: ll.c, the singly linked table as a list, the doubly linked one on a
    heap of pointers with a refinement to sorted sequences.
  \<^item> Argcargv (argcargv.c), Wildcard (wildcard.c), DistName (dn.c), LineFile (line_file.c):
    words of a line, host patterns, distinguished names, error text.
  \<^item> Red: red.c, the hosts with rules of their own.
  \<^item> Sys: files, clock and globals of simta.c that the components share.
  \<^item> Snet: libsnet/snet.c, the line reader on a bounded buffer.
  \<^item> Envelope, EnvFile, Frames: envelope.c, in memory and on disk, and which files each
    operation leaves alone.
  \<^item> HostQueue, Schedule: queue.c, the queues of the hosts, the delivery schedule and the
    reading of the spool.
  \<^item> Net, DnsHost: struct deliver, DNS answers, and \<open>next_dnsr_host\<close> of queue.c.
  \<^item> SmtpClient, SmtpFacts: smtp.c, the client side of SMTP.
  \<^item> Bounce, BounceFacts: bounce.c.
  \<^item> Deliver, LocalDelivery, Remote: \<open>deliver_local\<close> and \<open>deliver_remote\<close> of queue.c, ml.c.
  \<^item> QDeliver, QDeliverFacts: \<open>q_deliver\<close> and \<open>_q_deliver\<close> of queue.c.
  \<^item> Tokens, HeaderText: header.c, the scanners of addresses and the state machine that
    watches the headers of a message as it comes in; AddressList: the addresses in a line.
  \<^item> ExpandGraph: the graph of groups and members of an expansion, and the walks over it
    (expand.c); ExpandAddr, ExpandSource: new addresses, alias databases, password files and
    \<open>.forward\<close> files (address.c); LdapExpand: groups and people of a directory (simta_ldap.c);
    AddressExpand: \<open>address_expand\<close> and the walk over all addresses; Expand: \<open>expand_message\<close>, which is \<open>expand\<close> of expand.c.
    ExpandWalk shows that the walk ends, ExpandOut who gets the message.
  \<^item> QRunner: \<open>q_runner\<close> and \<open>q_runner_dir\<close> of queue.c, a run over all queues with the expansions.
  \<^item> MxLookup: the rest of mx.c (reverse lookups, block lists); Base64: base64.c.
  \<^item> Receive, ReceiveCommands, ReceiveAuth, ReceiveData, ReceiveSession: receive.c, the server side
    of SMTP: replies and HELO, MAIL and RCPT, STARTTLS and AUTH, DATA with the content filter,
    the opening of a session and its steps.  ReceiveLoop: the loop ends, what each
    command leaves of a session, \<open>smtp_receive\<close>.  ReceiveFacts: DATA takes a message as a whole or
    not at all, and what holds in every session.

  \<^bold>\<open>How the state corresponds.\<close>  A C string is a HOL string without the NUL, a pointer that
  may be NULL an option, a pointer into a line what is left of the line.  A struct is a
  record with the fields of the source; globals are fields of the state records (\<open>sys\<close>,
  extended by \<open>env_state\<close>, \<open>q_state\<close>, \<open>net_state\<close>, \<open>exp_state\<close> and \<open>recv_state\<close>) or of the configuration \<open>conf\<close>, which no
  modelled code changes (\<open>recv_conf\<close> for the server).  A session of the server is a \<open>receive_data\<close>, as in the source; what the client
  sends is what is left of its line reader, and what it has been told a string.  A host queue is named by its host, a message by its id; the lists
  a struct is on are sequences.  Functions take the state and return it; every call of the
  system or of the C library that may fail takes its outcome from the field \<open>w_oracle\<close>, so a
  theorem over all states covers every pattern of failures.  Answers from outside (lines
  from a peer, DNS results, exit codes of children, times) are fields of the state in the
  same way: \<open>w_peers\<close>, \<open>w_dns\<close>, \<open>w_children\<close>, \<open>w_clock\<close>, \<open>w_ldap\<close>, \<open>w_alias\<close>.  Flags are words of 32 bits.

  \<^bold>\<open>What the lemmas show.\<close>  Each component has its invariant and the operations that keep
  it, the result of each operation on each branch, and where there is an abstract view a
  refinement to it.  Across components: writing a command file is atomic and reading it
  gives back the message; a queue keeps its order and its count under every operation; the
  client of SMTP sends a message so that the reader gets it back line by line; a chain of
  bounces ends; a message is deleted from the spool only when every recipient was accepted
  or a bounce is on disk; delivering a queue ends; an expansion ends, and its final addresses
  are just the recipients of the new messages; the server has the two files of a message on the
  disk, with the text the client sent, before it says that the message is accepted, or else nothing
  is left of a command file and the client was told no success (but for a message that was
  seen before).  The properties are numbered in the
  texts in front of them.

  \<^bold>\<open>Bounds and fuel.\<close>  Loops over data are structural or have a measure.  \<open>q_loop\<close> of QDeliver
  (messages of a queue) takes as many passes as it is granted; one pass more than there are
  messages is proved to be enough, so \<open>q_deliver_run\<close> grants that.  \<open>exp_walk\<close> of AddressExpand
  (addresses of an expansion) is granted a number of addresses; it is only over when that is
  the case in the code, and it can use up the grant only by meeting as many different
  addresses.  \<open>q_runner\<close>, which can go round as often as mail comes back to be expanded, takes grants for
  addresses, messages and rounds (\<open>rc_grants\<close> for the server); with too few of them the result is
  \<open>Exhausted\<close>, which no code returns.  The loops of the server need none: each round reads a line,
  delivers an accepted message or uses up an outcome.

  \<^bold>\<open>Not modelled.\<close>  Log lines (\<open>syslog\<close>) have no effect on the state.  The client library
  of LDAP and its set-up, Berkeley DB (bdb.c), TLS and SASL set-up (tls.c, tlsconnect.c) and the
  resolver (denser/) talk to libraries and servers; what the other parts rely on are
  answers in the state.  The configuration reader of simta.c, the vacation program
  (simvacation/) and the small command-line tools are outside the path of a message.
\<close>

end
